(* ===== verification/Prelude.thy ===== *)
theory Prelude
  imports Complex_Main "HOL-Library.Word" "HOL-Library.AList" "HOL-Library.Char_ord" "HOL-Library.List_Lexorder"
begin

text \<open>
  Shared vocabulary of the development: bytes and Python values, the exceptions of the
  standard library that the source raises or catches, results (a sum with the exception on the
  left), insertion-ordered dictionaries (association lists with \<^const>\<open>AList.update\<close> and
  \<^const>\<open>AList.delete\<close>, which keep the position of a key as Python's \<open>dict\<close> does), and the
  rule collections the component theories fill.
\<close>

unbundle bit_operations_syntax

section \<open>Rule collections\<close>

named_theorems dict_simps "lookup, insertion and removal on insertion-ordered dictionaries"
named_theorems codec_simps "lengths and round trips of the byte encodings"
named_theorems step_defs "definitions of the operations, unfolded by case analyses"

section \<open>Values\<close>

type_synonym byte = "8 word"
type_synonym bytes = "8 word list"

text \<open>
  Python \<open>float\<close>s (clock readings, token counts) are modelled as rationals: the rounding of
  IEEE arithmetic is not modelled. Python \<open>int\<close>s are \<^typ>\<open>int\<close>.
\<close>

type_synonym float_py = rat

datatype exn =
    ValueError string
  | OverflowError
  | UnicodeEncodeError
  | KeyError string
  | IndexError
  | TypeError
  | AttributeError
  | StopIteration
  | AssertionError
  | RuntimeError string
  | FileNotFoundError
  | FileExistsError
  | PermissionError
  | OSError string
  | NotImplementedError string

type_synonym 'a result = "exn + 'a"

fun is_ok :: "'e + 'a \<Rightarrow> bool" where
  "is_ok (Inl e) = False"
| "is_ok (Inr a) = True"

lemma is_ok_iff: "is_ok r \<longleftrightarrow> (\<exists>a. r = Inr a)"
  by (cases r) auto

text \<open>Sequencing of fallible calls: the first exception wins.\<close>

fun and_then :: "'e + 'a \<Rightarrow> ('a \<Rightarrow> 'e + 'b) \<Rightarrow> 'e + 'b" where
  "and_then (Inl e) f = Inl e"
| "and_then (Inr a) f = f a"

lemma and_then_Inr_iff: "and_then r f = Inr b \<longleftrightarrow> (\<exists>a. r = Inr a \<and> f a = Inr b)"
  by (cases r) auto

lemma and_then_assoc: "and_then (and_then r f) g = and_then r (\<lambda>a. and_then (f a) g)"
  by (cases r) auto

text \<open>Truthiness of an optional value, Python's \<open>x or y\<close> on \<open>int\<close>s and on optional strings.\<close>

definition int_or :: "int \<Rightarrow> int \<Rightarrow> int" where
  "int_or x y = (if x = 0 then y else x)"

definition opt_str_or :: "string option \<Rightarrow> string \<Rightarrow> string" where
  "opt_str_or x y = (case x of None \<Rightarrow> y | Some s \<Rightarrow> if s = [] then y else s)"

section \<open>Insertion-ordered dictionaries\<close>

type_synonym ('k, 'v) dict = "('k \<times> 'v) list"

definition dict_ok :: "('k, 'v) dict \<Rightarrow> bool" where
  "dict_ok d \<longleftrightarrow> distinct (map fst d)"

lemma dict_ok_Nil [simp, intro]: "dict_ok []"
  by (simp add: dict_ok_def)

lemma dict_ok_update [intro]: "dict_ok d \<Longrightarrow> dict_ok (AList.update k v d)"
  by (simp add: dict_ok_def distinct_update)

lemma dict_ok_delete [intro]: "dict_ok d \<Longrightarrow> dict_ok (AList.delete k d)"
  by (simp add: dict_ok_def distinct_delete)

lemma dict_ok_filter [intro]: "dict_ok d \<Longrightarrow> dict_ok (filter P d)"
  by (simp add: dict_ok_def distinct_map_filter)

lemma map_of_update [dict_simps]:
  "map_of (AList.update k v d) k' = (if k' = k then Some v else map_of d k')"
  by (simp add: update_conv')

lemma map_of_delete [dict_simps]:
  "map_of (AList.delete k d) k' = (if k' = k then None else map_of d k')"
  by (simp add: delete_conv')

lemma map_of_filter_fst [dict_simps]:
  "map_of (filter (\<lambda>(k, v). P k) d) k' = (if P k' then map_of d k' else None)"
  by (induction d) auto

lemma dict_values_in: "dict_ok d \<Longrightarrow> (k, v) \<in> set d \<longleftrightarrow> map_of d k = Some v"
  by (simp add: dict_ok_def)

lemma map_of_filter_dict:
  "dict_ok d \<Longrightarrow>
    map_of (filter (\<lambda>(k, v). P v) d) k =
      (case map_of d k of None \<Rightarrow> None | Some v \<Rightarrow> if P v then Some v else None)"
proof (induction d)
  case Nil
  then show ?case by simp
next
  case (Cons kv d)
  obtain k0 v0 where kv: "kv = (k0, v0)" by (cases kv)
  from Cons.prems have "dict_ok d" by (simp add: dict_ok_def)
  note IH = Cons.IH [OF this]
  from Cons.prems have "map_of d k0 = None"
    by (simp add: dict_ok_def kv map_of_eq_None_iff)
  with IH show ?case by (auto simp: kv split: option.splits)
qed

lemma length_delete: "dict_ok d \<Longrightarrow>
    length (AList.delete k d) = (if k \<in> fst ` set d then length d - 1 else length d)"
proof (induction d)
  case Nil
  then show ?case by simp
next
  case (Cons kv d)
  then have IH: "length (AList.delete k d) = (if k \<in> fst ` set d then length d - 1 else length d)"
    by (simp add: dict_ok_def)
  show ?case
  proof (cases "fst kv = k")
    case True
    with Cons.prems have "k \<notin> fst ` set d" by (auto simp: dict_ok_def)
    with True IH show ?thesis by simp
  next
    case False
    then show ?thesis using IH by (cases d) auto
  qed
qed

lemma length_update_absent: "k \<notin> fst ` set d \<Longrightarrow> length (AList.update k v d) = Suc (length d)"
  by (induction d) auto

lemma length_update_le: "length (AList.update k v d) \<le> Suc (length d)"
  by (induction d) auto

lemma update_absent_append: "k \<notin> fst ` set d \<Longrightarrow> AList.update k v d = d @ [(k, v)]"
  by (induction d) auto

section \<open>Lists\<close>

text \<open>\<open>s.startswith(p)\<close>.\<close>

definition has_prefix :: "string \<Rightarrow> string \<Rightarrow> bool" where
  "has_prefix p s \<longleftrightarrow> take (length p) s = p"

lemma take_drop_append [simp]: "take (length xs) (xs @ ys) = xs" "drop (length xs) (xs @ ys) = ys"
  by simp_all

lemma append_eq_split: "length xs = length xs' \<Longrightarrow> xs @ ys = xs' @ ys' \<longleftrightarrow> xs = xs' \<and> ys = ys'"
  by auto

lemma append_eq_split_suffix:
  "length ys = length ys' \<Longrightarrow> xs @ ys = xs' @ ys' \<longleftrightarrow> xs = xs' \<and> ys = ys'"
  by auto

text \<open>A separator that does not occur in the first part determines the split.\<close>

lemma split_at_first:
  assumes "c \<notin> set xs" and "c \<notin> set xs'" and "xs @ c # ys = xs' @ c # ys'"
  shows "xs = xs' \<and> ys = ys'"
  using assms
proof (induction xs arbitrary: xs')
  case Nil
  then show ?case by (cases xs') auto
next
  case (Cons x xs)
  then show ?case by (cases xs') auto
qed

lemma split_at_last:
  assumes "c \<notin> set ys" and "c \<notin> set ys'" and "xs @ c # ys = xs' @ c # ys'"
  shows "xs = xs' \<and> ys = ys'"
proof -
  from assms(3) have "rev ys @ c # rev xs = rev ys' @ c # rev xs'"
    by (metis append.assoc append_Cons append_Nil rev.simps(2) rev_append)
  with assms(1,2) have "rev ys = rev ys' \<and> rev xs = rev xs'"
    using split_at_first [of c "rev ys" "rev ys'" "rev xs" "rev xs'"] by simp
  then show ?thesis by simp
qed

end
