(* ===== verification/Codecs.thy ===== *)
theory Codecs
  imports Prelude
begin

text \<open>
  The standard library's text and byte encodings the source relies on: \<open>str.encode\<close>,
  \<open>int.to_bytes\<close> and \<open>int.from_bytes\<close> (big-endian), \<open>bytes.hex\<close>, \<open>base64\<close> in its strict,
  lenient and URL-safe forms. Strings are \<^typ>\<open>string\<close>, so the code points modelled are
  U+0000 to U+00FF. The locale \<open>codec\<close> is the interface the protocol layers use: an encoder and
  a fallible decoder with the round-trip law, from which injectivity follows once.
\<close>

section \<open>The interface: an encoder and its decoder\<close>

locale codec =
  fixes enc :: "'a \<Rightarrow> 'b"
    and dec :: "'b \<Rightarrow> 'e + 'a"
    and valid :: "'a \<Rightarrow> bool"
  assumes dec_enc: "valid x \<Longrightarrow> dec (enc x) = Inr x"
begin

lemma enc_inj: "valid x \<Longrightarrow> valid y \<Longrightarrow> enc x = enc y \<Longrightarrow> x = y"
  by (metis dec_enc sum.inject(2))

lemma enc_eq_iff: "valid x \<Longrightarrow> valid y \<Longrightarrow> enc x = enc y \<longleftrightarrow> x = y"
  using enc_inj by blast

lemma inj_on_enc: "inj_on enc {x. valid x}"
  by (auto intro: inj_onI enc_inj)

lemma dec_enc_and_then: "valid x \<Longrightarrow> and_then (dec (enc x)) f = f x"
  by (simp add: dec_enc)

end

section \<open>Characters and bytes\<close>

definition byte_of_char :: "char \<Rightarrow> byte" where
  "byte_of_char c = of_nat (of_char c)"

definition char_of_byte :: "byte \<Rightarrow> char" where
  "char_of_byte b = char_of (unat b)"

lemma unat_byte_of_char [simp]: "unat (byte_of_char c) = of_char c"
  by (simp add: byte_of_char_def unat_of_nat)

lemma char_of_byte_of_char [simp]: "char_of_byte (byte_of_char c) = c"
  by (simp add: char_of_byte_def)

lemma byte_of_char_inj [simp]: "byte_of_char c = byte_of_char d \<longleftrightarrow> c = d"
  by (metis char_of_byte_of_char)

lemma byte_of_char_of_byte [simp]: "byte_of_char (char_of_byte b) = b"
proof -
  have "unat b < 256" using unsigned_less [of b, where 'a = nat] by simp
  then show ?thesis by (simp add: word_unat_eq_iff char_of_byte_def)
qed

definition is_ascii :: "char \<Rightarrow> bool" where
  "is_ascii c \<longleftrightarrow> (of_char c :: nat) < 128"

text \<open>\<open>s.encode("ascii")\<close> raises on any other character; \<open>s.encode("utf-8")\<close> is total.\<close>

definition raw_bytes :: "string \<Rightarrow> bytes" where
  "raw_bytes s = map byte_of_char s"

definition ascii_encode :: "string \<Rightarrow> bytes result" where
  "ascii_encode s = (if list_all is_ascii s then Inr (raw_bytes s) else Inl UnicodeEncodeError)"

definition utf8_char :: "char \<Rightarrow> bytes" where
  "utf8_char c =
     (let n = (of_char c :: nat) in
      if n < 128 then [of_nat n] else [of_nat (192 + n div 64), of_nat (128 + n mod 64)])"

definition utf8_encode :: "string \<Rightarrow> bytes" where
  "utf8_encode s = concat (map utf8_char s)"

lemma raw_bytes_inj [simp]: "raw_bytes s = raw_bytes t \<longleftrightarrow> s = t"
  by (auto simp: raw_bytes_def inj_map_eq_map inj_def)

lemma length_raw_bytes [codec_simps, simp]: "length (raw_bytes s) = length s"
  by (simp add: raw_bytes_def)

lemma unat_byte: "n < 256 \<Longrightarrow> unat (of_nat n :: byte) = n"
  by (simp add: unat_of_nat)

lemma utf8_char_unat:
  "map unat (utf8_char c) =
     (let n = of_char c in if n < 128 then [n] else [192 + n div 64, 128 + n mod 64])"
proof -
  define n where "n = (of_char c :: nat)"
  have "n < 256" by (simp add: n_def)
  then have "192 + n div 64 < 256" "128 + n mod 64 < 256"
    using mod_less_divisor [of 64 n] by linarith+
  then have "unat (of_nat (192 + n div 64) :: byte) = 192 + n div 64"
    and "unat (of_nat (128 + n mod 64) :: byte) = 128 + n mod 64"
    by (simp_all add: unat_byte del: of_nat_add)
  with \<open>n < 256\<close> show ?thesis
    by (simp add: utf8_char_def Let_def n_def [symmetric] unat_byte del: of_nat_add)
qed

lemma utf8_char_prefix:
  assumes "utf8_char c @ xs = utf8_char d @ ys"
  shows "c = d \<and> xs = ys"
proof -
  define m n where "m = (of_char c :: nat)" and "n = (of_char d :: nat)"
  have b: "m < 256" "n < 256"
    by (simp_all add: m_def n_def)
  have "map unat (utf8_char c) @ map unat xs = map unat (utf8_char d) @ map unat ys"
    using assms by (metis map_append)
  then have eq: "(if m < 128 then [m] else [192 + m div 64, 128 + m mod 64]) @ map unat xs
      = (if n < 128 then [n] else [192 + n div 64, 128 + n mod 64]) @ map unat ys"
    unfolding utf8_char_unat Let_def m_def n_def .
  then have "m = n"
    using b by (auto split: if_splits) (metis div_mult_mod_eq)
  then have "c = d" by (simp add: m_def n_def)
  with assms show ?thesis by simp
qed

lemma utf8_encode_inj: "utf8_encode s = utf8_encode t \<Longrightarrow> s = t"
proof (induction s arbitrary: t)
  case Nil
  then show ?case by (cases t) (auto simp: utf8_encode_def utf8_char_def Let_def split: if_splits)
next
  case (Cons c s)
  show ?case
  proof (cases t)
    case Nil
    with Cons.prems show ?thesis
      by (auto simp: utf8_encode_def utf8_char_def Let_def split: if_splits)
  next
    case (Cons d t')
    with Cons.prems have "utf8_char c @ utf8_encode s = utf8_char d @ utf8_encode t'"
      by (simp add: utf8_encode_def)
    then have "c = d \<and> utf8_encode s = utf8_encode t'" by (rule utf8_char_prefix)
    with Cons.IH Cons show ?thesis by simp
  qed
qed

text \<open>\<open>str.upper\<close> on U+0000 to U+00FF; the sharp s becomes two letters.\<close>

definition upper_char :: "char \<Rightarrow> string" where
  "upper_char c =
     (let n = (of_char c :: nat) in
      if 97 \<le> n \<and> n \<le> 122 then [char_of (n - 32)]
      else if n = 223 then ''SS''
      else if 224 \<le> n \<and> n \<le> 254 \<and> n \<noteq> 247 then [char_of (n - 32)]
      else [c])"

definition str_upper :: "string \<Rightarrow> string" where
  "str_upper s = concat (map upper_char s)"

definition lower_char :: "char \<Rightarrow> char" where
  "lower_char c =
     (let n = (of_char c :: nat) in
      if 65 \<le> n \<and> n \<le> 90 \<or> 192 \<le> n \<and> n \<le> 222 \<and> n \<noteq> 215 then char_of (n + 32) else c)"

definition str_lower :: "string \<Rightarrow> string" where
  "str_lower s = map lower_char s"

section \<open>Big-endian integers\<close>

fun be_enc :: "nat \<Rightarrow> int \<Rightarrow> bytes" where
  "be_enc 0 x = []"
| "be_enc (Suc n) x = be_enc n (x div 256) @ [word_of_int (x mod 256)]"

text \<open>\<open>x.to_bytes(n, "big")\<close>: out of range raises \<open>OverflowError\<close>.\<close>

definition to_bytes_be :: "nat \<Rightarrow> int \<Rightarrow> bytes result" where
  "to_bytes_be n x = (if 0 \<le> x \<and> x < 256 ^ n then Inr (be_enc n x) else Inl OverflowError)"

definition from_bytes_be :: "bytes \<Rightarrow> int" where
  "from_bytes_be bs = foldl (\<lambda>acc b. acc * 256 + uint b) 0 bs"

lemma length_be_enc [codec_simps, simp]: "length (be_enc n x) = n"
  by (induction n arbitrary: x) auto

lemma from_bytes_be_snoc: "from_bytes_be (bs @ [b]) = from_bytes_be bs * 256 + uint b"
  by (simp add: from_bytes_be_def)

lemma from_bytes_be_Nil [simp]: "from_bytes_be [] = 0"
  by (simp add: from_bytes_be_def)

lemma uint_byte_of_int: "uint (word_of_int (x mod 256) :: byte) = x mod 256"
  by (simp add: uint_word_of_int)

lemma from_be_enc: "0 \<le> x \<Longrightarrow> x < 256 ^ n \<Longrightarrow> from_bytes_be (be_enc n x) = x"
proof (induction n arbitrary: x)
  case 0
  then show ?case by simp
next
  case (Suc n)
  from Suc.prems have "0 \<le> x div 256" "x div 256 < 256 ^ n"
    by (simp_all add: pos_imp_zdiv_nonneg_iff div_less_iff_less_mult mult.commute)
  then have "from_bytes_be (be_enc n (x div 256)) = x div 256" by (rule Suc.IH)
  then show ?case by (simp add: from_bytes_be_snoc uint_byte_of_int)
qed

lemma from_bytes_be_bounds: "0 \<le> from_bytes_be bs \<and> from_bytes_be bs < 256 ^ length bs"
proof (induction bs rule: rev_induct)
  case Nil
  then show ?case by simp
next
  case (snoc b bs)
  have "0 \<le> uint b" "uint b < 256" using uint_lt2p [of b] by simp_all
  with snoc show ?case by (simp add: from_bytes_be_snoc)
qed

lemma be_enc_from: "be_enc (length bs) (from_bytes_be bs) = bs"
proof (induction bs rule: rev_induct)
  case Nil
  then show ?case by simp
next
  case (snoc b bs)
  have b: "0 \<le> uint b" "uint b < 256" using uint_lt2p [of b] by simp_all
  then have "(from_bytes_be bs * 256 + uint b) div 256 = from_bytes_be bs"
    and "(from_bytes_be bs * 256 + uint b) mod 256 = uint b"
    by simp_all
  with snoc show ?case by (simp add: from_bytes_be_snoc)
qed

interpretation be8: codec "be_enc n" "\<lambda>bs. Inr (from_bytes_be bs)" "\<lambda>x. 0 \<le> x \<and> x < 256 ^ n"
  by unfold_locales (simp add: from_be_enc)

section \<open>Hexadecimal\<close>

definition hex_digit :: "nat \<Rightarrow> char" where
  "hex_digit n = ''0123456789abcdef'' ! n"

fun hex_encode :: "bytes \<Rightarrow> string" where
  "hex_encode [] = []"
| "hex_encode (b # bs) = hex_digit (unat b div 16) # hex_digit (unat b mod 16) # hex_encode bs"

lemma hex_digit_inj:
  assumes "m < 16" and "n < 16" and "hex_digit m = hex_digit n"
  shows "m = n"
proof -
  have "distinct ''0123456789abcdef''" by simp
  moreover have "m < length ''0123456789abcdef''" "n < length ''0123456789abcdef''"
    using assms by simp_all
  ultimately show ?thesis using assms(3) nth_eq_iff_index_eq unfolding hex_digit_def by metis
qed

lemma hex_encode_inj: "hex_encode bs = hex_encode cs \<Longrightarrow> bs = cs"
proof (induction bs arbitrary: cs)
  case Nil
  then show ?case by (cases cs) auto
next
  case (Cons b bs)
  then obtain c cs' where cs: "cs = c # cs'" by (cases cs) auto
  have lt: "unat b < 256" "unat c < 256"
    using unsigned_less [of b, where 'a = nat] unsigned_less [of c, where 'a = nat] by simp_all
  from Cons.prems cs lt have "unat b div 16 = unat c div 16" and "unat b mod 16 = unat c mod 16"
    by (auto intro!: hex_digit_inj)
  then have "unat b = unat c" by (metis div_mult_mod_eq)
  then have "b = c" by (simp add: word_unat_eq_iff)
  with Cons cs show ?case by simp
qed

lemma hex_encode_eq_iff [simp]: "hex_encode bs = hex_encode cs \<longleftrightarrow> bs = cs"
  using hex_encode_inj by blast

lemma length_hex_encode [codec_simps, simp]: "length (hex_encode bs) = 2 * length bs"
  by (induction bs) auto

lemma hex_digit_ascii: "n < 16 \<Longrightarrow> is_ascii (hex_digit n) \<and> hex_digit n \<noteq> CHR ''|''"
proof -
  assume "n < 16"
  moreover have "\<forall>n \<in> set [0..<16]. is_ascii (hex_digit n) \<and> hex_digit n \<noteq> CHR ''|''"
    by code_simp
  ultimately show ?thesis by simp
qed

lemma hex_encode_ascii: "list_all is_ascii (hex_encode bs) \<and> CHR ''|'' \<notin> set (hex_encode bs)"
proof (induction bs)
  case Nil
  then show ?case by simp
next
  case (Cons b bs)
  have "unat b div 16 < 16" using unsigned_less [of b, where 'a = nat] by simp
  then have "is_ascii (hex_digit (unat b div 16))" "hex_digit (unat b div 16) \<noteq> CHR ''|''"
    and "is_ascii (hex_digit (unat b mod 16))" "hex_digit (unat b mod 16) \<noteq> CHR ''|''"
    using hex_digit_ascii by simp_all
  with Cons show ?case by auto
qed

section \<open>Base64\<close>

definition b64_alphabet :: string where
  "b64_alphabet = ''ABCDEFGHIJKLMNOPQRSTUVWXYZabcdefghijklmnopqrstuvwxyz0123456789+/''"

definition b64_char :: "nat \<Rightarrow> char" where
  "b64_char n = b64_alphabet ! n"

fun index_of :: "'a \<Rightarrow> 'a list \<Rightarrow> nat option" where
  "index_of x [] = None"
| "index_of x (y # ys) = (if x = y then Some 0 else map_option Suc (index_of x ys))"

definition b64_index :: "char \<Rightarrow> nat option" where
  "b64_index c = index_of c b64_alphabet"

fun b64encode :: "bytes \<Rightarrow> string" where
  "b64encode [] = []"
| "b64encode [a] =
     (let x = unat a in [b64_char (x div 4), b64_char (x mod 4 * 16), CHR ''='', CHR ''=''])"
| "b64encode [a, b] =
     (let x = unat a; y = unat b in
      [b64_char (x div 4), b64_char (x mod 4 * 16 + y div 16), b64_char (y mod 16 * 4), CHR ''=''])"
| "b64encode (a # b # c # bs) =
     (let x = unat a; y = unat b; z = unat c in
      [b64_char (x div 4), b64_char (x mod 4 * 16 + y div 16), b64_char (y mod 16 * 4 + z div 64),
       b64_char (z mod 64)] @ b64encode bs)"

text \<open>
  \<open>binascii.a2b_base64\<close>, the loop behind every \<open>b64decode\<close>: position in the quad, bits left over,
  padding seen, whether padding started, output so far (reversed). Strict mode is
  \<open>validate=True\<close>; otherwise characters outside the alphabet are skipped. The argument \<open>out\<close> is
  what was decoded; a pad that completes the quad ends the scan.
\<close>

fun a2b_base64 ::
  "bool \<Rightarrow> nat \<Rightarrow> nat \<Rightarrow> nat \<Rightarrow> bool \<Rightarrow> bytes \<Rightarrow> string \<Rightarrow> bytes result" where
  "a2b_base64 strict q l pads started out [] =
     (if q = 0 then Inr (rev out) else Inl (ValueError ''Incorrect padding''))"
| "a2b_base64 strict q l pads started out (c # cs) =
     (if c = CHR ''='' then
        if 2 \<le> q \<and> 4 \<le> q + pads + 1 then
          (if strict \<and> cs \<noteq> [] then Inl (ValueError ''Excess data after padding'') else Inr (rev out))
        else if strict \<and> q = 0 then Inl (ValueError ''Excess padding not allowed'')
        else a2b_base64 strict q l (if 2 \<le> q then pads + 1 else pads) True out cs
      else case b64_index c of
        None \<Rightarrow>
          if strict then Inl (ValueError ''Only base64 data is allowed'')
          else a2b_base64 strict q l pads started out cs
      | Some v \<Rightarrow>
          if strict \<and> started then Inl (ValueError ''Discontinuous padding not allowed'')
          else if q = 0 then a2b_base64 strict 1 v 0 started out cs
          else if q = 1 then a2b_base64 strict 2 (v mod 16) 0 started (of_nat (l * 4 + v div 16) # out) cs
          else if q = 2 then a2b_base64 strict 3 (v mod 4) 0 started (of_nat (l * 16 + v div 4) # out) cs
          else a2b_base64 strict 0 0 0 started (of_nat (l * 64 + v) # out) cs)"

definition b64decode :: "bool \<Rightarrow> string \<Rightarrow> bytes result" where
  "b64decode validate s =
     (if list_all is_ascii s then a2b_base64 validate 0 0 0 False [] s
      else Inl (ValueError ''string argument should contain only ASCII characters''))"

definition to_urlsafe :: "char \<Rightarrow> char" where
  "to_urlsafe c = (if c = CHR ''+'' then CHR ''-'' else if c = CHR ''/'' then CHR ''_'' else c)"

definition from_urlsafe :: "char \<Rightarrow> char" where
  "from_urlsafe c = (if c = CHR ''-'' then CHR ''+'' else if c = CHR ''_'' then CHR ''/'' else c)"

definition urlsafe_b64encode :: "bytes \<Rightarrow> string" where
  "urlsafe_b64encode bs = map to_urlsafe (b64encode bs)"

definition urlsafe_b64decode :: "string \<Rightarrow> bytes result" where
  "urlsafe_b64decode s = b64decode False (map from_urlsafe s)"

lemma b64_char_facts:
  assumes "n < 64"
  shows "b64_index (b64_char n) = Some n" and "b64_char n \<noteq> CHR ''=''"
    and "is_ascii (b64_char n)" and "from_urlsafe (to_urlsafe (b64_char n)) = b64_char n"
proof -
  have "\<forall>n \<in> set [0..<64]. b64_index (b64_char n) = Some n \<and> b64_char n \<noteq> CHR ''='' \<and>
      is_ascii (b64_char n) \<and> from_urlsafe (to_urlsafe (b64_char n)) = b64_char n"
    by code_simp
  with assms show "b64_index (b64_char n) = Some n" "b64_char n \<noteq> CHR ''=''"
    "is_ascii (b64_char n)" "from_urlsafe (to_urlsafe (b64_char n)) = b64_char n"
    by simp_all
qed

lemma byte_lt: "unat (b :: byte) < 256"
  using unsigned_less [of b, where 'a = nat] by simp

lemma b64_sextets:
  fixes a b c :: byte
  shows "unat a div 4 < 64" and "unat a mod 4 * 16 < 64" and "unat a mod 4 * 16 + unat b div 16 < 64"
    and "unat b mod 16 * 4 < 64" and "unat b mod 16 * 4 + unat c div 64 < 64" and "unat c mod 64 < 64"
proof -
  have m: "unat a mod 4 < 4" "unat b mod 16 < 16" by simp_all
  have d: "unat b div 16 < 16" "unat c div 64 < 4"
    using byte_lt [of b] byte_lt [of c] by simp_all
  show "unat a div 4 < 64" using byte_lt [of a] by simp
  show "unat a mod 4 * 16 < 64" "unat a mod 4 * 16 + unat b div 16 < 64"
    "unat b mod 16 * 4 < 64" "unat b mod 16 * 4 + unat c div 64 < 64"
    using m d by linarith+
  show "unat c mod 64 < 64" by simp
qed

lemma b64_octets:
  fixes a b c :: byte
  shows "unat a div 4 * 4 + (unat a mod 4 * 16) div 16 = unat a"
    and "unat a div 4 * 4 + (unat a mod 4 * 16 + unat b div 16) div 16 = unat a"
    and "(unat a mod 4 * 16 + unat b div 16) mod 16 * 16 + (unat b mod 16 * 4) div 4 = unat b"
    and "(unat a mod 4 * 16 + unat b div 16) mod 16 * 16 + (unat b mod 16 * 4 + unat c div 64) div 4
      = unat b"
    and "(unat b mod 16 * 4 + unat c div 64) mod 4 * 64 + unat c mod 64 = unat c"
proof -
  have d: "unat b div 16 < 16" "unat c div 64 < 4"
    using byte_lt [of b] byte_lt [of c] by simp_all
  have q: "(k * 16 + m) div 16 = k" "(k * 16 + m) mod 16 = m" if "m < 16" for k m :: nat
    using that by simp_all
  have r: "(k * 4 + m) div 4 = k" "(k * 4 + m) mod 4 = m" if "m < 4" for k m :: nat
    using that by simp_all
  show "unat a div 4 * 4 + (unat a mod 4 * 16) div 16 = unat a" by simp
  show "unat a div 4 * 4 + (unat a mod 4 * 16 + unat b div 16) div 16 = unat a"
    by (simp only: q(1) [OF d(1)] div_mult_mod_eq)
  show "(unat a mod 4 * 16 + unat b div 16) mod 16 * 16 + (unat b mod 16 * 4) div 4 = unat b"
    by (simp only: q(2) [OF d(1)]) simp
  show "(unat a mod 4 * 16 + unat b div 16) mod 16 * 16 + (unat b mod 16 * 4 + unat c div 64) div 4
      = unat b"
    by (simp only: q(2) [OF d(1)] r(1) [OF d(2)] div_mult_mod_eq)
  show "(unat b mod 16 * 4 + unat c div 64) mod 4 * 64 + unat c mod 64 = unat c"
    by (simp only: r(2) [OF d(2)] div_mult_mod_eq)
qed

lemma b64_carries:
  fixes b c :: byte
  shows "unat b div 16 div 16 = 0" and "unat b div 16 mod 16 = unat b div 16"
    and "unat c div 64 div 4 = 0" and "unat c div 64 mod 4 = unat c div 64"
  using byte_lt [of b] byte_lt [of c] by simp_all

text \<open>One quad of an encoding is decoded into the three bytes it came from.\<close>

lemma a2b_digit:
  assumes "n < 64"
  shows "a2b_base64 strict q l p False out (b64_char n # cs) =
    (if q = 0 then a2b_base64 strict 1 n 0 False out cs
     else if q = 1 then a2b_base64 strict 2 (n mod 16) 0 False (of_nat (l * 4 + n div 16) # out) cs
     else if q = 2 then a2b_base64 strict 3 (n mod 4) 0 False (of_nat (l * 16 + n div 4) # out) cs
     else a2b_base64 strict 0 0 0 False (of_nat (l * 64 + n) # out) cs)"
  using b64_char_facts [OF assms] by simp

lemma a2b_pad:
  "a2b_base64 strict q l pads started out (CHR ''='' # cs) =
    (if 2 \<le> q \<and> 4 \<le> q + pads + 1 then
       (if strict \<and> cs \<noteq> [] then Inl (ValueError ''Excess data after padding'') else Inr (rev out))
     else if strict \<and> q = 0 then Inl (ValueError ''Excess padding not allowed'')
     else a2b_base64 strict q l (if 2 \<le> q then pads + 1 else pads) True out cs)"
  by simp

declare a2b_base64.simps(2) [simp del]

lemmas a2b_quad = a2b_digit a2b_pad b64_sextets b64_octets b64_carries

lemma a2b_b64encode:
  "a2b_base64 strict 0 0 0 False out (b64encode bs) = Inr (rev out @ bs)"
proof (induction bs arbitrary: out rule: b64encode.induct)
  case 1
  then show ?case by simp
next
  case (2 a)
  show ?case
    by (simp add: Let_def a2b_quad del: of_nat_add of_nat_mult)
next
  case (3 a b)
  show ?case
    by (simp add: Let_def a2b_quad del: of_nat_add of_nat_mult)
next
  case (4 a b c bs)
  show ?case
    by (simp add: Let_def a2b_quad 4 del: of_nat_add of_nat_mult)
qed

lemma is_ascii_pad: "is_ascii (CHR ''='')"
  by (simp add: is_ascii_def)

lemma b64encode_ascii: "list_all is_ascii (b64encode bs)"
  by (induction bs rule: b64encode.induct)
    (auto simp: Let_def b64_char_facts b64_sextets is_ascii_pad)

lemma urlsafe_pad: "from_urlsafe (to_urlsafe (CHR ''='')) = CHR ''=''"
  by (simp add: to_urlsafe_def from_urlsafe_def)

lemma b64encode_from_to_urlsafe: "map from_urlsafe (map to_urlsafe (b64encode bs)) = b64encode bs"
  by (induction bs rule: b64encode.induct)
    (simp_all add: Let_def b64_char_facts(4) b64_sextets urlsafe_pad)

interpretation b64_strict: codec b64encode "b64decode True" "\<lambda>_. True"
  by unfold_locales (simp add: b64decode_def b64encode_ascii a2b_b64encode)

interpretation b64_lenient: codec b64encode "b64decode False" "\<lambda>_. True"
  by unfold_locales (simp add: b64decode_def b64encode_ascii a2b_b64encode)

interpretation b64_url: codec urlsafe_b64encode urlsafe_b64decode "\<lambda>_. True"
  by unfold_locales
    (simp only: urlsafe_b64encode_def urlsafe_b64decode_def b64encode_from_to_urlsafe
      b64_lenient.dec_enc)

section \<open>Base32\<close>

definition b32_alphabet :: string where
  "b32_alphabet = ''ABCDEFGHIJKLMNOPQRSTUVWXYZ234567''"

text \<open>One quintet of bytes is a 40-bit number written in eight base-32 digits.\<close>

definition b32_quintet :: "bytes \<Rightarrow> string" where
  "b32_quintet q = map (\<lambda>i. b32_alphabet ! nat (from_bytes_be q div 32 ^ (7 - i) mod 32)) [0..<8]"

fun b32_quintets :: "bytes \<Rightarrow> string" where
  "b32_quintets (a # b # c # d # e # bs) = b32_quintet [a, b, c, d, e] @ b32_quintets bs"
| "b32_quintets bs = []"

text \<open>\<open>base64.b32encode\<close>: zero-pad to whole quintets, then overwrite the tail with pads.\<close>

definition b32encode :: "bytes \<Rightarrow> string" where
  "b32encode bs =
     (let leftover = length bs mod 5;
          padded = (if leftover = 0 then bs else bs @ replicate (5 - leftover) 0);
          out = b32_quintets padded;
          k = (if leftover = 1 then 6 else if leftover = 2 then 4 else if leftover = 3 then 3
               else if leftover = 4 then 1 else 0)
      in take (length out - k) out @ replicate k CHR ''='')"

section \<open>Strings and integers\<close>

text \<open>\<open>s.split(c)[-1]\<close>, \<open>s.strip()\<close> and \<open>str(int)\<close>.\<close>

definition split_last :: "char \<Rightarrow> string \<Rightarrow> string" where
  "split_last c s = rev (takeWhile (\<lambda>x. x \<noteq> c) (rev s))"

definition is_space :: "char \<Rightarrow> bool" where
  "is_space c \<longleftrightarrow>
     (let n = (of_char c :: nat) in 9 \<le> n \<and> n \<le> 13 \<or> 28 \<le> n \<and> n \<le> 32 \<or> n = 133 \<or> n = 160)"

definition strip :: "string \<Rightarrow> string" where
  "strip s = rev (dropWhile is_space (rev (dropWhile is_space s)))"

definition digit_char :: "nat \<Rightarrow> char" where
  "digit_char n = ''0123456789'' ! n"

fun nat_digits :: "nat \<Rightarrow> string" where
  "nat_digits n = (if n < 10 then [digit_char n] else nat_digits (n div 10) @ [digit_char (n mod 10)])"

declare nat_digits.simps [simp del]

definition str_of_int :: "int \<Rightarrow> string" where
  "str_of_int i = (if i < 0 then CHR ''-'' # nat_digits (nat (- i)) else nat_digits (nat i))"

definition is_digit :: "char \<Rightarrow> bool" where
  "is_digit c \<longleftrightarrow> c \<in> set ''0123456789''"

lemma digit_char_inj: "m < 10 \<Longrightarrow> n < 10 \<Longrightarrow> digit_char m = digit_char n \<Longrightarrow> m = n"
proof -
  assume "m < 10" "n < 10" "digit_char m = digit_char n"
  moreover have "distinct ''0123456789''" by simp
  ultimately show "m = n" by (simp add: digit_char_def nth_eq_iff_index_eq)
qed

lemma digit_char_digit: "n < 10 \<Longrightarrow> is_digit (digit_char n)"
  unfolding digit_char_def is_digit_def by (rule nth_mem) simp

lemma nat_digits_digits: "list_all is_digit (nat_digits n)"
proof (induction n rule: nat_digits.induct)
  case (1 n)
  then show ?case by (subst nat_digits.simps) (simp add: digit_char_digit)
qed

lemma nat_digits_nonempty: "nat_digits n \<noteq> []"
  by (subst nat_digits.simps) simp

lemma nat_digits_inj: "nat_digits m = nat_digits n \<Longrightarrow> m = n"
proof (induction m arbitrary: n rule: nat_digits.induct)
  case (1 m)
  have m: "nat_digits m = (if m < 10 then [digit_char m] else nat_digits (m div 10) @ [digit_char (m mod 10)])"
    by (rule nat_digits.simps)
  have n: "nat_digits n = (if n < 10 then [digit_char n] else nat_digits (n div 10) @ [digit_char (n mod 10)])"
    by (rule nat_digits.simps)
  show ?case
  proof (cases "m < 10")
    case True
    with m n "1.prems" have "n < 10" "digit_char m = digit_char n"
      by (auto simp: nat_digits_nonempty nat_digits_nonempty [symmetric] split: if_splits)
    with True show ?thesis using digit_char_inj by blast
  next
    case False
    with m n "1.prems" have *: "\<not> n < 10" "nat_digits (m div 10) = nat_digits (n div 10)"
      "digit_char (m mod 10) = digit_char (n mod 10)"
      by (auto simp: nat_digits_nonempty nat_digits_nonempty [symmetric] split: if_splits)
    then have "m div 10 = n div 10" "m mod 10 = n mod 10"
      using "1.IH" False digit_char_inj by (simp_all del: One_nat_def)
    then show ?thesis by (metis div_mult_mod_eq)
  qed
qed

lemma nat_digits_no_minus: "nat_digits n \<noteq> CHR ''-'' # s"
  using nat_digits_digits [of n] by (auto simp: is_digit_def)

lemma str_of_int_inj: "str_of_int i = str_of_int j \<Longrightarrow> i = j"
  using nat_digits_no_minus [of "nat i" "nat_digits (nat (- j))"]
    nat_digits_no_minus [of "nat j" "nat_digits (nat (- i))"]
  by (cases "i < 0"; cases "j < 0") (auto simp: str_of_int_def dest: nat_digits_inj)

lemma str_of_int_chars: "c \<in> set (str_of_int i) \<Longrightarrow> c = CHR ''-'' \<or> is_digit c"
  using nat_digits_digits [of "nat i"] nat_digits_digits [of "nat (- i)"]
  by (auto simp: str_of_int_def list_all_iff split: if_splits)

lemma str_of_int_no_nul: "0 \<notin> set (raw_bytes (str_of_int i))"
proof -
  have "byte_of_char c \<noteq> 0" if "c \<in> set (str_of_int i)" for c
    using str_of_int_chars [OF that] by (auto simp: byte_of_char_def is_digit_def)
  then show ?thesis by (auto simp: raw_bytes_def)
qed


end
