(* ===== verification/Wire.thy ===== *)
theory Wire
  imports Codecs
begin

text \<open>
  The wire protocol package: the protocol label (\<open>version.py\<close>), the canonical error codes
  (\<open>errors.py\<close>) and the framing of application-layer envelopes (\<open>wire.py\<close>). The lemmas show that
  error codes are told apart by their strings, that packing and unpacking are inverse in both
  directions, and that the additional data determines the HTTP context it binds.
\<close>

section \<open>Version\<close>

definition PROTOCOL_VERSION :: string where
  "PROTOCOL_VERSION = ''1.0''"

definition PROTOCOL_NAME :: string where
  "PROTOCOL_NAME = ''secure-llm''"

definition PROTOCOL_LABEL :: string where
  "PROTOCOL_LABEL = PROTOCOL_NAME @ ''/'' @ PROTOCOL_VERSION"

section \<open>Error codes\<close>

datatype error_code =
    UNKNOWN_CLIENT
  | CLIENT_REVOKED
  | CLIENT_NOT_YET_VALID
  | CLIENT_EXPIRED
  | BAD_SIGNATURE
  | CLOCK_SKEW
  | SERVER_KEY_MISMATCH
  | HANDSHAKE_VERSION_MISMATCH
  | UNKNOWN_SESSION
  | SESSION_EXPIRED
  | BAD_ENVELOPE
  | DECRYPT_FAILED
  | REPLAY_DETECTED
  | BODY_TOO_LARGE
  | ADMIN_REQUIRED
  | SCOPE_DENIED
  | MODEL_NOT_FOUND
  | MODEL_BUSY
  | QUEUE_FULL
  | LOAD_FAILED
  | DOWNLOAD_FAILED
  | SHA256_MISMATCH
  | REPO_NOT_ALLOWED
  | DISK_QUOTA_EXCEEDED
  | RATE_LIMITED
  | BAD_REQUEST
  | INTERNAL_ERROR
  | NOT_READY
  | CANCELLED

fun code_value :: "error_code \<Rightarrow> string" where
  "code_value UNKNOWN_CLIENT = ''unknown_client''"
| "code_value CLIENT_REVOKED = ''client_revoked''"
| "code_value CLIENT_NOT_YET_VALID = ''client_not_yet_valid''"
| "code_value CLIENT_EXPIRED = ''client_expired''"
| "code_value BAD_SIGNATURE = ''bad_signature''"
| "code_value CLOCK_SKEW = ''clock_skew''"
| "code_value SERVER_KEY_MISMATCH = ''server_key_mismatch''"
| "code_value HANDSHAKE_VERSION_MISMATCH = ''handshake_version_mismatch''"
| "code_value UNKNOWN_SESSION = ''unknown_session''"
| "code_value SESSION_EXPIRED = ''session_expired''"
| "code_value BAD_ENVELOPE = ''bad_envelope''"
| "code_value DECRYPT_FAILED = ''decrypt_failed''"
| "code_value REPLAY_DETECTED = ''replay_detected''"
| "code_value BODY_TOO_LARGE = ''body_too_large''"
| "code_value ADMIN_REQUIRED = ''admin_required''"
| "code_value SCOPE_DENIED = ''scope_denied''"
| "code_value MODEL_NOT_FOUND = ''model_not_found''"
| "code_value MODEL_BUSY = ''model_busy''"
| "code_value QUEUE_FULL = ''queue_full''"
| "code_value LOAD_FAILED = ''load_failed''"
| "code_value DOWNLOAD_FAILED = ''download_failed''"
| "code_value SHA256_MISMATCH = ''sha256_mismatch''"
| "code_value REPO_NOT_ALLOWED = ''repo_not_allowed''"
| "code_value DISK_QUOTA_EXCEEDED = ''disk_quota_exceeded''"
| "code_value RATE_LIMITED = ''rate_limited''"
| "code_value BAD_REQUEST = ''bad_request''"
| "code_value INTERNAL_ERROR = ''internal_error''"
| "code_value NOT_READY = ''not_ready''"
| "code_value CANCELLED = ''cancelled''"

definition all_codes :: "error_code list" where
  "all_codes =
     [UNKNOWN_CLIENT, CLIENT_REVOKED, CLIENT_NOT_YET_VALID, CLIENT_EXPIRED, BAD_SIGNATURE,
      CLOCK_SKEW, SERVER_KEY_MISMATCH, HANDSHAKE_VERSION_MISMATCH, UNKNOWN_SESSION,
      SESSION_EXPIRED, BAD_ENVELOPE, DECRYPT_FAILED, REPLAY_DETECTED, BODY_TOO_LARGE,
      ADMIN_REQUIRED, SCOPE_DENIED, MODEL_NOT_FOUND, MODEL_BUSY, QUEUE_FULL, LOAD_FAILED,
      DOWNLOAD_FAILED, SHA256_MISMATCH, REPO_NOT_ALLOWED, DISK_QUOTA_EXCEEDED, RATE_LIMITED,
      BAD_REQUEST, INTERNAL_ERROR, NOT_READY, CANCELLED]"

text \<open>\<open>ErrorCode(s)\<close>: the member with that value, otherwise \<open>ValueError\<close>.\<close>

definition code_of_value :: "string \<Rightarrow> error_code result" where
  "code_of_value s =
     (case find (\<lambda>c. code_value c = s) all_codes of
        None \<Rightarrow> Inl (ValueError ''not a valid ErrorCode'')
      | Some c \<Rightarrow> Inr c)"

lemma code_of_code_value: "code_of_value (code_value c) = Inr c"
  by (cases c) (simp_all add: code_of_value_def all_codes_def)

interpretation err: codec code_value code_of_value "\<lambda>_. True"
  by unfold_locales (rule code_of_code_value)

lemma code_of_value_Inr: "code_of_value s = Inr c \<Longrightarrow> code_value c = s"
  by (auto simp: code_of_value_def find_Some_iff split: option.splits)

section \<open>Envelopes\<close>

definition ENVELOPE_MAGIC :: bytes where
  "ENVELOPE_MAGIC = [0x53, 0x4C, 0x4C, 0x4D]"

definition ENVELOPE_VERSION :: byte where
  "ENVELOPE_VERSION = 1"

definition SESSION_ID_BYTES :: nat where "SESSION_ID_BYTES = 16"
definition COUNTER_BYTES :: nat where "COUNTER_BYTES = 8"
definition NONCE_BYTES :: nat where "NONCE_BYTES = 12"
definition TAG_BYTES :: nat where "TAG_BYTES = 16"

definition ENVELOPE_HEADER_SIZE :: nat where
  "ENVELOPE_HEADER_SIZE =
     length ENVELOPE_MAGIC + 1 + SESSION_ID_BYTES + COUNTER_BYTES + NONCE_BYTES"

lemmas wire_sizes = ENVELOPE_MAGIC_def ENVELOPE_VERSION_def SESSION_ID_BYTES_def COUNTER_BYTES_def
  NONCE_BYTES_def TAG_BYTES_def ENVELOPE_HEADER_SIZE_def

lemma wire_lengths:
  "length ENVELOPE_MAGIC = 4" "ENVELOPE_HEADER_SIZE = 41" "SESSION_ID_BYTES = 16"
  "COUNTER_BYTES = 8" "NONCE_BYTES = 12" "TAG_BYTES = 16"
  by (simp_all add: wire_sizes)

lemma ENVELOPE_MAGIC_text: "ENVELOPE_MAGIC = raw_bytes ''SLLM''"
  by (simp add: ENVELOPE_MAGIC_def raw_bytes_def byte_of_char_def)

datatype envelope_error = EnvelopeError string | EnvelopeOther exn

text \<open>\<open>str(e)\<close>.\<close>

fun envelope_error_text :: "envelope_error \<Rightarrow> string" where
  "envelope_error_text (EnvelopeError message) = message"
| "envelope_error_text (EnvelopeOther e) = ''int too big to convert''"

record envelope =
  env_session_id :: bytes
  env_counter :: int
  env_nonce :: bytes
  env_ciphertext :: bytes

definition pack_envelope :: "bytes \<Rightarrow> int \<Rightarrow> bytes \<Rightarrow> bytes \<Rightarrow> envelope_error + bytes" where
  "pack_envelope session_id counter nonce ciphertext =
     (if length session_id \<noteq> SESSION_ID_BYTES then Inl (EnvelopeError ''session_id must be 16 bytes'')
      else if length nonce \<noteq> NONCE_BYTES then Inl (EnvelopeError ''nonce must be 12 bytes'')
      else if counter < 0 \<or> drop_bit (COUNTER_BYTES * 8) counter \<noteq> 0
        then Inl (EnvelopeError ''counter out of range'')
      else case to_bytes_be COUNTER_BYTES counter of
        Inl e \<Rightarrow> Inl (EnvelopeOther e)
      | Inr ctr \<Rightarrow>
          Inr (concat [ENVELOPE_MAGIC, [ENVELOPE_VERSION], session_id, ctr, nonce, ciphertext]))"

text \<open>Python's slice \<open>buf[i:j]\<close> for in-order, non-negative bounds.\<close>

definition py_slice :: "'a list \<Rightarrow> nat \<Rightarrow> nat \<Rightarrow> 'a list" where
  "py_slice xs i j = take (j - i) (drop i xs)"

definition unpack_envelope :: "bytes \<Rightarrow> envelope_error + envelope" where
  "unpack_envelope buf =
     (if length buf < ENVELOPE_HEADER_SIZE + TAG_BYTES then Inl (EnvelopeError ''envelope too short'')
      else if take (length ENVELOPE_MAGIC) buf \<noteq> ENVELOPE_MAGIC then Inl (EnvelopeError ''bad magic'')
      else
        let pos = length ENVELOPE_MAGIC in
        if buf ! pos \<noteq> ENVELOPE_VERSION then Inl (EnvelopeError (''unsupported envelope version: '' @ str_of_int (uint (buf ! pos))))
        else
          let pos = pos + 1;
              session_id = py_slice buf pos (pos + SESSION_ID_BYTES);
              pos = pos + SESSION_ID_BYTES;
              counter = from_bytes_be (py_slice buf pos (pos + COUNTER_BYTES));
              pos = pos + COUNTER_BYTES;
              nonce = py_slice buf pos (pos + NONCE_BYTES);
              pos = pos + NONCE_BYTES;
              ciphertext = drop pos buf
          in Inr \<lparr>env_session_id = session_id, env_counter = counter, env_nonce = nonce,
                  env_ciphertext = ciphertext\<rparr>)"

text \<open>\<open>b"|".join(parts)\<close>.\<close>

fun join_bytes :: "bytes \<Rightarrow> bytes list \<Rightarrow> bytes" where
  "join_bytes sep [] = []"
| "join_bytes sep [x] = x"
| "join_bytes sep (x # y # ys) = x @ sep @ join_bytes sep (y # ys)"

definition build_aad :: "string \<Rightarrow> string \<Rightarrow> bytes \<Rightarrow> int \<Rightarrow> bytes result" where
  "build_aad method path session_id counter =
     (case to_bytes_be COUNTER_BYTES counter of
        Inl e \<Rightarrow> Inl e
      | Inr ctr \<Rightarrow>
          (case ascii_encode (str_upper method) of
             Inl e \<Rightarrow> Inl e
           | Inr m \<Rightarrow>
               Inr (join_bytes (raw_bytes ''|'')
                 [ENVELOPE_MAGIC, [ENVELOPE_VERSION], session_id, ctr, m, utf8_encode path])))"

section \<open>Well-formed headers\<close>

definition counter_ok :: "int \<Rightarrow> bool" where
  "counter_ok c \<longleftrightarrow> 0 \<le> c \<and> c < 2 ^ 64"

definition envelope_ok :: "envelope \<Rightarrow> bool" where
  "envelope_ok e \<longleftrightarrow> length (env_session_id e) = 16 \<and> length (env_nonce e) = 12 \<and>
     counter_ok (env_counter e) \<and> 16 \<le> length (env_ciphertext e)"

lemma counter_range_bits: "counter < 0 \<or> drop_bit 64 counter \<noteq> 0 \<longleftrightarrow> \<not> counter_ok counter"
proof -
  have "drop_bit 64 counter = 0 \<longleftrightarrow> 0 \<le> counter \<and> counter < 2 ^ 64"
    by (auto simp: drop_bit_eq_div zdiv_eq_0_iff)
  then show ?thesis by (auto simp: counter_ok_def)
qed

lemma to_bytes_be_8 [codec_simps]: "counter_ok c \<Longrightarrow> to_bytes_be 8 c = Inr (be_enc 8 c)"
  by (simp add: counter_ok_def to_bytes_be_def)

lemma to_bytes_be_8_error: "\<not> counter_ok c \<Longrightarrow> to_bytes_be 8 c = Inl OverflowError"
  by (auto simp: counter_ok_def to_bytes_be_def)

lemma from_be_enc_8 [codec_simps]: "counter_ok c \<Longrightarrow> from_bytes_be (be_enc 8 c) = c"
  by (rule from_be_enc) (simp_all add: counter_ok_def)

lemma be_enc_8_inj: "counter_ok c \<Longrightarrow> counter_ok d \<Longrightarrow> be_enc 8 c = be_enc 8 d \<Longrightarrow> c = d"
  by (metis from_be_enc_8)

definition frame :: "bytes \<Rightarrow> int \<Rightarrow> bytes \<Rightarrow> bytes \<Rightarrow> bytes" where
  "frame session_id counter nonce ciphertext =
     ENVELOPE_MAGIC @ [ENVELOPE_VERSION] @ session_id @ be_enc 8 counter @ nonce @ ciphertext"

lemma pack_envelope_eq:
  "pack_envelope sid c n ct =
     (if length sid \<noteq> 16 then Inl (EnvelopeError ''session_id must be 16 bytes'')
      else if length n \<noteq> 12 then Inl (EnvelopeError ''nonce must be 12 bytes'')
      else if \<not> counter_ok c then Inl (EnvelopeError ''counter out of range'')
      else Inr (frame sid c n ct))"
  by (simp add: pack_envelope_def SESSION_ID_BYTES_def NONCE_BYTES_def COUNTER_BYTES_def
      counter_range_bits to_bytes_be_8 frame_def)

lemma pack_envelope_Inr_iff:
  "pack_envelope sid c n ct = Inr buf \<longleftrightarrow>
     length sid = 16 \<and> length n = 12 \<and> counter_ok c \<and> buf = frame sid c n ct"
  by (auto simp: pack_envelope_eq)

lemma length_frame:
  "length sid = 16 \<Longrightarrow> length n = 12 \<Longrightarrow> length (frame sid c n ct) = 41 + length ct"
  by (simp add: frame_def wire_lengths)

lemma unpack_frame:
  assumes "length sid = 16" and "length n = 12" and "counter_ok c" and "16 \<le> length ct"
  shows "unpack_envelope (frame sid c n ct) =
    Inr \<lparr>env_session_id = sid, env_counter = c, env_nonce = n, env_ciphertext = ct\<rparr>"
  using assms
  by (simp add: unpack_envelope_def length_frame Let_def wire_sizes frame_def py_slice_def from_be_enc_8)

lemma unpack_Inr:
  assumes "unpack_envelope buf = Inr e"
  shows "envelope_ok e"
    and "buf = frame (env_session_id e) (env_counter e) (env_nonce e) (env_ciphertext e)"
proof -
  from assms have len: "57 \<le> length buf" and magic: "take 4 buf = ENVELOPE_MAGIC"
    and ver: "buf ! 4 = ENVELOPE_VERSION"
    and e: "e = \<lparr>env_session_id = py_slice buf 5 21, env_counter = from_bytes_be (py_slice buf 21 29),
      env_nonce = py_slice buf 29 41, env_ciphertext = drop 41 buf\<rparr>"
    by (auto simp: unpack_envelope_def Let_def wire_lengths split: if_splits)
  have l8: "length (py_slice buf 21 29) = 8" using len by (simp add: py_slice_def)
  then have ctr: "be_enc 8 (from_bytes_be (py_slice buf 21 29)) = py_slice buf 21 29"
    using be_enc_from [of "py_slice buf 21 29"] by simp
  have bounds: "counter_ok (from_bytes_be (py_slice buf 21 29))"
    using from_bytes_be_bounds [of "py_slice buf 21 29"] l8 by (simp add: counter_ok_def)
  show "envelope_ok e"
    using len bounds by (simp add: e envelope_ok_def py_slice_def)
  have app: "drop i buf = py_slice buf i j @ drop j buf" if "i \<le> j" for i j
    using append_take_drop_id [of "j - i" "drop i buf"] that by (simp add: py_slice_def)
  have "buf = take 4 buf @ drop 4 buf" by simp
  also have "drop 4 buf = buf ! 4 # drop 5 buf" using len Cons_nth_drop_Suc [of 4 buf] by simp
  also have "drop 5 buf = py_slice buf 5 21 @ py_slice buf 21 29 @ py_slice buf 29 41 @ drop 41 buf"
    using app [of 5 21] app [of 21 29] app [of 29 41] by simp
  finally show "buf = frame (env_session_id e) (env_counter e) (env_nonce e) (env_ciphertext e)"
    by (simp add: e frame_def magic ver ctr)
qed

definition pack_env :: "envelope \<Rightarrow> bytes" where
  "pack_env e = frame (env_session_id e) (env_counter e) (env_nonce e) (env_ciphertext e)"

interpretation wire: codec pack_env unpack_envelope envelope_ok
  by unfold_locales (simp add: pack_env_def envelope_ok_def unpack_frame)

lemma frame_inj:
  assumes "length sid = 16" and "length sid' = 16" and "length n = 12" and "length n' = 12"
    and "counter_ok c" and "counter_ok c'" and "frame sid c n ct = frame sid' c' n' ct'"
  shows "sid = sid' \<and> c = c' \<and> n = n' \<and> ct = ct'"
  using assms be_enc_8_inj by (auto simp: frame_def append_eq_split)

section \<open>What the additional data binds\<close>

lemma build_aad_Inr_iff:
  "build_aad m p sid c = Inr aad \<longleftrightarrow>
     counter_ok c \<and> list_all is_ascii (str_upper m) \<and>
     aad = join_bytes (raw_bytes ''|'') [ENVELOPE_MAGIC, [ENVELOPE_VERSION], sid, be_enc 8 c,
       raw_bytes (str_upper m), utf8_encode p]"
  by (cases "counter_ok c")
    (auto simp: build_aad_def COUNTER_BYTES_def to_bytes_be_8 to_bytes_be_8_error ascii_encode_def)

lemma build_aad_inj:
  assumes "build_aad m p sid c = Inr aad" and "build_aad m' p' sid' c' = Inr aad"
    and "length sid = length sid'" and "CHR ''|'' \<notin> set (str_upper m)" and "CHR ''|'' \<notin> set (str_upper m')"
  shows "str_upper m = str_upper m' \<and> p = p' \<and> sid = sid' \<and> c = c'"
proof -
  let ?bar = "byte_of_char (CHR ''|'')"
  have bar: "raw_bytes ''|'' = [?bar]" by (simp add: raw_bytes_def)
  have ok: "counter_ok c" "counter_ok c'" using assms(1,2) by (simp_all add: build_aad_Inr_iff)
  have "sid @ ?bar # be_enc 8 c @ ?bar # raw_bytes (str_upper m) @ ?bar # utf8_encode p
      = sid' @ ?bar # be_enc 8 c' @ ?bar # raw_bytes (str_upper m') @ ?bar # utf8_encode p'"
    using assms(1,2) by (simp add: build_aad_Inr_iff bar)
  then have sid: "sid = sid'" and ctr: "be_enc 8 c = be_enc 8 c'"
    and rest: "raw_bytes (str_upper m) @ ?bar # utf8_encode p
      = raw_bytes (str_upper m') @ ?bar # utf8_encode p'"
    using assms(3) by (auto simp: append_eq_split)
  have "?bar \<notin> set (raw_bytes (str_upper m))" "?bar \<notin> set (raw_bytes (str_upper m'))"
    using assms(4,5) by (auto simp: raw_bytes_def)
  then have "raw_bytes (str_upper m) = raw_bytes (str_upper m') \<and> utf8_encode p = utf8_encode p'"
    using rest by (rule split_at_first)
  with sid ctr ok show ?thesis
    using be_enc_8_inj utf8_encode_inj by auto
qed

section \<open>Properties\<close>

text \<open>The wire format is a bijection between well-formed envelopes and the buffers that unpack:
  what was packed unpacks to the same fields, and a buffer that unpacks is exactly the packing of
  the fields it yields, so no two buffers stand for one envelope.\<close>

theorem envelope_roundtrip:
  "envelope_ok env \<Longrightarrow>
     (pack_envelope (env_session_id env) (env_counter env) (env_nonce env) (env_ciphertext env) = Inr buf
       \<longleftrightarrow> unpack_envelope buf = Inr env)"
  by (auto simp: pack_envelope_Inr_iff envelope_ok_def unpack_frame dest: unpack_Inr(2))

theorem envelope_roundtrip_witness:
  "unpack_envelope (raw_bytes ''SLLM'' @ [1] @ replicate 16 7 @ be_enc 8 258 @ replicate 12 9 @ replicate 17 1)
     = Inr \<lparr>env_session_id = replicate 16 7, env_counter = 258, env_nonce = replicate 12 9,
         env_ciphertext = replicate 17 1\<rparr>"
proof -
  let ?env = "\<lparr>env_session_id = replicate 16 7, env_counter = 258, env_nonce = replicate 12 9,
       env_ciphertext = replicate 17 1\<rparr>"
  have "envelope_ok ?env" by (simp add: envelope_ok_def counter_ok_def)
  from envelope_roundtrip [OF this, of "raw_bytes ''SLLM'' @ [1] @ replicate 16 7 @ be_enc 8 258 @
      replicate 12 9 @ replicate 17 1"] show ?thesis
    by (simp add: pack_envelope_eq frame_def counter_ok_def ENVELOPE_MAGIC_text ENVELOPE_VERSION_def)
qed

text \<open>The additional data binds the method, the path, the session and the counter of a message:
  two equal strings of additional data come from the same four values (the method up to case),
  although its fields are joined with a separator that keys and counters may contain.\<close>

theorem aad_binds:
  assumes "build_aad m p sid c = Inr aad" and "build_aad m' p' sid' c' = Inr aad"
    and "length sid = length sid'" and "CHR ''|'' \<notin> set (str_upper m)" and "CHR ''|'' \<notin> set (str_upper m')"
  shows "str_upper m = str_upper m' \<and> p = p' \<and> sid = sid' \<and> c = c'"
  using assms by (rule build_aad_inj)

theorem aad_binds_witness:
  "build_aad ''post'' ''/v1/chat'' (replicate 16 124) 5 \<noteq> build_aad ''POST'' ''/v1/chat'' (replicate 16 124) 6"
proof
  assume eq: "build_aad ''post'' ''/v1/chat'' (replicate 16 124) 5 = build_aad ''POST'' ''/v1/chat'' (replicate 16 124) 6"
  have ok: "\<exists>aad. build_aad ''post'' ''/v1/chat'' (replicate 16 124) 5 = Inr aad"
    unfolding build_aad_Inr_iff by (simp add: counter_ok_def) code_simp
  then obtain aad where "build_aad ''post'' ''/v1/chat'' (replicate 16 124) 5 = Inr aad" ..
  from aad_binds [OF this, of "''POST''" "''/v1/chat''" "replicate 16 124" 6] this eq
  have "str_upper ''post'' = ''POST'' \<and> (5 :: int) = 6 \<or>
      CHR ''|'' \<in> set (str_upper ''post'') \<or> CHR ''|'' \<in> set (str_upper ''POST'')" by auto
  moreover have "\<not> (CHR ''|'' \<in> set (str_upper ''post'') \<or> CHR ''|'' \<in> set (str_upper ''POST''))" by code_simp
  ultimately show False by simp
qed

end
