(* ===== verification/Replay.thy ===== *)
theory Replay
  imports Prelude
begin

text \<open>
  Replay protection. The server's \<open>ReplayWindow\<close> (\<open>crypto/replay.py\<close>) is a bitmap over the last
  1024 counters below a high watermark; the client's \<open>_ReplayClient\<close> (\<open>transport.py\<close>) is a
  bounded set of seen counters. Both are related to what replay protection promises, stated on
  the list of counters accepted so far.
\<close>

section \<open>The server's sliding window\<close>

definition WINDOW_BITS :: nat where
  "WINDOW_BITS = 1024"

datatype replay_error = ReplayDetected string

record replay_window =
  rw_high :: int
  rw_bitmap :: int

definition replay_window_new :: replay_window where
  "replay_window_new = \<lparr>rw_high = 0, rw_bitmap = 0\<rparr>"

definition check_and_advance :: "int \<Rightarrow> replay_window \<Rightarrow> replay_error + replay_window" where
  "check_and_advance counter w =
     (if counter < 0 then Inl (ReplayDetected ''negative counter'')
      else if counter > rw_high w then
        let shift = counter - rw_high w;
            bitmap = (if shift \<ge> int WINDOW_BITS then 1
                      else (push_bit (nat shift) (rw_bitmap w) OR 1) AND (push_bit WINDOW_BITS 1 - 1))
        in Inr \<lparr>rw_high = counter, rw_bitmap = bitmap\<rparr>
      else
        let offset = rw_high w - counter in
        if offset \<ge> int WINDOW_BITS then Inl (ReplayDetected ''counter outside window'')
        else
          let mask = push_bit (nat offset) 1 in
          if rw_bitmap w AND mask \<noteq> 0 then Inl (ReplayDetected ''duplicate counter'')
          else Inr (w\<lparr>rw_bitmap := rw_bitmap w OR mask\<rparr>))"

text \<open>The counters the bitmap records: bit \<open>i\<close> stands for counter \<open>high - i\<close>.\<close>

definition rw_seen :: "replay_window \<Rightarrow> int \<Rightarrow> bool" where
  "rw_seen w c \<longleftrightarrow> c \<le> rw_high w \<and> rw_high w - c < int WINDOW_BITS \<and> bit (rw_bitmap w) (nat (rw_high w - c))"

definition rw_ok :: "replay_window \<Rightarrow> bool" where
  "rw_ok w \<longleftrightarrow> 0 \<le> rw_high w \<and> 0 \<le> rw_bitmap w \<and> rw_bitmap w < 2 ^ WINDOW_BITS"

lemma check_and_advance_cases:
  "check_and_advance c w =
     (if c < 0 then Inl (ReplayDetected ''negative counter'')
      else if c > rw_high w then
        Inr \<lparr>rw_high = c, rw_bitmap =
          (if c - rw_high w \<ge> int WINDOW_BITS then 1
           else (push_bit (nat (c - rw_high w)) (rw_bitmap w) OR 1) AND mask WINDOW_BITS)\<rparr>
      else if rw_high w - c \<ge> int WINDOW_BITS then Inl (ReplayDetected ''counter outside window'')
      else if rw_seen w c then Inl (ReplayDetected ''duplicate counter'')
      else Inr (w\<lparr>rw_bitmap := set_bit (nat (rw_high w - c)) (rw_bitmap w)\<rparr>))"
  by (simp add: check_and_advance_def Let_def mask_eq_exp_minus_1 and_exp_eq_0_iff_not_bit
      rw_seen_def set_bit_eq_or push_bit_of_1)

lemma bit_int_bound: "0 \<le> x \<Longrightarrow> x < 2 ^ n \<Longrightarrow> bit (x :: int) i \<Longrightarrow> i < n"
  by (metis bit_take_bit_iff take_bit_int_eq_self)

lemma mask_and_bound: "0 \<le> x AND mask n \<and> x AND mask n < (2 :: int) ^ n"
  by (simp add: take_bit_eq_mask [symmetric])

lemma one_lt_window: "(1 :: int) < 2 ^ WINDOW_BITS"
  by (simp add: WINDOW_BITS_def)

lemma rw_ok_new: "rw_ok replay_window_new"
  by (simp add: rw_ok_def replay_window_new_def)

lemma rw_seen_new [simp]: "\<not> rw_seen replay_window_new c"
  by (simp add: rw_seen_def replay_window_new_def)

lemma check_accept_ok:
  assumes "rw_ok w" and "check_and_advance c w = Inr w'"
  shows "rw_ok w'" and "rw_high w' = max (rw_high w) c" and "0 \<le> c"
    and "rw_high w - c < int WINDOW_BITS" and "\<not> rw_seen w c"
proof -
  have sb: "set_bit n b < 2 ^ WINDOW_BITS" if "0 \<le> b" "b < 2 ^ WINDOW_BITS" "n < WINDOW_BITS"
    for n and b :: int
  proof -
    have "take_bit WINDOW_BITS (set_bit n b) = set_bit n b"
      using that by (intro bit_eqI) (auto simp: bit_simps dest: bit_int_bound)
    then show ?thesis by (metis take_bit_int_less_exp)
  qed
  show "rw_high w' = max (rw_high w) c" "0 \<le> c" "rw_high w - c < int WINDOW_BITS" "\<not> rw_seen w c"
    using assms by (auto simp: check_and_advance_cases rw_seen_def split: if_splits)
  show "rw_ok w'"
    using assms mask_and_bound [of _ WINDOW_BITS] one_lt_window
    by (auto simp: check_and_advance_cases rw_ok_def set_bit_nonnegative_int_iff
        intro!: sb split: if_splits)
qed

lemma check_accept_seen:
  assumes "rw_ok w" and "check_and_advance c w = Inr w'"
  shows "rw_seen w' d \<longleftrightarrow> (d = c \<or> rw_seen w d) \<and> rw_high w' - d < int WINDOW_BITS"
proof (cases "c > rw_high w")
  case True
  have nat_minus: "nat (c - d) = nat (c - rw_high w) + nat (rw_high w - d)" if "d \<le> rw_high w"
    using True that by simp
  show ?thesis
  proof (cases "c - rw_high w \<ge> int WINDOW_BITS")
    case True
    with assms \<open>c > rw_high w\<close> have w': "w' = \<lparr>rw_high = c, rw_bitmap = 1\<rparr>"
      by (auto simp: check_and_advance_cases split: if_splits)
    show ?thesis using True by (auto simp: w' rw_seen_def bit_1_iff WINDOW_BITS_def)
  next
    case False
    with assms \<open>c > rw_high w\<close> have w': "w' = \<lparr>rw_high = c, rw_bitmap =
        (push_bit (nat (c - rw_high w)) (rw_bitmap w) OR 1) AND mask WINDOW_BITS\<rparr>"
      by (auto simp: check_and_advance_cases split: if_splits)
    show ?thesis
    proof (cases "d \<le> rw_high w")
      case True
      with \<open>c > rw_high w\<close> nat_minus [OF True] show ?thesis
        by (auto simp: w' rw_seen_def bit_simps)
    next
      case F2: False
      with \<open>c > rw_high w\<close> show ?thesis
        by (auto simp: w' rw_seen_def bit_simps WINDOW_BITS_def)
    qed
  qed
next
  case False
  with assms have w': "w' = w\<lparr>rw_bitmap := set_bit (nat (rw_high w - c)) (rw_bitmap w)\<rparr>"
    and win: "rw_high w - c < int WINDOW_BITS"
    by (auto simp: check_and_advance_cases split: if_splits)
  have "nat (rw_high w - c) = nat (rw_high w - d) \<longleftrightarrow> c = d" if "d \<le> rw_high w"
    using that False by auto
  then show ?thesis using False win by (auto simp: w' rw_seen_def bit_simps)
qed

lemma check_accept_iff:
  "(\<exists>w'. check_and_advance c w = Inr w') \<longleftrightarrow>
     0 \<le> c \<and> rw_high w - c < int WINDOW_BITS \<and> \<not> rw_seen w c"
  by (auto simp: check_and_advance_cases rw_seen_def WINDOW_BITS_def)

section \<open>The interface: a guard that accepts no counter twice\<close>

text \<open>
  What the request path relies on: a counter the guard has blocked stays blocked, an accepted
  counter is blocked from then on. A rejected check raises before it changes the guard.
\<close>

locale replay_guard =
  fixes check :: "int \<Rightarrow> 's \<Rightarrow> 'e + 's"
    and blocked :: "'s \<Rightarrow> int \<Rightarrow> bool"
    and inv :: "'s \<Rightarrow> bool"
  assumes blocked_reject: "inv s \<Longrightarrow> blocked s c \<Longrightarrow> \<not> is_ok (check c s)"
    and accept_blocks: "inv s \<Longrightarrow> check c s = Inr s' \<Longrightarrow> blocked s' c"
    and blocked_mono: "inv s \<Longrightarrow> check c s = Inr s' \<Longrightarrow> blocked s d \<Longrightarrow> blocked s' d"
    and inv_check: "inv s \<Longrightarrow> check c s = Inr s' \<Longrightarrow> inv s'"
begin

fun run :: "'s \<Rightarrow> int list \<Rightarrow> bool list" where
  "run s [] = []"
| "run s (c # cs) = (case check c s of Inl e \<Rightarrow> False # run s cs | Inr s' \<Rightarrow> True # run s' cs)"

definition accepted :: "'s \<Rightarrow> int list \<Rightarrow> int list" where
  "accepted s cs = map fst (filter snd (zip cs (run s cs)))"

lemma blocked_never_accepted: "inv s \<Longrightarrow> blocked s c \<Longrightarrow> c \<notin> set (accepted s cs)"
proof (induction cs arbitrary: s)
  case Nil
  then show ?case by (simp add: accepted_def)
next
  case (Cons d cs)
  show ?case
  proof (cases "check d s")
    case (Inl e)
    with Cons show ?thesis by (simp add: accepted_def)
  next
    case (Inr s')
    with Cons.prems have "c \<noteq> d" using blocked_reject [of s c] by auto
    moreover have "c \<notin> set (accepted s' cs)"
      using Cons Inr inv_check blocked_mono by blast
    ultimately show ?thesis using Inr by (simp add: accepted_def)
  qed
qed

lemma accepted_distinct: "inv s \<Longrightarrow> distinct (accepted s cs)"
proof (induction cs arbitrary: s)
  case Nil
  then show ?case by (simp add: accepted_def)
next
  case (Cons d cs)
  show ?case
  proof (cases "check d s")
    case (Inl e)
    with Cons show ?thesis by (simp add: accepted_def)
  next
    case (Inr s')
    with Cons.prems have "inv s'" "blocked s' d" using inv_check accept_blocks by blast+
    then have "distinct (accepted s' cs)" "d \<notin> set (accepted s' cs)"
      using Cons.IH blocked_never_accepted by blast+
    then show ?thesis using Inr by (simp add: accepted_def)
  qed
qed

end

definition rw_blocked :: "replay_window \<Rightarrow> int \<Rightarrow> bool" where
  "rw_blocked w c \<longleftrightarrow> c < 0 \<or> rw_high w - c \<ge> int WINDOW_BITS \<or> rw_seen w c"

interpretation rw: replay_guard check_and_advance rw_blocked rw_ok
proof unfold_locales
  fix w w' c d
  assume ok: "rw_ok w"
  show "\<not> is_ok (check_and_advance c w)" if "rw_blocked w c"
    using that check_accept_iff [of c w] by (auto simp: rw_blocked_def is_ok_iff)
  assume acc: "check_and_advance c w = Inr w'"
  note facts = check_accept_ok [OF ok acc] check_accept_seen [OF ok acc]
  show "rw_ok w'" by (rule facts(1))
  have high: "rw_high w \<le> rw_high w'" by (simp add: facts(2))
  show "rw_blocked w' c"
    by (cases "rw_high w' - c < int WINDOW_BITS") (simp_all add: rw_blocked_def facts(6))
  show "rw_blocked w' d" if "rw_blocked w d"
    using that high
    by (cases "rw_high w' - d < int WINDOW_BITS") (auto simp: rw_blocked_def facts(6))
qed

section \<open>What the window promises\<close>

text \<open>
  The specification remembers every accepted counter. A counter is acceptable when it is not
  negative, was never accepted, and lies less than 1024 below the largest one accepted.
\<close>

definition history_high :: "int list \<Rightarrow> int" where
  "history_high acc = foldr max acc 0"

definition acceptable :: "int list \<Rightarrow> int \<Rightarrow> bool" where
  "acceptable acc c \<longleftrightarrow> 0 \<le> c \<and> c \<notin> set acc \<and> history_high acc - c < int WINDOW_BITS"

fun spec_run :: "int list \<Rightarrow> int list \<Rightarrow> bool list" where
  "spec_run acc [] = []"
| "spec_run acc (c # cs) =
     (if acceptable acc c then True # spec_run (c # acc) cs else False # spec_run acc cs)"

definition represents :: "replay_window \<Rightarrow> int list \<Rightarrow> bool" where
  "represents w acc \<longleftrightarrow> rw_ok w \<and> rw_high w = history_high acc \<and>
     (\<forall>d. rw_seen w d \<longleftrightarrow> d \<in> set acc \<and> rw_high w - d < int WINDOW_BITS)"

lemma represents_new: "represents replay_window_new []"
  by (simp add: represents_def rw_ok_new history_high_def) (simp add: replay_window_new_def)

lemma represents_acceptable:
  "represents w acc \<Longrightarrow> is_ok (check_and_advance c w) \<longleftrightarrow> acceptable acc c"
  using check_accept_iff [of c w] by (auto simp: is_ok_iff represents_def acceptable_def)

lemma represents_step:
  assumes "represents w acc" and "check_and_advance c w = Inr w'"
  shows "represents w' (c # acc)"
proof -
  from assms have ok: "rw_ok w" by (simp add: represents_def)
  note facts = check_accept_ok [OF ok assms(2)] check_accept_seen [OF ok assms(2)]
  have "rw_high w' = history_high (c # acc)"
    using assms(1) facts(2) by (simp add: represents_def history_high_def max.commute)
  moreover have "rw_seen w' d \<longleftrightarrow> d \<in> set (c # acc) \<and> rw_high w' - d < int WINDOW_BITS" for d
    using assms(1) facts(2) by (auto simp: represents_def facts(6))
  ultimately show ?thesis using facts(1) by (simp add: represents_def)
qed

lemma represents_run: "represents w acc \<Longrightarrow> rw.run w cs = spec_run acc cs"
proof (induction cs arbitrary: w acc)
  case Nil
  then show ?case by simp
next
  case (Cons c cs)
  show ?case
    using Cons represents_acceptable [OF Cons.prems, of c] represents_step [OF Cons.prems]
    by (auto split: sum.splits)
qed

fun window_run :: "replay_window \<Rightarrow> int list \<Rightarrow> bool list" where
  "window_run w [] = []"
| "window_run w (c # cs) =
     (case check_and_advance c w of
        Inl e \<Rightarrow> False # window_run w cs
      | Inr w' \<Rightarrow> True # window_run w' cs)"

lemma window_run_eq: "window_run w cs = rw.run w cs"
  by (induction cs arbitrary: w) (auto split: sum.splits)

section \<open>The client's bounded set\<close>

record replay_client =
  rc_high :: int
  rc_seen :: "int list"

definition replay_client_new :: replay_client where
  "replay_client_new = \<lparr>rc_high = 0, rc_seen = []\<rparr>"

text \<open>
  \<open>rc_seen\<close> lists the members of the Python set without duplicates; \<open>sorted(seen)[-2048:]\<close> is
  the last 2048 of the sorted list.
\<close>

definition replay_client_check :: "int \<Rightarrow> replay_client \<Rightarrow> replay_error + replay_client" where
  "replay_client_check counter r =
     (if counter \<in> set (rc_seen r) then Inl (ReplayDetected ''server replay detected'')
      else
        let high = max (rc_high r) counter;
            seen = List.insert counter (rc_seen r);
            seen = (if length seen > 4096 then (let s = sort seen in drop (length s - 2048) s) else seen)
        in Inr \<lparr>rc_high = high, rc_seen = seen\<rparr>)"

definition rc_ok :: "replay_client \<Rightarrow> bool" where
  "rc_ok r \<longleftrightarrow> distinct (rc_seen r) \<and> length (rc_seen r) \<le> 4096"

lemma rc_ok_new: "rc_ok replay_client_new"
  by (simp add: rc_ok_def replay_client_new_def)

lemma replay_client_check_ok:
  "rc_ok r \<Longrightarrow> replay_client_check c r = Inr r' \<Longrightarrow> rc_ok r'"
  by (auto simp: replay_client_check_def rc_ok_def Let_def distinct_drop distinct_insort
      split: if_splits)

lemma replay_client_below_bound:
  assumes "rc_ok r" and "length (rc_seen r) < 4096" and "replay_client_check c r = Inr r'"
  shows "set (rc_seen r') = insert c (set (rc_seen r))" and "length (rc_seen r') = Suc (length (rc_seen r))"
  using assms by (auto simp: replay_client_check_def rc_ok_def Let_def split: if_splits)

text \<open>The trim forgets the smallest counters, and nothing else rejects them.\<close>

lemma sorted_drop_min:
  assumes "distinct xs" and "m \<in> set xs" and "\<forall>x \<in> set xs. m \<le> x" and "0 < k"
  shows "m \<notin> set (drop k (sort xs))"
proof (cases "sort xs")
  case Nil
  then show ?thesis by simp
next
  case (Cons y ys)
  have "set (y # ys) = set xs" "sorted (y # ys)" "distinct (y # ys)"
    using Cons assms(1) by (metis set_sort, metis sorted_sort, metis distinct_sort)
  then have "\<forall>x \<in> set xs. y \<le> x" "y \<in> set xs" "y \<notin> set ys" by auto
  with assms have "y = m" by (auto intro: order.antisym)
  with \<open>y \<notin> set ys\<close> have "m \<notin> set ys" by simp
  moreover from \<open>0 < k\<close> obtain j where "k = Suc j" by (cases k) auto
  ultimately show ?thesis using Cons by (auto dest: in_set_dropD)
qed

lemma replay_client_forgets:
  assumes "rc_ok r" and "length (rc_seen r) = 4096" and "m \<in> set (rc_seen r)"
    and "\<forall>x \<in> set (rc_seen r). m \<le> x" and "m < c" and "c \<notin> set (rc_seen r)"
  shows "\<exists>r'. replay_client_check c r = Inr r' \<and> is_ok (replay_client_check m r')"
proof -
  define s where "s = sort (List.insert c (rc_seen r))"
  have len: "length s = 4097" using assms(2,6) by (simp add: s_def)
  have "m \<notin> set (drop 2049 s)"
    unfolding s_def by (rule sorted_drop_min) (use assms in \<open>auto simp: rc_ok_def\<close>)
  moreover have "replay_client_check c r = Inr \<lparr>rc_high = max (rc_high r) c, rc_seen = drop 2049 s\<rparr>"
    using assms len by (simp add: replay_client_check_def Let_def s_def)
  ultimately show ?thesis by (auto simp: replay_client_check_def Let_def)
qed

section \<open>Properties\<close>

text \<open>C10. The server's bitmap window decides every sequence of counters exactly as a server that
  remembers the whole history would: a counter is accepted if and only if it is not negative, was
  not accepted before, and is less than 1024 below the highest accepted one.\<close>

theorem window_implements_history: "window_run replay_window_new cs = spec_run [] cs"
  unfolding window_run_eq by (rule represents_run) (rule represents_new)

definition window_accepted :: "int list \<Rightarrow> int list" where
  "window_accepted cs = map fst (filter snd (zip cs (window_run replay_window_new cs)))"

text \<open>Whatever counters an attacker replays, in whatever order, the server's window accepts no
  counter twice.\<close>

theorem window_accepts_once: "distinct (window_accepted cs)"
  unfolding window_accepted_def window_run_eq
  using rw.accepted_distinct [OF rw_ok_new, of cs] by (simp add: rw.accepted_def)

text \<open>The client's bounded set of server counters forgets: after the trim that 4,096 entries
  trigger, the smallest recorded counter is accepted a second time.\<close>

theorem client_replay_set_forgets:
  assumes "rc_ok r" and "length (rc_seen r) = 4096" and "m \<in> set (rc_seen r)"
    and "\<forall>x \<in> set (rc_seen r). m \<le> x" and "m < c" and "c \<notin> set (rc_seen r)"
  shows "\<exists>r'. replay_client_check c r = Inr r' \<and> is_ok (replay_client_check m r')"
  using assms by (rule replay_client_forgets)

theorem client_replay_set_forgets_witness:
  "\<exists>r'. replay_client_check 4096 \<lparr>rc_high = 4095, rc_seen = map int [0..<4096]\<rparr> = Inr r' \<and>
     is_ok (replay_client_check 0 r')"
proof (rule client_replay_set_forgets)
  show "rc_ok \<lparr>rc_high = 4095, rc_seen = map int [0..<4096]\<rparr>"
    by (simp add: rc_ok_def distinct_map del: upt_rec_numeral)
qed (auto simp del: upt_rec_numeral simp: image_iff intro: bexI [of _ 0])

end
