(* ===== verification/Crypto.thy ===== *)
theory Crypto
  imports Wire Sha256
begin

text \<open>
  Key derivation (\<open>crypto/kdf.py\<close> on both sides) and the AEAD envelope (\<open>crypto/envelope.py\<close> on
  both sides). The primitives of PyNaCl (X25519, Ed25519, ChaCha20-Poly1305) are not code of the
  repository: they are the fields of a record \<open>nacl\<close> that the definitions take as an argument,
  and \<open>nacl_ok\<close> names the documented laws the protocol relies on. The hashes are those of
  theory \<open>Sha256\<close>.
\<close>

section \<open>The primitives of PyNaCl\<close>

record nacl =
  x25519_base :: "bytes \<Rightarrow> bytes" \<comment> \<open>public key of a secret key\<close>
  x25519 :: "bytes \<Rightarrow> bytes \<Rightarrow> bytes result" \<comment> \<open>\<open>crypto_scalarmult\<close>, raises on a low-order point\<close>
  ed25519_pub :: "bytes \<Rightarrow> bytes" \<comment> \<open>verify key of a seed\<close>
  ed25519_sign :: "bytes \<Rightarrow> bytes \<Rightarrow> bytes" \<comment> \<open>\<open>sign(m).signature\<close>\<close>
  ed25519_verify :: "bytes \<Rightarrow> bytes \<Rightarrow> bytes \<Rightarrow> bool" \<comment> \<open>\<open>VerifyKey(vk).verify(m, sig)\<close> does not raise\<close>
  aead_encrypt :: "bytes \<Rightarrow> bytes \<Rightarrow> bytes \<Rightarrow> bytes \<Rightarrow> bytes" \<comment> \<open>plaintext, aad, nonce, key\<close>
  aead_decrypt :: "bytes \<Rightarrow> bytes \<Rightarrow> bytes \<Rightarrow> bytes \<Rightarrow> bytes option" \<comment> \<open>\<open>None\<close> where it raises\<close>

definition aead_ok :: "nacl \<Rightarrow> bool" where
  "aead_ok N \<longleftrightarrow>
     (\<forall>pt aad n k. length n = 12 \<longrightarrow> length k = 32 \<longrightarrow>
        aead_decrypt N (aead_encrypt N pt aad n k) aad n k = Some pt \<and>
        length (aead_encrypt N pt aad n k) = length pt + 16)"

text \<open>ChaCha20-Poly1305 is deterministic: what decrypts is what would have been encrypted.\<close>

definition aead_exact :: "nacl \<Rightarrow> bool" where
  "aead_exact N \<longleftrightarrow>
     (\<forall>ct aad n k pt. aead_decrypt N ct aad n k = Some pt \<longrightarrow> ct = aead_encrypt N pt aad n k)"

definition x25519_ok :: "nacl \<Rightarrow> bool" where
  "x25519_ok N \<longleftrightarrow>
     (\<forall>a. length a = 32 \<longrightarrow> length (x25519_base N a) = 32) \<and>
     (\<forall>a b. length a = 32 \<longrightarrow> length b = 32 \<longrightarrow>
        (\<exists>k. x25519 N a (x25519_base N b) = Inr k \<and> x25519 N b (x25519_base N a) = Inr k))"

definition ed25519_ok :: "nacl \<Rightarrow> bool" where
  "ed25519_ok N \<longleftrightarrow> (\<forall>sk m. ed25519_verify N (ed25519_pub N sk) m (ed25519_sign N sk m))"

definition nacl_ok :: "nacl \<Rightarrow> bool" where
  "nacl_ok N \<longleftrightarrow> aead_ok N \<and> x25519_ok N \<and> ed25519_ok N"

section \<open>HKDF\<close>

definition HKDF_HASH_LEN :: nat where
  "HKDF_HASH_LEN = 32"

definition hkdf_extract :: "bytes \<Rightarrow> bytes \<Rightarrow> bytes" where
  "hkdf_extract salt ikm =
     (let salt = (if salt = [] then replicate HKDF_HASH_LEN 0 else salt) in hmac_sha256 salt ikm)"

text \<open>
  The expansion loop. \<open>bytes([counter])\<close> raises \<open>ValueError\<close> from 256 on, which also bounds the
  number of iterations.
\<close>

function hkdf_loop :: "bytes \<Rightarrow> bytes \<Rightarrow> nat \<Rightarrow> bytes list \<Rightarrow> bytes \<Rightarrow> nat \<Rightarrow> bytes result" where
  "hkdf_loop prk info len blocks prev counter =
     (if sum_list (map length blocks) < len then
        if 256 \<le> counter then Inl (ValueError ''bytes must be in range(0, 256)'')
        else
          let prev = hmac_sha256 prk (prev @ info @ [of_nat counter])
          in hkdf_loop prk info len (blocks @ [prev]) prev (counter + 1)
      else Inr (take len (concat blocks)))"
  by pat_completeness auto
termination
  by (relation "measure (\<lambda>(prk, info, len, blocks, prev, counter). 256 - counter)") auto

declare hkdf_loop.simps [simp del]

definition hkdf_expand :: "bytes \<Rightarrow> bytes \<Rightarrow> nat \<Rightarrow> bytes result" where
  "hkdf_expand prk info len =
     (if len > 255 * HKDF_HASH_LEN then Inl (ValueError ''HKDF length exceeds maximum'')
      else hkdf_loop prk info len [] [] 1)"

definition hkdf :: "bytes \<Rightarrow> bytes \<Rightarrow> bytes \<Rightarrow> nat \<Rightarrow> bytes result" where
  "hkdf ikm salt info len = hkdf_expand (hkdf_extract salt ikm) info len"

text \<open>The client's copy: extract and expand in one function, without the length guard.\<close>

definition client_hkdf :: "bytes \<Rightarrow> bytes \<Rightarrow> bytes \<Rightarrow> nat \<Rightarrow> bytes result" where
  "client_hkdf ikm salt info len =
     (let salt = (if salt = [] then replicate 32 0 else salt);
          prk = hmac_sha256 salt ikm
      in hkdf_loop prk info len [] [] 1)"

definition fingerprint :: "bytes \<Rightarrow> string" where
  "fingerprint pubkey = (let digest = sha256 pubkey in str_lower (take 16 (b32encode digest)))"

definition client_fingerprint_of :: "bytes \<Rightarrow> string" where
  "client_fingerprint_of pubkey = str_lower (take 16 (b32encode (sha256 pubkey)))"

text \<open>The loop writes a zero to every index of a mutable buffer.\<close>

fun zeroize_from :: "nat \<Rightarrow> nat \<Rightarrow> bytes \<Rightarrow> bytes" where
  "zeroize_from i 0 buf = buf"
| "zeroize_from i (Suc n) buf = zeroize_from (Suc i) n (buf[i := 0])"

definition zeroize :: "bytes \<Rightarrow> bytes" where
  "zeroize buf = zeroize_from 0 (length buf) buf"

lemma zeroize_from_eq:
  "i + n = length buf \<Longrightarrow> zeroize_from i n buf = take i buf @ replicate n 0"
proof (induction n arbitrary: i buf)
  case 0
  then show ?case by simp
next
  case (Suc n)
  then have "zeroize_from (Suc i) n (buf[i := 0]) = take (Suc i) (buf[i := 0]) @ replicate n 0"
    by simp
  with Suc.prems show ?case by (simp add: take_Suc_conv_app_nth)
qed

lemma zeroize_zero: "zeroize buf = replicate (length buf) 0"
  by (simp add: zeroize_def zeroize_from_eq)

lemma hkdf_loop_total:
  assumes "\<forall>b \<in> set blocks. length b = 32" and "counter = Suc (length blocks)"
    and "len \<le> 255 * 32"
  shows "\<exists>out. hkdf_loop prk info len blocks prev counter = Inr out \<and> length out = len"
  using assms
proof (induction prk info len blocks prev counter rule: hkdf_loop.induct)
  case (1 prk info len blocks prev counter)
  have sum: "sum_list (map length blocks) = 32 * length blocks"
    using "1.prems"(1) by (induction blocks) auto
  show ?case
  proof (cases "sum_list (map length blocks) < len")
    case True
    with sum "1.prems" have "\<not> 256 \<le> counter" by simp
    with True "1.IH" [OF True this refl] "1.prems" show ?thesis
      by (subst hkdf_loop.simps) (simp add: Let_def)
  next
    case False
    then show ?thesis by (subst hkdf_loop.simps) (simp add: length_concat)
  qed
qed

lemma hkdf_total:
  "len \<le> 255 * 32 \<Longrightarrow> \<exists>out. hkdf ikm salt info len = Inr out \<and> length out = len"
  using hkdf_loop_total [of "[]" 1 len "hkdf_extract salt ikm" info "[]"]
  by (simp add: hkdf_def hkdf_expand_def HKDF_HASH_LEN_def)

lemma client_hkdf_eq: "len \<le> 255 * 32 \<Longrightarrow> client_hkdf ikm salt info len = hkdf ikm salt info len"
  by (simp add: client_hkdf_def hkdf_def hkdf_expand_def hkdf_extract_def HKDF_HASH_LEN_def Let_def)

lemma fingerprints_agree: "client_fingerprint_of pk = fingerprint pk"
  by (simp add: client_fingerprint_of_def fingerprint_def)

section \<open>Direction keys and nonces\<close>

record direction_keys =
  dk_key :: bytes
  dk_nonce_prefix :: bytes

text \<open>The dataclass constructor with its \<open>__post_init__\<close>.\<close>

definition mk_direction_keys :: "bytes \<Rightarrow> bytes \<Rightarrow> direction_keys result" where
  "mk_direction_keys key prefix =
     (if length key \<noteq> 32 then Inl (ValueError ''key must be 32 bytes'')
      else if length prefix \<noteq> 4 then Inl (ValueError ''nonce_prefix must be 4 bytes'')
      else Inr \<lparr>dk_key = key, dk_nonce_prefix = prefix\<rparr>)"

definition dk_ok :: "direction_keys \<Rightarrow> bool" where
  "dk_ok d \<longleftrightarrow> length (dk_key d) = 32 \<and> length (dk_nonce_prefix d) = 4"

lemma mk_direction_keys_ok: "mk_direction_keys k p = Inr d \<Longrightarrow> dk_ok d"
  by (auto simp: mk_direction_keys_def dk_ok_def split: if_splits)

definition nonce_for :: "direction_keys \<Rightarrow> int \<Rightarrow> bytes result" where
  "nonce_for direction counter =
     (if counter < 0 \<or> drop_bit 64 counter \<noteq> 0 then Inl (ValueError ''counter out of range'')
      else case to_bytes_be 8 counter of
        Inl e \<Rightarrow> Inl e
      | Inr ctr \<Rightarrow>
          let nonce = dk_nonce_prefix direction @ ctr in
          if length nonce \<noteq> NONCE_BYTES then Inl AssertionError else Inr nonce)"

lemma nonce_for_eq:
  "dk_ok d \<Longrightarrow> nonce_for d c =
    (if counter_ok c then Inr (dk_nonce_prefix d @ be_enc 8 c)
     else Inl (ValueError ''counter out of range''))"
  by (simp add: nonce_for_def counter_range_bits to_bytes_be_8 dk_ok_def NONCE_BYTES_def)

lemma nonce_for_Inr_iff:
  "dk_ok d \<Longrightarrow> nonce_for d c = Inr n \<longleftrightarrow> counter_ok c \<and> n = dk_nonce_prefix d @ be_enc 8 c"
  by (auto simp: nonce_for_eq)

lemma nonce_for_inj:
  "dk_ok d \<Longrightarrow> nonce_for d c = Inr n \<Longrightarrow> nonce_for d c' = Inr n \<Longrightarrow> c = c'"
  using be_enc_8_inj by (auto simp: nonce_for_Inr_iff)

section \<open>Sealing and opening\<close>

datatype seal_error = SealExn exn | SealEnvelope envelope_error

definition seal ::
  "nacl \<Rightarrow> direction_keys \<Rightarrow> int \<Rightarrow> bytes \<Rightarrow> string \<Rightarrow> string \<Rightarrow> bytes \<Rightarrow> seal_error + bytes" where
  "seal N direction counter session_id method path plaintext =
     (case nonce_for direction counter of
        Inl e \<Rightarrow> Inl (SealExn e)
      | Inr nonce \<Rightarrow>
          (case build_aad method path session_id counter of
             Inl e \<Rightarrow> Inl (SealExn e)
           | Inr aad \<Rightarrow>
               let ciphertext = aead_encrypt N plaintext aad nonce (dk_key direction) in
               (case pack_envelope session_id counter nonce ciphertext of
                  Inl e \<Rightarrow> Inl (SealEnvelope e)
                | Inr buf \<Rightarrow> Inr buf)))"

datatype open_error = EnvelopeAuthError string | OpenExn exn

definition open_envelope ::
  "nacl \<Rightarrow> direction_keys \<Rightarrow> bytes \<Rightarrow> string \<Rightarrow> string \<Rightarrow> bytes \<Rightarrow> open_error + envelope \<times> bytes" where
  "open_envelope N direction expected_session_id method path body =
     (case unpack_envelope body of
        Inl e \<Rightarrow> Inl (EnvelopeAuthError (envelope_error_text e))
      | Inr env \<Rightarrow>
          if env_session_id env \<noteq> expected_session_id then Inl (EnvelopeAuthError ''session_id mismatch'')
          else (case build_aad method path (env_session_id env) (env_counter env) of
             Inl e \<Rightarrow> Inl (OpenExn e)
           | Inr aad \<Rightarrow>
               (case aead_decrypt N (env_ciphertext env) aad (env_nonce env) (dk_key direction) of
                  None \<Rightarrow> Inl (EnvelopeAuthError ''decrypt failed'')
                | Some plaintext \<Rightarrow> Inr (env, plaintext))))"

definition method_ok :: "string \<Rightarrow> bool" where
  "method_ok m \<longleftrightarrow> list_all is_ascii (str_upper m)"

lemma build_aad_method_ok:
  "counter_ok c \<Longrightarrow> method_ok m \<Longrightarrow> \<exists>aad. build_aad m p sid c = Inr aad"
  by (simp add: build_aad_Inr_iff method_ok_def)

lemma seal_Inr_iff:
  assumes "dk_ok d"
  shows "seal N d c sid m p pt = Inr buf \<longleftrightarrow>
    counter_ok c \<and> length sid = 16 \<and>
    (\<exists>aad. build_aad m p sid c = Inr aad \<and>
       buf = frame sid c (dk_nonce_prefix d @ be_enc 8 c)
         (aead_encrypt N pt aad (dk_nonce_prefix d @ be_enc 8 c) (dk_key d)))"
  using assms
  by (auto simp: seal_def nonce_for_eq pack_envelope_eq Let_def dk_ok_def split: sum.splits)

lemma seal_total:
  assumes "dk_ok d" and "counter_ok c" and "length sid = 16" and "method_ok m"
  shows "\<exists>buf. seal N d c sid m p pt = Inr buf"
  using build_aad_method_ok [OF assms(2,4)] assms by (auto simp: seal_Inr_iff)

lemma open_seal:
  assumes "aead_ok N" and "dk_ok d" and "seal N d c sid m p pt = Inr buf"
  shows "\<exists>env. open_envelope N d sid m p buf = Inr (env, pt) \<and> env_counter env = c \<and>
    env_session_id env = sid \<and> env_nonce env = dk_nonce_prefix d @ be_enc 8 c"
proof -
  let ?n = "dk_nonce_prefix d @ be_enc 8 c"
  from assms(3) obtain aad where ctr: "counter_ok c" and sid: "length sid = 16"
    and aad: "build_aad m p sid c = Inr aad"
    and buf: "buf = frame sid c ?n (aead_encrypt N pt aad ?n (dk_key d))"
    by (auto simp: seal_Inr_iff [OF assms(2)])
  have n: "length ?n = 12" and k: "length (dk_key d) = 32" using assms(2) by (simp_all add: dk_ok_def)
  with assms(1) have dec: "aead_decrypt N (aead_encrypt N pt aad ?n (dk_key d)) aad ?n (dk_key d) = Some pt"
    and len: "16 \<le> length (aead_encrypt N pt aad ?n (dk_key d))"
    by (simp_all add: aead_ok_def)
  show ?thesis
    using unpack_frame [OF sid n ctr len] aad dec by (simp add: open_envelope_def buf)
qed

text \<open>What opens was sealed for this very session, counter, method and path.\<close>

lemma open_exact:
  assumes "aead_exact N" and "open_envelope N d sid m p buf = Inr (env, pt)"
  shows "env_session_id env = sid" and "envelope_ok env"
    and "\<exists>aad. build_aad m p sid (env_counter env) = Inr aad \<and>
      buf = frame sid (env_counter env) (env_nonce env)
        (aead_encrypt N pt aad (env_nonce env) (dk_key d))"
proof -
  from assms(2) obtain aad where un: "unpack_envelope buf = Inr env" and sid: "env_session_id env = sid"
    and aad: "build_aad m p sid (env_counter env) = Inr aad"
    and dec: "aead_decrypt N (env_ciphertext env) aad (env_nonce env) (dk_key d) = Some pt"
    by (auto simp: open_envelope_def split: sum.splits if_splits option.splits)
  show "env_session_id env = sid" "envelope_ok env"
    using sid unpack_Inr(1) [OF un] by simp_all
  have "env_ciphertext env = aead_encrypt N pt aad (env_nonce env) (dk_key d)"
    using assms(1) dec by (simp add: aead_exact_def)
  then show "\<exists>aad. build_aad m p sid (env_counter env) = Inr aad \<and>
      buf = frame sid (env_counter env) (env_nonce env)
        (aead_encrypt N pt aad (env_nonce env) (dk_key d))"
    using aad unpack_Inr(2) [OF un] sid by auto
qed

lemma open_counter: "open_envelope N d sid m p buf = Inr (env, pt) \<Longrightarrow> unpack_envelope buf = Inr env"
  by (auto simp: open_envelope_def split: sum.splits if_splits option.splits)

section \<open>The client's copies\<close>

text \<open>\<open>client/.../crypto/envelope.py\<close> repeats the three functions; the keys are the same dataclass.\<close>

definition client_nonce_for :: "direction_keys \<Rightarrow> int \<Rightarrow> bytes result" where
  "client_nonce_for direction counter =
     (if counter < 0 \<or> drop_bit 64 counter \<noteq> 0 then Inl (ValueError ''counter out of range'')
      else and_then (to_bytes_be 8 counter) (\<lambda>ctr.
        let nonce = dk_nonce_prefix direction @ ctr in
        if length nonce = NONCE_BYTES then Inr nonce else Inl AssertionError))"

definition client_seal ::
  "nacl \<Rightarrow> direction_keys \<Rightarrow> int \<Rightarrow> bytes \<Rightarrow> string \<Rightarrow> string \<Rightarrow> bytes \<Rightarrow> seal_error + bytes" where
  "client_seal N direction counter session_id method path plaintext =
     (case and_then (client_nonce_for direction counter) (\<lambda>nonce.
           and_then (build_aad method path session_id counter) (\<lambda>aad.
           Inr (nonce, aead_encrypt N plaintext aad nonce (dk_key direction)))) of
        Inl e \<Rightarrow> Inl (SealExn e)
      | Inr (nonce, ciphertext) \<Rightarrow>
          (case pack_envelope session_id counter nonce ciphertext of
             Inl e \<Rightarrow> Inl (SealEnvelope e)
           | Inr buf \<Rightarrow> Inr buf))"

definition client_open_envelope ::
  "nacl \<Rightarrow> direction_keys \<Rightarrow> bytes \<Rightarrow> string \<Rightarrow> string \<Rightarrow> bytes \<Rightarrow> open_error + envelope \<times> bytes" where
  "client_open_envelope N direction expected_session_id method path body =
     (case unpack_envelope body of
        Inl e \<Rightarrow> Inl (EnvelopeAuthError (envelope_error_text e))
      | Inr env \<Rightarrow>
          if env_session_id env \<noteq> expected_session_id
          then Inl (EnvelopeAuthError ''session_id mismatch'')
          else case build_aad method path (env_session_id env) (env_counter env) of
            Inl e \<Rightarrow> Inl (OpenExn e)
          | Inr aad \<Rightarrow>
              (case aead_decrypt N (env_ciphertext env) aad (env_nonce env) (dk_key direction) of
                 Some plaintext \<Rightarrow> Inr (env, plaintext)
               | None \<Rightarrow> Inl (EnvelopeAuthError ''decrypt failed'')))"

lemma client_nonce_for_eq: "client_nonce_for d c = nonce_for d c"
  by (simp add: client_nonce_for_def nonce_for_def Let_def split: sum.splits)

lemma client_seal_eq: "client_seal N d c sid m p pt = seal N d c sid m p pt"
  by (simp add: client_seal_def seal_def client_nonce_for_eq Let_def split: sum.splits)

lemma client_open_eq: "client_open_envelope N d sid m p buf = open_envelope N d sid m p buf"
  by (auto simp: client_open_envelope_def open_envelope_def split: sum.splits option.splits)

section \<open>A concrete instance of the primitives\<close>

text \<open>
  Functions that satisfy the laws, on which theorems about \<open>nacl\<close> are applied. They are not secure;
  they only show that the laws can hold together.
\<close>

definition demo_nacl :: nacl where
  "demo_nacl = \<lparr>x25519_base = (\<lambda>a. a), x25519 = (\<lambda>a b. Inr (map2 (+) a b)),
     ed25519_pub = (\<lambda>sk. sk), ed25519_sign = (\<lambda>sk m. sk @ m), ed25519_verify = (\<lambda>vk m s. s = vk @ m),
     aead_encrypt = (\<lambda>pt aad n k. pt @ replicate 16 (of_nat (length aad + length n + length k))),
     aead_decrypt = (\<lambda>ct aad n k.
       if 16 \<le> length ct \<and> drop (length ct - 16) ct
            = replicate 16 (of_nat (length aad + length n + length k))
       then Some (take (length ct - 16) ct) else None)\<rparr>"

lemma demo_nacl_ok: "nacl_ok demo_nacl" "aead_exact demo_nacl"
proof -
  have comm: "map2 (+) a b = map2 (+) b (a :: bytes)" for a b
    by (rule nth_equalityI) (auto simp: add.commute)
  show "nacl_ok demo_nacl"
    using comm by (auto simp: nacl_ok_def aead_ok_def x25519_ok_def ed25519_ok_def demo_nacl_def)
  show "aead_exact demo_nacl"
    by (auto simp: aead_exact_def demo_nacl_def split: if_splits) (metis append_take_drop_id)
qed

lemma demo_nacl_laws: "aead_ok demo_nacl" "x25519_ok demo_nacl" "ed25519_ok demo_nacl"
  using demo_nacl_ok(1) by (simp_all add: nacl_ok_def)

section \<open>Properties\<close>

text \<open>C21. What one side seals for a session, counter, method and path, the other side opens under the
  same direction keys, in both directions: sealing cannot fail for an encodable method and a 64-bit
  counter, and the plaintext and the counter come back.\<close>

theorem seal_then_open:
  assumes "aead_ok N" and "dk_ok d" and "counter_ok c" and "length sid = 16" and "method_ok m"
  shows "\<exists>buf env. client_seal N d c sid m p pt = Inr buf \<and> open_envelope N d sid m p buf = Inr (env, pt) \<and>
    seal N d c sid m p pt = Inr buf \<and> client_open_envelope N d sid m p buf = Inr (env, pt) \<and>
    env_counter env = c \<and> env_session_id env = sid"
  unfolding client_seal_eq client_open_eq
  using seal_total [OF assms(2-5)] open_seal [OF assms(1,2)] by meson

definition demo_keys :: direction_keys where
  "demo_keys = \<lparr>dk_key = replicate 32 5, dk_nonce_prefix = [1, 2, 3, 4]\<rparr>"

lemma demo_keys_ok: "dk_ok demo_keys"
  by (simp add: dk_ok_def demo_keys_def)

lemma demo_seal: "counter_ok c \<Longrightarrow> \<exists>buf. seal demo_nacl demo_keys c (replicate 16 8) ''GET'' ''/'' pt = Inr buf"
  by (rule seal_total) (simp_all add: demo_keys_ok, code_simp)

theorem seal_then_open_witness:
  "\<exists>buf env. client_seal demo_nacl demo_keys 3 (replicate 16 8) ''POST'' ''/v1/chat'' [1, 2] = Inr buf \<and>
     open_envelope demo_nacl demo_keys (replicate 16 8) ''POST'' ''/v1/chat'' buf = Inr (env, [1, 2]) \<and>
     seal demo_nacl demo_keys 3 (replicate 16 8) ''POST'' ''/v1/chat'' [1, 2] = Inr buf \<and>
     client_open_envelope demo_nacl demo_keys (replicate 16 8) ''POST'' ''/v1/chat'' buf = Inr (env, [1, 2]) \<and>
     env_counter env = 3 \<and> env_session_id env = replicate 16 8"
proof (rule seal_then_open)
  show "method_ok ''POST''" by code_simp
qed (simp_all add: demo_nacl_laws demo_keys_ok counter_ok_def)



text \<open>A direction never uses a nonce twice while its counter grows: two envelopes sealed by one
  direction with different counters carry different 12-byte nonces, whatever their contents.\<close>

theorem nonces_never_repeat:
  assumes "dk_ok d" and "seal N d c sid m p pt = Inr buf" and "seal N d c' sid' m' p' pt' = Inr buf'"
    and "c \<noteq> c'"
  shows "\<exists>n n'. nonce_for d c = Inr n \<and> nonce_for d c' = Inr n' \<and> n \<noteq> n' \<and>
    py_slice buf 29 41 = n \<and> py_slice buf' 29 41 = n'"
proof -
  have slice: "\<exists>n. nonce_for d c = Inr n \<and> py_slice buf 29 41 = n"
    if s: "seal N d c sid m p pt = Inr buf" for c sid m p pt buf
    using s [unfolded seal_Inr_iff [OF assms(1)]] assms(1)
    by (auto simp: nonce_for_eq frame_def py_slice_def wire_sizes dk_ok_def)
  obtain n n' where n: "nonce_for d c = Inr n" "nonce_for d c' = Inr n'"
    and sl: "py_slice buf 29 41 = n" "py_slice buf' 29 41 = n'"
    using slice [OF assms(2)] slice [OF assms(3)] by blast
  moreover have "n \<noteq> n'" using nonce_for_inj [OF assms(1)] n assms(4) by blast
  ultimately show ?thesis by blast
qed

theorem nonces_never_repeat_witness:
  "\<exists>buf buf'. seal demo_nacl demo_keys 1 (replicate 16 8) ''GET'' ''/'' [] = Inr buf \<and>
     seal demo_nacl demo_keys 2 (replicate 16 8) ''GET'' ''/'' [] = Inr buf' \<and>
     py_slice buf 29 41 \<noteq> py_slice buf' 29 41"
proof -
  obtain buf buf' where "seal demo_nacl demo_keys 1 (replicate 16 8) ''GET'' ''/'' [] = Inr buf"
    "seal demo_nacl demo_keys 2 (replicate 16 8) ''GET'' ''/'' [] = Inr buf'"
    using demo_seal [of 1 "[]"] demo_seal [of 2 "[]"] by (auto simp: counter_ok_def)
  with nonces_never_repeat [OF demo_keys_ok this] show ?thesis by auto
qed

text \<open>The server's and the client's HKDF agree for every length up to the maximum of RFC 5869 and
  return exactly that many bytes; beyond it the server refuses.\<close>

theorem hkdf_sides_agree:
  "if len \<le> 255 * 32 then \<exists>out. hkdf ikm salt info len = Inr out \<and> client_hkdf ikm salt info len = Inr out \<and>
       length out = len
   else hkdf ikm salt info len = Inl (ValueError ''HKDF length exceeds maximum'')"
  using hkdf_total [of len ikm salt info] client_hkdf_eq [of len ikm salt info]
  by (auto simp: hkdf_def hkdf_expand_def HKDF_HASH_LEN_def)

end
