(* ===== verification/Json.thy ===== *)
theory Json
  imports Prelude "HOL-Library.Countable"
begin

text \<open>
  JSON values as \<open>json.loads\<close> returns them and \<open>json.dumps\<close> takes them (objects keep the order of
  their keys). The text form, which includes the shortest decimal form of IEEE doubles, is not
  modelled: the two functions are an argument \<open>json_lib\<close> of the definitions that use them, and
  \<open>json_roundtrips\<close> is the documented law for a value.
\<close>

datatype json =
    JNull
  | JBool bool
  | JInt int
  | JFloat rat
  | JStr string
  | JList "json list"
  | JObj "(string \<times> json) list"

instance json :: countable
  by countable_datatype

record json_lib =
  json_dumps :: "json \<Rightarrow> bytes" \<comment> \<open>\<open>json.dumps(v).encode("utf-8")\<close>\<close>
  json_dumps_indent :: "json \<Rightarrow> bytes" \<comment> \<open>the same with \<open>indent=2\<close>\<close>
  json_loads :: "bytes \<Rightarrow> json option" \<comment> \<open>\<open>None\<close> where it raises \<open>ValueError\<close>\<close>

definition json_roundtrips :: "json_lib \<Rightarrow> json \<Rightarrow> bool" where
  "json_roundtrips J v \<longleftrightarrow> json_loads J (json_dumps J v) = Some v"

text \<open>A library that satisfies the law at every value, used to instantiate theorems.\<close>

definition unary_json :: json_lib where
  "unary_json = \<lparr>json_dumps = (\<lambda>v. replicate (Suc (to_nat v)) 0), json_dumps_indent = (\<lambda>v. replicate (Suc (to_nat v)) 0),
     json_loads = (\<lambda>bs. Some (from_nat (length (filter (\<lambda>b. b \<noteq> 10) bs) - 1)))\<rparr>"

lemma unary_json_roundtrips [simp]: "json_roundtrips unary_json v"
  by (simp add: json_roundtrips_def unary_json_def)

lemma unary_json_nonempty [simp]: "json_dumps unary_json v \<noteq> []"
  by (simp add: unary_json_def)

text \<open>A file the source writes: indented text and a final newline, which \<open>json.loads\<close> skips.\<close>

definition json_file_roundtrips :: "json_lib \<Rightarrow> bool" where
  "json_file_roundtrips J \<longleftrightarrow> (\<forall>v. json_loads J (json_dumps_indent J v @ [10]) = Some v)"

lemma unary_json_file_roundtrips: "json_file_roundtrips unary_json"
  by (simp add: json_file_roundtrips_def unary_json_def)

text \<open>\<open>data.get(k)\<close> and \<open>data[k]\<close>; \<open>get\<close> on anything but an object raises \<open>AttributeError\<close>.\<close>

fun json_get :: "json \<Rightarrow> string \<Rightarrow> json option result" where
  "json_get (JObj kvs) k = Inr (map_of kvs k)"
| "json_get v k = Inl AttributeError"

fun json_item :: "json \<Rightarrow> string \<Rightarrow> json result" where
  "json_item (JObj kvs) k = (case map_of kvs k of None \<Rightarrow> Inl (KeyError k) | Some v \<Rightarrow> Inr v)"
| "json_item v k = Inl TypeError"

fun json_str :: "json \<Rightarrow> string result" where
  "json_str (JStr s) = Inr s"
| "json_str v = Inl TypeError"

fun json_opt_str :: "string option \<Rightarrow> json" where
  "json_opt_str None = JNull"
| "json_opt_str (Some s) = JStr s"

fun json_opt_int :: "int option \<Rightarrow> json" where
  "json_opt_int None = JNull"
| "json_opt_int (Some i) = JInt i"

text \<open>\<open>bool(v)\<close>, and iteration over a value (an object yields its keys, a string its characters).\<close>

fun json_truthy :: "json \<Rightarrow> bool" where
  "json_truthy JNull = False"
| "json_truthy (JBool b) = b"
| "json_truthy (JInt i) = (i \<noteq> 0)"
| "json_truthy (JFloat q) = (q \<noteq> 0)"
| "json_truthy (JStr s) = (s \<noteq> [])"
| "json_truthy (JList xs) = (xs \<noteq> [])"
| "json_truthy (JObj kvs) = (kvs \<noteq> [])"

fun json_iter :: "json \<Rightarrow> json list result" where
  "json_iter (JList xs) = Inr xs"
| "json_iter (JStr s) = Inr (map (\<lambda>c. JStr [c]) s)"
| "json_iter (JObj kvs) = Inr (map (JStr \<circ> fst) kvs)"
| "json_iter v = Inl TypeError"

end
