(* ===== verification/Attestation.thy ===== *)
theory Attestation
  imports Crypto Json
begin

text \<open>
  TEE attestation of the handshake: the server's backends (\<open>server/.../crypto/attestation.py\<close>)
  and the client's verifiers (\<open>client/.../crypto/attestation.py\<close>). A report carries the SHA-256 of
  the handshake transcript; the lemmas show that a report made for one transcript never verifies
  for another, and what a verifier's acceptance means.
\<close>

definition USERDATA_LEN :: nat where
  "USERDATA_LEN = 32"

section \<open>Server backends\<close>

datatype attestation_backend =
    NoneBackend
  | MockAttestationBackend string bytes \<comment> \<open>measurement, shared secret\<close>
  | SevSnpBackend
  | NitroEnclaveBackend

definition mock_mac :: "bytes \<Rightarrow> string \<Rightarrow> string \<Rightarrow> string result" where
  "mock_mac secret userdata_hex measurement =
     (case ascii_encode (userdata_hex @ ''|'' @ measurement) of
        Inl e \<Rightarrow> Inl e
      | Inr msg \<Rightarrow> Inr (hex_encode (hmac_sha256 secret msg)))"

definition mock_report :: "string \<Rightarrow> string \<Rightarrow> string \<Rightarrow> json" where
  "mock_report mac measurement userdata_hex =
     JObj [(''mac'', JStr mac), (''measurement'', JStr measurement), (''type'', JStr ''mock''),
           (''userdata'', JStr userdata_hex)]"

fun generate :: "json_lib \<Rightarrow> attestation_backend \<Rightarrow> bytes \<Rightarrow> bytes option result" where
  "generate J NoneBackend digest =
     (if length digest \<noteq> USERDATA_LEN then Inl (ValueError ''transcript_digest must be 32 bytes'')
      else Inr None)"
| "generate J (MockAttestationBackend measurement secret) digest =
     (if length digest \<noteq> USERDATA_LEN then Inl (ValueError ''transcript_digest must be 32 bytes'')
      else
        let userdata_hex = hex_encode digest in
        case mock_mac secret userdata_hex measurement of
          Inl e \<Rightarrow> Inl e
        | Inr mac \<Rightarrow> Inr (Some (json_dumps J (mock_report mac measurement userdata_hex))))"
| "generate J SevSnpBackend digest = Inl (NotImplementedError ''SevSnpBackend requires a SEV-SNP guest'')"
| "generate J NitroEnclaveBackend digest =
     Inl (NotImplementedError ''NitroEnclaveBackend requires a Nitro enclave'')"

section \<open>Client verifiers\<close>

datatype attestation_verifier = NoneVerifier | MockAttestationVerifier bytes

datatype verify_error = AttestationError string | VerifyOther exn

definition mock_verify_mac :: "bytes \<Rightarrow> json \<Rightarrow> verify_error + unit" where
  "mock_verify_mac secret data =
     (case and_then (json_item data ''userdata'') json_str of
        Inl e \<Rightarrow> Inl (VerifyOther e)
      | Inr userdata \<Rightarrow>
          (case and_then (json_item data ''measurement'') json_str of
             Inl e \<Rightarrow> Inl (VerifyOther e)
           | Inr measurement \<Rightarrow>
               (case mock_mac secret userdata measurement of
                  Inl e \<Rightarrow> Inl (VerifyOther e)
                | Inr expected_mac \<Rightarrow>
                    (case json_get data ''mac'' of
                       Inl e \<Rightarrow> Inl (VerifyOther e)
                     | Inr got \<Rightarrow>
                         (case (case got of None \<Rightarrow> Inr [] | Some v \<Rightarrow> json_str v) of
                            Inl e \<Rightarrow> Inl (VerifyOther e)
                          | Inr mac \<Rightarrow>
                              if \<not> list_all is_ascii mac then Inl (VerifyOther TypeError)
                              else if expected_mac \<noteq> mac then Inl (AttestationError ''MAC verification failed'')
                              else Inr ())))))"

fun verify :: "json_lib \<Rightarrow> attestation_verifier \<Rightarrow> bytes \<Rightarrow> bytes \<Rightarrow> string option \<Rightarrow> verify_error + unit" where
  "verify J NoneVerifier blob expected_userdata expected_measurement =
     (if expected_measurement \<noteq> None
      then Inl (AttestationError ''NoneVerifier cannot verify pinned measurement'') else Inr ())"
| "verify J (MockAttestationVerifier secret) blob expected_userdata expected_measurement =
     (if length expected_userdata \<noteq> USERDATA_LEN
      then Inl (AttestationError ''expected_userdata must be 32 bytes'')
      else case json_loads J blob of
        None \<Rightarrow> Inl (AttestationError ''blob is not valid JSON'')
      | Some data \<Rightarrow>
          (case json_get data ''type'' of
             Inl e \<Rightarrow> Inl (VerifyOther e)
           | Inr ty \<Rightarrow>
               if ty \<noteq> Some (JStr ''mock'') then Inl (AttestationError ''unexpected attestation type'')
               else (case json_get data ''userdata'' of
                  Inl e \<Rightarrow> Inl (VerifyOther e)
                | Inr ud \<Rightarrow>
                    if ud \<noteq> Some (JStr (hex_encode expected_userdata))
                    then Inl (AttestationError ''userdata does not match transcript digest'')
                    else (case json_get data ''measurement'' of
                       Inl e \<Rightarrow> Inl (VerifyOther e)
                     | Inr meas \<Rightarrow>
                         if expected_measurement \<noteq> None \<and> meas \<noteq> map_option JStr expected_measurement
                         then Inl (AttestationError ''measurement mismatch'')
                         else mock_verify_mac secret data))))"

definition transcript_digest :: "bytes \<Rightarrow> bytes" where
  "transcript_digest transcript_bytes = sha256 transcript_bytes"

section \<open>Reports and verifiers\<close>

lemma mock_mac_ascii: "mock_mac s u m = Inr mac \<Longrightarrow> list_all is_ascii mac"
  by (auto simp: mock_mac_def hex_encode_ascii split: sum.splits)

lemma generate_mock_Inr:
  assumes "generate J (MockAttestationBackend m s) d = Inr r"
  shows "length d = 32"
    and "\<exists>mac. mock_mac s (hex_encode d) m = Inr mac \<and>
      r = Some (json_dumps J (mock_report mac m (hex_encode d)))"
  using assms by (auto simp: USERDATA_LEN_def Let_def split: if_splits sum.splits)

lemma verify_mock_report:
  assumes "json_roundtrips J (mock_report mac m (hex_encode d))" and "length e = 32"
  shows "verify J (MockAttestationVerifier s) (json_dumps J (mock_report mac m (hex_encode d))) e pin =
    (if e \<noteq> d then Inl (AttestationError ''userdata does not match transcript digest'')
     else if pin \<noteq> None \<and> pin \<noteq> Some m then Inl (AttestationError ''measurement mismatch'')
     else mock_verify_mac s (mock_report mac m (hex_encode d)))"
proof -
  have "json_loads J (json_dumps J (mock_report mac m (hex_encode d)))
      = Some (mock_report mac m (hex_encode d))"
    using assms(1) by (simp add: json_roundtrips_def)
  then show ?thesis
    using assms(2)
    by (cases pin) (auto simp: mock_report_def USERDATA_LEN_def)
qed

lemma mock_verify_own_mac:
  "mock_mac s u m = Inr mac \<Longrightarrow> mock_verify_mac s (mock_report mac m u) = Inr ()"
  by (simp add: mock_verify_mac_def mock_report_def mock_mac_ascii)


lemma json_item_get: "json_item v k = Inr x \<longleftrightarrow> json_get v k = Inr (Some x)"
  by (cases v) (auto split: option.splits)

lemma json_str_Inr: "json_str v = Inr s \<longleftrightarrow> v = JStr s"
  by (cases v) auto

lemma mock_mac_nonempty: "mock_mac s u m = Inr mac \<Longrightarrow> length mac = 64"
  by (auto simp: mock_mac_def split: sum.splits)

lemma mock_verify_mac_Inr:
  assumes "mock_verify_mac s data = Inr ()"
  shows "\<exists>u m mac. json_get data ''userdata'' = Inr (Some (JStr u)) \<and>
    json_get data ''measurement'' = Inr (Some (JStr m)) \<and>
    mock_mac s u m = Inr mac \<and> json_get data ''mac'' = Inr (Some (JStr mac))"
proof -
  from assms obtain u m mac got where u: "and_then (json_item data ''userdata'') json_str = Inr u"
    and m: "and_then (json_item data ''measurement'') json_str = Inr m"
    and mac: "mock_mac s u m = Inr mac" and got: "json_get data ''mac'' = Inr got"
    and str: "(case got of None \<Rightarrow> Inr [] | Some v \<Rightarrow> json_str v) = Inr mac"
    by (auto simp: mock_verify_mac_def split: sum.splits if_splits)
  have "got = Some (JStr mac)"
    using str mock_mac_nonempty [OF mac] by (auto simp: json_str_Inr split: option.splits)
  with u m mac got show ?thesis by (auto simp: and_then_Inr_iff json_item_get json_str_Inr)
qed

lemma verify_mock_sound:
  assumes "verify J (MockAttestationVerifier s) blob d pin = Inr ()"
  shows "\<exists>data m mac. json_loads J blob = Some data \<and>
    json_get data ''userdata'' = Inr (Some (JStr (hex_encode d))) \<and>
    json_get data ''measurement'' = Inr (Some (JStr m)) \<and>
    (pin = None \<or> pin = Some m) \<and>
    mock_mac s (hex_encode d) m = Inr mac \<and> json_get data ''mac'' = Inr (Some (JStr mac))"
proof -
  from assms obtain data meas where data: "json_loads J blob = Some data"
    and ud: "json_get data ''userdata'' = Inr (Some (JStr (hex_encode d)))"
    and meas: "json_get data ''measurement'' = Inr meas"
    and pin: "pin = None \<or> meas = map_option JStr pin"
    and mac: "mock_verify_mac s data = Inr ()"
    by (auto split: option.splits sum.splits if_splits)
  from mock_verify_mac_Inr [OF mac] ud meas pin data show ?thesis by (cases pin) auto
qed

section \<open>Properties\<close>

text \<open>A mock report cannot be moved to another handshake: what the backend generates for one
  transcript verifies under the shared secret for that transcript and the pinned measurement, and
  is rejected for any other transcript digest and for any other pinned measurement.\<close>

theorem report_bound_to_transcript:
  assumes "\<And>v. json_roundtrips J v"
    and "generate J (MockAttestationBackend m s) (sha256 t) = Inr (Some blob)" and "length e = 32"
  shows "verify J (MockAttestationVerifier s) blob e pin =
    (if e \<noteq> transcript_digest t then Inl (AttestationError ''userdata does not match transcript digest'')
     else if pin \<noteq> None \<and> pin \<noteq> Some m then Inl (AttestationError ''measurement mismatch'')
     else Inr ())"
proof -
  obtain mac where mac: "mock_mac s (hex_encode (sha256 t)) m = Inr mac"
    and blob: "blob = json_dumps J (mock_report mac m (hex_encode (sha256 t)))"
    using generate_mock_Inr(2) [OF assms(2)] by auto
  show ?thesis
    unfolding blob verify_mock_report [OF assms(1,3)] mock_verify_own_mac [OF mac]
    by (simp add: transcript_digest_def)
qed

theorem report_bound_to_transcript_witness:
  "\<exists>blob. generate unary_json (MockAttestationBackend ''m1'' [1, 2]) (sha256 [3]) = Inr (Some blob) \<and>
     verify unary_json (MockAttestationVerifier [1, 2]) blob (sha256 [3]) (Some ''m1'') = Inr () \<and>
     verify unary_json (MockAttestationVerifier [1, 2]) blob (sha256 [3]) (Some ''m2'')
       = Inl (AttestationError ''measurement mismatch'')"
proof -
  have "list_all is_ascii (hex_encode (sha256 [3]) @ ''|m1'')"
    using hex_encode_ascii [of "sha256 [3]"] by (simp add: is_ascii_def)
  then obtain mac where "mock_mac [1, 2] (hex_encode (sha256 [3])) ''m1'' = Inr mac"
    by (auto simp: mock_mac_def ascii_encode_def)
  then obtain blob where gen: "generate unary_json (MockAttestationBackend ''m1'' [1, 2]) (sha256 [3]) = Inr (Some blob)"
    by (simp add: length_sha256 USERDATA_LEN_def Let_def)
  note bound = report_bound_to_transcript [OF unary_json_roundtrips gen length_sha256, of "[3]"]
  show ?thesis using gen bound by (simp add: transcript_digest_def)
qed

text \<open>What the mock verifier's acceptance means: the report names this transcript's digest and a
  measurement that matches the pin, and carries the HMAC of the two under the shared secret, which
  only a holder of the secret computes.\<close>

theorem verifier_acceptance:
  assumes "verify J (MockAttestationVerifier s) blob d pin = Inr ()"
  shows "\<exists>data m mac. json_loads J blob = Some data \<and>
    json_get data ''userdata'' = Inr (Some (JStr (hex_encode d))) \<and>
    json_get data ''measurement'' = Inr (Some (JStr m)) \<and> (pin = None \<or> pin = Some m) \<and>
    mock_mac s (hex_encode d) m = Inr mac \<and> json_get data ''mac'' = Inr (Some (JStr mac))"
  using verify_mock_sound [OF assms] .

theorem verifier_acceptance_witness:
  "\<exists>blob data m mac. json_loads unary_json blob = Some data \<and>
     json_get data ''measurement'' = Inr (Some (JStr m)) \<and> m = ''m1'' \<and>
     mock_mac [1, 2] (hex_encode (sha256 [3])) m = Inr mac \<and>
     json_get data ''mac'' = Inr (Some (JStr mac))"
proof -
  have "list_all is_ascii (hex_encode (sha256 [3]) @ ''|m1'')"
    using hex_encode_ascii [of "sha256 [3]"] by (simp add: is_ascii_def)
  then obtain mac where mac: "mock_mac [1, 2] (hex_encode (sha256 [3])) ''m1'' = Inr mac"
    by (auto simp: mock_mac_def ascii_encode_def)
  let ?blob = "json_dumps unary_json (mock_report mac ''m1'' (hex_encode (sha256 [3])))"
  have "verify unary_json (MockAttestationVerifier [1, 2]) ?blob (sha256 [3]) (Some ''m1'') = Inr ()"
    unfolding verify_mock_report [OF unary_json_roundtrips length_sha256]
    by (simp add: mock_verify_own_mac [OF mac])
  from verifier_acceptance [OF this] show ?thesis by blast
qed

end
