(* ===== verification/ClientErrors.thy ===== *)
theory ClientErrors
  imports Wire
begin

text \<open>
  The SDK's exception hierarchy (\<open>client/secure_llm_client/errors.py\<close>): the classes with their
  default codes and parents, the constructors, and the mapping from a server error envelope to an
  exception. An exception object is a record of its attributes.
\<close>

datatype error_class =
    SecureLLMError
  | AuthError
  | HandshakeFailed
  | ServerKeyMismatch
  | SessionExpired
  | AdminRequiredError
  | RateLimited
  | QueueFull
  | ModelNotFound
  | DownloadFailed

fun class_code :: "error_class \<Rightarrow> error_code" where
  "class_code SecureLLMError = INTERNAL_ERROR"
| "class_code AuthError = BAD_SIGNATURE"
| "class_code HandshakeFailed = BAD_SIGNATURE"
| "class_code ServerKeyMismatch = SERVER_KEY_MISMATCH"
| "class_code SessionExpired = SESSION_EXPIRED"
| "class_code AdminRequiredError = ADMIN_REQUIRED"
| "class_code RateLimited = RATE_LIMITED"
| "class_code QueueFull = QUEUE_FULL"
| "class_code ModelNotFound = MODEL_NOT_FOUND"
| "class_code DownloadFailed = DOWNLOAD_FAILED"

fun parent_class :: "error_class \<Rightarrow> error_class option" where
  "parent_class SecureLLMError = None"
| "parent_class HandshakeFailed = Some AuthError"
| "parent_class ServerKeyMismatch = Some HandshakeFailed"
| "parent_class SessionExpired = Some AuthError"
| "parent_class _ = Some SecureLLMError"

inductive error_subclass :: "error_class \<Rightarrow> error_class \<Rightarrow> bool" where
  subclass_refl: "error_subclass c c"
| subclass_step: "parent_class c = Some p \<Longrightarrow> error_subclass p d \<Longrightarrow> error_subclass c d"

record client_error =
  ce_class :: error_class
  ce_message :: string
  ce_code :: error_code
  ce_error_id :: "string option"
  ce_retry_after :: "rat option"

definition mk_error :: "error_class \<Rightarrow> string \<Rightarrow> error_code option \<Rightarrow> string option \<Rightarrow> client_error" where
  "mk_error cls message code error_id =
     \<lparr>ce_class = cls,
      ce_message = (if message \<noteq> [] then message
        else case code of Some c \<Rightarrow> code_value c | None \<Rightarrow> code_value (class_code cls)),
      ce_code = (case code of Some c \<Rightarrow> c | None \<Rightarrow> class_code cls),
      ce_error_id = error_id, ce_retry_after = None\<rparr>"

definition mk_rate_limited :: "string \<Rightarrow> rat option \<Rightarrow> string option \<Rightarrow> client_error" where
  "mk_rate_limited message retry_after error_id =
     (mk_error RateLimited message None error_id)\<lparr>ce_retry_after := retry_after\<rparr>"

fun by_code :: "error_code \<Rightarrow> error_class" where
  "by_code BAD_SIGNATURE = HandshakeFailed"
| "by_code SERVER_KEY_MISMATCH = ServerKeyMismatch"
| "by_code SESSION_EXPIRED = SessionExpired"
| "by_code ADMIN_REQUIRED = AdminRequiredError"
| "by_code SCOPE_DENIED = AdminRequiredError"
| "by_code RATE_LIMITED = RateLimited"
| "by_code QUEUE_FULL = QueueFull"
| "by_code MODEL_NOT_FOUND = ModelNotFound"
| "by_code DOWNLOAD_FAILED = DownloadFailed"
| "by_code UNKNOWN_CLIENT = HandshakeFailed"
| "by_code CLIENT_REVOKED = HandshakeFailed"
| "by_code CLIENT_EXPIRED = HandshakeFailed"
| "by_code CLIENT_NOT_YET_VALID = HandshakeFailed"
| "by_code CLOCK_SKEW = HandshakeFailed"
| "by_code _ = SecureLLMError"

definition from_error_envelope ::
  "error_code \<Rightarrow> string \<Rightarrow> string option \<Rightarrow> rat option \<Rightarrow> client_error" where
  "from_error_envelope code message error_id retry_after =
     (let cls = by_code code in
      if cls = RateLimited then mk_rate_limited message retry_after error_id
      else mk_error cls message (Some code) error_id)"

text \<open>Whatever class is picked, the exception carries the code the server sent.\<close>

lemma by_code_RateLimited: "by_code c = RateLimited \<longleftrightarrow> c = RATE_LIMITED"
  by (cases c) auto

lemma from_error_envelope_code: "ce_code (from_error_envelope c m i r) = c"
  by (auto simp: from_error_envelope_def mk_rate_limited_def mk_error_def Let_def by_code_RateLimited)

lemma from_error_envelope_class: "ce_class (from_error_envelope c m i r) = by_code c"
  by (auto simp: from_error_envelope_def mk_rate_limited_def mk_error_def Let_def)

lemma from_error_envelope_message:
  "ce_message (from_error_envelope c m i r) = (if m = [] then code_value c else m)"
  by (auto simp: from_error_envelope_def mk_rate_limited_def mk_error_def Let_def by_code_RateLimited)

lemma error_subclass_root: "error_subclass c SecureLLMError"
proof -
  have root: "error_subclass SecureLLMError SecureLLMError" by (rule subclass_refl)
  have auth: "error_subclass AuthError SecureLLMError" by (rule subclass_step [OF _ root]) simp
  have hf: "error_subclass HandshakeFailed SecureLLMError" by (rule subclass_step [OF _ auth]) simp
  show ?thesis
  proof (cases "parent_class c")
    case None
    then have "c = SecureLLMError" by (cases c) auto
    with root show ?thesis by simp
  next
    case (Some p)
    then have "p \<in> {SecureLLMError, AuthError, HandshakeFailed}" by (cases c) auto
    with root auth hf have "error_subclass p SecureLLMError" by auto
    with Some show ?thesis by (rule subclass_step)
  qed
qed

inductive_cases error_subclass_cases [elim]: "error_subclass c d"

text \<open>Catching \<open>AuthError\<close> catches exactly the handshake errors and an expired session.\<close>

lemma error_subclass_up: "error_subclass c d \<Longrightarrow> c = d \<or> (\<exists>p. parent_class c = Some p \<and> error_subclass p d)"
  by blast

lemma auth_error_classes:
  "error_subclass c AuthError \<longleftrightarrow> c \<in> {AuthError, HandshakeFailed, ServerKeyMismatch, SessionExpired}"
proof
  assume "error_subclass c AuthError"
  then show "c \<in> {AuthError, HandshakeFailed, ServerKeyMismatch, SessionExpired}"
  proof (induction c "AuthError" rule: error_subclass.induct)
    case (subclass_step c p)
    then show ?case by (cases c) auto
  qed simp
next
  have a: "error_subclass AuthError AuthError" by (rule subclass_refl)
  have h: "error_subclass HandshakeFailed AuthError" by (rule subclass_step [OF _ a]) simp
  have k: "error_subclass ServerKeyMismatch AuthError" by (rule subclass_step [OF _ h]) simp
  have s: "error_subclass SessionExpired AuthError" by (rule subclass_step [OF _ a]) simp
  assume "c \<in> {AuthError, HandshakeFailed, ServerKeyMismatch, SessionExpired}"
  with a h k s show "error_subclass c AuthError" by auto
qed

section \<open>Properties\<close>

text \<open>Turning a server error envelope into an exception loses nothing: the exception carries
  exactly the code that was sent, whatever class is chosen for it, and the error code strings of
  the protocol parse back to the code they print.\<close>

theorem error_envelope_keeps_code:
  "ce_code (from_error_envelope c m i r) = c \<and> ce_error_id (from_error_envelope c m i r) = i \<and>
     ce_message (from_error_envelope c m i r) = (if m = [] then code_value c else m) \<and>
     code_of_value (code_value c) = Inr c"
  by (simp add: from_error_envelope_code from_error_envelope_message err.dec_enc)
    (simp add: from_error_envelope_def mk_rate_limited_def mk_error_def Let_def)

text \<open>A caller that catches \<open>AuthError\<close> around the constructor catches exactly the answers that
  say the key, the session or the handshake was refused.\<close>

theorem auth_errors_caught:
  "error_subclass (ce_class (from_error_envelope c m i r)) AuthError \<longleftrightarrow>
     c \<in> {BAD_SIGNATURE, SERVER_KEY_MISMATCH, SESSION_EXPIRED, UNKNOWN_CLIENT, CLIENT_REVOKED,
       CLIENT_EXPIRED, CLIENT_NOT_YET_VALID, CLOCK_SKEW}"
  unfolding from_error_envelope_class auth_error_classes by (cases c) simp_all

end
