(* ===== verification/Handshake.thy ===== *)
theory Handshake
  imports Attestation ClientErrors
begin

text \<open>
  The handshake: the server's \<open>perform_handshake\<close> (\<open>server/.../crypto/handshake.py\<close>) and the
  client's \<open>build_handshake_request\<close> and \<open>derive_session\<close> (\<open>client/.../crypto/handshake.py\<close>). The
  randomness (the server's ephemeral secret key and the session id) and the clock are arguments.
  Every \<open>raise\<close> is a branch; exceptions that are not \<open>HandshakeError\<close> (server) or SDK errors
  (client) are values of their own, since they reach a different handler.
\<close>

section \<open>Messages\<close>

record handshake_request =
  hr_protocol :: string
  hr_client_static_pk :: string
  hr_client_ephemeral_pk :: string
  hr_timestamp :: int
  hr_transcript_sig :: string
  hr_server_host :: "string option"

record handshake_response =
  hs_protocol :: string
  hs_session_id :: string
  hs_server_static_pk :: string
  hs_server_ed25519_pk :: string
  hs_server_ephemeral_pk :: string
  hs_ttl_seconds :: int
  hs_server_sig :: string
  hs_nonce_prefix_c2s :: string
  hs_nonce_prefix_s2c :: string
  hs_attestation_report :: "string option"

section \<open>Server-side records\<close>

definition DEFAULT_TENANT :: string where
  "DEFAULT_TENANT = ''default''"

record server_identity =
  si_x25519_sk :: bytes
  si_x25519_pk :: bytes
  si_ed25519_sk :: bytes
  si_ed25519_pk :: bytes
  si_age_secret_path :: "string list"

record authorized_client =
  ac_name :: string
  ac_x25519_pk :: bytes
  ac_ed25519_pk :: bytes
  ac_scopes :: "string list"
  ac_revoked :: bool
  ac_not_before :: "int option"
  ac_not_after :: "int option"
  ac_tenant :: string

definition ac_fingerprint :: "authorized_client \<Rightarrow> string" where
  "ac_fingerprint c = fingerprint (ac_x25519_pk c)"

record session_material =
  sm_session_id :: bytes
  sm_c2s :: direction_keys
  sm_s2c :: direction_keys
  sm_ttl_seconds :: int
  sm_client_fingerprint :: string
  sm_scopes :: "string list"
  sm_tenant :: string

datatype handshake_error = HandshakeError error_code string | HandshakeOther exn

definition handshake_error :: "error_code \<Rightarrow> string \<Rightarrow> handshake_error" where
  "handshake_error code message =
     HandshakeError code (if message \<noteq> [] then message else code_value code)"

section \<open>Base64\<close>

definition b64d :: "string \<Rightarrow> bytes result" where
  "b64d s = and_then (ascii_encode s) (\<lambda>_. b64decode True s)"

definition b64e :: "bytes \<Rightarrow> string" where
  "b64e b = b64encode b"

section \<open>Transcripts\<close>

definition transcript :: "bytes \<Rightarrow> bytes \<Rightarrow> bytes \<Rightarrow> bytes \<Rightarrow> int \<Rightarrow> bytes" where
  "transcript protocol_label client_static_pk client_eph_pk server_host timestamp =
     join_bytes [0]
       [protocol_label, raw_bytes ''client_static'', client_static_pk, raw_bytes ''client_eph'',
        client_eph_pk, raw_bytes ''host'', server_host, raw_bytes ''ts'',
        raw_bytes (str_of_int timestamp)]"

definition server_transcript :: "bytes \<Rightarrow> bytes \<Rightarrow> bytes \<Rightarrow> bytes \<Rightarrow> bytes" where
  "server_transcript base server_eph_pk server_static_pk session_id =
     join_bytes [0]
       [base, raw_bytes ''server_eph'', server_eph_pk, raw_bytes ''server_static'', server_static_pk,
        raw_bytes ''session'', session_id]"

text \<open>The client's \<open>_transcript\<close> fixes the label; its full transcript is joined inline.\<close>

definition client_transcript :: "bytes \<Rightarrow> bytes \<Rightarrow> bytes \<Rightarrow> int \<Rightarrow> bytes" where
  "client_transcript client_static_pk client_eph_pk server_host timestamp =
     join_bytes [0]
       [raw_bytes PROTOCOL_LABEL, raw_bytes ''client_static'', client_static_pk,
        raw_bytes ''client_eph'', client_eph_pk, raw_bytes ''host'', server_host, raw_bytes ''ts'',
        raw_bytes (str_of_int timestamp)]"

section \<open>The server\<close>

definition SESSION_INFO :: bytes where
  "SESSION_INFO = raw_bytes ''secure-llm session keys v1''"

text \<open>Both sides cut the derived keystream the same way (lines 182-183, 221-222).\<close>

definition split_keystream :: "bytes \<Rightarrow> (direction_keys \<times> direction_keys) result" where
  "split_keystream ks =
     and_then (mk_direction_keys (py_slice ks 0 32) (py_slice ks 64 68)) (\<lambda>c2s.
     and_then (mk_direction_keys (py_slice ks 32 64) (py_slice ks 68 72)) (\<lambda>s2c.
     Inr (c2s, s2c)))"

definition check_request ::
  "nacl \<Rightarrow> handshake_request \<Rightarrow> (bytes \<rightharpoonup> authorized_client) \<Rightarrow> int \<Rightarrow> string option \<Rightarrow> int \<Rightarrow>
   handshake_error + (authorized_client \<times> bytes \<times> bytes \<times> bytes)" where
  "check_request N req allowlist skew_seconds expected_host now =
     (if hr_protocol req \<noteq> split_last (CHR ''/'') PROTOCOL_LABEL \<and> hr_protocol req \<noteq> PROTOCOL_LABEL
      then Inl (handshake_error HANDSHAKE_VERSION_MISMATCH [])
      else if \<bar>now - hr_timestamp req\<bar> > skew_seconds then Inl (handshake_error CLOCK_SKEW [])
      else
        case and_then (b64d (hr_client_static_pk req)) (\<lambda>static_pk.
             and_then (b64d (hr_client_ephemeral_pk req)) (\<lambda>eph_pk.
             and_then (b64d (hr_transcript_sig req)) (\<lambda>sig. Inr (static_pk, eph_pk, sig)))) of
          Inl e \<Rightarrow> Inl (handshake_error BAD_REQUEST ''invalid base64'')
        | Inr (client_static_pk, client_eph_pk, sig) \<Rightarrow>
            if length client_static_pk \<noteq> 32 \<or> length client_eph_pk \<noteq> 32
            then Inl (handshake_error BAD_REQUEST ''bad pk length'')
            else (case allowlist client_static_pk of
                None \<Rightarrow> Inl (handshake_error UNKNOWN_CLIENT [])
              | Some entry \<Rightarrow>
                  if ac_revoked entry then Inl (handshake_error CLIENT_REVOKED [])
                  else if (case ac_not_before entry of None \<Rightarrow> False | Some t \<Rightarrow> now < t)
                    then Inl (handshake_error CLIENT_NOT_YET_VALID [])
                  else if (case ac_not_after entry of None \<Rightarrow> False | Some t \<Rightarrow> now > t)
                    then Inl (handshake_error CLIENT_EXPIRED [])
                  else
                    let host = strip (opt_str_or (hr_server_host req) (opt_str_or expected_host []));
                        t = transcript (raw_bytes PROTOCOL_LABEL) client_static_pk client_eph_pk
                              (utf8_encode host) (hr_timestamp req)
                    in if ed25519_verify N (ac_ed25519_pk entry) t sig
                       then Inr (entry, client_static_pk, client_eph_pk, t)
                       else Inl (handshake_error BAD_SIGNATURE [])))"

definition perform_handshake ::
  "nacl \<Rightarrow> json_lib \<Rightarrow> handshake_request \<Rightarrow> server_identity \<Rightarrow> (bytes \<rightharpoonup> authorized_client) \<Rightarrow> int \<Rightarrow> int \<Rightarrow>
   string option \<Rightarrow> int option \<Rightarrow> attestation_backend option \<Rightarrow> int \<Rightarrow> bytes \<Rightarrow> bytes \<Rightarrow>
   handshake_error + (handshake_response \<times> session_material)" where
  "perform_handshake N J req identity allowlist skew_seconds ttl_seconds expected_host now attestation
     clock server_eph_sk session_id =
     (let now = (case now of None \<Rightarrow> clock | Some t \<Rightarrow> t) in
      case check_request N req allowlist skew_seconds expected_host now of
        Inl e \<Rightarrow> Inl e
      | Inr (entry, client_static_pk, client_eph_pk, t) \<Rightarrow>
          let server_eph_pk = x25519_base N server_eph_sk in
          case and_then (x25519 N server_eph_sk client_eph_pk) (\<lambda>dh1.
               and_then (x25519 N (si_x25519_sk identity) client_static_pk) (\<lambda>dh2.
               and_then (hkdf (dh1 @ dh2)
                 (server_transcript t server_eph_pk (si_x25519_pk identity) session_id)
                 SESSION_INFO (32 + 32 + 4 + 4)) split_keystream)) of
            Inl e \<Rightarrow> Inl (HandshakeOther e)
          | Inr (c2s, s2c) \<Rightarrow>
              let full_transcript = server_transcript t server_eph_pk (si_x25519_pk identity) session_id;
                  sig_out = ed25519_sign N (si_ed25519_sk identity) full_transcript;
                  backend = (case attestation of None \<Rightarrow> NoneBackend | Some b \<Rightarrow> b)
              in case generate J backend (sha256 full_transcript) of
                   Inl e \<Rightarrow> Inl (HandshakeOther e)
                 | Inr blob \<Rightarrow>
                     Inr (\<lparr>hs_protocol = PROTOCOL_VERSION,
                           hs_session_id = b64e session_id,
                           hs_server_static_pk = b64e (si_x25519_pk identity),
                           hs_server_ed25519_pk = b64e (si_ed25519_pk identity),
                           hs_server_ephemeral_pk = b64e server_eph_pk,
                           hs_ttl_seconds = ttl_seconds,
                           hs_server_sig = b64e sig_out,
                           hs_nonce_prefix_c2s = hex_encode (dk_nonce_prefix c2s),
                           hs_nonce_prefix_s2c = hex_encode (dk_nonce_prefix s2c),
                           hs_attestation_report = map_option b64e blob\<rparr>,
                          \<lparr>sm_session_id = session_id, sm_c2s = c2s, sm_s2c = s2c,
                           sm_ttl_seconds = ttl_seconds,
                           sm_client_fingerprint = ac_fingerprint entry,
                           sm_scopes = ac_scopes entry, sm_tenant = ac_tenant entry\<rparr>))"

section \<open>The client\<close>

record client_identity =
  ci_x25519_sk :: bytes
  ci_x25519_pk :: bytes
  ci_ed25519_sk :: bytes
  ci_ed25519_pk :: bytes

record handshake_outcome =
  ho_session_id :: bytes
  ho_c2s :: direction_keys
  ho_s2c :: direction_keys
  ho_ttl_seconds :: int
  ho_server_static_pk :: bytes

datatype client_exn = SdkError client_error | ClientOther exn

definition build_handshake_request ::
  "nacl \<Rightarrow> client_identity \<Rightarrow> string \<Rightarrow> bytes \<Rightarrow> int option \<Rightarrow> int \<Rightarrow> handshake_request" where
  "build_handshake_request N identity server_host client_eph_pk now clock =
     (let ts = (case now of None \<Rightarrow> clock | Some t \<Rightarrow> t);
          t = client_transcript (ci_x25519_pk identity) client_eph_pk (utf8_encode server_host) ts;
          sig = ed25519_sign N (ci_ed25519_sk identity) t
      in \<lparr>hr_protocol = split_last (CHR ''/'') PROTOCOL_LABEL,
          hr_client_static_pk = b64e (ci_x25519_pk identity),
          hr_client_ephemeral_pk = b64e client_eph_pk,
          hr_timestamp = ts,
          hr_transcript_sig = b64e sig,
          hr_server_host = Some server_host\<rparr>)"

definition key_mismatch :: "string \<Rightarrow> client_exn" where
  "key_mismatch msg = SdkError (mk_error ServerKeyMismatch msg None None)"

definition handshake_failed :: "string \<Rightarrow> client_exn" where
  "handshake_failed msg = SdkError (mk_error HandshakeFailed msg None None)"

definition check_attestation ::
  "json_lib \<Rightarrow> handshake_response \<Rightarrow> bytes \<Rightarrow> attestation_verifier option \<Rightarrow> string option \<Rightarrow> bool \<Rightarrow>
   client_exn + unit" where
  "check_attestation J response full_transcript verifier pinned_measurement attestation_required =
     (case hs_attestation_report response of
        Some report \<Rightarrow>
          (case verifier of
             None \<Rightarrow> Inl (key_mismatch ''server attached an attestation report but no verifier is configured client-side'')
           | Some v \<Rightarrow>
               (case b64d report of
                  Inl e \<Rightarrow> Inl (ClientOther e)
                | Inr blob \<Rightarrow>
                    (case verify J v blob (transcript_digest full_transcript) pinned_measurement of
                       Inl (AttestationError m) \<Rightarrow> Inl (key_mismatch (''attestation failed: '' @ m))
                     | Inl (VerifyOther e) \<Rightarrow> Inl (ClientOther e)
                     | Inr u \<Rightarrow> Inr ())))
      | None \<Rightarrow>
          if attestation_required
          then Inl (key_mismatch ''attestation_required=True but server returned no attestation report'')
          else Inr ())"

text \<open>The five strict base64 decodings at the top of \<open>derive_session\<close>, in order.\<close>

definition decode_response_keys ::
  "handshake_response \<Rightarrow> (bytes \<times> bytes \<times> bytes \<times> bytes \<times> bytes) result" where
  "decode_response_keys r =
     and_then (b64d (hs_server_static_pk r)) (\<lambda>server_static.
     and_then (b64d (hs_server_ed25519_pk r)) (\<lambda>server_ed25519.
     and_then (b64d (hs_server_ephemeral_pk r)) (\<lambda>server_eph.
     and_then (b64d (hs_session_id r)) (\<lambda>session_id.
     and_then (b64d (hs_server_sig r)) (\<lambda>sig.
     Inr (server_static, server_ed25519, server_eph, session_id, sig))))))"

definition derive_session ::
  "nacl \<Rightarrow> json_lib \<Rightarrow> client_identity \<Rightarrow> bytes \<Rightarrow> string \<Rightarrow> int \<Rightarrow> handshake_response \<Rightarrow> bytes \<Rightarrow>
   attestation_verifier option \<Rightarrow> string option \<Rightarrow> bool \<Rightarrow> client_exn + handshake_outcome" where
  "derive_session N J identity client_eph_sk server_host handshake_request_ts response
     pinned_server_static_pk attestation_verifier pinned_measurement attestation_required =
     (case decode_response_keys response of
        Inl e \<Rightarrow> Inl (ClientOther e)
      | Inr (server_static, server_ed25519, server_eph, session_id, sig) \<Rightarrow>
          if server_static \<noteq> pinned_server_static_pk
          then Inl (key_mismatch (''server key mismatch: expected ''
            @ take 16 (hex_encode pinned_server_static_pk) @ '' got '' @ take 16 (hex_encode server_static)))
          else
            let base_transcript = client_transcript (ci_x25519_pk identity) (x25519_base N client_eph_sk)
                  (utf8_encode server_host) handshake_request_ts;
                full_transcript = join_bytes [0]
                  [base_transcript, raw_bytes ''server_eph'', server_eph, raw_bytes ''server_static'',
                   server_static, raw_bytes ''session'', session_id]
            in if \<not> ed25519_verify N server_ed25519 full_transcript sig
               then Inl (handshake_failed ''server signature invalid'')
               else (case check_attestation J response full_transcript attestation_verifier
                        pinned_measurement attestation_required of
                   Inl e \<Rightarrow> Inl e
                 | Inr u \<Rightarrow>
                     (case and_then (x25519 N client_eph_sk server_eph) (\<lambda>dh1.
                           and_then (x25519 N (ci_x25519_sk identity) server_static) (\<lambda>dh2.
                           and_then (client_hkdf (dh1 @ dh2) full_transcript SESSION_INFO (32 + 32 + 4 + 4))
                             split_keystream)) of
                        Inl e \<Rightarrow> Inl (ClientOther e)
                      | Inr (c2s, s2c) \<Rightarrow>
                          if hex_encode (dk_nonce_prefix c2s) \<noteq> hs_nonce_prefix_c2s response
                          then Inl (handshake_failed ''nonce_prefix_c2s mismatch'')
                          else if hex_encode (dk_nonce_prefix s2c) \<noteq> hs_nonce_prefix_s2c response
                          then Inl (handshake_failed ''nonce_prefix_s2c mismatch'')
                          else Inr \<lparr>ho_session_id = session_id, ho_c2s = c2s, ho_s2c = s2c,
                            ho_ttl_seconds = hs_ttl_seconds response,
                            ho_server_static_pk = server_static\<rparr>)))"

lemma b64d_b64e [codec_simps]: "b64d (b64e b) = Inr b"
  by (simp add: b64d_def b64e_def ascii_encode_def b64encode_ascii b64_strict.dec_enc)

section \<open>What the transcripts bind\<close>

lemma raw_bytes_cons: "raw_bytes (c # s) = byte_of_char c # raw_bytes s" "raw_bytes [] = []"
  by (simp_all add: raw_bytes_def)

lemma transcript_inj:
  assumes eq: "transcript l pk eph host ts = transcript l pk' eph' host' ts'"
    and len: "length pk = 32" "length pk' = 32" "length eph = 32" "length eph' = 32"
  shows "pk = pk' \<and> eph = eph' \<and> host = host' \<and> ts = ts'"
proof -
  have keys: "pk = pk' \<and> eph = eph'"
    and rest: "host @ 0 # raw_bytes ''ts'' @ 0 # raw_bytes (str_of_int ts)
      = host' @ 0 # raw_bytes ''ts'' @ 0 # raw_bytes (str_of_int ts')"
    using eq len by (auto simp: transcript_def append_eq_split)
  from rest have "(host @ 0 # raw_bytes ''ts'') @ 0 # raw_bytes (str_of_int ts)
      = (host' @ 0 # raw_bytes ''ts'') @ 0 # raw_bytes (str_of_int ts')"
    by simp
  then have "host @ 0 # raw_bytes ''ts'' = host' @ 0 # raw_bytes ''ts''
      \<and> raw_bytes (str_of_int ts) = raw_bytes (str_of_int ts')"
    using split_at_last [OF str_of_int_no_nul str_of_int_no_nul] by blast
  then show ?thesis using keys str_of_int_inj by auto
qed

lemma server_transcript_inj:
  assumes "server_transcript b e s i = server_transcript b' e' s' i'"
    and "length e = 32" "length e' = 32" "length s = 32" "length s' = 32" "length i = 16" "length i' = 16"
  shows "b = b' \<and> e = e' \<and> s = s' \<and> i = i'"
proof -
  have "length (0 # raw_bytes ''server_eph'' @ 0 # e @ 0 # raw_bytes ''server_static'' @ 0 # s
      @ 0 # raw_bytes ''session'' @ 0 # i)
    = length (0 # raw_bytes ''server_eph'' @ 0 # e' @ 0 # raw_bytes ''server_static'' @ 0 # s'
      @ 0 # raw_bytes ''session'' @ 0 # i')"
    using assms by simp
  with assms show ?thesis
    by (auto simp: server_transcript_def append_eq_split_suffix append_eq_split)
qed

lemma client_transcript_eq: "client_transcript pk eph host ts = transcript (raw_bytes PROTOCOL_LABEL) pk eph host ts"
  by (simp add: client_transcript_def transcript_def)

section \<open>What the server accepts\<close>

definition entry_valid :: "int \<Rightarrow> authorized_client \<Rightarrow> bool" where
  "entry_valid now entry \<longleftrightarrow> \<not> ac_revoked entry \<and>
     (case ac_not_before entry of None \<Rightarrow> True | Some t \<Rightarrow> t \<le> now) \<and>
     (case ac_not_after entry of None \<Rightarrow> True | Some t \<Rightarrow> now \<le> t)"

definition request_host :: "handshake_request \<Rightarrow> string option \<Rightarrow> string" where
  "request_host req expected_host = strip (opt_str_or (hr_server_host req) (opt_str_or expected_host []))"

definition protocol_ok :: "handshake_request \<Rightarrow> bool" where
  "protocol_ok req \<longleftrightarrow>
     hr_protocol req = split_last (CHR ''/'') PROTOCOL_LABEL \<or> hr_protocol req = PROTOCOL_LABEL"

lemma check_request_Inr_iff:
  "check_request N req allowlist skew eh now = Inr (entry, pk, eph, t) \<longleftrightarrow>
     protocol_ok req \<and> \<bar>now - hr_timestamp req\<bar> \<le> skew \<and>
     b64d (hr_client_static_pk req) = Inr pk \<and> b64d (hr_client_ephemeral_pk req) = Inr eph \<and>
     length pk = 32 \<and> length eph = 32 \<and> allowlist pk = Some entry \<and> entry_valid now entry \<and>
     t = transcript (raw_bytes PROTOCOL_LABEL) pk eph (utf8_encode (request_host req eh)) (hr_timestamp req) \<and>
     (\<exists>sig. b64d (hr_transcript_sig req) = Inr sig \<and> ed25519_verify N (ac_ed25519_pk entry) t sig)"
  (is "?l \<longleftrightarrow> ?r")
proof
  assume ?l
  then show ?r
    unfolding check_request_def Let_def
    by (force simp: protocol_ok_def entry_valid_def request_host_def and_then_Inr_iff not_less
      split: if_splits sum.splits option.splits)
next
  assume r: ?r
  then show ?l
    unfolding check_request_def Let_def protocol_ok_def entry_valid_def request_host_def
    by (auto simp: not_less split: option.splits)
qed

lemma perform_handshake_Inr:
  assumes "perform_handshake N J req identity allowlist skew ttl eh now att clock esk sid = Inr (resp, mat)"
  defines "now' \<equiv> case now of None \<Rightarrow> clock | Some t \<Rightarrow> t"
  shows "\<exists>entry pk eph t. check_request N req allowlist skew eh now' = Inr (entry, pk, eph, t) \<and>
    sm_session_id mat = sid \<and> sm_ttl_seconds mat = ttl \<and> sm_scopes mat = ac_scopes entry \<and>
    sm_tenant mat = ac_tenant entry \<and> sm_client_fingerprint mat = fingerprint (ac_x25519_pk entry) \<and>
    b64d (hs_server_sig resp) = Inr (ed25519_sign N (si_ed25519_sk identity)
      (server_transcript t (x25519_base N esk) (si_x25519_pk identity) sid))"
  using assms(1) unfolding perform_handshake_def Let_def
  by (auto simp: now'_def [symmetric] b64d_b64e ac_fingerprint_def split: sum.splits prod.splits)

text \<open>The guards in their order: the first one that fails decides the code.\<close>

lemma check_request_errors:
  shows "\<not> protocol_ok req \<Longrightarrow>
      check_request N req al skew eh now = Inl (handshake_error HANDSHAKE_VERSION_MISMATCH [])"
    and "protocol_ok req \<Longrightarrow> skew < \<bar>now - hr_timestamp req\<bar> \<Longrightarrow>
      check_request N req al skew eh now = Inl (handshake_error CLOCK_SKEW [])"
  by (auto simp: check_request_def protocol_ok_def)

lemma check_request_lookup:
  assumes "protocol_ok req" and "\<bar>now - hr_timestamp req\<bar> \<le> skew"
    and "b64d (hr_client_static_pk req) = Inr pk" and "b64d (hr_client_ephemeral_pk req) = Inr eph"
    and "b64d (hr_transcript_sig req) = Inr sig" and "length pk = 32" and "length eph = 32"
  shows "al pk = None \<Longrightarrow>
      check_request N req al skew eh now = Inl (handshake_error UNKNOWN_CLIENT [])"
    and "al pk = Some entry \<Longrightarrow> ac_revoked entry \<Longrightarrow>
      check_request N req al skew eh now = Inl (handshake_error CLIENT_REVOKED [])"
    and "al pk = Some entry \<Longrightarrow> \<not> ac_revoked entry \<Longrightarrow> ac_not_before entry = Some nb \<Longrightarrow> now < nb \<Longrightarrow>
      check_request N req al skew eh now = Inl (handshake_error CLIENT_NOT_YET_VALID [])"
  using assms by (auto simp: check_request_def protocol_ok_def)

section \<open>Agreement of the two sides\<close>

definition server_identity_ok :: "nacl \<Rightarrow> server_identity \<Rightarrow> bool" where
  "server_identity_ok N s \<longleftrightarrow> length (si_x25519_sk s) = 32 \<and>
     si_x25519_pk s = x25519_base N (si_x25519_sk s) \<and> si_ed25519_pk s = ed25519_pub N (si_ed25519_sk s)"

definition client_identity_ok :: "nacl \<Rightarrow> client_identity \<Rightarrow> bool" where
  "client_identity_ok N c \<longleftrightarrow> length (ci_x25519_sk c) = 32 \<and>
     ci_x25519_pk c = x25519_base N (ci_x25519_sk c) \<and> ci_ed25519_pk c = ed25519_pub N (ci_ed25519_sk c)"

lemma split_keystream_total:
  assumes "length ks = 72"
  shows "\<exists>c2s s2c. split_keystream ks = Inr (c2s, s2c)"
  using assms by (simp add: split_keystream_def mk_direction_keys_def py_slice_def)

lemma split_last_label: "split_last (CHR ''/'') PROTOCOL_LABEL = PROTOCOL_VERSION"
  by (simp add: split_last_def PROTOCOL_LABEL_def PROTOCOL_NAME_def PROTOCOL_VERSION_def)

text \<open>What the server derives: the shares exist and the keystream has its length.\<close>

lemma shared_keystream:
  assumes "x25519_ok N" and "length a = 32" and "length b = 32" and "length c = 32" and "length d = 32"
  shows "\<exists>k1 k2 ks c2s s2c.
    x25519 N a (x25519_base N b) = Inr k1 \<and> x25519 N b (x25519_base N a) = Inr k1 \<and>
    x25519 N c (x25519_base N d) = Inr k2 \<and> x25519 N d (x25519_base N c) = Inr k2 \<and>
    hkdf (k1 @ k2) salt SESSION_INFO 72 = Inr ks \<and> client_hkdf (k1 @ k2) salt SESSION_INFO 72 = Inr ks \<and>
    split_keystream ks = Inr (c2s, s2c)"
proof -
  from assms obtain k1 k2 where k: "x25519 N a (x25519_base N b) = Inr k1" "x25519 N b (x25519_base N a) = Inr k1"
    "x25519 N c (x25519_base N d) = Inr k2" "x25519 N d (x25519_base N c) = Inr k2"
    unfolding x25519_ok_def by meson
  obtain ks where ks: "hkdf (k1 @ k2) salt SESSION_INFO 72 = Inr ks" "length ks = 72"
    using hkdf_total [of 72 "k1 @ k2" salt SESSION_INFO] by auto
  moreover have "client_hkdf (k1 @ k2) salt SESSION_INFO 72 = Inr ks"
    using client_hkdf_eq [of 72 "k1 @ k2" salt SESSION_INFO] ks(1) by simp
  ultimately show ?thesis
    using k split_keystream_total [OF ks(2)] by blast
qed

text \<open>Which backend and verifier settings belong together.\<close>

fun attestation_pair_ok ::
  "json_lib \<Rightarrow> attestation_backend option \<Rightarrow> attestation_verifier option \<Rightarrow> string option \<Rightarrow> bool \<Rightarrow> bool" where
  "attestation_pair_ok J (Some (MockAttestationBackend m s)) (Some (MockAttestationVerifier s')) pin required \<longleftrightarrow>
     s = s' \<and> list_all is_ascii m \<and> (pin = None \<or> pin = Some m) \<and> (\<forall>j. json_roundtrips J j)"
| "attestation_pair_ok J None v pin required \<longleftrightarrow> \<not> required"
| "attestation_pair_ok J (Some NoneBackend) v pin required \<longleftrightarrow> \<not> required"
| "attestation_pair_ok J b v pin required \<longleftrightarrow> False"

lemma mock_mac_total: "list_all is_ascii u \<Longrightarrow> list_all is_ascii m \<Longrightarrow> \<exists>mac. mock_mac s u m = Inr mac"
  by (simp add: mock_mac_def ascii_encode_def is_ascii_def)

lemma attestation_agrees:
  assumes "attestation_pair_ok J att ver pin req"
  shows "\<exists>blob. generate J (case att of None \<Rightarrow> NoneBackend | Some b \<Rightarrow> b) (sha256 ft) = Inr blob \<and>
    (\<forall>resp. hs_attestation_report resp = map_option b64e blob \<longrightarrow>
      check_attestation J resp ft ver pin req = Inr ())"
proof -
  have len: "length (sha256 ft) = 32" by (rule length_sha256)
  consider (none) "att = None \<or> att = Some NoneBackend" "\<not> req"
    | (mock) m s where "att = Some (MockAttestationBackend m s)" "ver = Some (MockAttestationVerifier s)"
        "list_all is_ascii m" "pin = None \<or> pin = Some m" "\<forall>j. json_roundtrips J j"
    using assms by (cases "(J, att, ver, pin, req)" rule: attestation_pair_ok.cases) auto
  then show ?thesis
  proof cases
    case none
    then show ?thesis by (auto simp: len USERDATA_LEN_def check_attestation_def)
  next
    case mock
    obtain mac where mac: "mock_mac s (hex_encode (sha256 ft)) m = Inr mac"
      using mock_mac_total mock(3) hex_encode_ascii by blast
    have "verify J (MockAttestationVerifier s)
        (json_dumps J (mock_report mac m (hex_encode (sha256 ft)))) (sha256 ft) pin = Inr ()"
      using mock(4,5) mock_verify_own_mac [OF mac] by (subst verify_mock_report) (auto simp: len)
    then show ?thesis
      using mock(1,2) mac
      by (auto simp: len USERDATA_LEN_def Let_def check_attestation_def b64d_b64e transcript_digest_def)
  qed
qed

definition honest_response ::
  "server_identity \<Rightarrow> bytes \<Rightarrow> bytes \<Rightarrow> int \<Rightarrow> bytes \<Rightarrow> direction_keys \<Rightarrow> direction_keys \<Rightarrow> bytes option \<Rightarrow>
   handshake_response" where
  "honest_response identity server_eph_pk session_id ttl_seconds sig_out c2s s2c blob =
     \<lparr>hs_protocol = PROTOCOL_VERSION, hs_session_id = b64e session_id,
      hs_server_static_pk = b64e (si_x25519_pk identity), hs_server_ed25519_pk = b64e (si_ed25519_pk identity),
      hs_server_ephemeral_pk = b64e server_eph_pk, hs_ttl_seconds = ttl_seconds, hs_server_sig = b64e sig_out,
      hs_nonce_prefix_c2s = hex_encode (dk_nonce_prefix c2s),
      hs_nonce_prefix_s2c = hex_encode (dk_nonce_prefix s2c),
      hs_attestation_report = map_option b64e blob\<rparr>"

lemma check_honest_request:
  assumes "ed25519_ok N" and "client_identity_ok N c" and "x25519_ok N" and "length csk = 32"
    and "allowlist (ci_x25519_pk c) = Some entry" and "ac_ed25519_pk entry = ci_ed25519_pk c"
    and "entry_valid now entry" and "\<bar>now - ts\<bar> \<le> skew"
    and "strip host = host" and "host \<noteq> [] \<or> eh = None"
  shows "check_request N (build_handshake_request N c host (x25519_base N csk) (Some ts) clk) allowlist skew eh now
    = Inr (entry, ci_x25519_pk c, x25519_base N csk,
        client_transcript (ci_x25519_pk c) (x25519_base N csk) (utf8_encode host) ts)"
proof -
  have "length (ci_x25519_pk c) = 32" "length (x25519_base N csk) = 32"
    using assms(2,3,4) by (simp_all add: client_identity_ok_def x25519_ok_def)
  moreover have "opt_str_or (Some host) (opt_str_or eh []) = host"
    using assms(10) by (auto simp: opt_str_or_def)
  ultimately show ?thesis
    using assms unfolding check_request_Inr_iff
    by (simp add: build_handshake_request_def Let_def protocol_ok_def b64d_b64e request_host_def
        client_transcript_eq ed25519_ok_def client_identity_ok_def)
qed

lemma client_full_transcript:
  "join_bytes [0] [base, raw_bytes ''server_eph'', se, raw_bytes ''server_static'', ss,
     raw_bytes ''session'', sid] = server_transcript base se ss sid"
  by (simp only: server_transcript_def)

text \<open>
  An honest client and an honest server that know each other's keys end with the same session:
  session id, both direction keys and the time to live.
\<close>

lemma honest_agreement:
  assumes N: "x25519_ok N" "ed25519_ok N" and ids: "client_identity_ok N c" "server_identity_ok N srv"
    and len: "length csk = 32" "length esk = 32"
    and entry: "allowlist (ci_x25519_pk c) = Some entry" "ac_ed25519_pk entry = ci_ed25519_pk c"
      "entry_valid now entry"
    and time: "\<bar>now - ts\<bar> \<le> skew" and host: "strip host = host" "host \<noteq> [] \<or> eh = None"
    and att: "attestation_pair_ok J att ver pin req"
  shows "\<exists>resp mat out.
    perform_handshake N J (build_handshake_request N c host (x25519_base N csk) (Some ts) clk) srv allowlist
      skew ttl eh (Some now) att clk' esk sid = Inr (resp, mat) \<and>
    derive_session N J c csk host ts resp (si_x25519_pk srv) ver pin req = Inr out \<and>
    sm_session_id mat = sid \<and> ho_session_id out = sid \<and> ho_c2s out = sm_c2s mat \<and>
    ho_s2c out = sm_s2c mat \<and> ho_ttl_seconds out = sm_ttl_seconds mat \<and>
    sm_scopes mat = ac_scopes entry \<and> sm_tenant mat = ac_tenant entry"
proof -
  let ?base = "client_transcript (ci_x25519_pk c) (x25519_base N csk) (utf8_encode host) ts"
  let ?ft = "server_transcript ?base (x25519_base N esk) (si_x25519_pk srv) sid"
  have skl: "length (ci_x25519_sk c) = 32" "length (si_x25519_sk srv) = 32"
    and pk: "ci_x25519_pk c = x25519_base N (ci_x25519_sk c)"
      "si_x25519_pk srv = x25519_base N (si_x25519_sk srv)" "si_ed25519_pk srv = ed25519_pub N (si_ed25519_sk srv)"
    using ids by (simp_all add: client_identity_ok_def server_identity_ok_def)
  obtain k1 k2 ks c2s s2c where k:
    "x25519 N esk (x25519_base N csk) = Inr k1" "x25519 N csk (x25519_base N esk) = Inr k1"
    "x25519 N (si_x25519_sk srv) (ci_x25519_pk c) = Inr k2" "x25519 N (ci_x25519_sk c) (si_x25519_pk srv) = Inr k2"
    "hkdf (k1 @ k2) ?ft SESSION_INFO 72 = Inr ks" "client_hkdf (k1 @ k2) ?ft SESSION_INFO 72 = Inr ks"
    "split_keystream ks = Inr (c2s, s2c)"
    using shared_keystream [OF N(1) len(2) len(1) skl(2) skl(1)] unfolding pk by blast
  obtain blob where gen: "generate J (case att of None \<Rightarrow> NoneBackend | Some b \<Rightarrow> b) (sha256 ?ft) = Inr blob"
    and chk: "\<And>resp. hs_attestation_report resp = map_option b64e blob \<Longrightarrow>
      check_attestation J resp ?ft ver pin req = Inr ()"
    using attestation_agrees [OF att] by blast
  let ?resp = "honest_response srv (x25519_base N esk) sid ttl (ed25519_sign N (si_ed25519_sk srv) ?ft) c2s s2c blob"
  let ?mat = "\<lparr>sm_session_id = sid, sm_c2s = c2s, sm_s2c = s2c, sm_ttl_seconds = ttl,
    sm_client_fingerprint = ac_fingerprint entry, sm_scopes = ac_scopes entry, sm_tenant = ac_tenant entry\<rparr>"
  have ckreq: "check_request N (build_handshake_request N c host (x25519_base N csk) (Some ts) clk) allowlist
      skew eh now = Inr (entry, ci_x25519_pk c, x25519_base N csk, ?base)"
    by (rule check_honest_request) fact+
  have server: "perform_handshake N J (build_handshake_request N c host (x25519_base N csk) (Some ts) clk) srv
      allowlist skew ttl eh (Some now) att clk' esk sid = Inr (?resp, ?mat)"
    using k gen by (simp add: perform_handshake_def ckreq honest_response_def Let_def)
  have sig: "ed25519_verify N (si_ed25519_pk srv) ?ft (ed25519_sign N (si_ed25519_sk srv) ?ft)"
    using N(2) pk(3) by (simp add: ed25519_ok_def)
  have "decode_response_keys ?resp = Inr (si_x25519_pk srv, si_ed25519_pk srv, x25519_base N esk, sid,
      ed25519_sign N (si_ed25519_sk srv) ?ft)"
    by (simp add: decode_response_keys_def honest_response_def b64d_b64e)
  moreover have "check_attestation J ?resp ?ft ver pin req = Inr ()"
    by (rule chk) (simp add: honest_response_def)
  ultimately have "derive_session N J c csk host ts ?resp (si_x25519_pk srv) ver pin req
      = Inr \<lparr>ho_session_id = sid, ho_c2s = c2s, ho_s2c = s2c, ho_ttl_seconds = ttl,
          ho_server_static_pk = si_x25519_pk srv\<rparr>"
    using k sig by (simp add: derive_session_def client_full_transcript honest_response_def del: join_bytes.simps)
  with server show ?thesis by simp
qed

section \<open>What the client accepts\<close>

lemma derive_session_Inr:
  assumes "derive_session N J c csk host ts resp pinned ver pin req = Inr out"
  shows "\<exists>ed eph sid sig. decode_response_keys resp = Inr (pinned, ed, eph, sid, sig) \<and>
    ed25519_verify N ed (server_transcript (client_transcript (ci_x25519_pk c) (x25519_base N csk)
      (utf8_encode host) ts) eph pinned sid) sig \<and>
    check_attestation J resp (server_transcript (client_transcript (ci_x25519_pk c) (x25519_base N csk)
      (utf8_encode host) ts) eph pinned sid) ver pin req = Inr () \<and>
    ho_session_id out = sid \<and> ho_server_static_pk out = pinned \<and>
    hs_nonce_prefix_c2s resp = hex_encode (dk_nonce_prefix (ho_c2s out)) \<and>
    hs_nonce_prefix_s2c resp = hex_encode (dk_nonce_prefix (ho_s2c out)) \<and>
    dk_ok (ho_c2s out) \<and> dk_ok (ho_s2c out)"
proof -
  have dk: "dk_ok a \<and> dk_ok b" if "split_keystream ks = Inr (a, b)" for ks a b
    using that mk_direction_keys_ok by (auto simp: split_keystream_def and_then_Inr_iff)
  show ?thesis
    using assms unfolding derive_session_def Let_def client_full_transcript
    by (auto simp: and_then_Inr_iff dest: dk split: sum.splits if_splits prod.splits)
qed

lemma derive_session_pins:
  assumes "decode_response_keys resp = Inr (static, ed, eph, sid, sig)" and "static \<noteq> pinned"
  shows "derive_session N J c csk host ts resp pinned ver pin req = Inl (key_mismatch
    (''server key mismatch: expected '' @ take 16 (hex_encode pinned) @ '' got '' @
      take 16 (hex_encode static)))"
  using assms by (simp add: derive_session_def)

section \<open>Properties\<close>

text \<open>The signed transcript determines every field of the handshake: with keys of their length,
  two equal transcripts of the server come from the same static and ephemeral keys, host, timestamp
  and session id, although its separator may occur inside keys and hosts.\<close>

theorem transcripts_bind:
  assumes "server_transcript (transcript l pk eph host ts) se ss sid
      = server_transcript (transcript l pk' eph' host' ts') se' ss' sid'"
    and "\<forall>k \<in> {pk, pk', eph, eph', se, se', ss, ss'}. length k = 32"
    and "length sid = SESSION_ID_BYTES" and "length sid' = SESSION_ID_BYTES"
  shows "(pk, eph, host, ts, se, ss, sid) = (pk', eph', host', ts', se', ss', sid')"
  using server_transcript_inj [OF assms(1)] transcript_inj [of l pk eph host ts pk' eph' host' ts'] assms
  by (auto simp: SESSION_ID_BYTES_def)

theorem transcripts_bind_witness:
  "server_transcript (transcript [1] (replicate 32 0) (replicate 32 0) [0] 5) (replicate 32 0)
      (replicate 32 0) (replicate 16 0)
   \<noteq> server_transcript (transcript [1] (replicate 32 0) (replicate 32 0) [0] 15) (replicate 32 0)
      (replicate 32 0) (replicate 16 0)"
proof
  assume eq: "server_transcript (transcript [1] (replicate 32 0) (replicate 32 0) [0] 5) (replicate 32 0)
      (replicate 32 0) (replicate 16 0)
   = server_transcript (transcript [1] (replicate 32 0) (replicate 32 0) [0] 15) (replicate 32 0)
      (replicate 32 0) (replicate 16 0)"
  from transcripts_bind [OF eq] show False by (simp add: SESSION_ID_BYTES_def)
qed

text \<open>C11. A completed handshake is an authorized one: the server answers only a request whose static
  key is on the allowlist, whose entry is neither revoked nor outside its validity, whose timestamp
  is within the allowed skew and whose transcript verifies under the entry's signing key; and the
  session's scopes, tenant and fingerprint are those of that entry, never of the request.\<close>

theorem handshake_only_authorized:
  assumes "perform_handshake N J req identity allowlist skew ttl eh (Some now) att clock esk sid = Inr (resp, mat)"
  shows "\<exists>entry pk eph sig. b64d (hr_client_static_pk req) = Inr pk \<and> length pk = 32 \<and>
    allowlist pk = Some entry \<and> entry_valid now entry \<and> \<bar>now - hr_timestamp req\<bar> \<le> skew \<and>
    b64d (hr_client_ephemeral_pk req) = Inr eph \<and> b64d (hr_transcript_sig req) = Inr sig \<and>
    ed25519_verify N (ac_ed25519_pk entry) (transcript (raw_bytes PROTOCOL_LABEL) pk eph
      (utf8_encode (request_host req eh)) (hr_timestamp req)) sig \<and>
    sm_scopes mat = ac_scopes entry \<and> sm_tenant mat = ac_tenant entry \<and>
    sm_client_fingerprint mat = fingerprint (ac_x25519_pk entry) \<and> sm_session_id mat = sid"
  using perform_handshake_Inr [OF assms] unfolding option.case check_request_Inr_iff by blast

definition demo_client :: client_identity where
  "demo_client = \<lparr>ci_x25519_sk = replicate 32 1, ci_x25519_pk = replicate 32 1,
     ci_ed25519_sk = replicate 32 2, ci_ed25519_pk = replicate 32 2\<rparr>"

definition demo_server :: server_identity where
  "demo_server = \<lparr>si_x25519_sk = replicate 32 3, si_x25519_pk = replicate 32 3,
     si_ed25519_sk = replicate 32 4, si_ed25519_pk = replicate 32 4, si_age_secret_path = []\<rparr>"

definition demo_entry :: authorized_client where
  "demo_entry = \<lparr>ac_name = ''demo'', ac_x25519_pk = replicate 32 1, ac_ed25519_pk = replicate 32 2,
     ac_scopes = [''chat''], ac_revoked = False, ac_not_before = Some 50, ac_not_after = None,
     ac_tenant = ''acme''\<rparr>"

definition demo_allowlist :: "bytes \<rightharpoonup> authorized_client" where
  "demo_allowlist = [replicate 32 1 \<mapsto> demo_entry]"

text \<open>C12. An honest client and an honest server that know each other's keys agree: the server accepts
  the request the client builds, the client accepts the answer (the attestation report included),
  and both hold the same session id, the same keys for each direction and the same time to live,
  the session having the scopes and tenant of the allowlist entry.\<close>

theorem handshake_agreement:
  assumes "x25519_ok N" and "ed25519_ok N" and "client_identity_ok N c" and "server_identity_ok N srv"
    and "length csk = 32" and "length esk = 32"
    and "allowlist (ci_x25519_pk c) = Some entry" and "ac_ed25519_pk entry = ci_ed25519_pk c"
    and "entry_valid now entry" and "\<bar>now - ts\<bar> \<le> skew"
    and "strip host = host" and "host \<noteq> [] \<or> eh = None" and "attestation_pair_ok J att ver pin req"
  shows "\<exists>resp mat out.
    perform_handshake N J (build_handshake_request N c host (x25519_base N csk) (Some ts) clk) srv allowlist
      skew ttl eh (Some now) att clk' esk sid = Inr (resp, mat) \<and>
    derive_session N J c csk host ts resp (si_x25519_pk srv) ver pin req = Inr out \<and>
    sm_session_id mat = sid \<and> ho_session_id out = sid \<and> ho_c2s out = sm_c2s mat \<and>
    ho_s2c out = sm_s2c mat \<and> ho_ttl_seconds out = sm_ttl_seconds mat \<and>
    sm_scopes mat = ac_scopes entry \<and> sm_tenant mat = ac_tenant entry"
  using assms by (rule honest_agreement)

lemma demo_nacl_pub: "x25519_base demo_nacl a = a" "ed25519_pub demo_nacl a = a"
  by (simp_all add: demo_nacl_def)

lemma unary_json_all: "(\<forall>v. json_roundtrips unary_json v) = True"
  using unary_json_roundtrips by blast

lemmas demo_defs = unary_json_all demo_nacl_pub demo_client_def demo_server_def demo_entry_def demo_allowlist_def
  client_identity_ok_def server_identity_ok_def entry_valid_def strip_def is_space_def

theorem handshake_agreement_witness:
  "\<exists>resp mat out.
    perform_handshake demo_nacl unary_json
      (build_handshake_request demo_nacl demo_client ''h'' (x25519_base demo_nacl (replicate 32 9)) (Some 90) 0)
      demo_server demo_allowlist 30 3600 None (Some 100) (Some (MockAttestationBackend ''m'' [1])) 0
      (replicate 32 6) (replicate 16 5) = Inr (resp, mat) \<and>
    derive_session demo_nacl unary_json demo_client (replicate 32 9) ''h'' 90 resp (si_x25519_pk demo_server)
      (Some (MockAttestationVerifier [1])) (Some ''m'') True = Inr out \<and>
    sm_session_id mat = replicate 16 5 \<and> ho_session_id out = replicate 16 5 \<and> ho_c2s out = sm_c2s mat \<and>
    ho_s2c out = sm_s2c mat \<and> ho_ttl_seconds out = sm_ttl_seconds mat \<and>
    sm_scopes mat = ac_scopes demo_entry \<and> sm_tenant mat = ac_tenant demo_entry"
  by (rule handshake_agreement) (simp_all add: demo_nacl_laws demo_defs is_ascii_def Let_def)

lemma demo_handshake:
  "\<exists>resp mat out. perform_handshake demo_nacl unary_json
      (build_handshake_request demo_nacl demo_client ''h'' (x25519_base demo_nacl (replicate 32 9)) (Some 90) 0)
      demo_server demo_allowlist 30 3600 None (Some 100) None 0 (replicate 32 6) (replicate 16 5) = Inr (resp, mat) \<and>
    derive_session demo_nacl unary_json demo_client (replicate 32 9) ''h'' 90 resp (si_x25519_pk demo_server)
      None None False = Inr out \<and>
    sm_session_id mat = replicate 16 5 \<and> ho_session_id out = replicate 16 5 \<and> ho_c2s out = sm_c2s mat \<and>
    ho_s2c out = sm_s2c mat \<and> ho_ttl_seconds out = sm_ttl_seconds mat \<and>
    sm_scopes mat = ac_scopes demo_entry \<and> sm_tenant mat = ac_tenant demo_entry"
  by (rule honest_agreement) (simp_all add: demo_nacl_laws demo_defs Let_def)

theorem handshake_only_authorized_witness:
  "\<exists>resp mat. perform_handshake demo_nacl unary_json
      (build_handshake_request demo_nacl demo_client ''h'' (x25519_base demo_nacl (replicate 32 9)) (Some 90) 0)
      demo_server demo_allowlist 30 3600 None (Some 100) None 0 (replicate 32 6) (replicate 16 5) = Inr (resp, mat) \<and>
     sm_tenant mat = ''acme'' \<and> sm_scopes mat = [''chat'']"
proof -
  obtain resp mat where run: "perform_handshake demo_nacl unary_json
      (build_handshake_request demo_nacl demo_client ''h'' (x25519_base demo_nacl (replicate 32 9)) (Some 90) 0)
      demo_server demo_allowlist 30 3600 None (Some 100) None 0 (replicate 32 6) (replicate 16 5) = Inr (resp, mat)"
    using demo_handshake by blast
  from handshake_only_authorized [OF run] obtain entry pk where
    "demo_allowlist pk = Some entry" "sm_scopes mat = ac_scopes entry" "sm_tenant mat = ac_tenant entry"
    by blast
  with run show ?thesis by (auto simp: demo_allowlist_def demo_entry_def split: if_splits)
qed

text \<open>The order of the server's guards: the version before the clock, the clock before the
  allowlist, and unknown, revoked and not-yet-valid keys are told apart before any signature is
  checked, so a caller learns them without holding a signing key.\<close>

theorem handshake_guard_order:
  "perform_handshake N J req identity allowlist skew ttl eh (Some now) att clock esk sid =
     (if \<not> protocol_ok req then Inl (handshake_error HANDSHAKE_VERSION_MISMATCH [])
      else if skew < \<bar>now - hr_timestamp req\<bar> then Inl (handshake_error CLOCK_SKEW [])
      else case (b64d (hr_client_static_pk req), b64d (hr_client_ephemeral_pk req), b64d (hr_transcript_sig req)) of
        (Inr pk, Inr eph, Inr sig) \<Rightarrow>
          (if \<not> (length pk = 32 \<and> length eph = 32) then Inl (handshake_error BAD_REQUEST ''bad pk length'')
           else case allowlist pk of
             None \<Rightarrow> Inl (handshake_error UNKNOWN_CLIENT [])
           | Some entry \<Rightarrow>
               if ac_revoked entry then Inl (handshake_error CLIENT_REVOKED [])
               else if \<not> entry_valid now entry then
                 Inl (handshake_error (if (\<exists>t. ac_not_before entry = Some t \<and> now < t)
                   then CLIENT_NOT_YET_VALID else CLIENT_EXPIRED) [])
               else perform_handshake N J req identity [pk \<mapsto> entry] skew ttl eh (Some now) att clock esk sid)
      | _ \<Rightarrow> Inl (handshake_error BAD_REQUEST ''invalid base64''))"
proof -
  have same: "check_request N req [pk \<mapsto> entry] skew eh now = check_request N req allowlist skew eh now"
    if "b64d (hr_client_static_pk req) = Inr pk" and "allowlist pk = Some entry" for pk entry
    using that by (auto simp: check_request_def and_then_Inr_iff split: sum.splits)
  show ?thesis
  proof (cases "protocol_ok req \<and> \<bar>now - hr_timestamp req\<bar> \<le> skew")
    case False
    then show ?thesis by (auto simp: perform_handshake_def check_request_errors)
  next
    case ok: True
    note ck = check_request_def [of N req allowlist skew eh now]
    show ?thesis
    proof (cases "b64d (hr_client_static_pk req)")
      case (Inl e)
      with ok show ?thesis by (auto simp: perform_handshake_def ck protocol_ok_def)
    next
      case pk: (Inr pk)
      show ?thesis
      proof (cases "(b64d (hr_client_ephemeral_pk req), b64d (hr_transcript_sig req))")
        case (Pair eph sig)
        show ?thesis
        proof (cases "allowlist pk")
          case None
          with ok pk Pair show ?thesis
            by (cases eph; cases sig) (auto simp: perform_handshake_def ck protocol_ok_def)
        next
          case (Some entry)
          with ok pk Pair show ?thesis
            by (cases eph; cases sig)
              (auto simp: perform_handshake_def same [OF pk] ck protocol_ok_def entry_valid_def not_less
                split: option.splits)
        qed
      qed
    qed
  qed
qed



end
