(* ===== verification/Session.thy ===== *)
theory Session
  imports Handshake Replay "HOL-Library.FSet"
begin

text \<open>
  Sessions and their stores (\<open>server/.../session/manager.py\<close>, \<open>store.py\<close>, \<open>redis_store.py\<close>).
  A \<open>Session\<close> is a mutable object that the cache, the handlers and the manager share, so the model
  has an explicit heap: a list of session objects, a reference being an index. A store is, as in the
  code, any object with the operations of the \<open>SessionStore\<close> protocol: a record \<open>store_ops\<close>
  of functions over the heap and the store's own state. \<open>time.time()\<close> is the argument \<open>now\<close>;
  a coroutine that reads the clock again after an \<open>await\<close> takes a second one. The Redis client
  is a parameter, with its documented behaviour as the law \<open>redis_ok\<close>.
\<close>

section \<open>Session objects\<close>

record session =
  se_session_id :: bytes
  se_c2s :: direction_keys
  se_s2c :: direction_keys
  se_created_at :: float_py
  se_last_used_at :: float_py
  se_ttl_seconds :: int
  se_max_lifetime_seconds :: int
  se_client_fingerprint :: string
  se_scopes :: "string fset"
  se_tenant :: string
  se_replay :: replay_window
  se_s2c_counter :: int
  se_closed :: bool

definition is_expired :: "float_py \<Rightarrow> session \<Rightarrow> bool" where
  "is_expired now s =
     (if se_closed s then True
      else if now - se_last_used_at s > of_int (se_ttl_seconds s) then True
      else now - se_created_at s > of_int (se_max_lifetime_seconds s))"

definition touch :: "float_py \<Rightarrow> session \<Rightarrow> session" where
  "touch now s = s\<lparr>se_last_used_at := now\<rparr>"

definition has_scope :: "string \<Rightarrow> session \<Rightarrow> bool" where
  "has_scope scope s \<longleftrightarrow> scope |\<in>| se_scopes s"

definition session_id_b64 :: "session \<Rightarrow> string" where
  "session_id_b64 s = b64encode (se_session_id s)"

type_synonym ref = nat
type_synonym heap = "session list"
type_synonym 's world = "heap \<times> 's"

section \<open>The store protocol\<close>

record 's store_ops =
  st_lookup :: "float_py \<Rightarrow> bytes \<Rightarrow> 's world \<Rightarrow> ref option \<times> 's world"
  st_all :: "float_py \<Rightarrow> 's world \<Rightarrow> ref list"
  st_hydrate :: "float_py \<Rightarrow> bytes \<Rightarrow> 's world \<Rightarrow> ref option result \<times> 's world"
  st_put :: "float_py \<Rightarrow> ref \<Rightarrow> 's world \<Rightarrow> 's world"
  st_delete :: "float_py \<Rightarrow> bytes \<Rightarrow> 's world \<Rightarrow> bool \<times> 's world"
  st_reap_expired :: "float_py \<Rightarrow> 's world \<Rightarrow> nat \<times> 's world"

type_synonym cache = "(bytes, ref) dict"

text \<open>\<open>for sid in list(d.keys()): if d[sid].is_expired(): del d[sid]\<close>, in both stores.\<close>

definition reap_cache :: "float_py \<Rightarrow> heap \<Rightarrow> cache \<Rightarrow> nat \<times> cache" where
  "reap_cache now h d =
     foldl (\<lambda>(removed, d) sid.
         case map_of d sid of
           Some r \<Rightarrow> if is_expired now (h ! r) then (removed + 1, AList.delete sid d) else (removed, d)
         | None \<Rightarrow> (removed, d))
       (0, d) (map fst d)"

section \<open>The in-memory store\<close>

definition mem_lookup :: "float_py \<Rightarrow> bytes \<Rightarrow> cache world \<Rightarrow> ref option \<times> cache world" where
  "mem_lookup now session_id w =
     (case map_of (snd w) session_id of
        None \<Rightarrow> (None, w)
      | Some r \<Rightarrow> if is_expired now (fst w ! r) then (None, w) else (Some r, w))"

definition mem_all :: "float_py \<Rightarrow> cache world \<Rightarrow> ref list" where
  "mem_all now w = filter (\<lambda>r. \<not> is_expired now (fst w ! r)) (map snd (snd w))"

definition mem_hydrate :: "float_py \<Rightarrow> bytes \<Rightarrow> cache world \<Rightarrow> ref option result \<times> cache world" where
  "mem_hydrate now session_id w = (let (r, w') = mem_lookup now session_id w in (Inr r, w'))"

definition mem_put :: "float_py \<Rightarrow> ref \<Rightarrow> cache world \<Rightarrow> cache world" where
  "mem_put now r w = (fst w, AList.update (se_session_id (fst w ! r)) r (snd w))"

definition mem_delete :: "float_py \<Rightarrow> bytes \<Rightarrow> cache world \<Rightarrow> bool \<times> cache world" where
  "mem_delete now session_id w =
     (map_of (snd w) session_id \<noteq> None, (fst w, AList.delete session_id (snd w)))"

definition mem_reap_expired :: "float_py \<Rightarrow> cache world \<Rightarrow> nat \<times> cache world" where
  "mem_reap_expired now w = (let (n, d) = reap_cache now (fst w) (snd w) in (n, (fst w, d)))"

definition in_memory_store :: "cache store_ops" where
  "in_memory_store = \<lparr>st_lookup = mem_lookup, st_all = mem_all, st_hydrate = mem_hydrate,
     st_put = mem_put, st_delete = mem_delete, st_reap_expired = mem_reap_expired\<rparr>"

section \<open>The Redis store\<close>

record 'r redis_client =
  rc_set :: "float_py \<Rightarrow> string \<Rightarrow> bytes \<Rightarrow> int \<Rightarrow> 'r \<Rightarrow> 'r" \<comment> \<open>now, name, value, \<open>ex\<close>\<close>
  rc_get :: "float_py \<Rightarrow> string \<Rightarrow> 'r \<Rightarrow> bytes option"
  rc_delete :: "float_py \<Rightarrow> string \<Rightarrow> 'r \<Rightarrow> nat \<times> 'r" \<comment> \<open>number of keys removed\<close>

text \<open>The documented behaviour of SET with EX, GET and DEL.\<close>

definition redis_ok :: "'r redis_client \<Rightarrow> bool" where
  "redis_ok R \<longleftrightarrow>
     (\<forall>t k v ex r t' k'. rc_get R t' k' (rc_set R t k v ex r) =
        (if k' = k then (if t' < t + of_int ex then Some v else None) else rc_get R t' k' r)) \<and>
     (\<forall>t k r t' k'. rc_get R t' k' (snd (rc_delete R t k r)) = (if k' = k then None else rc_get R t' k' r)) \<and>
     (\<forall>t k r. fst (rc_delete R t k r) = (if rc_get R t k r = None then 0 else 1))"

record 'r redis_state =
  rs_redis :: 'r
  rs_cache :: cache

definition KEY_PREFIX :: string where
  "KEY_PREFIX = ''secure_llm:session:''"

definition redis_key :: "bytes \<Rightarrow> string" where
  "redis_key session_id = KEY_PREFIX @ hex_encode session_id"

definition session_json :: "session \<Rightarrow> json" where
  "session_json s = JObj
     [(''session_id'', JStr (b64encode (se_session_id s))),
      (''c2s_key'', JStr (b64encode (dk_key (se_c2s s)))),
      (''c2s_np'', JStr (b64encode (dk_nonce_prefix (se_c2s s)))),
      (''s2c_key'', JStr (b64encode (dk_key (se_s2c s)))),
      (''s2c_np'', JStr (b64encode (dk_nonce_prefix (se_s2c s)))),
      (''created_at'', JFloat (se_created_at s)),
      (''last_used_at'', JFloat (se_last_used_at s)),
      (''ttl_seconds'', JInt (se_ttl_seconds s)),
      (''max_lifetime_seconds'', JInt (se_max_lifetime_seconds s)),
      (''client_fingerprint'', JStr (se_client_fingerprint s)),
      (''scopes'', JList (map JStr (sorted_list_of_fset (se_scopes s)))),
      (''tenant'', JStr (se_tenant s)),
      (''replay_high'', JInt (rw_high (se_replay s))),
      (''s2c_counter'', JInt (se_s2c_counter s)),
      (''closed'', JBool (se_closed s))]"

definition serialize :: "json_lib \<Rightarrow> session \<Rightarrow> bytes" where
  "serialize J s = json_dumps J (session_json s)"

definition py_trunc :: "float_py \<Rightarrow> int" where
  "py_trunc q = (if q < 0 then \<lceil>q\<rceil> else \<lfloor>q\<rfloor>)"

text \<open>
  \<open>float(x)\<close>, \<open>int(x)\<close>, \<open>bool(x)\<close> and \<open>frozenset(x)\<close> of a parsed JSON value. Only \<open>_serialize\<close>
  writes these fields; Python would also parse numbers out of strings, which is a \<open>TypeError\<close> here.
\<close>

fun json_float :: "json \<Rightarrow> float_py result" where
  "json_float (JFloat q) = Inr q"
| "json_float (JInt i) = Inr (of_int i)"
| "json_float (JBool b) = Inr (if b then 1 else 0)"
| "json_float _ = Inl TypeError"

fun json_int :: "json \<Rightarrow> int result" where
  "json_int (JInt i) = Inr i"
| "json_int (JFloat q) = Inr (py_trunc q)"
| "json_int (JBool b) = Inr (if b then 1 else 0)"
| "json_int _ = Inl TypeError"

fun json_strs :: "json list \<Rightarrow> string list result" where
  "json_strs [] = Inr []"
| "json_strs (v # vs) = and_then (json_str v) (\<lambda>s. and_then (json_strs vs) (\<lambda>ss. Inr (s # ss)))"

fun json_str_set :: "json \<Rightarrow> string fset result" where
  "json_str_set (JList vs) = and_then (json_strs vs) (\<lambda>ss. Inr (fset_of_list ss))"
| "json_str_set _ = Inl TypeError"

definition json_bytes :: "json \<Rightarrow> string \<Rightarrow> bytes result" where
  "json_bytes data k = and_then (json_item data k) (\<lambda>v. and_then (json_str v) (b64decode False))"

definition session_of_json :: "json \<Rightarrow> session result" where
  "session_of_json data =
     and_then (json_bytes data ''session_id'') (\<lambda>sid.
     and_then (json_bytes data ''c2s_key'') (\<lambda>ck.
     and_then (json_bytes data ''c2s_np'') (\<lambda>cn.
     and_then (mk_direction_keys ck cn) (\<lambda>c2s.
     and_then (json_bytes data ''s2c_key'') (\<lambda>sk.
     and_then (json_bytes data ''s2c_np'') (\<lambda>sn.
     and_then (mk_direction_keys sk sn) (\<lambda>s2c.
     and_then (and_then (json_item data ''created_at'') json_float) (\<lambda>created.
     and_then (and_then (json_item data ''last_used_at'') json_float) (\<lambda>used.
     and_then (and_then (json_item data ''ttl_seconds'') json_int) (\<lambda>ttl.
     and_then (and_then (json_item data ''max_lifetime_seconds'') json_int) (\<lambda>life.
     and_then (and_then (json_item data ''client_fingerprint'') json_str) (\<lambda>fp.
     and_then (and_then (json_item data ''scopes'') json_str_set) (\<lambda>scopes.
     and_then (and_then (json_item data ''tenant'') json_str) (\<lambda>tenant.
     and_then (and_then (json_item data ''replay_high'') json_int) (\<lambda>high.
     and_then (and_then (json_item data ''s2c_counter'') json_int) (\<lambda>ctr.
     and_then (json_item data ''closed'') (\<lambda>closed.
     Inr \<lparr>se_session_id = sid, se_c2s = c2s, se_s2c = s2c, se_created_at = created,
          se_last_used_at = used, se_ttl_seconds = ttl, se_max_lifetime_seconds = life,
          se_client_fingerprint = fp, se_scopes = scopes, se_tenant = tenant,
          se_replay = \<lparr>rw_high = high, rw_bitmap = 0\<rparr>, se_s2c_counter = ctr,
          se_closed = json_truthy closed\<rparr>)))))))))))))))))"

definition deserialize :: "json_lib \<Rightarrow> bytes \<Rightarrow> session result" where
  "deserialize J blob =
     (case json_loads J blob of
        None \<Rightarrow> Inl (ValueError ''JSONDecodeError'')
      | Some data \<Rightarrow> session_of_json data)"

definition redis_lookup ::
  "float_py \<Rightarrow> bytes \<Rightarrow> 'r redis_state world \<Rightarrow> ref option \<times> 'r redis_state world" where
  "redis_lookup now session_id w =
     (case map_of (rs_cache (snd w)) session_id of
        None \<Rightarrow> (None, w)
      | Some r \<Rightarrow>
          if is_expired now (fst w ! r)
          then (None, (fst w, (snd w)\<lparr>rs_cache := AList.delete session_id (rs_cache (snd w))\<rparr>))
          else (Some r, w))"

definition redis_all :: "float_py \<Rightarrow> 'r redis_state world \<Rightarrow> ref list" where
  "redis_all now w = filter (\<lambda>r. \<not> is_expired now (fst w ! r)) (map snd (rs_cache (snd w)))"

text \<open>The rest of \<open>hydrate\<close> once the cache has no live entry.\<close>

definition redis_fetch ::
  "'r redis_client \<Rightarrow> json_lib \<Rightarrow> float_py \<Rightarrow> bytes \<Rightarrow> 'r redis_state world \<Rightarrow>
   ref option result \<times> 'r redis_state world" where
  "redis_fetch R J now session_id w =
     (let (h, st) = w in
      case rc_get R now (redis_key session_id) (rs_redis st) of
        None \<Rightarrow> (Inr None, w)
      | Some blob \<Rightarrow>
          (case deserialize J blob of
             Inl e \<Rightarrow> (Inl e, w)
           | Inr sess \<Rightarrow>
               if is_expired now sess
               then (Inr None, (h, st\<lparr>rs_redis := snd (rc_delete R now (redis_key session_id) (rs_redis st))\<rparr>))
               else (Inr (Some (length h)),
                 (h @ [sess], st\<lparr>rs_cache := AList.update session_id (length h) (rs_cache st)\<rparr>))))"

definition redis_hydrate ::
  "'r redis_client \<Rightarrow> json_lib \<Rightarrow> float_py \<Rightarrow> bytes \<Rightarrow> 'r redis_state world \<Rightarrow>
   ref option result \<times> 'r redis_state world" where
  "redis_hydrate R J now session_id w =
     (case map_of (rs_cache (snd w)) session_id of
        Some r \<Rightarrow>
          if \<not> is_expired now (fst w ! r) then (Inr (Some r), w) else redis_fetch R J now session_id w
      | None \<Rightarrow> redis_fetch R J now session_id w)"

definition redis_ttl :: "int \<Rightarrow> float_py \<Rightarrow> session \<Rightarrow> int" where
  "redis_ttl key_ttl_floor now s =
     (let remaining_ttl = max 0 (py_trunc (se_last_used_at s + of_int (se_ttl_seconds s) - now));
          remaining_max = max 0 (py_trunc (se_created_at s + of_int (se_max_lifetime_seconds s) - now))
      in max key_ttl_floor (min remaining_ttl remaining_max))"

definition redis_put ::
  "'r redis_client \<Rightarrow> json_lib \<Rightarrow> int \<Rightarrow> float_py \<Rightarrow> ref \<Rightarrow> 'r redis_state world \<Rightarrow> 'r redis_state world" where
  "redis_put R J key_ttl_floor now r w =
     (let (h, st) = w; s = h ! r in
      (h, \<lparr>rs_redis = rc_set R now (redis_key (se_session_id s)) (serialize J s)
             (redis_ttl key_ttl_floor now s) (rs_redis st),
           rs_cache = AList.update (se_session_id s) r (rs_cache st)\<rparr>))"

definition redis_delete ::
  "'r redis_client \<Rightarrow> float_py \<Rightarrow> bytes \<Rightarrow> 'r redis_state world \<Rightarrow> bool \<times> 'r redis_state world" where
  "redis_delete R now session_id w =
     (let (h, st) = w; (n, redis) = rc_delete R now (redis_key session_id) (rs_redis st) in
      (n \<noteq> 0, (h, \<lparr>rs_redis = redis, rs_cache = AList.delete session_id (rs_cache st)\<rparr>)))"

definition redis_reap_expired :: "float_py \<Rightarrow> 'r redis_state world \<Rightarrow> nat \<times> 'r redis_state world" where
  "redis_reap_expired now w =
     (let (n, d) = reap_cache now (fst w) (rs_cache (snd w)) in (n, (fst w, (snd w)\<lparr>rs_cache := d\<rparr>)))"

definition redis_store :: "'r redis_client \<Rightarrow> json_lib \<Rightarrow> int \<Rightarrow> 'r redis_state store_ops" where
  "redis_store R J key_ttl_floor =
     \<lparr>st_lookup = redis_lookup, st_all = redis_all, st_hydrate = redis_hydrate R J,
      st_put = redis_put R J key_ttl_floor, st_delete = redis_delete R,
      st_reap_expired = redis_reap_expired\<rparr>"

section \<open>The session manager\<close>

definition session_new :: "float_py \<Rightarrow> int \<Rightarrow> int \<Rightarrow> session_material \<Rightarrow> session" where
  "session_new now ttl max_life m =
     \<lparr>se_session_id = sm_session_id m, se_c2s = sm_c2s m, se_s2c = sm_s2c m,
      se_created_at = now, se_last_used_at = now,
      se_ttl_seconds = int_or (sm_ttl_seconds m) ttl, se_max_lifetime_seconds = max_life,
      se_client_fingerprint = sm_client_fingerprint m, se_scopes = fset_of_list (sm_scopes m),
      se_tenant = sm_tenant m, se_replay = replay_window_new, se_s2c_counter = 0, se_closed = False\<rparr>"

definition sm_create ::
  "'s store_ops \<Rightarrow> int \<Rightarrow> int \<Rightarrow> float_py \<Rightarrow> session_material \<Rightarrow> 's world \<Rightarrow> ref \<times> 's world" where
  "sm_create ops ttl max_life now material w =
     (let r = length (fst w); w = (fst w @ [session_new now ttl max_life material], snd w)
      in (r, st_put ops now r w))"

definition sm_lookup :: "'s store_ops \<Rightarrow> float_py \<Rightarrow> bytes \<Rightarrow> 's world \<Rightarrow> ref option \<times> 's world" where
  "sm_lookup ops now session_id w = st_lookup ops now session_id w"

definition zero_session :: "session \<Rightarrow> session" where
  "zero_session s =
     (let zero = replicate 32 0 in
      s\<lparr>se_closed := True,
        se_c2s := \<lparr>dk_key = zero, dk_nonce_prefix = dk_nonce_prefix (se_c2s s)\<rparr>,
        se_s2c := \<lparr>dk_key = zero, dk_nonce_prefix = dk_nonce_prefix (se_s2c s)\<rparr>\<rparr>)"

definition sm_zeroize :: "ref \<Rightarrow> 's world \<Rightarrow> 's world" where
  "sm_zeroize r w = ((fst w)[r := zero_session (fst w ! r)], snd w)"

text \<open>\<open>lookup\<close>, and on a miss \<open>hydrate\<close>: the first lines of \<open>lookup_async\<close> and of \<open>terminate\<close>.\<close>

definition sm_find ::
  "'s store_ops \<Rightarrow> float_py \<Rightarrow> bytes \<Rightarrow> 's world \<Rightarrow> ref option result \<times> 's world" where
  "sm_find ops now session_id w =
     (case st_lookup ops now session_id w of
        (Some r, w) \<Rightarrow> (Inr (Some r), w)
      | (None, w) \<Rightarrow> st_hydrate ops now session_id w)"

definition sm_lookup_async ::
  "'s store_ops \<Rightarrow> float_py \<Rightarrow> float_py \<Rightarrow> bytes \<Rightarrow> 's world \<Rightarrow> ref option result \<times> 's world" where
  "sm_lookup_async ops now now' session_id w =
     (case sm_find ops now session_id w of
        (Inl e, w) \<Rightarrow> (Inl e, w)
      | (Inr None, w) \<Rightarrow> (Inr None, w)
      | (Inr (Some r), w) \<Rightarrow>
          if is_expired now' (fst w ! r)
          then (Inr None, snd (st_delete ops now' session_id (sm_zeroize r w)))
          else (Inr (Some r), w))"

definition sm_all :: "'s store_ops \<Rightarrow> float_py \<Rightarrow> 's world \<Rightarrow> ref list" where
  "sm_all ops now w = st_all ops now w"

definition sm_terminate ::
  "'s store_ops \<Rightarrow> float_py \<Rightarrow> bytes \<Rightarrow> 's world \<Rightarrow> bool result \<times> 's world" where
  "sm_terminate ops now session_id w =
     (case sm_find ops now session_id w of
        (Inl e, w) \<Rightarrow> (Inl e, w)
      | (Inr None, w) \<Rightarrow> (Inr False, w)
      | (Inr (Some r), w) \<Rightarrow>
          (let (removed, w) = st_delete ops now session_id (sm_zeroize r w) in (Inr removed, w)))"

definition sm_reap_expired :: "'s store_ops \<Rightarrow> float_py \<Rightarrow> 's world \<Rightarrow> nat \<times> 's world" where
  "sm_reap_expired ops now w = st_reap_expired ops now w"

definition sm_persist :: "'s store_ops \<Rightarrow> float_py \<Rightarrow> ref \<Rightarrow> 's world \<Rightarrow> 's world" where
  "sm_persist ops now r w = st_put ops now r w"

section \<open>The interface: what a store promises the manager\<close>

text \<open>
  \<open>inv\<close> is the store's invariant over the heap and its own state. A lookup yields a live session of
  the id asked for; \<open>put\<close> makes a live session visible, \<open>delete\<close> makes it invisible for good, and
  reaping takes away nothing that is live.
\<close>

locale session_store =
  fixes ops :: "'s store_ops" and inv :: "heap \<Rightarrow> 's \<Rightarrow> bool"
  assumes lookup_law: "inv h s \<Longrightarrow> st_lookup ops t sid (h, s) = (ro, (h', s')) \<Longrightarrow>
      h' = h \<and> inv h s' \<and>
      (\<forall>r. ro = Some r \<longrightarrow> r < length h \<and> se_session_id (h ! r) = sid \<and> \<not> is_expired t (h ! r))"
    and hydrate_law: "inv h s \<Longrightarrow> st_hydrate ops t sid (h, s) = (res, (h', s')) \<Longrightarrow>
      (\<exists>ext. h' = h @ ext) \<and> inv h' s' \<and>
      (\<forall>r. res = Inr (Some r) \<longrightarrow> r < length h' \<and> se_session_id (h' ! r) = sid \<and> \<not> is_expired t (h' ! r))"
    and put_law: "inv h s \<Longrightarrow> r < length h \<Longrightarrow>
      \<exists>s'. st_put ops t r (h, s) = (h, s') \<and> inv h s' \<and>
        (\<forall>t'. \<not> is_expired t' (h ! r) \<longrightarrow> fst (st_lookup ops t' (se_session_id (h ! r)) (h, s')) = Some r)"
    and delete_law: "inv h s \<Longrightarrow>
      \<exists>b s'. st_delete ops t sid (h, s) = (b, (h, s')) \<and> inv h s' \<and>
        (\<forall>h' t'. st_lookup ops t' sid (h', s') = (None, (h', s')) \<and>
                st_hydrate ops t' sid (h', s') = (Inr None, (h', s')))"
    and reap_law: "inv h s \<Longrightarrow>
      \<exists>n s'. st_reap_expired ops t (h, s) = (n, (h, s')) \<and> inv h s' \<and>
        (\<forall>sid. fst (st_lookup ops t sid (h, s')) = fst (st_lookup ops t sid (h, s)))"
    and update_law: "inv h s \<Longrightarrow> r < length h \<Longrightarrow> se_session_id x = se_session_id (h ! r) \<Longrightarrow> inv (h[r := x]) s"
    and alloc_law: "inv h s \<Longrightarrow> inv (h @ [x]) s"
begin

lemma find_live:
  assumes "inv h s" and "sm_find ops t sid (h, s) = (res, (h', s'))"
  shows "(\<exists>ext. h' = h @ ext) \<and> inv h' s' \<and>
    (\<forall>r. res = Inr (Some r) \<longrightarrow> r < length h' \<and> se_session_id (h' ! r) = sid \<and> \<not> is_expired t (h' ! r))"
proof (cases "st_lookup ops t sid (h, s)")
  case (fields ro h1 s1)
  with lookup_law [OF assms(1) fields] assms(2) hydrate_law show ?thesis
    by (cases ro) (auto simp: sm_find_def)
qed

lemma inv_zeroize: "inv h s \<Longrightarrow> r < length h \<Longrightarrow> inv (h[r := zero_session (h ! r)]) s"
  by (rule update_law) (simp_all add: zero_session_def Let_def)

lemma lookup_async_live:
  assumes "inv h s" and "sm_lookup_async ops t t' sid (h, s) = (res, (h', s'))"
  shows "inv h' s' \<and> (\<forall>r. res = Inr (Some r) \<longrightarrow>
    r < length h' \<and> se_session_id (h' ! r) = sid \<and> \<not> is_expired t (h' ! r) \<and> \<not> is_expired t' (h' ! r))"
proof (cases "sm_find ops t sid (h, s)")
  case (fields res1 h1 s1)
  note live = find_live [OF assms(1) fields]
  show ?thesis
  proof (cases "\<exists>r. res1 = Inr (Some r) \<and> is_expired t' (h1 ! r)")
    case True
    then obtain r where r: "res1 = Inr (Some r)" "is_expired t' (h1 ! r)" by blast
    with live have "inv (h1[r := zero_session (h1 ! r)]) s1" by (auto intro: inv_zeroize)
    from delete_law [OF this, of t' sid] assms(2) r fields show ?thesis
      by (auto simp: sm_lookup_async_def sm_zeroize_def)
  next
    case False
    with live fields assms(2) show ?thesis
      by (auto simp: sm_lookup_async_def split: sum.splits option.splits if_splits)
  qed
qed

text \<open>Once terminated, an id stays unknown, and the object that handlers may still hold is dead.\<close>

lemma terminate_gone:
  assumes "inv h s" and "sm_find ops t sid (h, s) = (Inr (Some r), (h1, s1))"
  shows "\<exists>b h' s'. sm_terminate ops t sid (h, s) = (Inr b, (h', s')) \<and> inv h' s' \<and>
    h' ! r = zero_session (h1 ! r) \<and>
    (\<forall>t1 t2. sm_lookup_async ops t1 t2 sid (h', s') = (Inr None, (h', s')))"
proof -
  from find_live [OF assms] have r: "r < length h1" and inv1: "inv h1 s1" by auto
  from delete_law [OF inv_zeroize [OF inv1 r], of t sid]
  obtain b s' where del: "st_delete ops t sid (h1[r := zero_session (h1 ! r)], s1)
      = (b, (h1[r := zero_session (h1 ! r)], s'))" and inv': "inv (h1[r := zero_session (h1 ! r)]) s'"
    and gone: "\<And>h' t'. st_lookup ops t' sid (h', s') = (None, (h', s'))"
      "\<And>h' t'. st_hydrate ops t' sid (h', s') = (Inr None, (h', s'))" by blast
  have "sm_terminate ops t sid (h, s) = (Inr b, (h1[r := zero_session (h1 ! r)], s'))"
    using assms(2) del by (simp add: sm_terminate_def sm_zeroize_def)
  moreover have "sm_lookup_async ops t1 t2 sid (h', s') = (Inr None, (h', s'))" for h' t1 t2
    by (simp add: sm_lookup_async_def sm_find_def gone)
  ultimately show ?thesis using inv' r by simp
qed

lemma put_found:
  assumes "inv h s" and "r < length h"
  shows "\<exists>s'. sm_persist ops t r (h, s) = (h, s') \<and> inv h s' \<and>
    (\<forall>t'. \<not> is_expired t' (h ! r) \<longrightarrow> (\<exists>s''. sm_lookup_async ops t' t' (se_session_id (h ! r)) (h, s')
      = (Inr (Some r), (h, s'')) \<and> inv h s''))"
proof -
  from put_law [OF assms, of t] obtain s' where put: "st_put ops t r (h, s) = (h, s')" and inv': "inv h s'"
    and look: "\<And>t'. \<not> is_expired t' (h ! r) \<Longrightarrow> fst (st_lookup ops t' (se_session_id (h ! r)) (h, s')) = Some r"
    by blast
  have "\<exists>s''. sm_lookup_async ops t' t' (se_session_id (h ! r)) (h, s') = (Inr (Some r), (h, s'')) \<and> inv h s''"
    if "\<not> is_expired t' (h ! r)" for t'
  proof (cases "st_lookup ops t' (se_session_id (h ! r)) (h, s')")
    case (fields ro h1 s1)
    with look [OF that] lookup_law [OF inv' fields] that show ?thesis
      by (auto simp: sm_lookup_async_def sm_find_def)
  qed
  with put inv' show ?thesis by (auto simp: sm_persist_def)
qed

lemma create_found:
  assumes "inv h s" and "sm_create ops ttl life now m (h, s) = (r, (h', s'))"
  shows "r = length h" and "h' = h @ [session_new now ttl life m]" and "inv h' s'"
    and "\<not> is_expired t' (session_new now ttl life m) \<Longrightarrow>
      \<exists>s''. sm_lookup_async ops t' t' (sm_session_id m) (h', s') = (Inr (Some r), (h', s'')) \<and> inv h' s''"
proof -
  let ?h = "h @ [session_new now ttl life m]"
  obtain s1 where s1: "st_put ops now (length h) (?h, s) = (?h, s1)"
    and found: "\<And>t'. \<not> is_expired t' (session_new now ttl life m) \<Longrightarrow>
      \<exists>s''. sm_lookup_async ops t' t' (sm_session_id m) (?h, s1) = (Inr (Some (length h)), (?h, s'')) \<and> inv ?h s''"
    and inv1: "inv ?h s1"
    using put_found [OF alloc_law [OF assms(1)], of "length h" "session_new now ttl life m" now]
    by (auto simp: sm_persist_def session_new_def)
  from assms(2) s1 have "r = length h" "h' = ?h" "s' = s1" by (simp_all add: sm_create_def Let_def)
  with found inv1 show "r = length h" "h' = h @ [session_new now ttl life m]" "inv h' s'"
    "\<not> is_expired t' (session_new now ttl life m) \<Longrightarrow>
      \<exists>s''. sm_lookup_async ops t' t' (sm_session_id m) (h', s') = (Inr (Some r), (h', s'')) \<and> inv h' s''"
    by simp_all
qed

end

section \<open>Both stores keep the promises\<close>

definition cache_ok :: "heap \<Rightarrow> cache \<Rightarrow> bool" where
  "cache_ok h d \<longleftrightarrow> dict_ok d \<and>
     (\<forall>sid r. map_of d sid = Some r \<longrightarrow> r < length h \<and> se_session_id (h ! r) = sid)"

lemma cache_okD: "cache_ok h d \<Longrightarrow> map_of d sid = Some r \<Longrightarrow> r < length h \<and> se_session_id (h ! r) = sid"
  by (simp add: cache_ok_def)

lemma cache_ok_delete [intro]: "cache_ok h d \<Longrightarrow> cache_ok h (AList.delete sid d)"
  by (auto simp: cache_ok_def map_of_delete split: if_splits)

lemma cache_ok_put [intro]: "cache_ok h d \<Longrightarrow> r < length h \<Longrightarrow> cache_ok h (AList.update (se_session_id (h ! r)) r d)"
  by (auto simp: cache_ok_def map_of_update)

lemma cache_ok_alloc [intro]: "cache_ok h d \<Longrightarrow> cache_ok (h @ ext) d"
  by (simp add: cache_ok_def nth_append) (meson trans_less_add1)

lemma cache_ok_update: "cache_ok h d \<Longrightarrow> se_session_id x = se_session_id (h ! r) \<Longrightarrow> cache_ok (h[r := x]) d"
  by (simp add: cache_ok_def) (metis nth_list_update nth_list_update_neq)

lemma cache_ok_filter: "cache_ok h d \<Longrightarrow> cache_ok h (filter P d)"
  unfolding cache_ok_def by (metis dict_ok_filter dict_values_in filter_is_subset subsetD)

lemma reap_cache_filter:
  assumes "dict_ok d"
  shows "snd (reap_cache now h d) = filter (\<lambda>(sid, r). \<not> is_expired now (h ! r)) d"
proof -
  let ?f = "\<lambda>(removed, d) sid. case map_of d sid of
      Some r \<Rightarrow> if is_expired now (h ! r) then (removed + 1, AList.delete sid d) else (removed, d)
    | None \<Rightarrow> (removed, d)"
  have "snd (foldl ?f (n, d) ks) = filter (\<lambda>(sid, r). sid \<in> set ks \<longrightarrow> \<not> is_expired now (h ! r)) d"
    if "dict_ok d" for n :: nat and ks d
    using that
  proof (induction ks arbitrary: n d)
    case Nil
    then show ?case by (simp add: case_prod_unfold)
  next
    case (Cons k ks)
    show ?case
    proof (cases "\<exists>r. map_of d k = Some r \<and> is_expired now (h ! r)")
      case True
      then obtain r where r: "map_of d k = Some r" "is_expired now (h ! r)" by blast
      have "(k', r') \<in> set d \<Longrightarrow> k' = k \<Longrightarrow> r' = r" for k' r'
        using r(1) Cons.prems by (simp add: dict_values_in)
      with r show ?thesis
        using Cons.IH [OF dict_ok_delete [OF Cons.prems]]
        by (auto simp: AList.delete_eq filter_filter case_prod_unfold intro!: filter_cong)
    next
      case False
      then have "(k, r) \<in> set d \<Longrightarrow> \<not> is_expired now (h ! r)" for r
        using Cons.prems by (auto simp: dict_values_in)
      with False show ?thesis
        using Cons.IH [OF Cons.prems] by (auto split: option.splits intro!: filter_cong)
    qed
  qed
  from this [OF assms] show ?thesis
    unfolding reap_cache_def by (auto intro!: filter_cong) (force simp: image_iff)+
qed

lemma reap_lookup:
  assumes "dict_ok d"
  shows "map_of (snd (reap_cache now h d)) sid =
    (case map_of d sid of None \<Rightarrow> None | Some r \<Rightarrow> if is_expired now (h ! r) then None else Some r)"
  unfolding reap_cache_filter [OF assms]
  by (simp add: map_of_filter_dict [OF assms] split: option.splits)

definition mem_inv :: "heap \<Rightarrow> cache \<Rightarrow> bool" where
  "mem_inv h d \<longleftrightarrow> cache_ok h d"

interpretation mem: session_store in_memory_store mem_inv
proof unfold_locales
  fix h s r x sid t
  assume inv: "mem_inv h s"
  then have c: "cache_ok h s" and d: "dict_ok s" by (simp_all add: mem_inv_def cache_ok_def)
  show "mem_inv (h @ [x]) s" using c by (auto simp: mem_inv_def)
  show "mem_inv (h[r := x]) s" if "se_session_id x = se_session_id (h ! r)"
    using c that by (simp add: mem_inv_def cache_ok_update)
  show "\<exists>n s'. st_reap_expired in_memory_store t (h, s) = (n, (h, s')) \<and> mem_inv h s' \<and>
      (\<forall>sid. fst (st_lookup in_memory_store t sid (h, s')) = fst (st_lookup in_memory_store t sid (h, s)))"
    using cache_ok_filter [OF c] reap_cache_filter [OF d, of t h] reap_lookup [OF d, of t h]
    by (auto simp: in_memory_store_def mem_reap_expired_def mem_lookup_def mem_inv_def case_prod_unfold
        split: option.splits)
  show "\<exists>b s'. st_delete in_memory_store t sid (h, s) = (b, (h, s')) \<and> mem_inv h s' \<and>
      (\<forall>h' t'. st_lookup in_memory_store t' sid (h', s') = (None, (h', s')) \<and>
        st_hydrate in_memory_store t' sid (h', s') = (Inr None, (h', s')))"
    using c by (auto simp: in_memory_store_def mem_delete_def mem_lookup_def mem_hydrate_def mem_inv_def
        map_of_delete)
  show "\<exists>s'. st_put in_memory_store t r (h, s) = (h, s') \<and> mem_inv h s' \<and>
      (\<forall>t'. \<not> is_expired t' (h ! r) \<longrightarrow>
        fst (st_lookup in_memory_store t' (se_session_id (h ! r)) (h, s')) = Some r)" if "r < length h"
    using c that by (auto simp: in_memory_store_def mem_put_def mem_lookup_def mem_inv_def map_of_update)
next
  fix h :: heap and s :: cache and t sid ro h' s'
  assume "mem_inv h s" "st_lookup in_memory_store t sid (h, s) = (ro, (h', s'))"
  then show "h' = h \<and> mem_inv h s' \<and>
      (\<forall>r. ro = Some r \<longrightarrow> r < length h \<and> se_session_id (h ! r) = sid \<and> \<not> is_expired t (h ! r))"
    by (auto simp: in_memory_store_def mem_lookup_def mem_inv_def dest: cache_okD split: option.splits if_splits)
next
  fix h :: heap and s :: cache and t sid res h' s'
  assume "mem_inv h s" "st_hydrate in_memory_store t sid (h, s) = (res, (h', s'))"
  then show "(\<exists>ext. h' = h @ ext) \<and> mem_inv h' s' \<and>
      (\<forall>r. res = Inr (Some r) \<longrightarrow> r < length h' \<and> se_session_id (h' ! r) = sid \<and> \<not> is_expired t (h' ! r))"
    by (auto simp: in_memory_store_def mem_hydrate_def mem_lookup_def mem_inv_def dest: cache_okD
        split: option.splits if_splits)
qed

text \<open>What Redis holds: after a round trip a session is the same but for its replay bitmap.\<close>

definition session_ok :: "session \<Rightarrow> bool" where
  "session_ok s \<longleftrightarrow> dk_ok (se_c2s s) \<and> dk_ok (se_s2c s)"

definition stored :: "session \<Rightarrow> session" where
  "stored s = s\<lparr>se_replay := \<lparr>rw_high = rw_high (se_replay s), rw_bitmap = 0\<rparr>\<rparr>"

lemma json_strs_map: "json_strs (map JStr ss) = Inr ss"
  by (induction ss) auto

lemma fset_of_sorted_list: "fset_of_list (sorted_list_of_fset A) = A"
  by simp

lemma mk_direction_keys_eq: "dk_ok d \<Longrightarrow> mk_direction_keys (dk_key d) (dk_nonce_prefix d) = Inr d"
  by (simp add: dk_ok_def mk_direction_keys_def)

lemma mk_direction_keys_error: "\<not> dk_ok d \<Longrightarrow> \<exists>e. mk_direction_keys (dk_key d) (dk_nonce_prefix d) = Inl e"
  by (simp add: dk_ok_def mk_direction_keys_def)

lemma session_of_json_json:
  "session_ok s \<Longrightarrow> session_of_json (session_json s) = Inr (stored s)"
  by (simp add: session_ok_def session_of_json_def session_json_def json_bytes_def b64_lenient.dec_enc
      mk_direction_keys_eq json_strs_map stored_def)

lemma session_of_json_id:
  assumes "session_of_json (session_json s) = Inr x"
  shows "se_session_id x = se_session_id s"
proof -
  have "and_then (json_bytes (session_json s) ''session_id'') f = f (se_session_id s)" for f :: "bytes \<Rightarrow> session result"
    by (simp add: json_bytes_def session_json_def b64_lenient.dec_enc)
  with assms show ?thesis
    unfolding session_of_json_def by (auto simp: and_then_Inr_iff)
qed

definition redis_inv :: "'r redis_client \<Rightarrow> json_lib \<Rightarrow> heap \<Rightarrow> 'r redis_state \<Rightarrow> bool" where
  "redis_inv R J h st \<longleftrightarrow> redis_ok R \<and> (\<forall>v. json_roundtrips J v) \<and> cache_ok h (rs_cache st) \<and>
     (\<forall>t sid blob x. rc_get R t (redis_key sid) (rs_redis st) = Some blob \<longrightarrow>
        deserialize J blob = Inr x \<longrightarrow> se_session_id x = sid)"

lemma redis_key_inj [simp]: "redis_key a = redis_key b \<longleftrightarrow> a = b"
  by (simp add: redis_key_def)

lemma redis_get_set: "redis_ok R \<Longrightarrow> rc_get R t' k' (rc_set R t k v ex r) =
    (if k' = k then (if t' < t + of_int ex then Some v else None) else rc_get R t' k' r)"
  unfolding redis_ok_def by blast

lemma redis_get_delete: "redis_ok R \<Longrightarrow> rc_get R t' k' (snd (rc_delete R t k r)) =
    (if k' = k then None else rc_get R t' k' r)"
  unfolding redis_ok_def by blast

lemma deserialize_serialize:
  assumes "\<And>v. json_roundtrips J v"
  shows "deserialize J (serialize J s) = session_of_json (session_json s)"
  using assms [of "session_json s"] by (simp add: deserialize_def serialize_def json_roundtrips_def)

lemma redis_inv_cache:
  "redis_inv R J h st \<Longrightarrow> cache_ok h' d \<Longrightarrow> redis_inv R J h' (st\<lparr>rs_cache := d\<rparr>)"
  by (auto simp: redis_inv_def)

lemma redis_inv_delete:
  "redis_inv R J h st \<Longrightarrow> cache_ok h d \<Longrightarrow>
    redis_inv R J h \<lparr>rs_redis = snd (rc_delete R t (redis_key sid) (rs_redis st)), rs_cache = d\<rparr>"
  by (auto simp: redis_inv_def redis_get_delete)

lemma redis_inv_delete_only:
  "redis_inv R J h st \<Longrightarrow>
    redis_inv R J h (st\<lparr>rs_redis := snd (rc_delete R t (redis_key sid) (rs_redis st))\<rparr>)"
  by (auto simp: redis_inv_def redis_get_delete)

lemma redis_inv_put:
  assumes "redis_inv R J h st" and "r < length h"
  shows "redis_inv R J h (snd (redis_put R J key_ttl t r (h, st)))"
proof -
  have rt: "\<And>v. json_roundtrips J v" and "redis_ok R" using assms(1) by (auto simp: redis_inv_def)
  with assms show ?thesis
    by (auto simp: redis_inv_def redis_put_def Let_def redis_get_set deserialize_serialize [OF rt]
        dest: session_of_json_id split: if_splits)
qed

lemma redis_fetch_spec:
  assumes inv: "redis_inv R J h st" and f: "redis_fetch R J t sid (h, st) = (res, (h', st'))"
  shows "(\<exists>ext. h' = h @ ext) \<and> redis_inv R J h' st' \<and>
      (\<forall>r. res = Inr (Some r) \<longrightarrow> r < length h' \<and> se_session_id (h' ! r) = sid \<and> \<not> is_expired t (h' ! r))"
proof -
  have c: "cache_ok h (rs_cache st)" using inv by (simp add: redis_inv_def)
  show ?thesis
  proof (cases "\<exists>blob x. rc_get R t (redis_key sid) (rs_redis st) = Some blob \<and> deserialize J blob = Inr x")
    case False
    with inv f show ?thesis
      by (auto simp: redis_fetch_def split: option.splits sum.splits)
  next
    case True
    then obtain blob x where x: "rc_get R t (redis_key sid) (rs_redis st) = Some blob" "deserialize J blob = Inr x"
      by blast
    with inv have id: "se_session_id x = sid" unfolding redis_inv_def by blast
    have "cache_ok (h @ [x]) (AList.update sid (length h) (rs_cache st))"
      using cache_ok_put [OF cache_ok_alloc [OF c, of "[x]"], of "length h"] id by simp
    from redis_inv_cache [OF inv this] x id f redis_inv_delete_only [OF inv, of t sid] show ?thesis
      by (auto simp: redis_fetch_def Let_def split: if_splits)
  qed
qed

interpretation redis: session_store "redis_store R J key_ttl_floor" "redis_inv R J"
proof unfold_locales
  fix h s r x sid t
  assume inv: "redis_inv R J h s"
  then have c: "cache_ok h (rs_cache s)" and d: "dict_ok (rs_cache s)" and R: "redis_ok R"
    by (simp_all add: redis_inv_def cache_ok_def)
  show "redis_inv R J (h @ [x]) s"
    using redis_inv_cache [OF inv cache_ok_alloc [OF c]] by simp
  show "redis_inv R J (h[r := x]) s" if "se_session_id x = se_session_id (h ! r)"
    using redis_inv_cache [OF inv cache_ok_update [OF c that]] by simp
  show "\<exists>n s'. st_reap_expired (redis_store R J key_ttl_floor) t (h, s) = (n, (h, s')) \<and> redis_inv R J h s' \<and>
      (\<forall>sid. fst (st_lookup (redis_store R J key_ttl_floor) t sid (h, s'))
        = fst (st_lookup (redis_store R J key_ttl_floor) t sid (h, s)))"
    using redis_inv_cache [OF inv cache_ok_filter [OF c]] reap_cache_filter [OF d, of t h]
      reap_lookup [OF d, of t h]
    by (auto simp: redis_store_def redis_reap_expired_def redis_lookup_def case_prod_unfold
        split: option.splits)
  show "\<exists>b s'. st_delete (redis_store R J key_ttl_floor) t sid (h, s) = (b, (h, s')) \<and> redis_inv R J h s' \<and>
      (\<forall>h' t'. st_lookup (redis_store R J key_ttl_floor) t' sid (h', s') = (None, (h', s')) \<and>
        st_hydrate (redis_store R J key_ttl_floor) t' sid (h', s') = (Inr None, (h', s')))"
    using redis_inv_delete [OF inv cache_ok_delete [OF c]]
    by (auto simp: redis_store_def redis_delete_def redis_lookup_def redis_hydrate_def redis_fetch_def
        case_prod_unfold map_of_delete redis_get_delete [OF R] Let_def)
  show "\<exists>s'. st_put (redis_store R J key_ttl_floor) t r (h, s) = (h, s') \<and> redis_inv R J h s' \<and>
      (\<forall>t'. \<not> is_expired t' (h ! r) \<longrightarrow>
        fst (st_lookup (redis_store R J key_ttl_floor) t' (se_session_id (h ! r)) (h, s')) = Some r)"
    if "r < length h"
    using redis_inv_put [OF inv that, of key_ttl_floor t]
    by (auto simp: redis_store_def redis_put_def redis_lookup_def Let_def map_of_update)
next
  fix h and s :: "'a redis_state" and t sid ro h' s'
  assume inv: "redis_inv R J h s" and l: "st_lookup (redis_store R J key_ttl_floor) t sid (h, s) = (ro, (h', s'))"
  have c: "cache_ok h (rs_cache s)" using inv by (simp add: redis_inv_def)
  from l c inv redis_inv_cache [OF inv cache_ok_delete [OF c]]
  show "h' = h \<and> redis_inv R J h s' \<and>
      (\<forall>r. ro = Some r \<longrightarrow> r < length h \<and> se_session_id (h ! r) = sid \<and> \<not> is_expired t (h ! r))"
    by (auto simp: redis_store_def redis_lookup_def dest: cache_okD split: option.splits if_splits)
next
  fix h and s :: "'a redis_state" and t sid res h' s'
  assume inv: "redis_inv R J h s"
    and l: "st_hydrate (redis_store R J key_ttl_floor) t sid (h, s) = (res, (h', s'))"
  have c: "cache_ok h (rs_cache s)" using inv by (simp add: redis_inv_def)
  show "(\<exists>ext. h' = h @ ext) \<and> redis_inv R J h' s' \<and>
      (\<forall>r. res = Inr (Some r) \<longrightarrow> r < length h' \<and> se_session_id (h' ! r) = sid \<and> \<not> is_expired t (h' ! r))"
  proof (cases "\<exists>r. map_of (rs_cache s) sid = Some r \<and> \<not> is_expired t (h ! r)")
    case True
    with l c inv show ?thesis
      by (auto simp: redis_store_def redis_hydrate_def dest: cache_okD)
  next
    case False
    with l have "redis_fetch R J t sid (h, s) = (res, (h', s'))"
      by (auto simp: redis_store_def redis_hydrate_def split: option.splits)
    from redis_fetch_spec [OF inv this] show ?thesis .
  qed
qed

section \<open>A concrete Redis\<close>

text \<open>A map from keys to values with their expiry, on which theorems about a Redis are applied.\<close>

definition demo_redis :: "(string \<Rightarrow> (bytes \<times> float_py) option) redis_client" where
  "demo_redis =
     \<lparr>rc_set = (\<lambda>t k v ex r. r(k \<mapsto> (v, t + of_int ex))),
      rc_get = (\<lambda>t k r. case r k of None \<Rightarrow> None | Some (v, e) \<Rightarrow> if t < e then Some v else None),
      rc_delete = (\<lambda>t k r. (case r k of None \<Rightarrow> 0 | Some (v, e) \<Rightarrow> if t < e then 1 else 0, r(k := None)))\<rparr>"

lemma demo_redis_ok: "redis_ok demo_redis"
  unfolding redis_ok_def
proof (intro conjI allI)
  fix t k and r :: "string \<Rightarrow> (bytes \<times> float_py) option"
  show "fst (rc_delete demo_redis t k r) = (if rc_get demo_redis t k r = None then 0 else 1)"
    by (cases "r k") (auto simp: demo_redis_def split: if_splits)
qed (simp_all add: demo_redis_def)

definition demo_material :: session_material where
  "demo_material = \<lparr>sm_session_id = replicate 16 5, sm_c2s = demo_keys,
     sm_s2c = \<lparr>dk_key = replicate 32 6, dk_nonce_prefix = [4, 3, 2, 1]\<rparr>, sm_ttl_seconds = 600,
     sm_client_fingerprint = ''fp'', sm_scopes = [''chat''], sm_tenant = ''acme''\<rparr>"

definition empty_redis :: "(string \<Rightarrow> (bytes \<times> float_py) option) redis_state" where
  "empty_redis = \<lparr>rs_redis = (\<lambda>_. None), rs_cache = []\<rparr>"

lemma empty_redis_inv: "redis_inv demo_redis unary_json [] empty_redis"
proof -
  have "rc_get demo_redis t k (rs_redis empty_redis) = None" for t k
    by (simp add: demo_redis_def empty_redis_def)
  then show ?thesis
    using unary_json_roundtrips by (auto simp: redis_inv_def demo_redis_ok empty_redis_def cache_ok_def)
qed

section \<open>Properties\<close>

text \<open>A created session is served from then on under its id, until it has been idle for its time to
  live or has reached the maximum lifetime, with the keys of the handshake, a fresh replay window
  and the scopes and tenant of the material.\<close>

theorem created_session_served:
  assumes "cache_ok h d" and "sm_create in_memory_store ttl life now m (h, d) = (r, (h', d'))"
    and "sm_ttl_seconds m \<noteq> 0" and "t - now \<le> of_int (sm_ttl_seconds m)" and "t - now \<le> of_int life"
  shows "\<exists>d''. sm_lookup_async in_memory_store t t (sm_session_id m) (h', d') = (Inr (Some r), (h', d'')) \<and>
    se_c2s (h' ! r) = sm_c2s m \<and> se_s2c (h' ! r) = sm_s2c m \<and> se_tenant (h' ! r) = sm_tenant m \<and>
    (\<forall>scope. has_scope scope (h' ! r) \<longleftrightarrow> scope \<in> set (sm_scopes m)) \<and>
    se_replay (h' ! r) = replay_window_new"
proof -
  have live: "\<not> is_expired t (session_new now ttl life m)"
    using assms(3-5) by (simp add: is_expired_def session_new_def int_or_def)
  have "mem_inv h d" using assms(1) by (simp add: mem_inv_def)
  note found = mem.create_found [OF this assms(2)]
  from found(4) [OF live] found(1,2) show ?thesis
    by (auto simp: mem_inv_def session_new_def has_scope_def fset_of_list_elem)
qed

theorem created_session_served_witness:
  "\<exists>r h d d''. sm_create in_memory_store 900 3600 100 demo_material ([], []) = (r, (h, d)) \<and>
     sm_lookup_async in_memory_store 700 700 (replicate 16 5) (h, d) = (Inr (Some r), (h, d'')) \<and>
     has_scope ''chat'' (h ! r)"
proof -
  obtain r h d where run: "sm_create in_memory_store 900 3600 100 demo_material ([], []) = (r, (h, d))"
    by (metis prod.exhaust)
  have "cache_ok [] []" by (simp add: cache_ok_def)
  from created_session_served [OF this run, of 700] run show ?thesis
    by (auto simp: demo_material_def)
qed

text \<open>No request is served with a dead session, whichever store is behind the manager: what
  \<open>lookup_async\<close> returns has the id that was asked for, is not closed and is within its idle and
  lifetime limits at both clock readings of the coroutine, and the store's invariant is kept.\<close>

theorem served_session_live:
  assumes "redis_inv R J h st"
    and "sm_lookup_async (redis_store R J key_ttl) t t' sid (h, st) = (Inr (Some r), (h', st'))"
  shows "se_session_id (h' ! r) = sid \<and> \<not> se_closed (h' ! r) \<and>
    t' - se_last_used_at (h' ! r) \<le> of_int (se_ttl_seconds (h' ! r)) \<and>
    t' - se_created_at (h' ! r) \<le> of_int (se_max_lifetime_seconds (h' ! r)) \<and> redis_inv R J h' st'"
  using redis.lookup_async_live [OF assms] by (auto simp: is_expired_def split: if_splits)

lemma demo_redis_run:
  "\<exists>st r h st'. sm_create (redis_store demo_redis unary_json 60) 900 3600 100 demo_material ([], empty_redis) = (r, (h, st)) \<and>
     redis_inv demo_redis unary_json h st \<and> r = 0 \<and> h = [session_new 100 900 3600 demo_material] \<and>
     sm_lookup_async (redis_store demo_redis unary_json 60) 700 700 (replicate 16 5) (h, st) = (Inr (Some r), (h, st'))"
proof -
  obtain r h st where run: "sm_create (redis_store demo_redis unary_json 60) 900 3600 100 demo_material ([], empty_redis)
    = (r, (h, st))" by (metis prod.exhaust)
  note found = redis.create_found [OF empty_redis_inv run]
  have "\<not> is_expired 700 (session_new 100 900 3600 demo_material)"
    by (simp add: is_expired_def session_new_def demo_material_def int_or_def)
  from found(4) [OF this] found(1-3) run show ?thesis by (auto simp: demo_material_def)
qed

theorem served_session_live_witness:
  "\<exists>st r h st'. sm_lookup_async (redis_store demo_redis unary_json 60) 700 700 (replicate 16 5) (h, st)
      = (Inr (Some r), (h, st')) \<and> redis_inv demo_redis unary_json h st \<and> \<not> se_closed (h ! r)"
proof -
  obtain st r h st' where st: "redis_inv demo_redis unary_json h st"
    and run: "sm_lookup_async (redis_store demo_redis unary_json 60) 700 700 (replicate 16 5) (h, st)
      = (Inr (Some r), (h, st'))" using demo_redis_run by blast
  from served_session_live [OF st run] st run show ?thesis by blast
qed

text \<open>Terminating a session the manager finds is final on that instance: its id is unknown to every
  later lookup, the store's copy included, and the object that running handlers may still hold is
  closed, with both keys overwritten by zeros.\<close>

theorem terminated_session_gone:
  assumes "redis_inv R J h st" and "sm_find (redis_store R J key_ttl) t sid (h, st) = (Inr (Some r), (h1, st1))"
  shows "\<exists>b h' st'. sm_terminate (redis_store R J key_ttl) t sid (h, st) = (Inr b, (h', st')) \<and>
    se_closed (h' ! r) \<and> dk_key (se_c2s (h' ! r)) = replicate 32 0 \<and> dk_key (se_s2c (h' ! r)) = replicate 32 0 \<and>
    (\<forall>t1 t2. sm_lookup_async (redis_store R J key_ttl) t1 t2 sid (h', st') = (Inr None, (h', st')))"
proof -
  from redis.terminate_gone [OF assms] obtain b h' st' where
    "sm_terminate (redis_store R J key_ttl) t sid (h, st) = (Inr b, (h', st'))"
    "h' ! r = zero_session (h1 ! r)"
    "\<forall>t1 t2. sm_lookup_async (redis_store R J key_ttl) t1 t2 sid (h', st') = (Inr None, (h', st'))" by blast
  then show ?thesis by (auto simp: zero_session_def Let_def)
qed

theorem terminated_session_gone_witness:
  "\<exists>h st b h' st'. sm_terminate (redis_store demo_redis unary_json 60) 700 (replicate 16 5) (h, st) = (Inr b, (h', st')) \<and>
     length h = 1 \<and> se_closed (h' ! 0) \<and>
     sm_lookup_async (redis_store demo_redis unary_json 60) 701 702 (replicate 16 5) (h', st') = (Inr None, (h', st'))"
proof -
  obtain st r h st' where st: "redis_inv demo_redis unary_json h st" and r: "r = 0" "length h = 1"
    and run: "sm_lookup_async (redis_store demo_redis unary_json 60) 700 700 (replicate 16 5) (h, st)
      = (Inr (Some r), (h, st'))" using demo_redis_run by auto
  have "\<exists>h1 st1. sm_find (redis_store demo_redis unary_json 60) 700 (replicate 16 5) (h, st) = (Inr (Some r), (h1, st1))"
    using run by (auto simp: sm_lookup_async_def split: prod.splits sum.splits option.splits if_splits)
  then obtain h1 st1 where "sm_find (redis_store demo_redis unary_json 60) 700 (replicate 16 5) (h, st)
    = (Inr (Some r), (h1, st1))" by blast
  from terminated_session_gone [OF st this] r show ?thesis by blast
qed

text \<open>What another instance reads of a session that was persisted.\<close>

lemma redis_failover_find:
  assumes "redis_ok R" and "\<And>v. json_roundtrips J v" and "session_ok (h ! r)"
    and "\<not> is_expired t' (h ! r)" and "t' < t + of_int (redis_ttl key_ttl t (h ! r))"
  shows "\<exists>st'. sm_find (redis_store R J key_ttl) t' (se_session_id (h ! r))
      ([], \<lparr>rs_redis = rs_redis (snd (redis_put R J key_ttl t r (h, st))), rs_cache = []\<rparr>)
        = (Inr (Some 0), ([stored (h ! r)], st'))"
proof -
  have "deserialize J (serialize J (h ! r)) = Inr (stored (h ! r))"
    using deserialize_serialize [OF assms(2)] session_of_json_json [OF assms(3)] by simp
  moreover have "\<not> is_expired t' (stored (h ! r))"
    using assms(4) by (simp add: is_expired_def stored_def split: if_splits)
  ultimately show ?thesis
    using redis_get_set [OF assms(1)] assms(5)
    by (auto simp: sm_find_def redis_store_def redis_lookup_def redis_hydrate_def redis_fetch_def
        redis_put_def Let_def)
qed

text \<open>What a failover to another instance loses: the session the second instance reads from Redis is
  the persisted one in every field but the replay bitmap, so the counter at the persisted watermark,
  and every counter less than 1024 below it, is accepted once more.\<close>

theorem failover_replays_window:
  assumes "redis_ok R" and "\<And>v. json_roundtrips J v" and "session_ok s"
    and "\<not> is_expired t' s" and "t' < t + of_int (redis_ttl key_ttl t s)"
  shows "\<exists>st'. sm_find (redis_store R J key_ttl) t' (se_session_id s)
      ([], \<lparr>rs_redis = rs_redis (snd (redis_put R J key_ttl t 0 ([s], st))), rs_cache = []\<rparr>)
        = (Inr (Some 0), ([stored s], st')) \<and>
    se_c2s (stored s) = se_c2s s \<and> se_s2c_counter (stored s) = se_s2c_counter s \<and>
    (\<forall>c. 0 \<le> c \<and> c \<le> rw_high (se_replay s) \<and> rw_high (se_replay s) - c < int WINDOW_BITS \<longrightarrow>
      is_ok (check_and_advance c (se_replay (stored s))))"
proof -
  have "is_ok (check_and_advance c (se_replay (stored s)))"
    if "0 \<le> c" "rw_high (se_replay s) - c < int WINDOW_BITS" for c
    using that check_accept_iff [of c "se_replay (stored s)"] by (auto simp: is_ok_iff stored_def rw_seen_def)
  then show ?thesis
    using redis_failover_find [of R J "[s]" 0 t' t key_ttl st] assms by (simp add: stored_def)
qed

theorem failover_replays_window_witness:
  "is_ok (check_and_advance 7 (se_replay (stored ((session_new 100 900 3600 demo_material)
     \<lparr>se_replay := \<lparr>rw_high = 7, rw_bitmap = 255\<rparr>\<rparr>))))"
proof -
  let ?s = "(session_new 100 900 3600 demo_material)\<lparr>se_replay := \<lparr>rw_high = 7, rw_bitmap = 255\<rparr>\<rparr>"
  have "session_ok ?s" by (simp add: session_ok_def session_new_def demo_material_def demo_keys_def dk_ok_def)
  moreover have "\<not> is_expired 150 ?s"
    by (simp add: is_expired_def session_new_def demo_material_def int_or_def)
  moreover have "(150 :: float_py) < 100 + of_int (redis_ttl 60 100 ?s)"
    by (simp add: redis_ttl_def session_new_def demo_material_def int_or_def py_trunc_def Let_def)
  ultimately obtain st' where
    "\<forall>c. 0 \<le> c \<and> c \<le> rw_high (se_replay ?s) \<and> rw_high (se_replay ?s) - c < int WINDOW_BITS \<longrightarrow>
      is_ok (check_and_advance c (se_replay (stored ?s)))"
    using failover_replays_window [OF demo_redis_ok unary_json_roundtrips, of ?s 150 100 60 empty_redis] by blast
  then show ?thesis by (simp add: WINDOW_BITS_def)
qed

end
