(* ===== verification/EnvelopeDep.thy ===== *)
theory EnvelopeDep
  imports Session
begin

text \<open>
  What every encrypted endpoint goes through (\<open>server/.../routers/_envelope_dep.py\<close>) and the two
  session endpoints (\<open>server/.../routers/session.py\<close>). A handler's effects are the world it returns
  (heap and store) even where it fails, its counters and audit events are values. The pydantic
  validation of a body is a parameter \<open>validate\<close>, a serialized model is a byte string; the time
  slept on a failure is part of the rejection.
\<close>

section \<open>Requests and outcomes\<close>

record request =
  rq_method :: string
  rq_path :: string
  rq_body :: bytes

record rejection =
  rj_metric :: string \<comment> \<open>label of \<open>envelope_failures_total\<close>\<close>
  rj_http :: int
  rj_code :: error_code
  rj_message :: string
  rj_slept :: float_py

datatype 'a outcome = Rejected rejection | Raised exn | Accepted ref 'a

definition AUTH_FAIL_FLOOR_S :: float_py where
  "AUTH_FAIL_FLOOR_S = 1 / 5"

text \<open>\<open>_slow\<close>: how long it sleeps when the handler began at \<open>start\<close> and calls it at \<open>now\<close>.\<close>

definition slow :: "float_py \<Rightarrow> float_py \<Rightarrow> float_py" where
  "slow start now =
     (let spent = now - start in if spent < AUTH_FAIL_FLOOR_S then AUTH_FAIL_FLOOR_S - spent else 0)"

definition upd_session :: "ref \<Rightarrow> (session \<Rightarrow> session) \<Rightarrow> 's world \<Rightarrow> 's world" where
  "upd_session r f w = ((fst w)[r := f (fst w ! r)], snd w)"

section \<open>Decrypting a request\<close>

text \<open>
  \<open>started\<close> and \<open>failed\<close> are the monotonic clock at the start and where \<open>_slow\<close> is called; \<open>t\<close> and \<open>t'\<close>
  the wall clock at the store lookup and after it.
\<close>

definition decrypt_request ::
  "nacl \<Rightarrow> 's store_ops \<Rightarrow> (bytes \<Rightarrow> string + 'a) \<Rightarrow> float_py \<Rightarrow> float_py \<Rightarrow> float_py \<Rightarrow> float_py \<Rightarrow> request \<Rightarrow>
   's world \<Rightarrow> 'a outcome \<times> 's world" where
  "decrypt_request N ops validate started failed t t' rq w =
     (let raw = rq_body rq;
          reject = (\<lambda>metric http code. Rejected \<lparr>rj_metric = metric, rj_http = http, rj_code = code,
            rj_message = [], rj_slept = slow started failed\<rparr>)
      in
      if length raw < 41 then (reject ''too_short'' 400 BAD_ENVELOPE, w)
      else case unpack_envelope raw of
        Inl e \<Rightarrow> (reject ''malformed'' 400 BAD_ENVELOPE, w)
      | Inr env \<Rightarrow>
          (case sm_lookup_async ops t t' (env_session_id env) w of
             (Inl e, w) \<Rightarrow> (Raised e, w)
           | (Inr None, w) \<Rightarrow> (reject ''unknown_session'' 401 UNKNOWN_SESSION, w)
           | (Inr (Some r), w) \<Rightarrow>
               (case check_and_advance (env_counter env) (se_replay (fst w ! r)) of
                  Inl e \<Rightarrow> (reject ''replay'' 400 REPLAY_DETECTED, w)
                | Inr window \<Rightarrow>
                    let w = upd_session r (\<lambda>s. s\<lparr>se_replay := window\<rparr>) w; session = fst w ! r in
                    (case open_envelope N (se_c2s session) (se_session_id session) (rq_method rq) (rq_path rq) raw of
                       Inl (EnvelopeAuthError m) \<Rightarrow> (reject ''aead'' 400 DECRYPT_FAILED, w)
                     | Inl (OpenExn e) \<Rightarrow> (Raised e, w)
                     | Inr (env', plaintext) \<Rightarrow>
                         (case validate plaintext of
                            Inl msg \<Rightarrow> (Rejected \<lparr>rj_metric = ''schema'', rj_http = 400, rj_code = BAD_REQUEST,
                              rj_message = msg, rj_slept = 0\<rparr>, w)
                          | Inr parsed \<Rightarrow>
                              (Accepted r parsed, sm_persist ops t' r (upd_session r (touch t') w)))))))"

section \<open>Encrypting a response\<close>

datatype payload = ModelPayload bytes | DictPayload json

fun payload_body :: "json_lib \<Rightarrow> payload \<Rightarrow> bytes" where
  "payload_body J (ModelPayload dumped) = dumped"
| "payload_body J (DictPayload v) = json_dumps J v"

definition encrypt_response ::
  "nacl \<Rightarrow> json_lib \<Rightarrow> ref \<Rightarrow> payload \<Rightarrow> string \<Rightarrow> string \<Rightarrow> direction_keys option \<Rightarrow> 's world \<Rightarrow>
   (seal_error + bytes) \<times> 's world" where
  "encrypt_response N J r payload method path direction w =
     (let body = payload_body J payload;
          w = upd_session r (\<lambda>s. s\<lparr>se_s2c_counter := se_s2c_counter s + 1\<rparr>) w;
          session = fst w ! r
      in (seal N (case direction of Some d \<Rightarrow> d | None \<Rightarrow> se_s2c session) (se_s2c_counter session)
            (se_session_id session) method path body, w))"

section \<open>The session endpoints\<close>

record audit_event =
  ae_event :: string
  ae_fields :: "(string \<times> string) list"

datatype http_result =
    HttpError int error_code string \<comment> \<open>status, error envelope\<close>
  | HttpStatus int
  | HttpHandshake handshake_response
  | HttpCrash exn

text \<open>\<open>POST /v1/session\<close>: the host the server checks is the one the request names.\<close>

definition create_session ::
  "nacl \<Rightarrow> json_lib \<Rightarrow> 's store_ops \<Rightarrow> server_identity \<Rightarrow> (bytes \<rightharpoonup> authorized_client) \<Rightarrow> int \<Rightarrow> int \<Rightarrow> int \<Rightarrow>
   attestation_backend option \<Rightarrow> int \<Rightarrow> bytes \<Rightarrow> bytes \<Rightarrow> float_py \<Rightarrow> handshake_request \<Rightarrow> 's world \<Rightarrow>
   http_result \<times> audit_event list \<times> 's world" where
  "create_session N J ops identity allowlist skew_seconds ttl_seconds max_life attestation clock
     server_eph_sk session_id now req w =
     (case perform_handshake N J req identity allowlist skew_seconds ttl_seconds (hr_server_host req) None
        attestation clock server_eph_sk session_id of
        Inl (HandshakeError code msg) \<Rightarrow>
          (HttpError 401 code msg,
           [\<lparr>ae_event = ''handshake.reject'', ae_fields = [(''code'', code_value code)]\<rparr>], w)
      | Inl (HandshakeOther e) \<Rightarrow> (HttpCrash e, [], w)
      | Inr (response, material) \<Rightarrow>
          let (r, w) = sm_create ops ttl_seconds max_life now material w; sess = fst w ! r in
          (HttpHandshake response,
           [\<lparr>ae_event = ''handshake.ok'',
             ae_fields = [(''client_fp'', se_client_fingerprint sess), (''tenant'', se_tenant sess)]\<rparr>], w))"

text \<open>\<open>DELETE /v1/session/{id}\<close>: plain text, no envelope.\<close>

definition path_session_id :: "string \<Rightarrow> bytes result" where
  "path_session_id sid_b64 =
     (case urlsafe_b64decode sid_b64 of
        Inr sid \<Rightarrow> Inr sid
      | Inl e \<Rightarrow> b64decode True sid_b64)"

definition terminate_session ::
  "'s store_ops \<Rightarrow> float_py \<Rightarrow> string \<Rightarrow> 's world \<Rightarrow> http_result \<times> audit_event list \<times> 's world" where
  "terminate_session ops now sid_b64 w =
     (case path_session_id sid_b64 of
        Inl e \<Rightarrow> (HttpStatus 400, [], w)
      | Inr sid \<Rightarrow>
          (case sm_terminate ops now sid w of
             (Inl e, w) \<Rightarrow> (HttpCrash e, [], w)
           | (Inr removed, w) \<Rightarrow>
               (HttpStatus 204,
                [\<lparr>ae_event = ''session.terminate'',
                  ae_fields = [(''session_id'', sid_b64),
                    (''removed'', if removed then ''True'' else ''False'')]\<rparr>], w)))"

section \<open>What an accepted request went through\<close>

definition request_counter :: "request \<Rightarrow> int" where
  "request_counter rq = (case unpack_envelope (rq_body rq) of Inl e \<Rightarrow> 0 | Inr env \<Rightarrow> env_counter env)"

lemma decrypt_Accepted:
  assumes "decrypt_request N ops validate st f t t' rq w = (Accepted r p, w')"
  shows "\<exists>env w1 window env' pt. unpack_envelope (rq_body rq) = Inr env \<and>
    sm_lookup_async ops t t' (env_session_id env) w = (Inr (Some r), w1) \<and>
    check_and_advance (env_counter env) (se_replay (fst w1 ! r)) = Inr window \<and>
    open_envelope N (se_c2s (fst (upd_session r (\<lambda>s. s\<lparr>se_replay := window\<rparr>) w1) ! r))
      (se_session_id (fst (upd_session r (\<lambda>s. s\<lparr>se_replay := window\<rparr>) w1) ! r))
      (rq_method rq) (rq_path rq) (rq_body rq) = Inr (env', pt) \<and>
    validate pt = Inr p \<and>
    w' = sm_persist ops t' r (upd_session r (touch t') (upd_session r (\<lambda>s. s\<lparr>se_replay := window\<rparr>) w1))"
  using assms unfolding decrypt_request_def Let_def
  by (auto split: if_splits sum.splits prod.splits option.splits open_error.splits)

text \<open>The steps after the session is found, whatever the lookup did to the world.\<close>

definition with_session ::
  "nacl \<Rightarrow> 's store_ops \<Rightarrow> (bytes \<Rightarrow> string + 'a) \<Rightarrow> float_py \<Rightarrow> float_py \<Rightarrow> float_py \<Rightarrow> request \<Rightarrow> envelope \<Rightarrow> ref \<Rightarrow>
   's world \<Rightarrow> 'a outcome \<times> 's world" where
  "with_session N ops validate st f t' rq env r w =
     (let reject = (\<lambda>metric http code. Rejected \<lparr>rj_metric = metric, rj_http = http, rj_code = code,
            rj_message = [], rj_slept = slow st f\<rparr>) in
      case check_and_advance (env_counter env) (se_replay (fst w ! r)) of
        Inl e \<Rightarrow> (reject ''replay'' 400 REPLAY_DETECTED, w)
      | Inr window \<Rightarrow>
          let w = upd_session r (\<lambda>s. s\<lparr>se_replay := window\<rparr>) w; session = fst w ! r in
          (case open_envelope N (se_c2s session) (se_session_id session) (rq_method rq) (rq_path rq) (rq_body rq) of
             Inl (EnvelopeAuthError m) \<Rightarrow> (reject ''aead'' 400 DECRYPT_FAILED, w)
           | Inl (OpenExn e) \<Rightarrow> (Raised e, w)
           | Inr (env', plaintext) \<Rightarrow>
               (case validate plaintext of
                  Inl msg \<Rightarrow> (Rejected \<lparr>rj_metric = ''schema'', rj_http = 400, rj_code = BAD_REQUEST,
                    rj_message = msg, rj_slept = 0\<rparr>, w)
                | Inr parsed \<Rightarrow>
                    (Accepted r parsed, sm_persist ops t' r (upd_session r (touch t') w)))))"

lemma unpack_length: "unpack_envelope buf = Inr env \<Longrightarrow> 57 \<le> length buf"
  by (auto simp: unpack_envelope_def wire_lengths split: if_splits)

lemma decrypt_with_session:
  assumes "unpack_envelope (rq_body rq) = Inr env"
    and "sm_lookup_async ops t t' (env_session_id env) w = (Inr (Some r), w1)"
  shows "decrypt_request N ops validate st f t t' rq w = with_session N ops validate st f t' rq env r w1"
  using assms unpack_length [OF assms(1)]
  by (simp add: decrypt_request_def with_session_def Let_def)

text \<open>Where no session is found, nothing is accepted and the rejection says nothing else.\<close>

lemma decrypt_no_session:
  assumes "unpack_envelope (rq_body rq) = Inr env"
    and "sm_lookup_async ops t t' (env_session_id env) w = (Inr None, w1)"
  shows "decrypt_request N ops validate st f t t' rq w =
    (Rejected \<lparr>rj_metric = ''unknown_session'', rj_http = 401, rj_code = UNKNOWN_SESSION, rj_message = [],
      rj_slept = slow st f\<rparr>, w1)"
  using assms unpack_length [OF assms(1)] by (simp add: decrypt_request_def)

section \<open>Replay windows along a run\<close>

definition windows_ok :: "heap \<Rightarrow> bool" where
  "windows_ok h \<longleftrightarrow> (\<forall>s \<in> set h. rw_ok (se_replay s))"

definition blocked :: "heap \<Rightarrow> ref \<Rightarrow> int \<Rightarrow> bool" where
  "blocked h r c \<longleftrightarrow> rw_blocked (se_replay (h ! r)) c"

definition windows_kept :: "heap \<Rightarrow> heap \<Rightarrow> bool" where
  "windows_kept h h' \<longleftrightarrow> length h' = length h \<and> windows_ok h' \<and>
     (\<forall>r c. r < length h \<longrightarrow> blocked h r c \<longrightarrow> blocked h' r c)"

lemma windows_kept_refl: "windows_ok h \<Longrightarrow> windows_kept h h"
  by (simp add: windows_kept_def)

lemma windows_kept_trans [trans]: "windows_kept h h1 \<Longrightarrow> windows_kept h1 h2 \<Longrightarrow> windows_kept h h2"
  by (simp add: windows_kept_def)

lemma windows_ok_update: "windows_ok h \<Longrightarrow> rw_ok (se_replay x) \<Longrightarrow> windows_ok (h[r := x])"
  by (auto simp: windows_ok_def dest!: set_update_subset_insert [THEN subsetD])

lemma windows_ok_nth: "windows_ok h \<Longrightarrow> r < length h \<Longrightarrow> rw_ok (se_replay (h ! r))"
  by (simp add: windows_ok_def)

lemma windows_kept_same:
  assumes "windows_ok h" and "r < length h" and "se_replay x = se_replay (h ! r)"
  shows "windows_kept h (h[r := x])"
  using assms windows_ok_update [OF assms(1), of x r] windows_ok_nth [OF assms(1,2)]
  by (auto simp: windows_kept_def blocked_def nth_list_update)

lemma windows_kept_advance:
  assumes "windows_ok h" and "r < length h" and "check_and_advance c (se_replay (h ! r)) = Inr win"
  shows "windows_kept h (h[r := (h ! r)\<lparr>se_replay := win\<rparr>])"
    and "\<not> blocked h r c" and "blocked (h[r := (h ! r)\<lparr>se_replay := win\<rparr>]) r c"
proof -
  note ok = windows_ok_nth [OF assms(1,2)]
  have ok': "rw_ok win" by (rule rw.inv_check [OF ok assms(3)])
  show "windows_kept h (h[r := (h ! r)\<lparr>se_replay := win\<rparr>])"
    using windows_ok_update [OF assms(1), of "(h ! r)\<lparr>se_replay := win\<rparr>" r] ok'
      rw.blocked_mono [OF ok assms(3)] assms(2)
    by (auto simp: windows_kept_def blocked_def nth_list_update)
  show "\<not> blocked h r c"
    using rw.blocked_reject [OF ok, of c] assms(3) by (auto simp: blocked_def is_ok_iff)
  show "blocked (h[r := (h ! r)\<lparr>se_replay := win\<rparr>]) r c"
    using rw.accept_blocks [OF ok assms(3)] assms(2) by (simp add: blocked_def)
qed

text \<open>The lookup and the whole handler keep every window of the in-memory server.\<close>

lemma mem_lookup_async_kept:
  assumes "mem_inv h d" and "windows_ok h"
    and "sm_lookup_async in_memory_store t t' sid (h, d) = (res, (h', d'))"
  shows "windows_kept h h' \<and> mem_inv h' d' \<and> (\<forall>r. res = Inr (Some r) \<longrightarrow> r < length h')"
proof -
  have "windows_kept h h'"
  proof (cases "\<exists>r. map_of d sid = Some r \<and> \<not> is_expired t (h ! r) \<and> is_expired t' (h ! r)")
    case True
    then obtain r where r: "map_of d sid = Some r" "\<not> is_expired t (h ! r)" "is_expired t' (h ! r)" by blast
    then have "r < length h" using assms(1) by (auto simp: mem_inv_def dest: cache_okD)
    from windows_kept_same [OF assms(2) this, of "zero_session (h ! r)"] r assms(3) show ?thesis
      by (auto simp: sm_lookup_async_def sm_find_def in_memory_store_def mem_lookup_def sm_zeroize_def
          mem_delete_def zero_session_def Let_def)
  next
    case False
    with assms(3) windows_kept_refl [OF assms(2)] show ?thesis
      by (auto simp: sm_lookup_async_def sm_find_def in_memory_store_def mem_lookup_def mem_hydrate_def
          split: option.splits if_splits)
  qed
  with mem.lookup_async_live [OF assms(1,3)] show ?thesis by blast
qed

lemma mem_persist: "sm_persist in_memory_store t r w = (fst w, AList.update (se_session_id (fst w ! r)) r (snd w))"
  by (simp add: sm_persist_def in_memory_store_def mem_put_def)

lemma mem_inv_update: "mem_inv h d \<Longrightarrow> se_session_id x = se_session_id (h ! r) \<Longrightarrow> mem_inv (h[r := x]) d"
  by (simp add: mem_inv_def cache_ok_update)

lemma mem_with_session_kept:
  assumes inv: "mem_inv h d" "windows_ok h" and r: "r < length h"
    and run: "with_session N in_memory_store validate st f t' rq env r (h, d) = (out, (h', d'))"
  shows "windows_kept h h' \<and> mem_inv h' d' \<and>
    (\<forall>p. out = Accepted r p \<longrightarrow> \<not> blocked h r (env_counter env) \<and> blocked h' r (env_counter env))"
proof (cases "check_and_advance (env_counter env) (se_replay (h ! r))")
  case (Inl e)
  with run inv windows_kept_refl [OF inv(2)] show ?thesis by (auto simp: with_session_def)
next
  case (Inr win)
  let ?h1 = "h[r := (h ! r)\<lparr>se_replay := win\<rparr>]"
  let ?h2 = "?h1[r := touch t' (?h1 ! r)]"
  note adv = windows_kept_advance [OF inv(2) r Inr]
  have ok1: "windows_ok ?h1" using adv(1) by (simp add: windows_kept_def)
  have k2: "windows_kept ?h1 ?h2"
    using windows_kept_same [OF ok1, of r "touch t' (?h1 ! r)"] r by (simp add: touch_def)
  have m1: "mem_inv ?h1 d" by (rule mem_inv_update [OF inv(1)]) simp
  have m2: "mem_inv ?h2 d" by (rule mem_inv_update [OF m1]) (simp add: touch_def)
  have m3: "mem_inv ?h2 (AList.update (se_session_id (?h2 ! r)) r d)"
    using m2 r cache_ok_put [of ?h2 d r] by (simp add: mem_inv_def)
  have b2: "blocked ?h2 r (env_counter env)"
    using k2 adv(3) r unfolding windows_kept_def by simp
  from run have "(h', d') = (?h1, d) \<and> (\<forall>p. out \<noteq> Accepted r p) \<or>
      (h', d') = (?h2, AList.update (se_session_id (?h2 ! r)) r d)"
    unfolding with_session_def Inr
    by (auto simp: Inr Let_def upd_session_def mem_persist
        split: sum.splits prod.splits open_error.splits)
  then show ?thesis
    using adv m1 m3 b2 windows_kept_trans [OF adv(1) k2] by auto
qed

lemma mem_decrypt_kept:
  assumes inv: "mem_inv h d" "windows_ok h"
    and run: "decrypt_request N in_memory_store validate st f t t' rq (h, d) = (out, (h', d'))"
  shows "windows_kept h h' \<and> mem_inv h' d' \<and>
    (\<forall>r p. out = Accepted r p \<longrightarrow> r < length h \<and> \<not> blocked h r (request_counter rq) \<and>
      blocked h' r (request_counter rq))"
proof (cases "unpack_envelope (rq_body rq)")
  case (Inl e)
  with run inv windows_kept_refl [OF inv(2)] show ?thesis
    by (auto simp: decrypt_request_def Let_def split: if_splits)
next
  case env: (Inr env)
  obtain res h1 d1 where look: "sm_lookup_async in_memory_store t t' (env_session_id env) (h, d) = (res, (h1, d1))"
    by (metis prod.exhaust)
  from mem_lookup_async_kept [OF inv this] have k1: "windows_kept h h1" and m1: "mem_inv h1 d1"
    and r1: "\<And>r. res = Inr (Some r) \<Longrightarrow> r < length h1" by auto
  have ok1: "windows_ok h1" using k1 by (simp add: windows_kept_def)
  show ?thesis
  proof (cases "\<exists>r. res = Inr (Some r)")
    case True
    then obtain r where r: "res = Inr (Some r)" by blast
    with look have "sm_lookup_async in_memory_store t t' (env_session_id env) (h, d) = (Inr (Some r), (h1, d1))"
      by simp
    from decrypt_with_session [OF env this] run
    have ws: "with_session N in_memory_store validate st f t' rq env r (h1, d1) = (out, (h', d'))" by metis
    have out: "out = Accepted r' p \<Longrightarrow> r' = r" for r' p
      using ws unfolding with_session_def Let_def
      by (auto split: sum.splits prod.splits open_error.splits)
    note ws_kept = mem_with_session_kept [OF m1 ok1 r1 [OF r] ws]
    have kept: "windows_kept h h'" using windows_kept_trans [OF k1] ws_kept by blast
    have len: "r < length h" using r1 [OF r] k1 by (simp add: windows_kept_def)
    have ctr: "request_counter rq = env_counter env" by (simp add: request_counter_def env)
    have "\<not> blocked h r (env_counter env) \<and> blocked h' r (env_counter env)" if "out = Accepted r p" for p
      using ws_kept that k1 len unfolding windows_kept_def by blast
    with kept ws_kept len out show ?thesis unfolding ctr by blast
  next
    case False
    with look run k1 m1 env unpack_length [OF env] show ?thesis
      by (cases res) (auto simp: decrypt_request_def Let_def split: option.splits)
  qed
qed

section \<open>Properties\<close>

fun accepted_run ::
  "nacl \<Rightarrow> 's store_ops \<Rightarrow> (bytes \<Rightarrow> string + 'a) \<Rightarrow> (float_py \<times> float_py \<times> float_py \<times> float_py \<times> request) list \<Rightarrow>
   's world \<Rightarrow> (ref \<times> int) list" where
  "accepted_run N ops validate [] w = []"
| "accepted_run N ops validate ((st, f, t, t', rq) # es) w =
     (case decrypt_request N ops validate st f t t' rq w of
        (Accepted r p, w') \<Rightarrow> (r, request_counter rq) # accepted_run N ops validate es w'
      | (_, w') \<Rightarrow> accepted_run N ops validate es w')"

lemma blocked_not_accepted:
  "mem_inv h d \<Longrightarrow> windows_ok h \<Longrightarrow> r < length h \<Longrightarrow> blocked h r c \<Longrightarrow>
    (r, c) \<notin> set (accepted_run N in_memory_store validate es (h, d))"
proof (induction es arbitrary: h d)
  case Nil
  then show ?case by simp
next
  case (Cons e es)
  obtain st f t t' rq where e: "e = (st, f, t, t', rq)" by (metis prod.exhaust)
  obtain out h' d' where run: "decrypt_request N in_memory_store validate st f t t' rq (h, d) = (out, (h', d'))"
    by (metis prod.exhaust)
  note kept = mem_decrypt_kept [OF Cons.prems(1,2) run]
  have "(r, c) \<notin> set (accepted_run N in_memory_store validate es (h', d'))"
    by (rule Cons.IH) (use kept Cons.prems in \<open>auto simp: windows_kept_def\<close>)
  moreover have "out = Accepted r' p \<Longrightarrow> (r', request_counter rq) \<noteq> (r, c)" for r' p
    using kept Cons.prems(4) by blast
  ultimately show ?case by (cases out) (auto simp: e run)
qed

text \<open>No request is processed twice: over any sequence of envelopes, in any order, with any methods,
  paths and times, and with sessions expiring in between, the single-instance server accepts no
  counter of a session a second time.\<close>

theorem request_accepted_once:
  assumes "cache_ok h d" and "windows_ok h"
  shows "distinct (accepted_run N in_memory_store validate es (h, d))"
  using assms
proof (induction es arbitrary: h d)
  case Nil
  then show ?case by simp
next
  case (Cons e es)
  then have inv: "mem_inv h d" by (simp add: mem_inv_def)
  obtain st f t t' rq where e: "e = (st, f, t, t', rq)" by (metis prod.exhaust)
  obtain out h' d' where run: "decrypt_request N in_memory_store validate st f t t' rq (h, d) = (out, (h', d'))"
    by (metis prod.exhaust)
  from mem_decrypt_kept [OF inv Cons.prems(2) run] have inv': "mem_inv h' d'" and ok': "windows_ok h'"
    and len: "length h' = length h"
    and acc: "\<And>r p. out = Accepted r p \<Longrightarrow> r < length h \<and> blocked h' r (request_counter rq)"
    by (auto simp: windows_kept_def)
  have "distinct (accepted_run N in_memory_store validate es (h', d'))"
    by (rule Cons.IH) (use inv' ok' in \<open>simp_all add: mem_inv_def\<close>)
  moreover have "(r, request_counter rq) \<notin> set (accepted_run N in_memory_store validate es (h', d'))"
    if "out = Accepted r p" for r p
    by (rule blocked_not_accepted [OF inv' ok']) (use acc [OF that] len in auto)
  ultimately show ?case by (cases out) (auto simp: e run)
qed

definition demo_session :: session where
  "demo_session = session_new 100 900 3600 demo_material"

lemma demo_session_simps:
  "se_session_id demo_session = replicate 16 5" "se_c2s demo_session = demo_keys"
  "se_replay demo_session = replay_window_new" "se_s2c_counter demo_session = 0"
  "se_s2c demo_session = sm_s2c demo_material"
  by (simp_all add: demo_session_def session_new_def demo_material_def)

lemma demo_session_live: "\<not> is_expired 150 demo_session"
  by (simp add: demo_session_def is_expired_def session_new_def demo_material_def int_or_def)

lemma demo_cache: "cache_ok [demo_session] [(replicate 16 5, 0)]"
  by (simp add: cache_ok_def dict_ok_def demo_session_simps)

lemma demo_windows: "windows_ok [demo_session]"
  by (simp add: windows_ok_def demo_session_simps rw_ok_new)

theorem request_accepted_once_witness:
  "\<forall>es. distinct (accepted_run demo_nacl in_memory_store (\<lambda>pt. Inr pt) es ([demo_session], [(replicate 16 5, 0)]))"
  by (intro allI request_accepted_once demo_cache demo_windows)


lemma mem_lookup_live:
  assumes "map_of d sid = Some r" and "\<not> is_expired t (h ! r)" and "\<not> is_expired t' (h ! r)"
  shows "sm_lookup_async in_memory_store t t' sid (h, d) = (Inr (Some r), (h, d))"
  using assms by (simp add: sm_lookup_async_def sm_find_def in_memory_store_def mem_lookup_def)

lemma live_request_accepted:
  assumes "aead_ok N" and "cache_ok h d" and "map_of d sid = Some r" and "dk_ok (se_c2s (h ! r))"
    and "\<not> is_expired t (h ! r)" and "\<not> is_expired t' (h ! r)"
    and "client_seal N (se_c2s (h ! r)) c sid m path pt = Inr buf"
    and "\<not> rw_blocked (se_replay (h ! r)) c" and "validate pt = Inr x"
  shows "\<exists>win. check_and_advance c (se_replay (h ! r)) = Inr win \<and>
    decrypt_request N in_memory_store validate st f t t' \<lparr>rq_method = m, rq_path = path, rq_body = buf\<rparr> (h, d)
      = (Accepted r x, (h[r := touch t' ((h ! r)\<lparr>se_replay := win\<rparr>)], AList.update sid r d))"
proof -
  from assms(2,3) have r: "r < length h" and id: "se_session_id (h ! r) = sid" by (auto dest: cache_okD)
  from open_seal [OF assms(1,4) assms(7) [unfolded client_seal_eq]] obtain env where
    op: "open_envelope N (se_c2s (h ! r)) sid m path buf = Inr (env, pt)" and env: "env_counter env = c"
      "env_session_id env = sid" by blast
  have un: "unpack_envelope buf = Inr env" by (rule open_counter [OF op])
  obtain win where win: "check_and_advance c (se_replay (h ! r)) = Inr win"
    using assms(8) check_accept_iff [of c "se_replay (h ! r)"] by (auto simp: rw_blocked_def not_le not_less)
  have look: "sm_lookup_async in_memory_store t t' (env_session_id env) (h, d) = (Inr (Some r), (h, d))"
    using mem_lookup_live assms(3,5,6) env by simp
  let ?rq = "\<lparr>rq_method = m, rq_path = path, rq_body = buf\<rparr>"
  have "decrypt_request N in_memory_store validate st f t t' ?rq (h, d)
      = with_session N in_memory_store validate st f t' ?rq env r (h, d)"
    by (rule decrypt_with_session) (simp_all add: un look)
  also have "\<dots> = (Accepted r x, sm_persist in_memory_store t' r (h[r := touch t' ((h ! r)\<lparr>se_replay := win\<rparr>)], d))"
    using win op assms(9) r id env by (simp add: with_session_def upd_session_def Let_def)
  finally show ?thesis using win r id by (auto simp: mem_persist touch_def)
qed

text \<open>An honest request gets through: what the client seals with a fresh counter for a live session is
  accepted on the method and path it was sealed for, with the parsed plaintext, the session is
  touched and its window has taken the counter.\<close>

theorem honest_request_accepted:
  assumes "aead_ok N" and "cache_ok h d" and "map_of d sid = Some r" and "dk_ok (se_c2s (h ! r))"
    and "\<not> is_expired t (h ! r)" and "\<not> is_expired t' (h ! r)"
    and "client_seal N (se_c2s (h ! r)) c sid m path pt = Inr buf"
    and "\<not> rw_blocked (se_replay (h ! r)) c" and "validate pt = Inr x"
  shows "\<exists>h' d'. decrypt_request N in_memory_store validate st f t t'
      \<lparr>rq_method = m, rq_path = path, rq_body = buf\<rparr> (h, d) = (Accepted r x, (h', d')) \<and>
    se_last_used_at (h' ! r) = t' \<and> check_and_advance c (se_replay (h ! r)) = Inr (se_replay (h' ! r))"
  using live_request_accepted [where validate = validate, OF assms, of st f] cache_okD [OF assms(2,3)] by (auto simp: touch_def)

lemma demo_client_seal:
  "\<exists>buf. client_seal demo_nacl demo_keys 3 (replicate 16 5) ''GET'' ''/'' pt = Inr buf"
  unfolding client_seal_eq
  by (rule seal_total) (simp_all add: demo_keys_ok counter_ok_def, code_simp)

theorem honest_request_accepted_witness:
  "\<exists>buf h' d'. decrypt_request demo_nacl in_memory_store (\<lambda>pt. Inr pt) 0 0 150 150
      \<lparr>rq_method = ''GET'', rq_path = ''/'', rq_body = buf\<rparr> ([demo_session], [(replicate 16 5, 0)])
    = (Accepted 0 [7], (h', d'))"
proof -
  obtain buf where "client_seal demo_nacl demo_keys 3 (replicate 16 5) ''GET'' ''/'' [7] = Inr buf"
    using demo_client_seal by blast
  then have "client_seal demo_nacl (se_c2s ([demo_session] ! 0)) 3 (replicate 16 5) ''GET'' ''/'' [7] = Inr buf"
    by (simp add: demo_session_simps)
  then have "\<exists>h' d'. decrypt_request demo_nacl in_memory_store (\<lambda>pt. Inr pt) 0 0 150 150
      \<lparr>rq_method = ''GET'', rq_path = ''/'', rq_body = buf\<rparr> ([demo_session], [(replicate 16 5, 0)])
        = (Accepted 0 [7], (h', d')) \<and>
      se_last_used_at (h' ! 0) = 150 \<and>
      check_and_advance 3 (se_replay ([demo_session] ! 0)) = Inr (se_replay (h' ! 0))"
    by (rule honest_request_accepted [OF demo_nacl_laws(1) demo_cache, rotated 4])
      (simp_all add: demo_keys_ok demo_session_live demo_session_simps rw_blocked_def
        replay_window_new_def rw_seen_def WINDOW_BITS_def)
  then show ?thesis by blast
qed

lemma demo_redis_accepts:
  "\<exists>h st buf env s st'. redis_inv demo_redis unary_json h st \<and> unpack_envelope buf = Inr env \<and>
     env_counter env = 3 \<and> env_session_id env = replicate 16 5 \<and>
     decrypt_request demo_nacl (redis_store demo_redis unary_json 60) (\<lambda>pt. Inr pt) 0 0 700 700
       \<lparr>rq_method = ''GET'', rq_path = ''/'', rq_body = buf\<rparr> (h, st) = (Accepted 0 [7], ([s], st')) \<and>
     s = demo_session\<lparr>se_replay := se_replay s, se_last_used_at := 700\<rparr>"
proof -
  obtain st h st1 where st: "redis_inv demo_redis unary_json h st" and h: "h = [demo_session]"
    and run: "sm_lookup_async (redis_store demo_redis unary_json 60) 700 700 (replicate 16 5) (h, st)
      = (Inr (Some 0), (h, st1))" using demo_redis_run unfolding demo_session_def by blast
  obtain buf where buf: "seal demo_nacl demo_keys 3 (replicate 16 5) ''GET'' ''/'' [7] = Inr buf"
    using demo_client_seal unfolding client_seal_eq by blast
  from open_seal [OF demo_nacl_laws(1) demo_keys_ok this] obtain env where
    op: "open_envelope demo_nacl demo_keys (replicate 16 5) ''GET'' ''/'' buf = Inr (env, [7])"
    and env: "env_counter env = 3" "env_session_id env = replicate 16 5" by blast
  have un: "unpack_envelope buf = Inr env" by (rule open_counter [OF op])
  let ?rq = "\<lparr>rq_method = ''GET'', rq_path = ''/'', rq_body = buf\<rparr>"
  have "decrypt_request demo_nacl (redis_store demo_redis unary_json 60) (\<lambda>pt. Inr pt) 0 0 700 700 ?rq (h, st)
      = with_session demo_nacl (redis_store demo_redis unary_json 60) (\<lambda>pt. Inr pt) 0 0 700 ?rq env 0 (h, st1)"
    by (rule decrypt_with_session) (simp_all add: un run env)
  moreover have "\<exists>s st'. with_session demo_nacl (redis_store demo_redis unary_json 60) (\<lambda>pt. Inr pt) 0 0 700
      ?rq env 0 (h, st1) = (Accepted 0 [7], ([s], st')) \<and>
      s = demo_session\<lparr>se_replay := se_replay s, se_last_used_at := 700\<rparr>"
    using op env h
    by (simp add: with_session_def upd_session_def demo_session_simps check_and_advance_def touch_def
        replay_window_new_def WINDOW_BITS_def Let_def sm_persist_def redis_store_def redis_put_def)
  ultimately show ?thesis using st un env by metis
qed


text \<open>The replay window advances before the authentication tag is checked: an envelope that anyone can
  forge for a live session id (nothing in it needs a key) is rejected, but its counter is taken, and
  from then on every counter 1024 or more below it is rejected as a replay.\<close>

theorem forged_envelope_advances_window:
  assumes "cache_ok h d" and "unpack_envelope buf = Inr env" and "map_of d (env_session_id env) = Some r"
    and "\<not> is_expired t (h ! r)" and "\<not> is_expired t' (h ! r)"
    and "rw_high (se_replay (h ! r)) < env_counter env" and "0 \<le> rw_high (se_replay (h ! r))"
    and "open_envelope N (se_c2s (h ! r)) (env_session_id env) m path buf = Inl (EnvelopeAuthError msg)"
  shows "\<exists>rj h'. decrypt_request N in_memory_store validate st f t t'
      \<lparr>rq_method = m, rq_path = path, rq_body = buf\<rparr> (h, d) = (Rejected rj, (h', d)) \<and>
    rj_code rj = DECRYPT_FAILED \<and> rw_high (se_replay (h' ! r)) = env_counter env \<and>
    (\<forall>c. env_counter env - c \<ge> int WINDOW_BITS \<longrightarrow> \<not> is_ok (check_and_advance c (se_replay (h' ! r))))"
proof -
  from assms(1,3) have r: "r < length h" and id: "se_session_id (h ! r) = env_session_id env"
    by (auto dest: cache_okD)
  obtain win where win: "check_and_advance (env_counter env) (se_replay (h ! r)) = Inr win"
    and high: "rw_high win = env_counter env"
    using assms(6,7) by (simp add: check_and_advance_def Let_def)
  let ?rq = "\<lparr>rq_method = m, rq_path = path, rq_body = buf\<rparr>"
  have "decrypt_request N in_memory_store validate st f t t' ?rq (h, d)
      = with_session N in_memory_store validate st f t' ?rq env r (h, d)"
    by (rule decrypt_with_session) (simp_all add: assms mem_lookup_live)
  then have "\<exists>rj. decrypt_request N in_memory_store validate st f t t' ?rq (h, d)
      = (Rejected rj, (h[r := (h ! r)\<lparr>se_replay := win\<rparr>], d)) \<and> rj_code rj = DECRYPT_FAILED"
    using win assms(8) r id by (simp add: with_session_def upd_session_def Let_def)
  moreover have "\<not> is_ok (check_and_advance c win)" if "env_counter env - c \<ge> int WINDOW_BITS" for c
    using that high check_accept_iff [of c win] by (auto simp: is_ok_iff)
  ultimately show ?thesis using r high by auto
qed

theorem forged_envelope_advances_window_witness:
  "\<exists>rj h'. decrypt_request demo_nacl in_memory_store (\<lambda>pt. Inr pt) 0 0 150 150
      \<lparr>rq_method = ''GET'', rq_path = ''/'',
       rq_body = frame (replicate 16 5) 5000 (replicate 12 0) (replicate 16 0)\<rparr>
      ([demo_session], [(replicate 16 5, 0)]) = (Rejected rj, (h', [(replicate 16 5, 0)])) \<and>
     rj_code rj = DECRYPT_FAILED \<and> \<not> is_ok (check_and_advance 1 (se_replay (h' ! 0)))"
proof -
  let ?env = "\<lparr>env_session_id = replicate 16 5, env_counter = 5000, env_nonce = replicate 12 0,
    env_ciphertext = replicate 16 0\<rparr>"
  let ?buf = "frame (replicate 16 5) 5000 (replicate 12 0) (replicate 16 0)"
  have un: "unpack_envelope ?buf = Inr ?env" by (rule unpack_frame) (simp_all add: counter_ok_def)
  have "method_ok ''GET''" by code_simp
  then have aad: "build_aad ''GET'' ''/'' (replicate 16 5) 5000
      = Inr (join_bytes (raw_bytes ''|'') [ENVELOPE_MAGIC, [ENVELOPE_VERSION], replicate 16 5, be_enc 8 5000,
          raw_bytes (str_upper ''GET''), utf8_encode ''/''])"
    by (simp only: build_aad_Inr_iff method_ok_def counter_ok_def) simp
  have len: "length (join_bytes (raw_bytes ''|'') [ENVELOPE_MAGIC, [ENVELOPE_VERSION], replicate 16 5,
      be_enc 8 5000, raw_bytes (str_upper ''GET''), utf8_encode ''/'']) = 38"
    by (simp add: wire_lengths str_upper_def upper_char_def utf8_encode_def utf8_char_def)
  have op: "open_envelope demo_nacl (se_c2s ([demo_session] ! 0)) (env_session_id ?env) ''GET'' ''/'' ?buf
      = Inl (EnvelopeAuthError ''decrypt failed'')"
    using un aad len
    by (simp add: open_envelope_def demo_nacl_def demo_session_simps demo_keys_def del: join_bytes.simps)
  have "\<exists>rj h'. decrypt_request demo_nacl in_memory_store (\<lambda>pt. Inr pt) 0 0 150 150
      \<lparr>rq_method = ''GET'', rq_path = ''/'', rq_body = ?buf\<rparr> ([demo_session], [(replicate 16 5, 0)])
        = (Rejected rj, (h', [(replicate 16 5, 0)])) \<and>
      rj_code rj = DECRYPT_FAILED \<and> rw_high (se_replay (h' ! 0)) = env_counter ?env \<and>
      (\<forall>c. env_counter ?env - c \<ge> int WINDOW_BITS \<longrightarrow> \<not> is_ok (check_and_advance c (se_replay (h' ! 0))))"
    by (rule forged_envelope_advances_window [OF demo_cache un _ _ _ _ _ op])
      (simp_all add: demo_session_live demo_session_simps replay_window_new_def)
  then show ?thesis by (auto simp: WINDOW_BITS_def)
qed

text \<open>A response can be read by the session's client and by nothing older: sealing it takes the next
  server counter, so no two responses of a session share a nonce, and the client's copy of the code
  opens it to the serialized payload.\<close>

theorem response_roundtrip:
  assumes "aead_ok N" and "r < length h" and "dk_ok (se_s2c (h ! r))" and "length (se_session_id (h ! r)) = 16"
    and "counter_ok (se_s2c_counter (h ! r) + 1)" and "method_ok m"
  shows "\<exists>buf env h'. encrypt_response N J r payload m path None (h, d) = (Inr buf, (h', d)) \<and>
    client_open_envelope N (se_s2c (h ! r)) (se_session_id (h ! r)) m path buf = Inr (env, payload_body J payload) \<and>
    env_counter env = se_s2c_counter (h ! r) + 1 \<and> se_s2c_counter (h' ! r) = se_s2c_counter (h ! r) + 1 \<and>
    (\<forall>r'. r' \<noteq> r \<longrightarrow> h' ! r' = h ! r')"
proof -
  obtain buf where buf: "seal N (se_s2c (h ! r)) (se_s2c_counter (h ! r) + 1) (se_session_id (h ! r)) m path
      (payload_body J payload) = Inr buf"
    using seal_total [OF assms(3,5,4,6)] by blast
  from open_seal [OF assms(1,3) buf] buf assms(2) show ?thesis
    by (auto simp: encrypt_response_def upd_session_def Let_def client_open_eq)
qed

theorem response_roundtrip_witness:
  "\<exists>buf env h'. encrypt_response demo_nacl unary_json 0 (DictPayload JNull) ''GET'' ''/'' None ([demo_session], ())
      = (Inr buf, (h', ())) \<and>
     client_open_envelope demo_nacl (se_s2c demo_session) (replicate 16 5) ''GET'' ''/'' buf
      = Inr (env, json_dumps unary_json JNull) \<and> env_counter env = 1"
proof -
  have "method_ok ''GET''" by code_simp
  moreover have "dk_ok (se_s2c demo_session)"
    by (simp add: demo_session_simps demo_material_def dk_ok_def)
  ultimately show ?thesis
    using response_roundtrip [OF demo_nacl_laws(1), of 0 "[demo_session]" "''GET''" unary_json "DictPayload JNull" "''/''" "()"]
    by (auto simp: demo_session_simps counter_ok_def)
qed

text \<open>Failures that concern keys, sessions and framing are told to the caller no earlier than 0.2
  seconds after the request came in, with an empty message, whatever failed.\<close>

theorem auth_failures_take_the_floor:
  assumes "decrypt_request N ops validate st f t t' rq w = (Rejected rj, w')" and "rj_metric rj \<noteq> ''schema''"
  shows "AUTH_FAIL_FLOOR_S \<le> (f - st) + rj_slept rj \<and> rj_message rj = []"
proof -
  have floor: "AUTH_FAIL_FLOOR_S \<le> (f - st) + slow st f" by (simp add: slow_def Let_def)
  have "rj_slept rj = slow st f \<and> rj_message rj = []"
    using assms unfolding decrypt_request_def Let_def
    by (auto split: if_splits sum.splits prod.splits option.splits open_error.splits)
  with floor show ?thesis by simp
qed

theorem auth_failures_take_the_floor_witness:
  "\<exists>rj. decrypt_request demo_nacl in_memory_store (\<lambda>pt. Inr pt) 0 (1/20) 150 150
      \<lparr>rq_method = ''GET'', rq_path = ''/'', rq_body = []\<rparr> ([], []) = (Rejected rj, ([], [])) \<and>
     1 / 5 \<le> 1 / 20 + rj_slept rj"
proof -
  obtain rj where run: "decrypt_request demo_nacl in_memory_store (\<lambda>pt. Inr pt) 0 (1/20) 150 150
      \<lparr>rq_method = ''GET'', rq_path = ''/'', rq_body = []\<rparr> ([], []) = (Rejected rj, ([], []))"
      and "rj_metric rj = ''too_short''"
    by (simp add: decrypt_request_def)
  with auth_failures_take_the_floor [OF run] show ?thesis by (simp add: AUTH_FAIL_FLOOR_S_def)
qed

lemma urlsafe_of_standard: "from_urlsafe (b64_char n) = b64_char n" if "n < 64"
proof -
  have "\<forall>n \<in> set [0..<64]. from_urlsafe (b64_char n) = b64_char n" by code_simp
  with that show ?thesis by simp
qed

lemma map_from_urlsafe_b64encode: "map from_urlsafe (b64encode bs) = b64encode bs"
  by (induction bs rule: b64encode.induct)
    (simp_all add: Let_def urlsafe_of_standard b64_sextets, simp_all add: from_urlsafe_def)

text \<open>The terminate endpoint understands both base64 alphabets: whichever encoding of a session id a
  client puts in the path, the manager is asked to terminate that session.\<close>

theorem terminate_accepts_both_alphabets:
  "path_session_id (b64encode sid) = Inr sid \<and> path_session_id (urlsafe_b64encode sid) = Inr sid"
  by (simp add: path_session_id_def b64_url.dec_enc)
    (simp add: urlsafe_b64decode_def map_from_urlsafe_b64encode b64_lenient.dec_enc)

end
