(* ===== verification/Filesystem.thy ===== *)
theory Filesystem
  imports Codecs
begin

text \<open>
  The files and directories the server keeps, as far as \<open>pathlib\<close> and \<open>os\<close> show them: a map from
  absolute paths (lists of components) to nodes, in the order in which a directory lists them. The
  permission bits of a file are kept, since the keystore checks them. A path component \<open>..\<close> is an
  ordinary name here; nothing else (links, owners, quotas of the device) is modelled.
\<close>

type_synonym path = "string list"

datatype node = Dir | File nat bytes \<comment> \<open>mode, contents\<close>

type_synonym fs = "(path, node) dict"

fun split_on :: "char \<Rightarrow> string \<Rightarrow> string list" where
  "split_on c [] = [[]]"
| "split_on c (x # xs) =
     (if x = c then [] # split_on c xs
      else case split_on c xs of [] \<Rightarrow> [[x]] | w # ws \<Rightarrow> (x # w) # ws)"

text \<open>\<open>base / s\<close>: an absolute \<open>s\<close> replaces the base; empty and \<open>.\<close> components vanish.\<close>

definition path_parts :: "string \<Rightarrow> path" where
  "path_parts s = filter (\<lambda>w. w \<noteq> [] \<and> w \<noteq> ''.'') (split_on (CHR ''/'') s)"

definition path_join :: "path \<Rightarrow> string \<Rightarrow> path" where
  "path_join base s = (if take 1 s = ''/'' then path_parts s else base @ path_parts s)"

definition path_parent :: "path \<Rightarrow> path" where
  "path_parent p = butlast p"

definition path_name :: "path \<Rightarrow> string" where
  "path_name p = (if p = [] then [] else last p)"

text \<open>The name up to its last dot, unless that dot is the first or the last character.\<close>

definition path_stem :: "path \<Rightarrow> string" where
  "path_stem p =
     (let name = path_name p;
          suffix = takeWhile (\<lambda>c. c \<noteq> CHR ''.'') (rev name);
          i = length name - length suffix - 1
      in if CHR ''.'' \<in> set name \<and> 0 < i \<and> i < length name - 1 then take i name else name)"

definition is_dir :: "fs \<Rightarrow> path \<Rightarrow> bool" where
  "is_dir fs p \<longleftrightarrow> p = [] \<or> map_of fs p = Some Dir"

definition exists_path :: "fs \<Rightarrow> path \<Rightarrow> bool" where
  "exists_path fs p \<longleftrightarrow> p = [] \<or> map_of fs p \<noteq> None"

definition read_bytes :: "fs \<Rightarrow> path \<Rightarrow> bytes result" where
  "read_bytes fs p =
     (case map_of fs p of
        Some (File m data) \<Rightarrow> Inr data
      | Some Dir \<Rightarrow> Inl (OSError ''Is a directory'')
      | None \<Rightarrow> Inl FileNotFoundError)"

text \<open>Opening for writing with truncation: a new file gets \<open>mode\<close>, an existing one keeps its own.\<close>

definition write_bytes :: "nat \<Rightarrow> path \<Rightarrow> bytes \<Rightarrow> fs \<Rightarrow> fs result" where
  "write_bytes mode p data fs =
     (case map_of fs p of
        Some (File m old) \<Rightarrow> Inr (AList.update p (File m data) fs)
      | Some Dir \<Rightarrow> Inl (OSError ''Is a directory'')
      | None \<Rightarrow>
          if is_dir fs (path_parent p) then Inr (AList.update p (File mode data) fs)
          else Inl FileNotFoundError)"

definition unlink_path :: "path \<Rightarrow> fs \<Rightarrow> fs result" where
  "unlink_path p fs =
     (case map_of fs p of
        Some (File m data) \<Rightarrow> Inr (AList.delete p fs)
      | Some Dir \<Rightarrow> Inl (OSError ''Is a directory'')
      | None \<Rightarrow> Inl FileNotFoundError)"

text \<open>\<open>os.replace(src, dst)\<close> on files.\<close>

definition replace_path :: "path \<Rightarrow> path \<Rightarrow> fs \<Rightarrow> fs result" where
  "replace_path src dst fs =
     (case map_of fs src of
        Some (File m data) \<Rightarrow>
          if map_of fs dst = Some Dir then Inl (OSError ''Is a directory'')
          else if src = dst then Inr fs
          else Inr (AList.update dst (File m data) (AList.delete src fs))
      | Some Dir \<Rightarrow> Inl (OSError ''Is a directory'')
      | None \<Rightarrow> Inl FileNotFoundError)"

text \<open>\<open>mkdir(parents=True, exist_ok=True)\<close>: every prefix, outermost first.\<close>

fun mkdirs :: "path list \<Rightarrow> fs \<Rightarrow> fs result" where
  "mkdirs [] fs = Inr fs"
| "mkdirs (p # ps) fs =
     (if is_dir fs p then mkdirs ps fs
      else if exists_path fs p then Inl FileExistsError
      else mkdirs ps (AList.update p Dir fs))"

definition prefixes_of :: "path \<Rightarrow> path list" where
  "prefixes_of p = map (\<lambda>n. take n p) [1..<Suc (length p)]"

definition mkdir_p :: "path \<Rightarrow> fs \<Rightarrow> fs result" where
  "mkdir_p p fs = mkdirs (prefixes_of p) fs"

definition ends_with :: "string \<Rightarrow> string \<Rightarrow> bool" where
  "ends_with suffix s \<longleftrightarrow> length suffix \<le> length s \<and> drop (length s - length suffix) s = suffix"

text \<open>\<open>dir.iterdir()\<close> and \<open>dir.glob("*" + suffix)\<close>.\<close>

definition list_dir :: "fs \<Rightarrow> path \<Rightarrow> path list" where
  "list_dir fs d = filter (\<lambda>p. p \<noteq> [] \<and> path_parent p = d) (map fst fs)"

definition glob_suffix :: "fs \<Rightarrow> path \<Rightarrow> string \<Rightarrow> path list" where
  "glob_suffix fs d suffix = filter (\<lambda>p. ends_with suffix (path_name p)) (list_dir fs d)"

definition file_size :: "fs \<Rightarrow> path \<Rightarrow> nat result" where
  "file_size fs p =
     (case map_of fs p of
        Some (File m data) \<Rightarrow> Inr (length data) | Some Dir \<Rightarrow> Inr 4096 | None \<Rightarrow> Inl FileNotFoundError)"

definition file_mode :: "fs \<Rightarrow> path \<Rightarrow> nat result" where
  "file_mode fs p =
     (case map_of fs p of
        Some (File m data) \<Rightarrow> Inr m | Some Dir \<Rightarrow> Inr 493 | None \<Rightarrow> Inl FileNotFoundError)"

definition fs_ok :: "fs \<Rightarrow> bool" where
  "fs_ok fs \<longleftrightarrow> dict_ok fs"

section \<open>Reading back\<close>

lemma write_bytes_Inr:
  assumes "write_bytes mode p data fs = Inr fs'"
  shows "map_of fs' = (map_of fs)(p \<mapsto> File (case map_of fs p of Some (File m old) \<Rightarrow> m | _ \<Rightarrow> mode) data)"
    and "fs_ok fs \<Longrightarrow> fs_ok fs'"
  using assms by (auto simp: write_bytes_def fs_ok_def map_of_update split: option.splits node.splits if_splits)

lemma unlink_Inr:
  assumes "unlink_path p fs = Inr fs'"
  shows "map_of fs' = (map_of fs)(p := None)" and "fs_ok fs \<Longrightarrow> fs_ok fs'"
  using assms by (auto simp: unlink_path_def fs_ok_def map_of_delete split: option.splits node.splits)

lemma read_write:
  "write_bytes mode p data fs = Inr fs' \<Longrightarrow> read_bytes fs' q = (if q = p then Inr data else read_bytes fs q)"
  by (auto simp: read_bytes_def write_bytes_Inr(1))

lemma read_unlink:
  "unlink_path p fs = Inr fs' \<Longrightarrow> read_bytes fs' q = (if q = p then Inl FileNotFoundError else read_bytes fs q)"
  by (auto simp: read_bytes_def unlink_Inr(1))

lemma list_dir_mem: "p \<in> set (list_dir fs d) \<longleftrightarrow> p \<noteq> [] \<and> path_parent p = d \<and> map_of fs p \<noteq> None"
  by (auto simp: list_dir_def map_of_eq_None_iff)

lemma glob_mem: "p \<in> set (glob_suffix fs d s) \<longleftrightarrow>
    p \<noteq> [] \<and> path_parent p = d \<and> ends_with s (path_name p) \<and> map_of fs p \<noteq> None"
  by (auto simp: glob_suffix_def list_dir_mem)

lemma distinct_glob: "fs_ok fs \<Longrightarrow> distinct (glob_suffix fs d s)"
  by (simp add: glob_suffix_def list_dir_def fs_ok_def dict_ok_def)

lemma ends_with_append [simp]: "ends_with s (x @ s)"
  by (simp add: ends_with_def)

section \<open>The files alone\<close>

definition file_at :: "fs \<Rightarrow> path \<Rightarrow> (nat \<times> bytes) option" where
  "file_at fs p = (case map_of fs p of Some (File m d) \<Rightarrow> Some (m, d) | _ \<Rightarrow> None)"

lemma file_at_mkdirs: "mkdirs ps fs = Inr fs' \<Longrightarrow> file_at fs' = file_at fs"
proof (induction ps arbitrary: fs)
  case (Cons q ps)
  show ?case
  proof (cases "is_dir fs q")
    case True
    then show ?thesis using Cons by simp
  next
    case False
    with Cons.prems have "\<not> exists_path fs q" and "mkdirs ps (AList.update q Dir fs) = Inr fs'"
      by (auto split: if_splits)
    then have "file_at fs' = file_at (AList.update q Dir fs)" "map_of fs q = None"
      using Cons.IH by (auto simp: exists_path_def)
    then show ?thesis by (auto simp: file_at_def map_of_update fun_eq_iff)
  qed
qed simp

lemma file_at_read: "read_bytes fs p = Inr d \<longleftrightarrow> (\<exists>m. file_at fs p = Some (m, d))"
  by (auto simp: read_bytes_def file_at_def split: option.splits node.splits)

lemma file_at_write:
  "write_bytes mode p data fs = Inr fs' \<Longrightarrow>
    file_at fs' = (file_at fs)(p \<mapsto> ((case file_at fs p of Some (m, d) \<Rightarrow> m | None \<Rightarrow> mode), data))"
  by (auto simp: file_at_def write_bytes_Inr(1) fun_eq_iff split: option.splits node.splits)

lemma file_at_mode: "file_at fs p = Some (m, d) \<Longrightarrow> file_mode fs p = Inr m"
  by (auto simp: file_at_def file_mode_def split: option.splits node.splits)

lemma file_at_exists: "file_at fs p \<noteq> None \<Longrightarrow> exists_path fs p"
  by (auto simp: file_at_def exists_path_def split: option.splits)

end
