(* ===== verification/Registry.thy ===== *)
theory Registry
  imports Filesystem Session
begin

text \<open>
  The on-disk catalogs of encrypted models and LoRA adapters (\<open>server/.../models/registry.py\<close>): the
  sidecar files, the per-tenant registries and their lazy factories. \<open>ModelRegistry\<close> and
  \<open>LoraRegistry\<close> are two textual copies of one class that differ in the entry, the file suffixes and
  the sidecar's fields; the model is one group of operations over an \<open>entry_kind\<close>, instantiated twice.
  A sidecar field of another JSON type than the one written is an error here (the file is skipped).
\<close>

section \<open>Entries\<close>

record model_entry =
  me_id :: string
  me_sha256_plaintext :: string
  me_repo_id :: string
  me_filename :: string
  me_bytes_plaintext :: int
  me_bytes_ciphertext :: int
  me_n_ctx_max :: "int option"
  me_downloaded_at :: float_py
  me_tenant :: string
  me_clip_companion :: "string option"

record lora_entry =
  le_id :: string
  le_sha256_plaintext :: string
  le_repo_id :: string
  le_filename :: string
  le_bytes_plaintext :: int
  le_bytes_ciphertext :: int
  le_base_model_id :: "string option"
  le_downloaded_at :: float_py

definition normalize_id :: "string \<Rightarrow> string" where
  "normalize_id filename =
     map (\<lambda>c. if c = CHR '' '' then CHR ''_'' else c) (path_stem (path_parts filename))"

definition tenant_subdir :: "path \<Rightarrow> string \<Rightarrow> path" where
  "tenant_subdir base tenant =
     (if tenant = DEFAULT_TENANT then base else path_join (path_join base ''tenants'') tenant)"

section \<open>Sidecar files\<close>

fun json_to_opt_int :: "json option \<Rightarrow> int option result" where
  "json_to_opt_int None = Inr None"
| "json_to_opt_int (Some JNull) = Inr None"
| "json_to_opt_int (Some (JInt i)) = Inr (Some i)"
| "json_to_opt_int (Some v) = Inl TypeError"

fun json_to_opt_str :: "json option \<Rightarrow> string option result" where
  "json_to_opt_str None = Inr None"
| "json_to_opt_str (Some JNull) = Inr None"
| "json_to_opt_str (Some (JStr s)) = Inr (Some s)"
| "json_to_opt_str (Some v) = Inl TypeError"

text \<open>\<open>float(data.get("downloaded_at", time.time()))\<close>.\<close>

definition json_downloaded_at :: "float_py \<Rightarrow> json \<Rightarrow> float_py result" where
  "json_downloaded_at now data =
     and_then (json_get data ''downloaded_at'')
       (\<lambda>v. case v of None \<Rightarrow> Inr now | Some v \<Rightarrow> json_float v)"

text \<open>The keys in the sorted order in which \<open>sort_keys=True\<close> writes them.\<close>

definition model_meta :: "model_entry \<Rightarrow> json" where
  "model_meta e = JObj
     ([(''bytes_ciphertext'', JInt (me_bytes_ciphertext e)), (''bytes_plaintext'', JInt (me_bytes_plaintext e))]
      @ (case me_clip_companion e of None \<Rightarrow> [] | Some c \<Rightarrow> [(''clip_companion'', JStr c)])
      @ [(''downloaded_at'', JFloat (me_downloaded_at e)), (''filename'', JStr (me_filename e)),
         (''id'', JStr (me_id e)), (''n_ctx_max'', json_opt_int (me_n_ctx_max e)),
         (''repo_id'', JStr (me_repo_id e)), (''sha256'', JStr (me_sha256_plaintext e))])"

definition model_of_meta :: "float_py \<Rightarrow> json \<Rightarrow> model_entry result" where
  "model_of_meta now data =
     and_then (and_then (json_item data ''id'') json_str) (\<lambda>id.
     and_then (and_then (json_item data ''sha256'') json_str) (\<lambda>sha.
     and_then (and_then (json_item data ''repo_id'') json_str) (\<lambda>repo.
     and_then (and_then (json_item data ''filename'') json_str) (\<lambda>filename.
     and_then (and_then (json_item data ''bytes_plaintext'') json_int) (\<lambda>bp.
     and_then (and_then (json_item data ''bytes_ciphertext'') json_int) (\<lambda>bc.
     and_then (and_then (json_get data ''n_ctx_max'') json_to_opt_int) (\<lambda>ctx.
     and_then (json_downloaded_at now data) (\<lambda>downloaded.
     and_then (and_then (json_get data ''clip_companion'') json_to_opt_str) (\<lambda>clip.
     Inr \<lparr>me_id = id, me_sha256_plaintext = sha, me_repo_id = repo, me_filename = filename,
          me_bytes_plaintext = bp, me_bytes_ciphertext = bc, me_n_ctx_max = ctx, me_downloaded_at = downloaded,
          me_tenant = DEFAULT_TENANT, me_clip_companion = clip\<rparr>)))))))))"

definition lora_meta :: "lora_entry \<Rightarrow> json" where
  "lora_meta e = JObj
     [(''base_model_id'', json_opt_str (le_base_model_id e)),
      (''bytes_ciphertext'', JInt (le_bytes_ciphertext e)), (''bytes_plaintext'', JInt (le_bytes_plaintext e)),
      (''downloaded_at'', JFloat (le_downloaded_at e)), (''filename'', JStr (le_filename e)),
      (''id'', JStr (le_id e)), (''repo_id'', JStr (le_repo_id e)), (''sha256'', JStr (le_sha256_plaintext e))]"

definition lora_of_meta :: "float_py \<Rightarrow> json \<Rightarrow> lora_entry result" where
  "lora_of_meta now data =
     and_then (and_then (json_item data ''id'') json_str) (\<lambda>id.
     and_then (and_then (json_item data ''sha256'') json_str) (\<lambda>sha.
     and_then (and_then (json_item data ''repo_id'') json_str) (\<lambda>repo.
     and_then (and_then (json_item data ''filename'') json_str) (\<lambda>filename.
     and_then (and_then (json_item data ''bytes_plaintext'') json_int) (\<lambda>bp.
     and_then (and_then (json_item data ''bytes_ciphertext'') json_int) (\<lambda>bc.
     and_then (and_then (json_get data ''base_model_id'') json_to_opt_str) (\<lambda>base.
     and_then (json_downloaded_at now data) (\<lambda>downloaded.
     Inr \<lparr>le_id = id, le_sha256_plaintext = sha, le_repo_id = repo, le_filename = filename,
          le_bytes_plaintext = bp, le_bytes_ciphertext = bc, le_base_model_id = base,
          le_downloaded_at = downloaded\<rparr>))))))))"

section \<open>A registry\<close>

record 'e entry_kind =
  ek_id :: "'e \<Rightarrow> string"
  ek_sha :: "'e \<Rightarrow> string"
  ek_blob_suffix :: string
  ek_meta_suffix :: string
  ek_to_meta :: "'e \<Rightarrow> json"
  ek_of_meta :: "float_py \<Rightarrow> json \<Rightarrow> 'e result"

definition model_kind :: "model_entry entry_kind" where
  "model_kind = \<lparr>ek_id = me_id, ek_sha = me_sha256_plaintext, ek_blob_suffix = ''.gguf.age'',
     ek_meta_suffix = ''.meta.json'', ek_to_meta = model_meta, ek_of_meta = model_of_meta\<rparr>"

definition lora_kind :: "lora_entry entry_kind" where
  "lora_kind = \<lparr>ek_id = le_id, ek_sha = le_sha256_plaintext, ek_blob_suffix = ''.lora.gguf.age'',
     ek_meta_suffix = ''.lora.meta.json'', ek_to_meta = lora_meta, ek_of_meta = lora_of_meta\<rparr>"

record 'e registry =
  rg_dir :: path
  rg_by_id :: "(string, 'e) dict"

definition ciphertext_path :: "'e entry_kind \<Rightarrow> path \<Rightarrow> 'e \<Rightarrow> path" where
  "ciphertext_path K dir entry = path_join dir (ek_sha K entry @ ek_blob_suffix K)"

definition meta_path :: "'e entry_kind \<Rightarrow> path \<Rightarrow> 'e \<Rightarrow> path" where
  "meta_path K dir entry = path_join dir (ek_sha K entry @ ek_meta_suffix K)"

text \<open>0o644, what \<open>open(..., "w")\<close> leaves under the usual umask.\<close>

definition DEFAULT_MODE :: nat where
  "DEFAULT_MODE = 420"

definition write_meta :: "'e entry_kind \<Rightarrow> json_lib \<Rightarrow> path \<Rightarrow> 'e \<Rightarrow> fs \<Rightarrow> fs result" where
  "write_meta K J dir entry fs =
     write_bytes DEFAULT_MODE (meta_path K dir entry) (json_dumps_indent J (ek_to_meta K entry) @ [10]) fs"

definition read_meta :: "'e entry_kind \<Rightarrow> json_lib \<Rightarrow> float_py \<Rightarrow> fs \<Rightarrow> path \<Rightarrow> 'e result" where
  "read_meta K J now fs p =
     and_then (read_bytes fs p) (\<lambda>text.
       case json_loads J text of
         None \<Rightarrow> Inl (ValueError ''JSONDecodeError'')
       | Some data \<Rightarrow> ek_of_meta K now data)"

definition reload :: "'e entry_kind \<Rightarrow> json_lib \<Rightarrow> float_py \<Rightarrow> fs \<Rightarrow> path \<Rightarrow> (string, 'e) dict" where
  "reload K J now fs dir =
     fold (\<lambda>meta by_id. case read_meta K J now fs meta of
         Inl e \<Rightarrow> by_id
       | Inr entry \<Rightarrow> AList.update (ek_id K entry) entry by_id)
       (glob_suffix fs dir (ek_meta_suffix K)) []"

definition registry_open ::
  "'e entry_kind \<Rightarrow> json_lib \<Rightarrow> float_py \<Rightarrow> path \<Rightarrow> fs \<Rightarrow> ('e registry \<times> fs) result" where
  "registry_open K J now dir fs =
     and_then (mkdir_p dir fs) (\<lambda>fs. Inr (\<lparr>rg_dir = dir, rg_by_id = reload K J now fs dir\<rparr>, fs))"

definition registry_all :: "'e registry \<Rightarrow> 'e list" where
  "registry_all r = map snd (rg_by_id r)"

definition registry_get :: "'e registry \<Rightarrow> string \<Rightarrow> 'e option" where
  "registry_get r ident = map_of (rg_by_id r) ident"

definition registry_add ::
  "'e entry_kind \<Rightarrow> json_lib \<Rightarrow> 'e \<Rightarrow> 'e registry \<times> fs \<Rightarrow> ('e registry \<times> fs) result" where
  "registry_add K J entry = (\<lambda>(r, fs).
     and_then (write_meta K J (rg_dir r) entry fs)
       (\<lambda>fs. Inr (r\<lparr>rg_by_id := AList.update (ek_id K entry) entry (rg_by_id r)\<rparr>, fs)))"

text \<open>\<open>unlink\<close> with \<open>FileNotFoundError\<close> swallowed.\<close>

definition unlink_quiet :: "path \<Rightarrow> fs \<Rightarrow> fs result" where
  "unlink_quiet p fs =
     (case unlink_path p fs of Inl FileNotFoundError \<Rightarrow> Inr fs | res \<Rightarrow> res)"

definition registry_remove ::
  "'e entry_kind \<Rightarrow> string \<Rightarrow> 'e registry \<times> fs \<Rightarrow> bool result \<times> 'e registry \<times> fs" where
  "registry_remove K ident = (\<lambda>(r, fs).
     case map_of (rg_by_id r) ident of
       None \<Rightarrow> (Inr False, r, fs)
     | Some entry \<Rightarrow>
         let r = r\<lparr>rg_by_id := AList.delete ident (rg_by_id r)\<rparr> in
         (case unlink_quiet (ciphertext_path K (rg_dir r) entry) fs of
            Inl e \<Rightarrow> (Inl e, r, fs)
          | Inr fs \<Rightarrow>
              (case unlink_quiet (meta_path K (rg_dir r) entry) fs of
                 Inl e \<Rightarrow> (Inl e, r, fs)
               | Inr fs \<Rightarrow> (Inr True, r, fs))))"

section \<open>The two classes\<close>

text \<open>\<open>ModelRegistry\<close> and \<open>LoraRegistry\<close>.\<close>

definition model_registry_open :: "json_lib \<Rightarrow> float_py \<Rightarrow> path \<Rightarrow> fs \<Rightarrow> (model_entry registry \<times> fs) result" where
  "model_registry_open = registry_open model_kind"

definition model_registry_add ::
  "json_lib \<Rightarrow> model_entry \<Rightarrow> model_entry registry \<times> fs \<Rightarrow> (model_entry registry \<times> fs) result" where
  "model_registry_add = registry_add model_kind"

definition model_registry_remove ::
  "string \<Rightarrow> model_entry registry \<times> fs \<Rightarrow> bool result \<times> model_entry registry \<times> fs" where
  "model_registry_remove = registry_remove model_kind"

definition lora_registry_open :: "json_lib \<Rightarrow> float_py \<Rightarrow> path \<Rightarrow> fs \<Rightarrow> (lora_entry registry \<times> fs) result" where
  "lora_registry_open = registry_open lora_kind"

definition lora_registry_add ::
  "json_lib \<Rightarrow> lora_entry \<Rightarrow> lora_entry registry \<times> fs \<Rightarrow> (lora_entry registry \<times> fs) result" where
  "lora_registry_add = registry_add lora_kind"

definition lora_registry_remove ::
  "string \<Rightarrow> lora_entry registry \<times> fs \<Rightarrow> bool result \<times> lora_entry registry \<times> fs" where
  "lora_registry_remove = registry_remove lora_kind"

section \<open>Tenants\<close>

record 'e multi_registry =
  mt_base :: path
  mt_cache :: "(string, 'e registry) dict"

definition for_tenant ::
  "'e entry_kind \<Rightarrow> json_lib \<Rightarrow> float_py \<Rightarrow> string \<Rightarrow> 'e multi_registry \<times> fs \<Rightarrow>
   ('e registry \<times> 'e multi_registry \<times> fs) result" where
  "for_tenant K J now tenant = (\<lambda>(mt, fs).
     case map_of (mt_cache mt) tenant of
       Some reg \<Rightarrow> Inr (reg, mt, fs)
     | None \<Rightarrow>
         and_then (registry_open K J now (tenant_subdir (mt_base mt) tenant) fs) (\<lambda>(reg, fs).
           Inr (reg, mt\<lparr>mt_cache := AList.update tenant reg (mt_cache mt)\<rparr>, fs)))"

definition known_tenants :: "'e multi_registry \<times> fs \<Rightarrow> string list" where
  "known_tenants = (\<lambda>(mt, fs).
     let cached = map fst (mt_cache mt);
         dflt = (if exists_path fs (mt_base mt) \<and> glob_suffix fs (mt_base mt) ''.meta.json'' \<noteq> []
                 then [DEFAULT_TENANT] else []);
         dirs = (let tenants_dir = path_join (mt_base mt) ''tenants'' in
                 if is_dir fs tenants_dir
                 then map path_name (filter (is_dir fs) (list_dir fs tenants_dir)) else [])
     in sort (remdups (cached @ dflt @ dirs)))"

section \<open>Reading files\<close>

text \<open>\<open>sha256_file\<close>: the hash is fed in chunks of a MiB, which is the hash of the whole.\<close>

definition sha256_file :: "fs \<Rightarrow> path \<Rightarrow> string result" where
  "sha256_file fs p = and_then (read_bytes fs p) (\<lambda>data. Inr (hex_encode (sha256 data)))"

section \<open>The interface: a kind of entry\<close>

text \<open>
  What a registry relies on: a valid entry survives its sidecar, and its two file names are plain and
  cannot be taken for one another.
\<close>

lemma split_on_plain: "c \<notin> set s \<Longrightarrow> split_on c s = [s]"
  by (induction s) auto

lemma path_join_plain: "CHR ''/'' \<notin> set s \<Longrightarrow> 1 < length s \<Longrightarrow> path_join d s = d @ [s]"
  by (cases s) (auto simp: path_join_def path_parts_def split_on_plain)

locale catalog =
  fixes K :: "'e entry_kind" and valid :: "'e \<Rightarrow> bool"
  assumes of_to_meta: "valid e \<Longrightarrow> ek_of_meta K now (ek_to_meta K e) = Inr e"
    and plain_sha: "valid e \<Longrightarrow> CHR ''/'' \<notin> set (ek_sha K e)"
    and suffixes: "1 < length (ek_meta_suffix K)" "1 < length (ek_blob_suffix K)"
      "CHR ''/'' \<notin> set (ek_meta_suffix K)" "CHR ''/'' \<notin> set (ek_blob_suffix K)"
      "last (ek_meta_suffix K) \<noteq> last (ek_blob_suffix K)"
begin

lemma meta_path_eq: "valid e \<Longrightarrow> meta_path K d e = d @ [ek_sha K e @ ek_meta_suffix K]"
  unfolding meta_path_def by (rule path_join_plain) (use suffixes plain_sha in auto)

lemma ciphertext_path_eq: "valid e \<Longrightarrow> ciphertext_path K d e = d @ [ek_sha K e @ ek_blob_suffix K]"
  unfolding ciphertext_path_def by (rule path_join_plain) (use suffixes plain_sha in auto)

lemma paths_differ: "valid e \<Longrightarrow> valid e' \<Longrightarrow> ciphertext_path K d e \<noteq> meta_path K d e'"
proof
  assume v: "valid e" "valid e'" and "ciphertext_path K d e = meta_path K d e'"
  then have "ek_sha K e @ ek_blob_suffix K = ek_sha K e' @ ek_meta_suffix K"
    by (simp add: meta_path_eq ciphertext_path_eq)
  then have "last (ek_sha K e @ ek_blob_suffix K) = last (ek_sha K e' @ ek_meta_suffix K)" by simp
  moreover have "ek_blob_suffix K \<noteq> []" "ek_meta_suffix K \<noteq> []" using suffixes by auto
  ultimately show False using suffixes(5) by simp
qed

lemma meta_path_inj: "valid e \<Longrightarrow> valid e' \<Longrightarrow> meta_path K d e = meta_path K d e' \<longleftrightarrow> ek_sha K e = ek_sha K e'"
  by (simp add: meta_path_eq)

lemma meta_path_globbed:
  "valid e \<Longrightarrow> map_of fs (meta_path K d e) \<noteq> None \<Longrightarrow> meta_path K d e \<in> set (glob_suffix fs d (ek_meta_suffix K))"
  by (auto simp: glob_mem meta_path_eq path_parent_def path_name_def)

text \<open>The catalog in memory and the sidecars on disk say the same.\<close>

definition synced :: "json_lib \<Rightarrow> 'e registry \<times> fs \<Rightarrow> bool" where
  "synced J = (\<lambda>(r, fs). fs_ok fs \<and> dict_ok (rg_by_id r) \<and> json_file_roundtrips J \<and>
     (\<forall>id e. map_of (rg_by_id r) id = Some e \<longrightarrow> ek_id K e = id \<and> valid e \<and>
        (\<forall>now. read_meta K J now fs (meta_path K (rg_dir r) e) = Inr e)) \<and>
     (\<forall>id id' e e'. map_of (rg_by_id r) id = Some e \<longrightarrow> map_of (rg_by_id r) id' = Some e' \<longrightarrow>
        ek_sha K e = ek_sha K e' \<longrightarrow> id = id') \<and>
     (\<forall>p \<in> set (glob_suffix fs (rg_dir r) (ek_meta_suffix K)). \<forall>now e. read_meta K J now fs p = Inr e \<longrightarrow>
        map_of (rg_by_id r) (ek_id K e) = Some e \<and> p = meta_path K (rg_dir r) e))"

lemma reload_fold:
  assumes "\<And>p e. p \<in> set ps \<Longrightarrow> read p = Inr e \<Longrightarrow> B (ek_id K e) = Some e"
  shows "map_of (fold (\<lambda>p acc. case read p of Inl x \<Rightarrow> acc | Inr e \<Rightarrow> AList.update (ek_id K e) e acc) ps acc) k =
    (if \<exists>p \<in> set ps. \<exists>e. read p = Inr e \<and> ek_id K e = k then B k else map_of acc k)"
  using assms
proof (induction ps arbitrary: acc)
  case Nil
  then show ?case by simp
next
  case (Cons p ps)
  have prem: "\<And>q e. q \<in> set ps \<Longrightarrow> read q = Inr e \<Longrightarrow> B (ek_id K e) = Some e"
    by (rule Cons.prems) simp_all
  note IH = Cons.IH [OF prem]
  show ?case
  proof (cases "read p")
    case (Inl x)
    then show ?thesis by (simp add: IH)
  next
    case (Inr e)
    have "B (ek_id K e) = Some e" using Cons.prems [of p e] Inr by simp
    then show ?thesis using Inr by (auto simp: IH map_of_update)
  qed
qed

lemma reload_synced:
  assumes "synced J (r, fs)"
  shows "map_of (reload K J now fs (rg_dir r)) = map_of (rg_by_id r)"
proof
  fix k
  let ?ps = "glob_suffix fs (rg_dir r) (ek_meta_suffix K)"
  have disk: "map_of (rg_by_id r) (ek_id K e) = Some e"
    if "p \<in> set ?ps" "read_meta K J now fs p = Inr e" for p e
    using assms that unfolding synced_def by auto
  note fold = reload_fold [of ?ps "read_meta K J now fs" "map_of (rg_by_id r)" "[]" k, OF disk]
  show "map_of (reload K J now fs (rg_dir r)) k = map_of (rg_by_id r) k"
  proof (cases "map_of (rg_by_id r) k")
    case None
    then have "map_of (reload K J now fs (rg_dir r)) k = None"
      unfolding reload_def by (subst fold) auto
    with None show ?thesis by simp
  next
    case (Some e)
    with assms have e: "ek_id K e = k" "valid e" "read_meta K J now fs (meta_path K (rg_dir r) e) = Inr e"
      unfolding synced_def by auto
    then have "map_of fs (meta_path K (rg_dir r) e) \<noteq> None"
      by (auto simp: read_meta_def read_bytes_def split: option.splits)
    from meta_path_globbed [OF e(2) this] e show ?thesis
      unfolding reload_def by (subst fold) auto
  qed
qed

lemma write_meta_Inr:
  assumes "json_file_roundtrips J" and "valid e" and "write_meta K J d e fs = Inr fs'" and "fs_ok fs"
  shows "fs_ok fs'" and "read_meta K J now fs' (meta_path K d e) = Inr e"
    and "p \<noteq> meta_path K d e \<Longrightarrow> read_meta K J now fs' p = read_meta K J now fs p"
    and "set (glob_suffix fs' d s) \<subseteq> insert (meta_path K d e) (set (glob_suffix fs d s))"
  using assms(3) [unfolded write_meta_def] assms(1,2,4)
  by (auto simp: write_bytes_Inr read_meta_def read_write json_file_roundtrips_def of_to_meta glob_mem
      split: if_splits)

text \<open>
  An entry may be added where its hash is not that of another id, and replaces an entry of its own
  id only if the hash is the same: exactly what the file names require.
\<close>

definition addable :: "'e \<Rightarrow> 'e registry \<Rightarrow> bool" where
  "addable e r \<longleftrightarrow> valid e \<and>
     (\<forall>k e'. map_of (rg_by_id r) k = Some e' \<longrightarrow> (ek_sha K e' = ek_sha K e \<longleftrightarrow> k = ek_id K e))"

lemma add_synced:
  assumes sync: "synced J (r, fs)" and add: "registry_add K J e (r, fs) = Inr (r', fs')" and "addable e r"
  shows "synced J (r', fs')" and "rg_by_id r' = AList.update (ek_id K e) e (rg_by_id r)" and "rg_dir r' = rg_dir r"
proof -
  from add obtain w: "write_meta K J (rg_dir r) e fs = Inr fs'"
    and r': "r' = r\<lparr>rg_by_id := AList.update (ek_id K e) e (rg_by_id r)\<rparr>"
    by (auto simp: registry_add_def and_then_Inr_iff)
  have v: "valid e" and sha: "\<And>k e'. map_of (rg_by_id r) k = Some e' \<Longrightarrow> ek_sha K e' = ek_sha K e \<longleftrightarrow> k = ek_id K e"
    using assms(3) by (auto simp: addable_def)
  from sync have J: "json_file_roundtrips J" and ok: "fs_ok fs" "dict_ok (rg_by_id r)"
    and mem: "\<And>k x. map_of (rg_by_id r) k = Some x \<Longrightarrow> ek_id K x = k \<and> valid x \<and>
      (\<forall>now. read_meta K J now fs (meta_path K (rg_dir r) x) = Inr x)"
    and dist: "\<And>k k' x x'. map_of (rg_by_id r) k = Some x \<Longrightarrow> map_of (rg_by_id r) k' = Some x' \<Longrightarrow>
      ek_sha K x = ek_sha K x' \<Longrightarrow> k = k'"
    and disk: "\<And>p now x. p \<in> set (glob_suffix fs (rg_dir r) (ek_meta_suffix K)) \<Longrightarrow>
      read_meta K J now fs p = Inr x \<Longrightarrow>
      map_of (rg_by_id r) (ek_id K x) = Some x \<and> p = meta_path K (rg_dir r) x"
    unfolding synced_def by blast+
  note W = write_meta_Inr [OF J v w ok(1)]
  let ?B = "AList.update (ek_id K e) e (rg_by_id r)"
  have mem': "ek_id K x = k \<and> valid x \<and> (\<forall>now. read_meta K J now fs' (meta_path K (rg_dir r) x) = Inr x)"
    if "map_of ?B k = Some x" for k x
  proof (cases "k = ek_id K e")
    case True
    then show ?thesis using that v W(2) by (simp add: map_of_update)
  next
    case False
    then have x: "map_of (rg_by_id r) k = Some x" using that by (simp add: map_of_update)
    then have "meta_path K (rg_dir r) x \<noteq> meta_path K (rg_dir r) e"
      using sha [OF x] False mem [OF x] v by (simp add: meta_path_inj)
    then show ?thesis using mem [OF x] W(3) by simp
  qed
  have dist': "k = k'" if "map_of ?B k = Some x" "map_of ?B k' = Some x'" "ek_sha K x = ek_sha K x'" for k k' x x'
    using that dist sha by (auto simp: map_of_update split: if_splits) metis+
  have disk': "map_of ?B (ek_id K x) = Some x \<and> p = meta_path K (rg_dir r) x"
    if p: "p \<in> set (glob_suffix fs' (rg_dir r) (ek_meta_suffix K))" "read_meta K J now fs' p = Inr x" for p now x
  proof (cases "p = meta_path K (rg_dir r) e")
    case True
    then show ?thesis using p(2) W(2) by (simp add: map_of_update)
  next
    case False
    then have "p \<in> set (glob_suffix fs (rg_dir r) (ek_meta_suffix K))" "read_meta K J now fs p = Inr x"
      using p W(3) W(4) by auto
    from disk [OF this] have x: "map_of (rg_by_id r) (ek_id K x) = Some x" "p = meta_path K (rg_dir r) x" by auto
    have "ek_id K x \<noteq> ek_id K e"
      using sha [OF x(1)] False x(2) mem [OF x(1)] v by (auto simp: meta_path_inj)
    with x show ?thesis by (simp add: map_of_update)
  qed
  have rb: "rg_by_id r' = ?B" and rd: "rg_dir r' = rg_dir r" by (simp_all add: r')
  show "synced J (r', fs')"
    unfolding synced_def prod.case rb rd
  proof (intro conjI allI impI ballI)
    fix k x assume "map_of ?B k = Some x"
    from mem' [OF this] show "ek_id K x = k" "valid x" by blast+
  next
    fix k x now assume "map_of ?B k = Some x"
    from mem' [OF this] show "read_meta K J now fs' (meta_path K (rg_dir r) x) = Inr x" by blast
  next
    fix p now x
    assume "p \<in> set (glob_suffix fs' (rg_dir r) (ek_meta_suffix K))" "read_meta K J now fs' p = Inr x"
    from disk' [OF this] show "map_of ?B (ek_id K x) = Some x" "p = meta_path K (rg_dir r) x" by blast+
  next
    fix k k' x y
    assume "map_of ?B k = Some x" "map_of ?B k' = Some y" "ek_sha K x = ek_sha K y"
    then show "k = k'" by (rule dist')
  qed (fact J W(1) dict_ok_update [OF ok(2)])+
  show "rg_by_id r' = AList.update (ek_id K e) e (rg_by_id r)" "rg_dir r' = rg_dir r" by (simp_all add: r')
qed

lemma unlink_quiet_Inr:
  assumes "unlink_quiet p fs = Inr fs'" and "fs_ok fs"
  shows "map_of fs' = (map_of fs)(p := None)" and "fs_ok fs'"
proof -
  have "map_of fs' = (map_of fs)(p := None) \<and> fs_ok fs'"
  proof (cases "map_of fs p")
    case None
    then show ?thesis using assms by (simp add: unlink_quiet_def unlink_path_def fun_upd_idem)
  next
    case (Some nd)
    then have "unlink_path p fs = Inr fs'"
      using assms(1) by (cases nd) (simp_all add: unlink_quiet_def unlink_path_def)
    from unlink_Inr [OF this] assms(2) show ?thesis by blast
  qed
  then show "map_of fs' = (map_of fs)(p := None)" "fs_ok fs'" by blast+
qed

lemma remove_synced:
  assumes sync: "synced J (r, fs)" and rm: "registry_remove K k (r, fs) = (Inr b, r', fs')"
  shows "synced J (r', fs')" and "map_of (rg_by_id r') = (map_of (rg_by_id r))(k := None)"
    and "b \<longleftrightarrow> map_of (rg_by_id r) k \<noteq> None" and "rg_dir r' = rg_dir r"
proof -
  have "synced J (r', fs') \<and> map_of (rg_by_id r') = (map_of (rg_by_id r))(k := None) \<and>
    (b \<longleftrightarrow> map_of (rg_by_id r) k \<noteq> None) \<and> rg_dir r' = rg_dir r"
  proof (cases "map_of (rg_by_id r) k")
    case None
    then have same: "r' = r" "fs' = fs" "\<not> b" using rm by (auto simp: registry_remove_def)
    from None have "(map_of (rg_by_id r))(k := None) = map_of (rg_by_id r)" by (simp add: fun_upd_idem)
    with None same sync show ?thesis by simp
  next
    case (Some e)
    from sync have J: "json_file_roundtrips J" and ok: "fs_ok fs" "dict_ok (rg_by_id r)"
      and mem: "\<And>k x. map_of (rg_by_id r) k = Some x \<Longrightarrow> ek_id K x = k \<and> valid x \<and>
        (\<forall>now. read_meta K J now fs (meta_path K (rg_dir r) x) = Inr x)"
      and dist: "\<And>k k' x x'. map_of (rg_by_id r) k = Some x \<Longrightarrow> map_of (rg_by_id r) k' = Some x' \<Longrightarrow>
        ek_sha K x = ek_sha K x' \<Longrightarrow> k = k'"
      and disk: "\<And>p now x. p \<in> set (glob_suffix fs (rg_dir r) (ek_meta_suffix K)) \<Longrightarrow>
        read_meta K J now fs p = Inr x \<Longrightarrow>
        map_of (rg_by_id r) (ek_id K x) = Some x \<and> p = meta_path K (rg_dir r) x"
      unfolding synced_def by blast+
    let ?blob = "ciphertext_path K (rg_dir r) e" and ?meta = "meta_path K (rg_dir r) e"
    from rm Some obtain fs1 where u: "unlink_quiet ?blob fs = Inr fs1" "unlink_quiet ?meta fs1 = Inr fs'"
      and r': "r' = r\<lparr>rg_by_id := AList.delete k (rg_by_id r)\<rparr>" and b
      by (auto simp: registry_remove_def Let_def split: sum.splits)
    note u1 = unlink_quiet_Inr [OF u(1) ok(1)]
    note u2 = unlink_quiet_Inr [OF u(2) u1(2)]
    have fs': "map_of fs' p = (if p = ?blob \<or> p = ?meta then None else map_of fs p)" for p
      by (simp add: u1 u2)
    then have rd: "read_meta K J now fs' p
        = (if p = ?blob \<or> p = ?meta then Inl FileNotFoundError else read_meta K J now fs p)" for p now
      by (simp add: read_meta_def read_bytes_def)
    have gl: "p \<in> set (glob_suffix fs' (rg_dir r) s) \<longleftrightarrow>
        p \<noteq> ?blob \<and> p \<noteq> ?meta \<and> p \<in> set (glob_suffix fs (rg_dir r) s)" for p s
      by (auto simp: glob_mem fs')
    have other: "meta_path K (rg_dir r) x \<noteq> ?blob \<and> meta_path K (rg_dir r) x \<noteq> ?meta"
      if "map_of (rg_by_id r) k' = Some x" "k' \<noteq> k" for k' x
    proof
      have v: "valid e" "valid x" using mem [OF that(1)] mem [OF Some] by auto
      then show "meta_path K (rg_dir r) x \<noteq> ?blob" using paths_differ by metis
      show "meta_path K (rg_dir r) x \<noteq> ?meta"
        using dist [OF that(1) Some] that(2) v by (auto simp: meta_path_inj)
    qed
    have "synced J (r', fs')"
      unfolding synced_def prod.case
    proof (intro conjI allI impI ballI)
      fix k1 x assume x: "map_of (rg_by_id r') k1 = Some x"
      then have x': "map_of (rg_by_id r) k1 = Some x" "k1 \<noteq> k" by (auto simp: r' map_of_delete split: if_splits)
      then show "ek_id K x = k1" "valid x" using mem by auto
      show "read_meta K J now fs' (meta_path K (rg_dir r') x) = Inr x" for now
        using other [OF x'] mem [OF x'(1)] by (simp add: rd r')
    next
      fix p now x assume p: "p \<in> set (glob_suffix fs' (rg_dir r') (ek_meta_suffix K))" "read_meta K J now fs' p = Inr x"
      then have *: "p \<noteq> ?meta" "p \<in> set (glob_suffix fs (rg_dir r) (ek_meta_suffix K))" "read_meta K J now fs p = Inr x"
        by (auto simp: r' gl rd split: if_splits)
      from disk [OF *(2,3)] have x: "map_of (rg_by_id r) (ek_id K x) = Some x" "p = meta_path K (rg_dir r) x" by auto
      have "ek_id K x \<noteq> k" using x Some *(1) by auto
      with x show "map_of (rg_by_id r') (ek_id K x) = Some x" "p = meta_path K (rg_dir r') x"
        by (simp_all add: r' map_of_delete)
    next
      fix k1 k2 x y assume "map_of (rg_by_id r') k1 = Some x" "map_of (rg_by_id r') k2 = Some y" "ek_sha K x = ek_sha K y"
      then show "k1 = k2" using dist by (auto simp: r' map_of_delete split: if_splits)
    qed (use J u2 ok(2) in \<open>simp_all add: r' dict_ok_delete\<close>)
    then show ?thesis using Some \<open>b\<close> by (auto simp: r' map_of_delete)
  qed
  then show "synced J (r', fs')" "map_of (rg_by_id r') = (map_of (rg_by_id r))(k := None)"
    "b \<longleftrightarrow> map_of (rg_by_id r) k \<noteq> None" "rg_dir r' = rg_dir r" by blast+
qed

end

section \<open>Both registries\<close>

definition model_valid :: "model_entry \<Rightarrow> bool" where
  "model_valid e \<longleftrightarrow> CHR ''/'' \<notin> set (me_sha256_plaintext e) \<and> me_tenant e = DEFAULT_TENANT"

definition lora_valid :: "lora_entry \<Rightarrow> bool" where
  "lora_valid e \<longleftrightarrow> CHR ''/'' \<notin> set (le_sha256_plaintext e)"

lemma json_to_opt_roundtrip:
  "json_to_opt_int (Some (json_opt_int i)) = Inr i" "json_to_opt_str (Some (json_opt_str s)) = Inr s"
  by (cases i; simp) (cases s; simp)

lemma model_of_meta_meta: "me_tenant e = DEFAULT_TENANT \<Longrightarrow> model_of_meta now (model_meta e) = Inr e"
  by (cases "me_clip_companion e")
    (simp_all add: model_of_meta_def model_meta_def json_downloaded_at_def json_to_opt_roundtrip)

lemma lora_of_meta_meta: "lora_of_meta now (lora_meta e) = Inr e"
  by (simp add: lora_of_meta_def lora_meta_def json_downloaded_at_def json_to_opt_roundtrip)

interpretation models: catalog model_kind model_valid
  by unfold_locales (auto simp: model_kind_def model_valid_def model_of_meta_meta)

interpretation loras: catalog lora_kind lora_valid
  by unfold_locales (auto simp: lora_kind_def lora_valid_def lora_of_meta_meta)

section \<open>Properties\<close>

datatype 'e registry_op = AddOp 'e | RemoveOp string

text \<open>A run of registry operations that raises nothing and adds only where the file names allow it.\<close>

fun model_run :: "json_lib \<Rightarrow> model_entry registry_op list \<Rightarrow> model_entry registry \<times> fs \<Rightarrow>
    (model_entry registry \<times> fs) option" where
  "model_run J [] w = Some w"
| "model_run J (AddOp e # ops) w =
     (if models.addable e (fst w) then
        (case model_registry_add J e w of Inr w \<Rightarrow> model_run J ops w | Inl x \<Rightarrow> None) else None)"
| "model_run J (RemoveOp k # ops) w =
     (case model_registry_remove k w of (Inr b, w) \<Rightarrow> model_run J ops w | (Inl x, w) \<Rightarrow> None)"

lemma model_run_synced:
  "models.synced J w \<Longrightarrow> model_run J ops w = Some w' \<Longrightarrow> models.synced J w' \<and> rg_dir (fst w') = rg_dir (fst w)"
proof (induction ops arbitrary: w)
  case Nil
  then show ?case by simp
next
  case (Cons op ops)
  obtain r fs where w: "w = (r, fs)" by (metis prod.exhaust)
  show ?case
  proof (cases op)
    case (AddOp e)
    with Cons.prems obtain w1 where "models.addable e r" "registry_add model_kind J e (r, fs) = Inr w1"
      "model_run J ops w1 = Some w'"
      by (auto simp: w model_registry_add_def split: if_splits sum.splits)
    moreover obtain r1 fs1 where "w1 = (r1, fs1)" by (metis prod.exhaust)
    ultimately show ?thesis
      using models.add_synced [of J r fs e r1 fs1] Cons.IH [of w1] Cons.prems(1) by (simp add: w)
  next
    case (RemoveOp k)
    with Cons.prems obtain b r1 fs1 where "registry_remove model_kind k (r, fs) = (Inr b, r1, fs1)"
      "model_run J ops (r1, fs1) = Some w'"
      by (auto simp: w model_registry_remove_def split: prod.splits sum.splits)
    then show ?thesis
      using models.remove_synced [of J r fs k b r1 fs1] Cons.IH [of "(r1, fs1)"] Cons.prems(1) by (simp add: w)
  qed
qed


definition demo_model :: model_entry where
  "demo_model = \<lparr>me_id = ''m'', me_sha256_plaintext = ''ab'', me_repo_id = ''org/m'', me_filename = ''m.gguf'',
     me_bytes_plaintext = 3, me_bytes_ciphertext = 9, me_n_ctx_max = None, me_downloaded_at = 5,
     me_tenant = DEFAULT_TENANT, me_clip_companion = Some ''clip''\<rparr>"

definition empty_registry :: "model_entry registry \<times> fs" where
  "empty_registry = (\<lparr>rg_dir = [''models''], rg_by_id = []\<rparr>, [([''models''], Dir)])"

lemma empty_registry_synced: "models.synced unary_json empty_registry"
  by (simp add: models.synced_def empty_registry_def fs_ok_def dict_ok_def unary_json_file_roundtrips
      glob_suffix_def list_dir_def path_parent_def)


text \<open>Two ids with the same plaintext hash share their files, and removing one takes both away: the
  other id stays in the catalog, but its encrypted blob and its sidecar are gone.\<close>

theorem shared_hash_removal:
  assumes "map_of (rg_by_id r) k = Some e" and "map_of (rg_by_id r) k' = Some e'" and "k \<noteq> k'"
    and "me_sha256_plaintext e = me_sha256_plaintext e'" and "model_valid e" and "model_valid e'" and "fs_ok fs"
    and "model_registry_remove k (r, fs) = (Inr b, r', fs')"
  shows "registry_get r' k' = Some e' \<and> map_of fs' (ciphertext_path model_kind (rg_dir r) e') = None \<and>
    map_of fs' (meta_path model_kind (rg_dir r) e') = None"
proof -
  from assms(8,1) obtain fs1 where
    u: "unlink_quiet (ciphertext_path model_kind (rg_dir r) e) fs = Inr fs1"
      "unlink_quiet (meta_path model_kind (rg_dir r) e) fs1 = Inr fs'"
    and r': "r' = r\<lparr>rg_by_id := AList.delete k (rg_by_id r)\<rparr>"
    by (auto simp: model_registry_remove_def registry_remove_def Let_def split: sum.splits)
  have same: "ciphertext_path model_kind (rg_dir r) e' = ciphertext_path model_kind (rg_dir r) e"
    "meta_path model_kind (rg_dir r) e' = meta_path model_kind (rg_dir r) e"
    using assms(4) by (simp_all add: ciphertext_path_def meta_path_def model_kind_def)
  note u1 = models.unlink_quiet_Inr [OF u(1) assms(7)]
  note u2 = models.unlink_quiet_Inr [OF u(2) u1(2)]
  show ?thesis
    using assms(2,3) by (simp add: registry_get_def r' map_of_delete same u1 u2)
qed

theorem shared_hash_removal_witness:
  "\<exists>r' fs'. model_registry_remove ''m'' (\<lparr>rg_dir = [''models''], rg_by_id = [(''m'', demo_model),
        (''n'', demo_model\<lparr>me_id := ''n''\<rparr>)]\<rparr>, [([''models''], Dir), ([''models'', ''ab.gguf.age''], File 420 [1])])
      = (Inr True, r', fs') \<and>
     registry_get r' ''n'' = Some (demo_model\<lparr>me_id := ''n''\<rparr>) \<and> map_of fs' [''models'', ''ab.gguf.age''] = None"
proof -
  let ?r = "\<lparr>rg_dir = [''models''], rg_by_id = [(''m'', demo_model), (''n'', demo_model\<lparr>me_id := ''n''\<rparr>)]\<rparr>"
  let ?fs = "[([''models''], Dir), ([''models'', ''ab.gguf.age''], File 420 [1])] :: fs"
  have v: "model_valid demo_model" "model_valid (demo_model\<lparr>me_id := ''n''\<rparr>)"
    by (simp_all add: model_valid_def demo_model_def)
  have paths: "ciphertext_path model_kind [''models''] demo_model = [''models'', ''ab.gguf.age'']"
    "meta_path model_kind [''models''] demo_model = [''models'', ''ab.meta.json'']"
    by (simp_all add: models.ciphertext_path_eq models.meta_path_eq v)
      (simp_all add: model_kind_def demo_model_def)
  obtain r' fs' where run: "model_registry_remove ''m'' (?r, ?fs) = (Inr True, r', fs')"
    by (simp add: model_registry_remove_def registry_remove_def paths unlink_quiet_def unlink_path_def)
  have "ciphertext_path model_kind [''models''] (demo_model\<lparr>me_id := ''n''\<rparr>) = [''models'', ''ab.gguf.age'']"
    by (simp add: models.ciphertext_path_eq v) (simp add: model_kind_def demo_model_def)
  with shared_hash_removal [OF _ _ _ _ v _ run, of "''n''"] run show ?thesis
    by (auto simp: fs_ok_def dict_ok_def demo_model_def)
qed

end
