(* ===== verification/AtRest.thy ===== *)
theory AtRest
  imports Filesystem
begin

text \<open>
  Encryption of model blobs at rest (\<open>server/.../crypto/at_rest.py\<close>). The age library is a parameter
  \<open>age\<close> with the law \<open>age_ok\<close>; an encryption is randomised, so it takes the randomness as an argument.
  \<open>os.write\<close> may write less than it is given: the counts it returns are an argument.
\<close>

record age =
  age_from_str :: "string \<Rightarrow> bytes option" \<comment> \<open>\<open>Identity.from_str\<close>, \<open>None\<close> where it raises\<close>
  age_to_public :: "bytes \<Rightarrow> bytes"
  age_encrypt :: "bytes \<Rightarrow> bytes \<Rightarrow> bytes \<Rightarrow> bytes" \<comment> \<open>randomness, plaintext, recipient\<close>
  age_decrypt :: "bytes \<Rightarrow> bytes \<Rightarrow> bytes option" \<comment> \<open>ciphertext, identity\<close>

definition age_ok :: "age \<Rightarrow> bool" where
  "age_ok A \<longleftrightarrow> (\<forall>rnd pt i. age_decrypt A (age_encrypt A rnd pt (age_to_public A i)) i = Some pt)"

definition demo_age :: age where
  "demo_age = \<lparr>age_from_str = (\<lambda>s. if s = [] then None else Some (raw_bytes s)), age_to_public = (\<lambda>i. i),
     age_encrypt = (\<lambda>rnd pt r. pt @ r), age_decrypt = (\<lambda>ct i. if drop (length ct - length i) ct = i
       then Some (take (length ct - length i) ct) else None)\<rparr>"

lemma demo_age_ok: "age_ok demo_age"
  by (simp add: age_ok_def demo_age_def)

record at_rest_key =
  ark_identity :: bytes
  ark_recipient :: bytes

definition at_rest_key_load :: "age \<Rightarrow> path \<Rightarrow> fs \<Rightarrow> at_rest_key result" where
  "at_rest_key_load A identity_path fs =
     and_then (read_bytes fs identity_path) (\<lambda>raw.
       if \<not> list_all is_ascii (map char_of_byte raw) then Inl (ValueError ''UnicodeDecodeError'')
       else let text = strip (map char_of_byte raw) in
       if text = [] then Inl (RuntimeError ''empty age identity; re-run keystore init'')
       else case age_from_str A text of
         None \<Rightarrow> Inl (ValueError ''invalid age identity'')
       | Some i \<Rightarrow> Inr \<lparr>ark_identity = i, ark_recipient = age_to_public A i\<rparr>)"

section \<open>Writing everything\<close>

text \<open>
  \<open>written k\<close> is what the \<open>k\<close>-th \<open>os.write\<close> returns, at most what was left. The result is what
  landed in the file, and the error if it stopped.
\<close>

function write_all_from :: "(nat \<Rightarrow> nat) \<Rightarrow> nat \<Rightarrow> bytes \<Rightarrow> nat \<Rightarrow> bytes \<times> unit result" where
  "write_all_from written k data n =
     (if n < length data then
        let w = min (written k) (length data - n) in
        if w = 0 then (take n data, Inl (OSError ''os.write returned 0''))
        else write_all_from written (Suc k) data (n + w)
      else (take n data, Inr ()))"
  by pat_completeness auto
termination
  by (relation "measure (\<lambda>(written, k, data, n). length data - n)") auto

declare write_all_from.simps [simp del]

definition write_all :: "(nat \<Rightarrow> nat) \<Rightarrow> bytes \<Rightarrow> bytes \<times> unit result" where
  "write_all written data = write_all_from written 0 data 0"

lemma write_all_from_total:
  "(\<And>k. 0 < written k) \<Longrightarrow> write_all_from written k data n = (if n \<le> length data then (data, Inr ()) else (take n data, Inr ()))"
proof (induction written k data n rule: write_all_from.induct)
  case (1 written k data n)
  show ?case
  proof (cases "n < length data")
    case True
    then have "min (written k) (length data - n) \<noteq> 0" using "1.prems" [of k] by simp
    with True "1.IH" [OF True refl this "1.prems"] show ?thesis
      by (subst write_all_from.simps) (simp add: Let_def)
  next
    case False
    then show ?thesis by (subst write_all_from.simps) auto
  qed
qed

section \<open>Encrypting and decrypting files\<close>

text \<open>\<open>dst.with_suffix(dst.suffix + ".tmp")\<close>.\<close>

definition tmp_path :: "path \<Rightarrow> path" where
  "tmp_path dst = path_parent dst @ [path_name dst @ ''.tmp'']"

definition encrypt_file :: "age \<Rightarrow> bytes \<Rightarrow> path \<Rightarrow> path \<Rightarrow> at_rest_key \<Rightarrow> fs \<Rightarrow> unit result \<times> fs" where
  "encrypt_file A rnd src dst key fs =
     (case mkdir_p (path_parent dst) fs of
        Inl e \<Rightarrow> (Inl e, fs)
      | Inr fs \<Rightarrow>
          let tmp = tmp_path dst in
          (case read_bytes fs src of
             Inl e \<Rightarrow> (Inl e, fs)
           | Inr plaintext \<Rightarrow>
               let encrypted = age_encrypt A rnd plaintext (ark_recipient key) in
               (case write_bytes 420 tmp encrypted fs of
                  Inl e \<Rightarrow> (Inl e, fs)
                | Inr fs \<Rightarrow>
                    (case replace_path tmp dst fs of Inl e \<Rightarrow> (Inl e, fs) | Inr fs \<Rightarrow> (Inr (), fs)))))"

text \<open>
  The context manager in its two halves: up to the \<open>yield\<close>, and the \<open>finally\<close> after it. \<open>uuid\<close> is
  the text of \<open>uuid.uuid4()\<close>; \<open>O_EXCL\<close> refuses an existing name. An error while writing leaves the
  partial file behind, since it is raised before the \<open>try\<close> that unlinks.
\<close>

definition decrypt_enter ::
  "age \<Rightarrow> (nat \<Rightarrow> nat) \<Rightarrow> string \<Rightarrow> path \<Rightarrow> path \<Rightarrow> at_rest_key \<Rightarrow> fs \<Rightarrow> path result \<times> fs" where
  "decrypt_enter A written uuid src tmpfs_dir key fs =
     (case mkdir_p tmpfs_dir fs of
        Inl e \<Rightarrow> (Inl e, fs)
      | Inr fs \<Rightarrow>
          (case read_bytes fs src of
             Inl e \<Rightarrow> (Inl e, fs)
           | Inr ciphertext \<Rightarrow>
               (case age_decrypt A ciphertext (ark_identity key) of
                  None \<Rightarrow> (Inl (ValueError ''DecryptError''), fs)
                | Some plaintext \<Rightarrow>
                    let name = path_join tmpfs_dir (uuid @ ''.gguf'') in
                    if exists_path fs name then (Inl FileExistsError, fs)
                    else let (content, res) = write_all written plaintext;
                             fs = AList.update name (File 384 content) fs
                         in (case res of Inl e \<Rightarrow> (Inl e, fs) | Inr u \<Rightarrow> (Inr name, fs)))))"

definition decrypt_exit :: "path \<Rightarrow> fs \<Rightarrow> fs result" where
  "decrypt_exit name fs = (case unlink_path name fs of Inl FileNotFoundError \<Rightarrow> Inr fs | res \<Rightarrow> res)"

section \<open>What the two files hold\<close>

lemma mkdirs_files: "mkdirs ps fs = Inr fs' \<Longrightarrow> map_of fs p = Some (File m d) \<Longrightarrow> map_of fs' p = Some (File m d)"
proof (induction ps arbitrary: fs)
  case (Cons q ps)
  have "p \<noteq> q" if "\<not> exists_path fs q" using that Cons.prems(2) by (auto simp: exists_path_def)
  then show ?case using Cons by (auto simp: map_of_update split: if_splits)
qed simp

lemma mkdirs_ok: "mkdirs ps fs = Inr fs' \<Longrightarrow> fs_ok fs \<Longrightarrow> fs_ok fs'"
  by (induction ps arbitrary: fs) (auto simp: fs_ok_def split: if_splits)

lemma read_bytes_Inr: "read_bytes fs p = Inr d \<longleftrightarrow> (\<exists>m. map_of fs p = Some (File m d))"
  by (auto simp: read_bytes_def split: option.splits node.splits)

lemma replace_path_Inr:
  assumes "replace_path src dst fs = Inr fs'" and "src \<noteq> dst"
  shows "map_of fs' = (map_of fs)(src := None, dst := map_of fs src)" and "fs_ok fs \<Longrightarrow> fs_ok fs'"
  using assms by (auto simp: replace_path_def fs_ok_def map_of_update map_of_delete split: option.splits node.splits if_splits)

lemma tmp_path_neq: "dst \<noteq> [] \<Longrightarrow> tmp_path dst \<noteq> dst"
proof
  assume "dst \<noteq> []" "tmp_path dst = dst"
  then have "last (tmp_path dst) = last dst" by simp
  then show False using \<open>dst \<noteq> []\<close> by (simp add: tmp_path_def path_name_def)
qed

lemma encrypt_file_Inr:
  assumes "encrypt_file A rnd src dst key fs = (Inr (), fs')" and "dst \<noteq> []"
  shows "\<exists>pt m. read_bytes fs src = Inr pt \<and> map_of fs' dst = Some (File m (age_encrypt A rnd pt (ark_recipient key)))"
    and "\<And>p m d. map_of fs p = Some (File m d) \<Longrightarrow> p \<noteq> dst \<Longrightarrow> p \<noteq> tmp_path dst \<Longrightarrow> map_of fs' p = Some (File m d)"
proof -
  from assms(1) obtain fs1 pt fs2 where mk: "mkdir_p (path_parent dst) fs = Inr fs1"
    and rd: "read_bytes fs1 src = Inr pt"
    and wr: "write_bytes 420 (tmp_path dst) (age_encrypt A rnd pt (ark_recipient key)) fs1 = Inr fs2"
    and rp: "replace_path (tmp_path dst) dst fs2 = Inr fs'"
    by (auto simp: encrypt_file_def Let_def split: sum.splits)
  have new: "map_of fs1 p = map_of fs p \<or> map_of fs1 p = Some Dir" for p
    using mk unfolding mkdir_p_def
  proof (induction "prefixes_of (path_parent dst)" arbitrary: fs)
    case (Cons q qs)
    show ?case
    proof (cases "mkdirs (q # qs) fs = Inr fs1")
      case True
      have "mkdirs qs fs0 = Inr fs1 \<Longrightarrow> map_of fs1 p = map_of fs0 p \<or> map_of fs1 p = Some Dir" for fs0 qs
        by (induction qs arbitrary: fs0) (auto simp: map_of_update split: if_splits)
      from this [OF True] show ?thesis .
    qed (use Cons in simp)
  qed simp
  have src: "read_bytes fs src = Inr pt" using rd new [of src] by (auto simp: read_bytes_Inr)
  show "\<exists>pt m. read_bytes fs src = Inr pt \<and> map_of fs' dst = Some (File m (age_encrypt A rnd pt (ark_recipient key)))"
    using src by (auto simp: replace_path_Inr(1) [OF rp tmp_path_neq [OF assms(2)]] write_bytes_Inr(1) [OF wr])
  show "map_of fs' p = Some (File m d)" if "map_of fs p = Some (File m d)" "p \<noteq> dst" "p \<noteq> tmp_path dst" for p m d
    using mkdirs_files [OF mk [unfolded mkdir_p_def] that(1)] that(2,3)
    by (auto simp: replace_path_Inr(1) [OF rp tmp_path_neq [OF assms(2)]] write_bytes_Inr(1) [OF wr])
qed

section \<open>Properties\<close>

text \<open>C26. A blob survives the disk: what was encrypted with the server's recipient is decrypted, through
  any sequence of short writes, into a new file that only the owner may read and that holds exactly
  the plaintext; leaving the context removes it.\<close>

theorem at_rest_roundtrip:
  assumes "age_ok A" and "encrypt_file A rnd src dst key fs = (Inr (), fs1)" and "read_bytes fs src = Inr pt"
    and "ark_recipient key = age_to_public A (ark_identity key)" and "dst \<noteq> []"
    and "\<And>k. 0 < written k"
    and "decrypt_enter A written uuid dst tmpfs key fs1 = (Inr name, fs2)"
  shows "map_of fs2 name = Some (File 384 pt) \<and> \<not> exists_path fs1 name \<and>
    (\<exists>fs3. decrypt_exit name fs2 = Inr fs3 \<and> (fs_ok fs2 \<longrightarrow> map_of fs3 name = None))"
proof -
  obtain m where dst: "map_of fs1 dst = Some (File m (age_encrypt A rnd pt (ark_recipient key)))"
    using encrypt_file_Inr(1) [OF assms(2,5)] assms(3) by auto
  from assms(7) obtain fs0 where mk: "mkdir_p tmpfs fs1 = Inr fs0"
    by (auto simp: decrypt_enter_def split: sum.splits)
  have rd: "read_bytes fs0 dst = Inr (age_encrypt A rnd pt (ark_recipient key))"
    using mkdirs_files [OF mk [unfolded mkdir_p_def] dst] by (auto simp: read_bytes_Inr)
  have dec: "age_decrypt A (age_encrypt A rnd pt (ark_recipient key)) (ark_identity key) = Some pt"
    using assms(1,4) by (simp add: age_ok_def)
  have wr: "write_all written pt = (pt, Inr ())"
    using assms(6) by (simp add: write_all_def write_all_from_total)
  from assms(7) have fs2: "fs2 = AList.update name (File 384 pt) fs0" and fresh: "\<not> exists_path fs0 name"
    by (auto simp: decrypt_enter_def mk rd dec wr Let_def split: if_splits)
  have "map_of fs1 name = Some x \<Longrightarrow> map_of fs0 name \<noteq> None" for x
  proof -
    have "mkdirs ps fsa = Inr fs0 \<Longrightarrow> map_of fsa name \<noteq> None \<Longrightarrow> map_of fs0 name \<noteq> None" for ps fsa
      by (induction ps arbitrary: fsa) (auto simp: map_of_update split: if_splits)
    then show "map_of fs1 name = Some x \<Longrightarrow> map_of fs0 name \<noteq> None" for x
      using mk by (auto simp: mkdir_p_def)
  qed
  with fresh have "\<not> exists_path fs1 name" by (cases "map_of fs1 name") (auto simp: exists_path_def)
  then show ?thesis
    by (auto simp: fs2 map_of_update decrypt_exit_def unlink_path_def map_of_delete)
qed

theorem at_rest_roundtrip_witness:
  "let key = \<lparr>ark_identity = [1], ark_recipient = [1]\<rparr>; fs = [([''d''], Dir), ([''d'', ''x''], File 420 [7, 8])] in
   \<exists>fs1 name fs2. encrypt_file demo_age [] [''d'', ''x''] [''d'', ''b.age''] key fs = (Inr (), fs1) \<and>
     decrypt_enter demo_age (\<lambda>k. 1) ''u'' [''d'', ''b.age''] [''t''] key fs1 = (Inr name, fs2) \<and>
     map_of fs2 name = Some (File 384 [7, 8])"
proof -
  let ?key = "\<lparr>ark_identity = [1], ark_recipient = [1]\<rparr>"
  let ?fs = "[([''d''], Dir), ([''d'', ''x''], File 420 [7, 8])] :: fs"
  let ?fs1 = "[([''d''], Dir), ([''d'', ''x''], File 420 [7, 8]), ([''d'', ''b.age''], File 420 [7, 8, 1])] :: fs"
  have enc: "encrypt_file demo_age [] [''d'', ''x''] [''d'', ''b.age''] ?key ?fs = (Inr (), ?fs1)"
    by code_simp
  have wr: "write_all (\<lambda>k. Suc 0) [7, 8] = ([7, 8], Inr ())" by (simp add: write_all_def write_all_from_total)
  obtain name fs2 where dec: "decrypt_enter demo_age (\<lambda>k. 1) ''u'' [''d'', ''b.age''] [''t''] ?key ?fs1 = (Inr name, fs2)"
    by (simp add: decrypt_enter_def mkdir_p_def prefixes_of_def is_dir_def exists_path_def read_bytes_def
        demo_age_def wr path_join_def path_parts_def Let_def)
  have "read_bytes ?fs [''d'', ''x''] = Inr [7, 8]" by (simp add: read_bytes_def)
  from at_rest_roundtrip [OF demo_age_ok enc this _ _ _ dec] enc dec show ?thesis
    by (auto simp: demo_age_def Let_def)
qed

end
