(* ===== verification/Downloader.thy ===== *)
theory Downloader
  imports Registry AtRest
begin

text \<open>
  Download, verification and sealing of models and adapters (\<open>server/.../models/downloader.py\<close>).
  \<open>hf_hub_download\<close> is a parameter \<open>hub\<close>: it puts a file under the scratch directory and returns its
  path, or fails with a message. The two download functions are copies that differ in the registry,
  the suffix and the entry they build; \<open>download_gen\<close> is their common body.
\<close>

datatype download_error = DownloadError error_code string | DownloadOther exn

type_synonym hub = "string \<Rightarrow> string \<Rightarrow> path \<Rightarrow> fs \<Rightarrow> string + (path \<times> fs)"

definition download_error :: "error_code \<Rightarrow> string \<Rightarrow> download_error" where
  "download_error code message = DownloadError code (if message \<noteq> [] then message else code_value code)"

text \<open>\<open>repr\<close> of a string without quotes, backslashes or control characters.\<close>

definition py_repr :: "string \<Rightarrow> string" where
  "py_repr s = CHR 0x27 # s @ [CHR 0x27]"

definition check_repo_allowed :: "string \<Rightarrow> string list \<Rightarrow> download_error + unit" where
  "check_repo_allowed repo_id prefixes =
     (if prefixes = [] then Inr ()
      else if \<not> list_ex (\<lambda>p. has_prefix p repo_id) prefixes
      then Inl (download_error REPO_NOT_ALLOWED (''repo '' @ py_repr repo_id @ '' is not in the allowed list''))
      else Inr ())"

definition disk_used :: "fs \<Rightarrow> path \<Rightarrow> int" where
  "disk_used fs dir =
     sum_list (map (\<lambda>p. case file_size fs p of Inr n \<Rightarrow> int n | Inl e \<Rightarrow> 0) (glob_suffix fs dir ''.gguf.age''))"

definition check_disk_quota :: "fs \<Rightarrow> path \<Rightarrow> int \<Rightarrow> int \<Rightarrow> download_error + unit" where
  "check_disk_quota fs dst_dir quota_gb incoming_bytes =
     (let used = disk_used fs dst_dir; quota = quota_gb * push_bit 30 1 in
      if used + incoming_bytes > quota
      then Inl (download_error DISK_QUOTA_EXCEEDED (''would exceed '' @ str_of_int quota_gb @ '' GiB quota''))
      else Inr ())"

definition hf_fetch :: "hub \<Rightarrow> string \<Rightarrow> string \<Rightarrow> path \<Rightarrow> fs \<Rightarrow> download_error + (path \<times> fs)" where
  "hf_fetch hub repo_id filename scratch fs =
     (case hub repo_id filename scratch fs of
        Inl msg \<Rightarrow> Inl (download_error DOWNLOAD_FAILED msg)
      | Inr r \<Rightarrow> Inr r)"

text \<open>What leaving the \<open>TemporaryDirectory\<close> context removes, on every path.\<close>

definition under :: "path \<Rightarrow> path \<Rightarrow> bool" where
  "under d p \<longleftrightarrow> take (length d) p = d"

definition remove_tree :: "path \<Rightarrow> fs \<Rightarrow> fs" where
  "remove_tree d fs = filter (\<lambda>(p, nd). \<not> under d p) fs"

definition sha_mismatch :: "string option \<Rightarrow> string \<Rightarrow> bool" where
  "sha_mismatch expected sha \<longleftrightarrow>
     (case expected of None \<Rightarrow> False | Some e \<Rightarrow> e \<noteq> [] \<and> str_lower sha \<noteq> str_lower e)"

definition download_gen ::
  "'e entry_kind \<Rightarrow> (string \<Rightarrow> int \<Rightarrow> int \<Rightarrow> 'e) \<Rightarrow> json_lib \<Rightarrow> age \<Rightarrow> hub \<Rightarrow> bytes \<Rightarrow> path \<Rightarrow> string \<Rightarrow> string \<Rightarrow>
   string option \<Rightarrow> at_rest_key \<Rightarrow> string list \<Rightarrow> int \<Rightarrow> 'e registry \<times> fs \<Rightarrow>
   (download_error + 'e) \<times> 'e registry \<times> fs" where
  "download_gen K mk J A hub rnd scratch repo_id filename expected_sha256 at_rest allowed_repo_prefixes
     disk_quota_gb = (\<lambda>(registry, fs).
     case check_repo_allowed repo_id allowed_repo_prefixes of
       Inl e \<Rightarrow> (Inl e, registry, fs)
     | Inr u \<Rightarrow>
         let fs = AList.update scratch Dir fs; cleanup = remove_tree scratch in
         (case hf_fetch hub repo_id filename scratch fs of
            Inl e \<Rightarrow> (Inl e, registry, cleanup fs)
          | Inr (local, fs) \<Rightarrow>
              (case file_size fs local of
                 Inl e \<Rightarrow> (Inl (DownloadOther e), registry, cleanup fs)
               | Inr plaintext_bytes \<Rightarrow>
                   (case check_disk_quota fs (rg_dir registry) disk_quota_gb (int plaintext_bytes) of
                      Inl e \<Rightarrow> (Inl e, registry, cleanup fs)
                    | Inr u \<Rightarrow>
                        (case sha256_file fs local of
                           Inl e \<Rightarrow> (Inl (DownloadOther e), registry, cleanup fs)
                         | Inr sha \<Rightarrow>
                             if sha_mismatch expected_sha256 sha
                             then (Inl (download_error SHA256_MISMATCH []), registry, cleanup fs)
                             else
                               let encrypted_path = path_join (rg_dir registry) (sha @ ek_blob_suffix K) in
                               (case encrypt_file A rnd local encrypted_path at_rest fs of
                                  (Inl e, fs) \<Rightarrow> (Inl (DownloadOther e), registry, cleanup fs)
                                | (Inr u, fs) \<Rightarrow>
                                    (case file_size fs encrypted_path of
                                       Inl e \<Rightarrow> (Inl (DownloadOther e), registry, cleanup fs)
                                     | Inr ciphertext_bytes \<Rightarrow>
                                         let entry = mk sha (int plaintext_bytes) (int ciphertext_bytes) in
                                         (case registry_add K J entry (registry, fs) of
                                            Inl e \<Rightarrow> (Inl (DownloadOther e), registry, cleanup fs)
                                          | Inr (registry, fs) \<Rightarrow> (Inr entry, registry, cleanup fs)))))))))"

definition download_and_seal ::
  "json_lib \<Rightarrow> age \<Rightarrow> hub \<Rightarrow> bytes \<Rightarrow> path \<Rightarrow> float_py \<Rightarrow> string \<Rightarrow> string \<Rightarrow> string option \<Rightarrow> at_rest_key \<Rightarrow>
   string list \<Rightarrow> int \<Rightarrow> model_entry registry \<times> fs \<Rightarrow>
   (download_error + model_entry) \<times> model_entry registry \<times> fs" where
  "download_and_seal J A hub rnd scratch now repo_id filename =
     download_gen model_kind (\<lambda>sha plaintext_bytes ciphertext_bytes.
       \<lparr>me_id = normalize_id filename, me_sha256_plaintext = sha, me_repo_id = repo_id, me_filename = filename,
        me_bytes_plaintext = plaintext_bytes, me_bytes_ciphertext = ciphertext_bytes, me_n_ctx_max = None,
        me_downloaded_at = now, me_tenant = DEFAULT_TENANT, me_clip_companion = None\<rparr>)
       J A hub rnd scratch repo_id filename"

definition download_and_seal_lora ::
  "json_lib \<Rightarrow> age \<Rightarrow> hub \<Rightarrow> bytes \<Rightarrow> path \<Rightarrow> float_py \<Rightarrow> string option \<Rightarrow> string \<Rightarrow> string \<Rightarrow> string option \<Rightarrow>
   at_rest_key \<Rightarrow> string list \<Rightarrow> int \<Rightarrow> lora_entry registry \<times> fs \<Rightarrow>
   (download_error + lora_entry) \<times> lora_entry registry \<times> fs" where
  "download_and_seal_lora J A hub rnd scratch now base_model_id repo_id filename =
     download_gen lora_kind (\<lambda>sha plaintext_bytes ciphertext_bytes.
       \<lparr>le_id = normalize_id filename, le_sha256_plaintext = sha, le_repo_id = repo_id, le_filename = filename,
        le_bytes_plaintext = plaintext_bytes, le_bytes_ciphertext = ciphertext_bytes,
        le_base_model_id = base_model_id, le_downloaded_at = now\<rparr>)
       J A hub rnd scratch repo_id filename"

section \<open>What a successful download has checked\<close>

text \<open>The hub writes below the scratch directory only.\<close>

definition hub_ok :: "hub \<Rightarrow> path \<Rightarrow> bool" where
  "hub_ok hub scratch \<longleftrightarrow> (\<forall>repo fn fs p fs'. hub repo fn scratch fs = Inr (p, fs') \<longrightarrow>
     under scratch p \<and> (\<forall>q. \<not> under scratch q \<longrightarrow> map_of fs' q = map_of fs q))"

lemma map_of_remove_tree: "map_of (remove_tree d fs) p = (if under d p then None else map_of fs p)"
  by (induction fs) (auto simp: remove_tree_def)

lemma download_gen_Inr:
  assumes "download_gen K mk J A hub rnd scratch repo_id filename expected at_rest allowed quota (reg, fs)
      = (Inr entry, reg', fs')"
  shows "\<exists>local fs1 data fs2 ct fs3.
    check_repo_allowed repo_id allowed = Inr () \<and>
    hub repo_id filename scratch (AList.update scratch Dir fs) = Inr (local, fs1) \<and>
    read_bytes fs1 local = Inr data \<and>
    check_disk_quota fs1 (rg_dir reg) quota (int (length data)) = Inr () \<and>
    \<not> sha_mismatch expected (hex_encode (sha256 data)) \<and>
    encrypt_file A rnd local (path_join (rg_dir reg) (hex_encode (sha256 data) @ ek_blob_suffix K)) at_rest fs1
      = (Inr (), fs2) \<and>
    entry = mk (hex_encode (sha256 data)) (int (length data)) ct \<and>
    registry_add K J entry (reg, fs2) = Inr (reg', fs3) \<and> fs' = remove_tree scratch fs3"
proof -
  from assms obtain local fs1 n sha fs2 c fs3 where
    steps: "check_repo_allowed repo_id allowed = Inr ()"
      "hub repo_id filename scratch (AList.update scratch Dir fs) = Inr (local, fs1)"
      "file_size fs1 local = Inr n" "check_disk_quota fs1 (rg_dir reg) quota (int n) = Inr ()"
      "sha256_file fs1 local = Inr sha" "\<not> sha_mismatch expected sha"
      "encrypt_file A rnd local (path_join (rg_dir reg) (sha @ ek_blob_suffix K)) at_rest fs1 = (Inr (), fs2)"
      "registry_add K J (mk sha (int n) (int c)) (reg, fs2) = Inr (reg', fs3)"
      "entry = mk sha (int n) (int c)" "fs' = remove_tree scratch fs3"
    unfolding download_gen_def hf_fetch_def Let_def
    by (auto split: sum.splits prod.splits if_splits)
  from steps(5) obtain data where data: "read_bytes fs1 local = Inr data" "sha = hex_encode (sha256 data)"
    by (auto simp: sha256_file_def and_then_Inr_iff)
  with steps(3) have "n = length data"
    by (auto simp: file_size_def read_bytes_def split: option.splits node.splits)
  with steps data show ?thesis by blast
qed

lemma download_gen_rejected:
  assumes "download_gen K mk J A hub rnd scratch repo_id filename expected at_rest allowed quota (reg, fs)
      = (Inl (DownloadError code msg), reg', fs')"
    and "hub_ok hub scratch" and "\<not> under scratch p"
  shows "reg' = reg \<and> map_of fs' p = map_of fs p"
proof -
  have other: "scratch \<noteq> p" using assms(3) by (auto simp: under_def)
  from assms(1) consider "fs' = fs" "reg' = reg" | "reg' = reg" "fs' = remove_tree scratch (AList.update scratch Dir fs)"
    | local fs1 where "reg' = reg" "hub repo_id filename scratch (AList.update scratch Dir fs) = Inr (local, fs1)"
        "fs' = remove_tree scratch fs1"
    unfolding download_gen_def hf_fetch_def Let_def
    by (auto split: sum.splits prod.splits if_splits)
  then show ?thesis
  proof cases
    case (3 local fs1)
    with assms(2) have "map_of fs1 p = map_of (AList.update scratch Dir fs) p"
      unfolding hub_ok_def using assms(3) by blast
    with 3 assms(3) other show ?thesis by (simp add: map_of_remove_tree map_of_update)
  qed (use assms(3) other in \<open>simp_all add: map_of_remove_tree map_of_update\<close>)
qed

lemma hex_no_slash: "CHR ''/'' \<notin> set (hex_encode bs)"
proof (induction bs)
  case (Cons b bs)
  have "hex_digit n \<noteq> CHR ''/''" if "n < 16" for n
  proof -
    have "\<forall>n \<in> set [0..<16]. hex_digit n \<noteq> CHR ''/''" by code_simp
    with that show ?thesis by simp
  qed
  from this [of "unat b div 16"] this [of "unat b mod 16"]
  have "hex_digit (unat b div 16) \<noteq> CHR ''/''" "hex_digit (unat b mod 16) \<noteq> CHR ''/''"
    using byte_lt [of b] by simp_all
  with Cons show ?case by (simp add: eq_commute)
qed simp

lemma registry_add_Inr:
  assumes "registry_add K J e (r, fs) = Inr (r', fs')"
  shows "write_meta K J (rg_dir r) e fs = Inr fs'" and "registry_get r' (ek_id K e) = Some e" and "rg_dir r' = rg_dir r"
  using assms by (auto simp: registry_add_def and_then_Inr_iff registry_get_def map_of_update)

section \<open>Properties\<close>


lemma downloaded_valid:
  assumes "download_and_seal J A hub rnd scratch now repo filename expected key allowed quota (reg, fs)
      = (Inr entry, reg', fs')"
  shows "model_valid entry"
  using download_gen_Inr [OF assms [unfolded download_and_seal_def]] by (auto simp: model_valid_def hex_no_slash)

definition demo_hub :: hub where
  "demo_hub repo fn scratch fs = Inr (scratch @ [''f''], AList.update (scratch @ [''f'']) (File 420 [1]) fs)"

lemma demo_hub_ok: "hub_ok demo_hub scratch"
  by (auto simp: hub_ok_def demo_hub_def under_def map_of_update)

definition demo_key :: at_rest_key where
  "demo_key = \<lparr>ark_identity = [1], ark_recipient = [1]\<rparr>"

lemma demo_download:
  "\<exists>entry reg' fs'. download_and_seal unary_json demo_age demo_hub [] [''s''] 5 ''org/m'' ''m.gguf'' None demo_key
      [''org/''] 1 empty_registry = (Inr entry, reg', fs')"
proof -
  define H where "H = hex_encode (sha256 [1])"
  have H: "CHR ''/'' \<notin> set H" "H \<noteq> []"
    using length_sha256 [of "[1]"] by (simp_all add: H_def hex_no_slash flip: length_0_conv)
  have p: "path_join [''models''] (H @ ''.gguf.age'') = [''models'', H @ ''.gguf.age'']"
    by (subst path_join_plain) (use H in auto)
  have m: "path_join [''models''] (H @ ''.meta.json'') = [''models'', H @ ''.meta.json'']"
    by (subst path_join_plain) (use H in auto)
  have sha: "sha256_file [([''models''], Dir), ([''s''], Dir), ([''s'', ''f''], File 420 [1])] [''s'', ''f''] = Inr H"
    by (simp add: sha256_file_def read_bytes_def H_def)
  have neq: "H @ ''.gguf.age.tmp'' \<noteq> H @ ''.gguf.age''" by simp
  show ?thesis
    by (simp add: download_and_seal_def download_gen_def check_repo_allowed_def has_prefix_def hf_fetch_def
        demo_hub_def empty_registry_def file_size_def check_disk_quota_def disk_used_def glob_suffix_def
        list_dir_def path_parent_def path_name_def ends_with_def sha sha_mismatch_def encrypt_file_def
        mkdir_p_def prefixes_of_def is_dir_def read_bytes_def tmp_path_def write_bytes_def replace_path_def
        p m neq model_kind_def registry_add_def write_meta_def meta_path_def demo_age_def demo_key_def Let_def)
qed


text \<open>A refused download leaves no trace: where the repository, the transfer, the quota or the hash is
  refused, the catalog and every file outside the scratch directory are as before.\<close>

theorem refused_download_changes_nothing:
  assumes "download_and_seal J A hub rnd scratch now repo filename expected key allowed quota (reg, fs)
      = (Inl (DownloadError code msg), reg', fs')"
    and "hub_ok hub scratch" and "\<not> under scratch p"
  shows "reg' = reg \<and> map_of fs' p = map_of fs p"
  using download_gen_rejected [OF assms(1) [unfolded download_and_seal_def] assms(2,3)] .

theorem refused_download_changes_nothing_witness:
  "\<exists>msg reg' fs'. download_and_seal unary_json demo_age demo_hub [] [''s''] 5 ''org/m'' ''m.gguf'' None demo_key
      [''other/''] 1 (\<lparr>rg_dir = [''models''], rg_by_id = []\<rparr>, [([''models''], Dir)])
      = (Inl (DownloadError REPO_NOT_ALLOWED msg), reg', fs') \<and> map_of fs' [''models''] = Some Dir"
proof -
  obtain msg reg' fs' where run: "download_and_seal unary_json demo_age demo_hub [] [''s''] 5 ''org/m'' ''m.gguf''
      None demo_key [''other/''] 1 (\<lparr>rg_dir = [''models''], rg_by_id = []\<rparr>, [([''models''], Dir)])
      = (Inl (DownloadError REPO_NOT_ALLOWED msg), reg', fs')"
    by (simp add: download_and_seal_def download_gen_def check_repo_allowed_def has_prefix_def download_error_def)
  have "\<not> under [''s''] [''models'']" by (simp add: under_def)
  from refused_download_changes_nothing [OF run demo_hub_ok this] run show ?thesis by simp
qed

end
