(* ===== verification/Manager.thy ===== *)
theory Manager
  imports Registry AtRest "HOL-Library.Product_Lexorder"
begin

text \<open>
  The model manager (\<open>server/.../models/manager.py\<close>): an ordered table of loaded slots with LRU
  eviction, idle timers and one worker per slot. Slots are mutable objects that the table, timers and
  callers share, so they live on a heap of their own. A coroutine is modelled up to its \<open>await\<close>s where
  another one can come between: \<open>_unload\<close> is split into \<open>unload_begin\<close> (up to the sentinel in the
  queue) and \<open>unload_end\<close> (after the worker has stopped). The registries are the multi-tenant ones the
  server builds. llama.cpp is a parameter: whether the constructor raises, and what a job yields.
\<close>

section \<open>State\<close>

type_synonym lora_spec = "(string \<times> float_py) list"

datatype manager_error = ManagerError error_code string | ManagerOther exn

definition manager_error :: "error_code \<Rightarrow> string \<Rightarrow> manager_error" where
  "manager_error code message = ManagerError code (if message \<noteq> [] then message else code_value code)"

record backend =
  be_model :: bytes \<comment> \<open>what is mapped\<close>
  be_lora :: "(bytes \<times> float_py) option" \<comment> \<open>the adapter that is applied\<close>
  be_n_ctx :: int
  be_embedding :: bool

record job =
  jb_id :: nat \<comment> \<open>the future\<close>
  jb_kind :: string
  jb_payload :: json
  jb_stream :: bool

datatype queue_item = Job job | StopSentinel

record slot =
  sl_entry :: model_entry
  sl_backend :: backend
  sl_n_ctx :: int
  sl_last_used :: float_py
  sl_cache_key :: string
  sl_unloading :: bool
  sl_queue :: "queue_item list"
  sl_worker :: bool
  sl_idle_timer :: "float_py option"
  sl_last_error :: "string option"
  sl_closed :: bool

record manager_config =
  mc_max_loaded :: int
  mc_idle_timeout :: int
  mc_n_ctx_default :: int
  mc_queue_depth :: int
  mc_tmpfs_dir :: path
  mc_at_rest :: at_rest_key

datatype 'c future = FutResult 'c | FutStream "'c list" "exn option" | FutExn exn

record 'c manager =
  mg_slots :: "slot list"
  mg_loaded :: "(string, nat) dict"
  mg_closing :: bool
  mg_models :: "model_entry multi_registry"
  mg_loras :: "lora_entry multi_registry"
  mg_fs :: fs
  mg_done :: "(nat \<times> 'c future) list" \<comment> \<open>resolved futures, in order\<close>

text \<open>
  What llama.cpp makes of a job: it raises, returns a value, or yields chunks and may then raise.
  \<open>en_cancelled\<close> says after how many chunks the consumer has cancelled, if it does; a consumer that
  does neither read nor cancel is not modelled, and the timeout of 30 s after which \<open>_unload\<close> cancels
  the worker is in theory \<open>Interleaving\<close>.
\<close>

datatype 'c response = Raises exn | Returns 'c | Yields "'c list" "exn option"

record 'c env =
  en_config :: manager_config
  en_age :: age
  en_written :: "nat \<Rightarrow> nat" \<comment> \<open>the counts \<open>os.write\<close> returns\<close>
  en_uuid :: "nat \<Rightarrow> string"
  en_json :: json_lib
  en_now :: float_py
  en_llama :: "backend \<Rightarrow> exn option" \<comment> \<open>what the constructor raises\<close>
  en_str :: "exn \<Rightarrow> string"
  en_infer :: "backend \<Rightarrow> job \<Rightarrow> 'c response"
  en_cancelled :: "job \<Rightarrow> nat option"

definition upd_slot :: "nat \<Rightarrow> (slot \<Rightarrow> slot) \<Rightarrow> 'c manager \<Rightarrow> 'c manager" where
  "upd_slot r f m = m\<lparr>mg_slots := (mg_slots m)[r := f (mg_slots m ! r)]\<rparr>"

section \<open>Cache keys\<close>

text \<open>\<open>f"{x:.4f}"\<close>: round half to even on the fourth decimal.\<close>

definition round_half_even :: "float_py \<Rightarrow> int" where
  "round_half_even q =
     (let f = \<lfloor>q\<rfloor>; d = q - of_int f in
      if d < 1 / 2 then f else if d > 1 / 2 then f + 1 else if even f then f else f + 1)"

definition format_4f :: "float_py \<Rightarrow> string" where
  "format_4f q =
     (let n = nat (round_half_even (\<bar>q\<bar> * 10000)); frac = nat_digits (n mod 10000)
      in (if q < 0 then ''-'' else []) @ nat_digits (n div 10000) @ ''.''
           @ replicate (4 - length frac) (CHR ''0'') @ frac)"

fun join_str :: "string \<Rightarrow> string list \<Rightarrow> string" where
  "join_str sep [] = []"
| "join_str sep [s] = s"
| "join_str sep (s # ss) = s @ sep @ join_str sep ss"

definition lora_fingerprint :: "lora_spec \<Rightarrow> string" where
  "lora_fingerprint loras =
     (if loras = [] then []
      else join_str ''+'' (map (\<lambda>(lid, scale). lid @ ''@'' @ format_4f scale) (sort loras)))"

definition cache_key :: "string \<Rightarrow> string \<Rightarrow> string \<Rightarrow> string \<Rightarrow> string" where
  "cache_key tenant model_id mode lora_fp = tenant @ '':'' @ model_id @ '':'' @ mode @ '':'' @ lora_fp"

section \<open>Loading\<close>

definition reset_idle :: "'c env \<Rightarrow> nat \<Rightarrow> 'c manager \<Rightarrow> 'c manager" where
  "reset_idle E r =
     upd_slot r (\<lambda>s. s\<lparr>sl_idle_timer := Some (en_now E + of_int (mc_idle_timeout (en_config E)))\<rparr>)"

text \<open>\<open>stack.enter_context\<close> for every adapter; the opened files are collected for the stack's exit.\<close>

fun enter_loras ::
  "age \<Rightarrow> (nat \<Rightarrow> nat) \<Rightarrow> (nat \<Rightarrow> string) \<Rightarrow> nat \<Rightarrow> at_rest_key \<Rightarrow> path \<Rightarrow> lora_entry registry \<Rightarrow> lora_spec \<Rightarrow>
   fs \<Rightarrow> path list \<Rightarrow> (path \<times> float_py) list result \<times> path list \<times> fs" where
  "enter_loras A written uuid i key tmpfs reg [] fs opened = (Inr [], opened, fs)"
| "enter_loras A written uuid i key tmpfs reg ((lid, scale) # loras) fs opened =
     (case registry_get reg lid of
        None \<Rightarrow> (Inl AssertionError, opened, fs)
      | Some lentry \<Rightarrow>
          (case decrypt_enter A written (uuid i) (ciphertext_path lora_kind (rg_dir reg) lentry) tmpfs key fs of
             (Inl e, fs) \<Rightarrow> (Inl e, opened, fs)
           | (Inr p, fs) \<Rightarrow>
               (case enter_loras A written uuid (Suc i) key tmpfs reg loras fs (p # opened) of
                  (Inl e, opened, fs) \<Rightarrow> (Inl e, opened, fs)
                | (Inr ps, opened, fs) \<Rightarrow> (Inr ((p, scale) # ps), opened, fs))))"

fun exit_all :: "path list \<Rightarrow> fs \<Rightarrow> fs" where
  "exit_all [] fs = fs"
| "exit_all (p # ps) fs = exit_all ps (case decrypt_exit p fs of Inl e \<Rightarrow> fs | Inr fs \<Rightarrow> fs)"

text \<open>\<open>LlamaBackend(...)\<close>: the files are mapped while they exist; only the first adapter is applied.\<close>

definition make_backend ::
  "(backend \<Rightarrow> exn option) \<Rightarrow> fs \<Rightarrow> path \<Rightarrow> int \<Rightarrow> bool \<Rightarrow> (path \<times> float_py) list \<Rightarrow> backend result" where
  "make_backend llama fs model_path n_ctx embedding lora_paths =
     and_then (read_bytes fs model_path) (\<lambda>model.
     and_then (case lora_paths of
         [] \<Rightarrow> Inr None
       | (head_path, head_scale) # rest \<Rightarrow>
           and_then (read_bytes fs head_path) (\<lambda>l. Inr (Some (l, head_scale)))) (\<lambda>lora.
       let b = \<lparr>be_model = model, be_lora = lora, be_n_ctx = n_ctx, be_embedding = embedding\<rparr> in
       case llama b of Some e \<Rightarrow> Inl e | None \<Rightarrow> Inr b))"

definition load ::
  "'c env \<Rightarrow> model_entry registry \<Rightarrow> lora_entry registry \<Rightarrow> model_entry \<Rightarrow> int \<Rightarrow> string \<Rightarrow> string \<Rightarrow> lora_spec \<Rightarrow>
   'c manager \<Rightarrow> nat result \<times> 'c manager" where
  "load E registry lora_reg entry n_ctx key mode loras m =
     (let A = en_age E; w = en_written E; uuid = en_uuid E; tmpfs = mc_tmpfs_dir (en_config E);
          ark = mc_at_rest (en_config E) in
      case decrypt_enter A w (uuid 0) (ciphertext_path model_kind (rg_dir registry) entry) tmpfs ark (mg_fs m) of
        (Inl e, fs) \<Rightarrow> (Inl e, m\<lparr>mg_fs := fs\<rparr>)
      | (Inr plain, fs) \<Rightarrow>
          (case enter_loras A w uuid 1 ark tmpfs lora_reg loras fs [plain] of
             (Inl e, opened, fs) \<Rightarrow> (Inl e, m\<lparr>mg_fs := exit_all opened fs\<rparr>)
           | (Inr lora_paths, opened, fs) \<Rightarrow>
               (case make_backend (en_llama E) fs plain n_ctx (mode = ''embedding'') lora_paths of
                  Inl e \<Rightarrow> (Inl e, m\<lparr>mg_fs := exit_all opened fs\<rparr>)
                | Inr backend \<Rightarrow>
                    let r = length (mg_slots m);
                        s = \<lparr>sl_entry = entry, sl_backend = backend, sl_n_ctx = n_ctx, sl_last_used = en_now E,
                             sl_cache_key = key, sl_unloading = False, sl_queue = [], sl_worker = True,
                             sl_idle_timer = None, sl_last_error = None, sl_closed = False\<rparr>
                    in (Inr r, reset_idle E r
                          (m\<lparr>mg_fs := exit_all opened fs, mg_slots := mg_slots m @ [s]\<rparr>)))))"

section \<open>Unloading\<close>

definition unload_begin :: "nat \<Rightarrow> 'c manager \<Rightarrow> 'c manager" where
  "unload_begin r = upd_slot r (\<lambda>s. s\<lparr>sl_unloading := True, sl_idle_timer := None,
     sl_queue := sl_queue s @ [StopSentinel]\<rparr>)"

definition unload_end :: "string \<Rightarrow> nat \<Rightarrow> 'c manager \<Rightarrow> 'c manager" where
  "unload_end key r m =
     (let m = upd_slot r (\<lambda>s. s\<lparr>sl_closed := True\<rparr>) m in m\<lparr>mg_loaded := AList.delete key (mg_loaded m)\<rparr>)"

section \<open>The worker\<close>

definition last_error_text :: "(exn \<Rightarrow> string) \<Rightarrow> exn \<Rightarrow> string" where
  "last_error_text str_of e = take 200 (str_of e)"

definition worker_step :: "'c env \<Rightarrow> nat \<Rightarrow> 'c manager \<Rightarrow> 'c manager" where
  "worker_step E r m =
     (let s = mg_slots m ! r in
      if \<not> sl_worker s then m
      else case sl_queue s of
        [] \<Rightarrow> m
      | StopSentinel # q \<Rightarrow> upd_slot r (\<lambda>s. s\<lparr>sl_queue := q, sl_worker := False\<rparr>) m
      | Job job # q \<Rightarrow>
          let m = upd_slot r (\<lambda>s. s\<lparr>sl_queue := q\<rparr>) m;
              resolve = (\<lambda>f m. m\<lparr>mg_done := mg_done m @ [(jb_id job, f)]\<rparr>);
              served = (\<lambda>m. reset_idle E r (upd_slot r (\<lambda>s. s\<lparr>sl_last_used := en_now E\<rparr>) m));
              failed = (\<lambda>e. upd_slot r (\<lambda>s. s\<lparr>sl_last_error := Some (last_error_text (en_str E) e)\<rparr>))
          in (case en_infer E (sl_backend s) job of
                Raises e \<Rightarrow> resolve (FutExn e) (failed e m)
              | Returns v \<Rightarrow> served (resolve (FutResult v) m)
              | Yields chunks err \<Rightarrow>
                  (case en_cancelled E job of
                     Some k \<Rightarrow>
                       if k \<le> length chunks then served (resolve (FutStream (take k chunks) None) m)
                       else served (resolve (FutStream chunks err) (case err of None \<Rightarrow> m | Some e \<Rightarrow> failed e m))
                   | None \<Rightarrow>
                       served (resolve (FutStream chunks err) (case err of None \<Rightarrow> m | Some e \<Rightarrow> failed e m)))))"

text \<open>The worker for \<open>n\<close> turns; \<open>_unload\<close> waits until it has met the sentinel, the last item.\<close>

fun worker_run :: "'c env \<Rightarrow> nat \<Rightarrow> nat \<Rightarrow> 'c manager \<Rightarrow> 'c manager" where
  "worker_run E r 0 m = m"
| "worker_run E r (Suc n) m = worker_run E r n (worker_step E r m)"

definition unload :: "'c env \<Rightarrow> string \<Rightarrow> nat \<Rightarrow> 'c manager \<Rightarrow> 'c manager" where
  "unload E key r m =
     (let m = unload_begin r m in unload_end key r (worker_run E r (length (sl_queue (mg_slots m ! r))) m))"

lemma upd_slot_simps [simp]:
  "mg_loaded (upd_slot r f m) = mg_loaded m" "mg_models (upd_slot r f m) = mg_models m"
  "mg_loras (upd_slot r f m) = mg_loras m" "mg_fs (upd_slot r f m) = mg_fs m" "mg_done (upd_slot r f m) = mg_done m"
  "mg_closing (upd_slot r f m) = mg_closing m" "length (mg_slots (upd_slot r f m)) = length (mg_slots m)"
  by (simp_all add: upd_slot_def)

lemma upd_slot_nth [simp]:
  "q < length (mg_slots m) \<Longrightarrow> mg_slots (upd_slot r f m) ! q = (if q = r then f (mg_slots m ! r) else mg_slots m ! q)"
  by (simp add: upd_slot_def)

lemma worker_step_other [simp]:
  "mg_loaded (worker_step E r m) = mg_loaded m" "mg_models (worker_step E r m) = mg_models m"
  "mg_loras (worker_step E r m) = mg_loras m" "mg_fs (worker_step E r m) = mg_fs m"
  "mg_closing (worker_step E r m) = mg_closing m" "length (mg_slots (worker_step E r m)) = length (mg_slots m)"
  by (simp_all add: worker_step_def Let_def reset_idle_def split: list.splits queue_item.splits response.splits option.splits)

lemma worker_run_other [simp]:
  "mg_loaded (worker_run E r n m) = mg_loaded m" "mg_models (worker_run E r n m) = mg_models m"
  "mg_loras (worker_run E r n m) = mg_loras m" "mg_fs (worker_run E r n m) = mg_fs m"
  "mg_closing (worker_run E r n m) = mg_closing m" "length (mg_slots (worker_run E r n m)) = length (mg_slots m)"
  by (induction n arbitrary: m) simp_all

lemma unload_begin_other [simp]:
  "mg_loaded (unload_begin r m) = mg_loaded m" "mg_models (unload_begin r m) = mg_models m"
  "mg_loras (unload_begin r m) = mg_loras m" "mg_fs (unload_begin r m) = mg_fs m"
  "mg_closing (unload_begin r m) = mg_closing m" "length (mg_slots (unload_begin r m)) = length (mg_slots m)"
  by (simp_all add: unload_begin_def)

lemma unload_other [simp]:
  "mg_loaded (unload E key r m) = AList.delete key (mg_loaded m)" "mg_models (unload E key r m) = mg_models m"
  "mg_loras (unload E key r m) = mg_loras m" "mg_fs (unload E key r m) = mg_fs m"
  "mg_closing (unload E key r m) = mg_closing m" "length (mg_slots (unload E key r m)) = length (mg_slots m)"
  by (simp_all add: unload_def unload_end_def Let_def)

section \<open>Evicting\<close>

text \<open>
  The loop of \<open>ensure_loaded\<close>: the first slot of the table goes until there is room. On an empty table
  \<open>next(iter(...))\<close> raises \<open>StopIteration\<close>, which a coroutine turns into a \<open>RuntimeError\<close>.
\<close>

function evict :: "'c env \<Rightarrow> 'c manager \<Rightarrow> unit result \<times> 'c manager" where
  "evict E m =
     (if int (length (mg_loaded m)) < mc_max_loaded (en_config E) then (Inr (), m)
      else case mg_loaded m of
        [] \<Rightarrow> (Inl (RuntimeError ''coroutine raised StopIteration''), m)
      | (victim_id, victim) # rest \<Rightarrow> evict E (unload E victim_id victim m))"
  by pat_completeness auto
termination
proof (relation "measure (\<lambda>(E, m). length (mg_loaded m))", simp, goal_cases)
  case (1 E m kr rest key r)
  have "length (AList.delete key rest) \<le> length rest" for key :: string and rest :: "(string, nat) dict"
    by (induction rest) auto
  with 1 show ?case by (cases kr) (auto simp: le_imp_less_Suc)
qed

declare evict.simps [simp del]

section \<open>Finding or loading a slot\<close>

definition ctx_fits :: "int option \<Rightarrow> slot \<Rightarrow> bool" where
  "ctx_fits n_ctx s \<longleftrightarrow> (case n_ctx of None \<Rightarrow> True | Some n \<Rightarrow> n \<le> sl_n_ctx s)"

definition loaded_fitting :: "string \<Rightarrow> int option \<Rightarrow> 'c manager \<Rightarrow> nat option" where
  "loaded_fitting key n_ctx m =
     (case map_of (mg_loaded m) key of
        None \<Rightarrow> None
      | Some r \<Rightarrow> if ctx_fits n_ctx (mg_slots m ! r) then Some r else None)"

text \<open>\<open>OrderedDict.move_to_end\<close>.\<close>

definition move_to_end :: "string \<Rightarrow> nat \<Rightarrow> (string, nat) dict \<Rightarrow> (string, nat) dict" where
  "move_to_end key r d = AList.delete key d @ [(key, r)]"

definition opt_int_or :: "int option \<Rightarrow> int \<Rightarrow> int" where
  "opt_int_or x y = (case x of None \<Rightarrow> y | Some i \<Rightarrow> int_or i y)"

text \<open>The body of \<open>async with lock\<close>.\<close>

definition ensure_locked ::
  "'c env \<Rightarrow> model_entry registry \<Rightarrow> lora_entry registry \<Rightarrow> model_entry \<Rightarrow> int option \<Rightarrow> string \<Rightarrow> string \<Rightarrow>
   lora_spec \<Rightarrow> 'c manager \<Rightarrow> (manager_error + nat) \<times> 'c manager" where
  "ensure_locked E registry lora_reg entry n_ctx key mode loras m =
     (case loaded_fitting key n_ctx m of
        Some r \<Rightarrow> (Inr r, reset_idle E r m)
      | None \<Rightarrow>
          (case evict E m of
             (Inl e, m) \<Rightarrow> (Inl (ManagerOther e), m)
           | (Inr u, m) \<Rightarrow>
               (case load E registry lora_reg entry (opt_int_or n_ctx (mc_n_ctx_default (en_config E))) key mode loras m of
                  (Inl e, m) \<Rightarrow> (Inl (ManagerOther e), m)
                | (Inr r, m) \<Rightarrow> (Inr r, m\<lparr>mg_loaded := AList.update key r (mg_loaded m)\<rparr>))))"

definition ensure_loaded ::
  "'c env \<Rightarrow> string \<Rightarrow> int option \<Rightarrow> string \<Rightarrow> lora_spec \<Rightarrow> string \<Rightarrow> 'c manager \<Rightarrow> (manager_error + nat) \<times> 'c manager" where
  "ensure_loaded E model_id n_ctx mode loras tenant m =
     (case for_tenant model_kind (en_json E) (en_now E) tenant (mg_models m, mg_fs m) of
        Inl e \<Rightarrow> (Inl (ManagerOther e), m)
      | Inr (registry, models, fs) \<Rightarrow>
          let m = m\<lparr>mg_models := models, mg_fs := fs\<rparr> in
          (case registry_get registry model_id of
             None \<Rightarrow> (Inl (manager_error MODEL_NOT_FOUND model_id), m)
           | Some entry \<Rightarrow>
               let key = cache_key tenant model_id mode (lora_fingerprint loras) in
               (case loaded_fitting key n_ctx m of
                  Some r \<Rightarrow> (Inr r, reset_idle E r (m\<lparr>mg_loaded := move_to_end key r (mg_loaded m)\<rparr>))
                | None \<Rightarrow>
                    (case for_tenant lora_kind (en_json E) (en_now E) tenant (mg_loras m, mg_fs m) of
                       Inl e \<Rightarrow> (Inl (ManagerOther e), m)
                     | Inr (lora_reg, loras', fs) \<Rightarrow>
                         let m = m\<lparr>mg_loras := loras', mg_fs := fs\<rparr> in
                         (case find (\<lambda>(lid, scale). registry_get lora_reg lid = None) loras of
                            Some (lid, scale) \<Rightarrow> (Inl (manager_error MODEL_NOT_FOUND (''lora:'' @ lid)), m)
                          | None \<Rightarrow> ensure_locked E registry lora_reg entry n_ctx key mode loras m)))))"

section \<open>Requests\<close>

text \<open>\<open>asyncio.Queue.full\<close>: a non-positive size means no bound.\<close>

definition queue_full :: "manager_config \<Rightarrow> slot \<Rightarrow> bool" where
  "queue_full C s \<longleftrightarrow> 0 < mc_queue_depth C \<and> mc_queue_depth C \<le> int (length (sl_queue s))"

text \<open>\<open>_submit\<close> up to \<open>await fut\<close>; \<open>fut\<close> is the name of the new future.\<close>

definition submit ::
  "'c env \<Rightarrow> nat \<Rightarrow> nat \<Rightarrow> string \<Rightarrow> json \<Rightarrow> bool \<Rightarrow> 'c manager \<Rightarrow> (manager_error + nat) \<times> 'c manager" where
  "submit E fut r kind payload stream m =
     (if queue_full (en_config E) (mg_slots m ! r)
      then (Inl (manager_error QUEUE_FULL (me_id (sl_entry (mg_slots m ! r)))), m)
      else (Inr fut, upd_slot r (\<lambda>s. s\<lparr>sl_queue := sl_queue s @
        [Job \<lparr>jb_id = fut, jb_kind = kind, jb_payload = payload, jb_stream = stream\<rparr>]\<rparr>) m))"

definition ensure_and_submit ::
  "'c env \<Rightarrow> nat \<Rightarrow> string \<Rightarrow> int option \<Rightarrow> string \<Rightarrow> lora_spec \<Rightarrow> string \<Rightarrow> string \<Rightarrow> json \<Rightarrow> bool \<Rightarrow>
   'c manager \<Rightarrow> (manager_error + nat) \<times> 'c manager" where
  "ensure_and_submit E fut model_id n_ctx mode loras tenant kind payload stream m =
     (case ensure_loaded E model_id n_ctx mode loras tenant m of
        (Inl e, m) \<Rightarrow> (Inl e, m)
      | (Inr r, m) \<Rightarrow> submit E fut r kind payload stream m)"

definition chat ::
  "'c env \<Rightarrow> nat \<Rightarrow> string \<Rightarrow> int option \<Rightarrow> json \<Rightarrow> bool \<Rightarrow> lora_spec \<Rightarrow> string \<Rightarrow> (string \<times> json) list \<Rightarrow>
   'c manager \<Rightarrow> (manager_error + nat) \<times> 'c manager" where
  "chat E fut model_id n_ctx messages stream loras tenant sampling =
     ensure_and_submit E fut model_id n_ctx ''chat'' loras tenant ''chat''
       (JObj ((''messages'', messages) # sampling)) stream"

definition complete ::
  "'c env \<Rightarrow> nat \<Rightarrow> string \<Rightarrow> int option \<Rightarrow> string \<Rightarrow> bool \<Rightarrow> lora_spec \<Rightarrow> string \<Rightarrow> (string \<times> json) list \<Rightarrow>
   'c manager \<Rightarrow> (manager_error + nat) \<times> 'c manager" where
  "complete E fut model_id n_ctx prompt stream loras tenant sampling =
     ensure_and_submit E fut model_id n_ctx ''chat'' loras tenant ''complete''
       (JObj ((''prompt'', JStr prompt) # sampling)) stream"

definition embed ::
  "'c env \<Rightarrow> nat \<Rightarrow> string \<Rightarrow> json \<Rightarrow> string \<Rightarrow> 'c manager \<Rightarrow> (manager_error + nat) \<times> 'c manager" where
  "embed E fut model_id inputs tenant =
     ensure_and_submit E fut model_id None ''embedding'' [] tenant ''embed'' (JObj [(''inputs'', inputs)]) False"

definition preload :: "'c env \<Rightarrow> string \<Rightarrow> string \<Rightarrow> 'c manager \<Rightarrow> (manager_error + unit) \<times> 'c manager" where
  "preload E model_id tenant m =
     (case ensure_loaded E model_id None ''chat'' [] tenant m of
        (Inl e, m) \<Rightarrow> (Inl e, m) | (Inr r, m) \<Rightarrow> (Inr (), m))"

section \<open>Unloading many\<close>

fun unload_all :: "'c env \<Rightarrow> (string \<times> nat) list \<Rightarrow> 'c manager \<Rightarrow> 'c manager" where
  "unload_all E [] m = m"
| "unload_all E ((key, r) # kvs) m = unload_all E kvs (unload E key r m)"

definition force_unload :: "'c env \<Rightarrow> string \<Rightarrow> string \<Rightarrow> 'c manager \<Rightarrow> bool \<times> 'c manager" where
  "force_unload E model_id tenant m =
     (let prefix = tenant @ '':'' @ model_id @ '':'';
          targets = filter (\<lambda>(k, v). has_prefix prefix k) (mg_loaded m)
      in if targets = [] then (False, m) else (True, unload_all E targets m))"

definition shutdown :: "'c env \<Rightarrow> 'c manager \<Rightarrow> 'c manager" where
  "shutdown E m = unload_all E (mg_loaded m) (m\<lparr>mg_closing := True\<rparr>)"

text \<open>The idle timer of slot \<open>r\<close> fires.\<close>

definition idle_offload :: "'c env \<Rightarrow> nat \<Rightarrow> 'c manager \<Rightarrow> 'c manager" where
  "idle_offload E r m =
     (let s = mg_slots m ! r in
      if mg_closing m \<or> sl_unloading s then m else unload E (sl_cache_key s) r m)"

section \<open>The snapshot\<close>

record model_info =
  mi_id :: string
  mi_repo_id :: string
  mi_filename :: string
  mi_state :: string
  mi_bytes_on_disk :: int
  mi_sha256 :: string
  mi_n_ctx_max :: "int option"
  mi_last_used_at :: "float_py option"
  mi_queue_depth :: int
  mi_last_error :: "string option"

definition slot_of_model :: "string \<Rightarrow> string \<Rightarrow> 'c manager \<Rightarrow> slot option" where
  "slot_of_model tenant model_id m =
     map_option (\<lambda>(key, r). mg_slots m ! r)
       (find (\<lambda>(key, r). has_prefix (tenant @ '':'' @ model_id @ '':'') key \<and>
          me_id (sl_entry (mg_slots m ! r)) = model_id) (mg_loaded m))"

definition model_info_of :: "string \<Rightarrow> 'c manager \<Rightarrow> model_entry \<Rightarrow> model_info" where
  "model_info_of tenant m entry =
     (let loaded = slot_of_model tenant (me_id entry) m in
      \<lparr>mi_id = me_id entry, mi_repo_id = me_repo_id entry, mi_filename = me_filename entry,
       mi_state = (case loaded of None \<Rightarrow> ''present'' | Some s \<Rightarrow> if sl_unloading s then ''unloading'' else ''loaded''),
       mi_bytes_on_disk = me_bytes_ciphertext entry, mi_sha256 = me_sha256_plaintext entry,
       mi_n_ctx_max = me_n_ctx_max entry, mi_last_used_at = map_option sl_last_used loaded,
       mi_queue_depth = (case loaded of None \<Rightarrow> 0 | Some s \<Rightarrow> int (length (sl_queue s))),
       mi_last_error = (case loaded of None \<Rightarrow> None | Some s \<Rightarrow> sl_last_error s)\<rparr>)"

definition snapshot :: "'c env \<Rightarrow> string \<Rightarrow> 'c manager \<Rightarrow> (model_info list \<times> 'c manager) result" where
  "snapshot E tenant m =
     and_then (for_tenant model_kind (en_json E) (en_now E) tenant (mg_models m, mg_fs m)) (\<lambda>(registry, models, fs).
       let m = m\<lparr>mg_models := models, mg_fs := fs\<rparr> in Inr (map (model_info_of tenant m) (registry_all registry), m))"

section \<open>What the worker keeps\<close>

text \<open>The fields of a slot that only loading and unloading write.\<close>

definition slot_core :: "slot \<Rightarrow> model_entry \<times> backend \<times> int \<times> string \<times> bool \<times> bool" where
  "slot_core s = (sl_entry s, sl_backend s, sl_n_ctx s, sl_cache_key s, sl_unloading s, sl_closed s)"

lemma worker_step_core [simp]:
  "q < length (mg_slots m) \<Longrightarrow> slot_core (mg_slots (worker_step E r m) ! q) = slot_core (mg_slots m ! q)"
  by (simp add: worker_step_def Let_def reset_idle_def slot_core_def
      split: list.splits queue_item.splits response.splits option.splits)

lemma worker_run_core [simp]:
  "q < length (mg_slots m) \<Longrightarrow> slot_core (mg_slots (worker_run E r n m) ! q) = slot_core (mg_slots m ! q)"
  by (induction n arbitrary: m) simp_all

lemma worker_step_others [simp]:
  "q < length (mg_slots m) \<Longrightarrow> q \<noteq> r \<Longrightarrow> mg_slots (worker_step E r m) ! q = mg_slots m ! q"
  by (simp add: worker_step_def Let_def reset_idle_def split: list.splits queue_item.splits response.splits option.splits)

lemma worker_run_others [simp]:
  "q < length (mg_slots m) \<Longrightarrow> q \<noteq> r \<Longrightarrow> mg_slots (worker_run E r n m) ! q = mg_slots m ! q"
  by (induction n arbitrary: m) simp_all

lemma unload_slot_other [simp]:
  "q < length (mg_slots m) \<Longrightarrow> q \<noteq> r \<Longrightarrow> mg_slots (unload E key r m) ! q = mg_slots m ! q"
  by (simp add: unload_def unload_end_def unload_begin_def Let_def)

lemma unload_end_slot:
  "r < length (mg_slots m) \<Longrightarrow> slot_core (mg_slots (unload_end key r m) ! r) =
     (let s = mg_slots m ! r in (sl_entry s, sl_backend s, sl_n_ctx s, sl_cache_key s, sl_unloading s, True))"
  by (simp add: unload_end_def Let_def slot_core_def)

lemma unload_slot:
  assumes "r < length (mg_slots m)"
  shows "slot_core (mg_slots (unload E key r m) ! r) =
      (let s = mg_slots m ! r in (sl_entry s, sl_backend s, sl_n_ctx s, sl_cache_key s, True, True))"
proof -
  obtain m1 n where m1: "m1 = worker_run E r n (unload_begin r m)" "unload E key r m = unload_end key r m1"
    by (simp add: unload_def Let_def)
  have len: "r < length (mg_slots m1)" using assms by (simp add: m1)
  have "slot_core (mg_slots m1 ! r) = slot_core (mg_slots (unload_begin r m) ! r)"
    using assms unfolding m1 by (intro worker_run_core) simp
  then show ?thesis using assms unload_end_slot [OF len]
    by (simp add: m1(2) unload_begin_def Let_def slot_core_def)
qed

text \<open>A turn of a running worker takes the head of the queue; a job is answered exactly once.\<close>

lemma worker_step_job:
  assumes "r < length (mg_slots m)" and "sl_worker (mg_slots m ! r)" and "sl_queue (mg_slots m ! r) = Job j # q"
  shows "sl_queue (mg_slots (worker_step E r m) ! r) = q" "sl_worker (mg_slots (worker_step E r m) ! r)"
    "map fst (mg_done (worker_step E r m)) = map fst (mg_done m) @ [jb_id j]"
  using assms
  by (simp_all add: worker_step_def Let_def reset_idle_def split: response.splits option.splits)

lemma worker_step_stop:
  assumes "r < length (mg_slots m)" and "sl_worker (mg_slots m ! r)" and "sl_queue (mg_slots m ! r) = StopSentinel # q"
  shows "sl_queue (mg_slots (worker_step E r m) ! r) = q" "\<not> sl_worker (mg_slots (worker_step E r m) ! r)"
    "mg_done (worker_step E r m) = mg_done m"
  using assms by (simp_all add: worker_step_def)

lemma worker_stopped: "\<not> sl_worker (mg_slots m ! r) \<Longrightarrow> worker_run E r n m = m"
  by (induction n) (simp_all add: worker_step_def)

lemma worker_run_jobs:
  assumes "r < length (mg_slots m)" and "sl_worker (mg_slots m ! r)"
    and "sl_queue (mg_slots m ! r) = map Job js @ StopSentinel # late" and "length js < n"
  shows "map fst (mg_done (worker_run E r n m)) = map fst (mg_done m) @ map jb_id js \<and>
    sl_queue (mg_slots (worker_run E r n m) ! r) = late \<and> \<not> sl_worker (mg_slots (worker_run E r n m) ! r)"
  using assms
proof (induction js arbitrary: m n)
  case Nil
  then obtain n' where n: "n = Suc n'" by (cases n) auto
  have q: "sl_queue (mg_slots m ! r) = StopSentinel # late" using Nil.prems(3) by simp
  note st = worker_step_stop [OF Nil.prems(1,2) q]
  show ?case using st by (simp add: n worker_stopped)
next
  case (Cons j js)
  then obtain n' where n: "n = Suc n'" "length js < n'" by (cases n) auto
  have q: "sl_queue (mg_slots m ! r) = Job j # map Job js @ StopSentinel # late" using Cons.prems(3) by simp
  note st = worker_step_job [OF Cons.prems(1,2) q]
  have "r < length (mg_slots (worker_step E r m))" using Cons.prems(1) by simp
  from Cons.IH [OF this st(2,1) n(2)] show ?case by (simp add: n(1) st(3))
qed

section \<open>The table\<close>

definition table_ok :: "manager_config \<Rightarrow> 'c manager \<Rightarrow> bool" where
  "table_ok C m \<longleftrightarrow> dict_ok (mg_loaded m) \<and> int (length (mg_loaded m)) \<le> max 0 (mc_max_loaded C) \<and>
     (\<forall>key r. map_of (mg_loaded m) key = Some r \<longrightarrow> r < length (mg_slots m) \<and>
        sl_cache_key (mg_slots m ! r) = key \<and> \<not> sl_unloading (mg_slots m ! r) \<and> \<not> sl_closed (mg_slots m ! r))"

lemma table_okD:
  "table_ok C m \<Longrightarrow> map_of (mg_loaded m) key = Some r \<Longrightarrow> r < length (mg_slots m) \<and>
     sl_cache_key (mg_slots m ! r) = key \<and> \<not> sl_unloading (mg_slots m ! r) \<and> \<not> sl_closed (mg_slots m ! r)"
  by (simp add: table_ok_def)

lemma table_ok_frame:
  assumes "table_ok C m" and "mg_loaded m' = mg_loaded m" and "length (mg_slots m') \<ge> length (mg_slots m)"
    and "\<And>q. q < length (mg_slots m) \<Longrightarrow> slot_core (mg_slots m' ! q) = slot_core (mg_slots m ! q)"
  shows "table_ok C m'"
proof -
  have "r < length (mg_slots m') \<and> sl_cache_key (mg_slots m' ! r) = key \<and> \<not> sl_unloading (mg_slots m' ! r) \<and>
      \<not> sl_closed (mg_slots m' ! r)" if "map_of (mg_loaded m) key = Some r" for key r
    using table_okD [OF assms(1) that] assms(3) assms(4) [of r] by (simp add: slot_core_def)
  then show ?thesis using assms(1,2) by (simp add: table_ok_def)
qed

lemma length_delete_le: "length (AList.delete k d) \<le> length d"
  by (induction d) auto

lemma table_ok_unload:
  assumes "table_ok C m" and "r < length (mg_slots m)" and "sl_cache_key (mg_slots m ! r) = key"
  shows "table_ok C (unload E key r m)"
proof -
  have "q < length (mg_slots m) \<and> sl_cache_key (mg_slots (unload E key r m) ! q) = k \<and>
      \<not> sl_unloading (mg_slots (unload E key r m) ! q) \<and> \<not> sl_closed (mg_slots (unload E key r m) ! q)"
    if "map_of (mg_loaded m) k = Some q" "k \<noteq> key" for k q
  proof -
    from table_okD [OF assms(1) that(1)] assms(3) that(2) have "q \<noteq> r" "q < length (mg_slots m)" by auto
    then show ?thesis using table_okD [OF assms(1) that(1)] by simp
  qed
  moreover have "int (length (AList.delete key (mg_loaded m))) \<le> max 0 (mc_max_loaded C)"
    using assms(1) length_delete_le [of key "mg_loaded m"] by (simp add: table_ok_def)
  ultimately show ?thesis using assms(1) by (auto simp: table_ok_def map_of_delete split: if_splits)
qed

lemma table_ok_loaded_update:
  assumes "table_ok C m" and "dict_ok d" and "int (length d) \<le> max 0 (mc_max_loaded C)"
    and "\<And>k q. map_of d k = Some q \<Longrightarrow> map_of (mg_loaded m) k = Some q"
  shows "table_ok C (m\<lparr>mg_loaded := d\<rparr>)"
  using assms by (auto simp: table_ok_def)

lemma table_ok_evict:
  assumes "table_ok (en_config E) m" and "evict E m = (res, m')"
  shows "table_ok (en_config E) m' \<and> length (mg_slots m') = length (mg_slots m) \<and>
    (\<forall>u. res = Inr u \<longrightarrow> int (length (mg_loaded m')) < mc_max_loaded (en_config E)) \<and>
    (\<forall>q < length (mg_slots m). \<not> sl_closed (mg_slots m ! q) \<longrightarrow>
       map_of (mg_loaded m) (sl_cache_key (mg_slots m ! q)) \<noteq> Some q \<longrightarrow> mg_slots m' ! q = mg_slots m ! q)"
  using assms
proof (induction E m arbitrary: res m' rule: evict.induct)
  case (1 E m)
  show ?case
  proof (cases "int (length (mg_loaded m)) < mc_max_loaded (en_config E)")
    case True
    then show ?thesis using 1(2,3) by (auto simp: evict.simps [of E m])
  next
    case False
    show ?thesis
    proof (cases "mg_loaded m")
      case Nil
      then show ?thesis using 1(2,3) False by (auto simp: evict.simps [of E m])
    next
      case (Cons kr rest)
      obtain key r where kr: "kr = (key, r)" by (cases kr)
      have r: "r < length (mg_slots m)" "sl_cache_key (mg_slots m ! r) = key" "map_of (mg_loaded m) key = Some r"
        using table_okD [OF 1(2), of key r] by (simp_all add: Cons kr)
      have ev: "evict E (unload E key r m) = (res, m')"
        using 1(3) False by (simp add: evict.simps [of E m] Cons kr)
      have IH: "table_ok (en_config E) m' \<and> length (mg_slots m') = length (mg_slots (unload E key r m)) \<and>
        (\<forall>u. res = Inr u \<longrightarrow> int (length (mg_loaded m')) < mc_max_loaded (en_config E)) \<and>
        (\<forall>q < length (mg_slots (unload E key r m)). \<not> sl_closed (mg_slots (unload E key r m) ! q) \<longrightarrow>
          map_of (mg_loaded (unload E key r m)) (sl_cache_key (mg_slots (unload E key r m) ! q)) \<noteq> Some q \<longrightarrow>
          mg_slots m' ! q = mg_slots (unload E key r m) ! q)"
        using table_ok_unload [OF 1(2) r(1,2)] False Cons kr ev by (intro 1(1)) auto
      have frame: "mg_slots m' ! q = mg_slots m ! q"
        if q: "q < length (mg_slots m)" "\<not> sl_closed (mg_slots m ! q)"
          "map_of (mg_loaded m) (sl_cache_key (mg_slots m ! q)) \<noteq> Some q" for q
      proof -
        have "q \<noteq> r" using q(3) r by auto
        then show ?thesis using IH q by (auto simp: map_of_delete)
      qed
      show ?thesis using IH frame by simp
    qed
  qed
qed

lemma load_Inl: "load E R LR entry n_ctx key mode loras m = (Inl e, m') \<Longrightarrow>
    mg_loaded m' = mg_loaded m \<and> mg_slots m' = mg_slots m"
  by (auto simp: load_def Let_def split: sum.splits prod.splits)

lemma load_Inr:
  assumes "load E R LR entry n_ctx key mode loras m = (Inr r, m')"
  shows "r = length (mg_slots m) \<and> length (mg_slots m') = Suc r \<and> mg_loaded m' = mg_loaded m \<and>
    (\<forall>q < r. mg_slots m' ! q = mg_slots m ! q) \<and>
    (\<exists>b. slot_core (mg_slots m' ! r) = (entry, b, n_ctx, key, False, False))"
  using assms
  by (auto simp: load_def Let_def reset_idle_def upd_slot_def slot_core_def nth_append list_update_append
      split: sum.splits prod.splits)

lemma ctx_fits_timer [simp]: "ctx_fits n (s\<lparr>sl_idle_timer := t\<rparr>) = ctx_fits n s"
  by (cases n) (simp_all add: ctx_fits_def)

lemma ensure_locked_table_ok:
  assumes "table_ok (en_config E) m" and "ensure_locked E R LR entry n_ctx key mode loras m = (res, m')"
  shows "table_ok (en_config E) m' \<and> (\<forall>r. res = Inr r \<longrightarrow> map_of (mg_loaded m') key = Some r \<and>
    (0 \<le> mc_n_ctx_default (en_config E) \<longrightarrow> ctx_fits n_ctx (mg_slots m' ! r)))"
proof (cases "loaded_fitting key n_ctx m")
  case (Some r)
  then have r: "map_of (mg_loaded m) key = Some r" "ctx_fits n_ctx (mg_slots m ! r)"
    by (auto simp: loaded_fitting_def split: option.splits if_splits)
  have res: "res = Inr r" "m' = reset_idle E r m" using assms(2) by (simp_all add: ensure_locked_def Some)
  have "table_ok (en_config E) m'"
    by (rule table_ok_frame [OF assms(1)]) (simp_all add: res reset_idle_def slot_core_def)
  then show ?thesis using r table_okD [OF assms(1) r(1)] by (simp add: res reset_idle_def ctx_fits_timer)
next
  case None
  obtain ev m1 where ev: "evict E m = (ev, m1)" by (cases "evict E m")
  note ok1 = table_ok_evict [OF assms(1) ev]
  show ?thesis
  proof (cases ev)
    case (Inl e)
    then show ?thesis using assms(2) ok1 by (auto simp: ensure_locked_def None ev)
  next
    case (Inr u)
    let ?n = "opt_int_or n_ctx (mc_n_ctx_default (en_config E))"
    obtain ld m2 where ld: "load E R LR entry ?n key mode loras m1 = (ld, m2)"
      by (cases "load E R LR entry ?n key mode loras m1")
    show ?thesis
    proof (cases ld)
      case (Inl e)
      have "table_ok (en_config E) m2"
        using load_Inl [OF ld [unfolded Inl]] by (intro table_ok_frame [OF conjunct1 [OF ok1]]) simp_all
      then show ?thesis using assms(2) by (auto simp: ensure_locked_def None ev Inr ld Inl)
    next
      case (Inr r)
      note l = load_Inr [OF ld [unfolded Inr]]
      then obtain b where b: "slot_core (mg_slots m2 ! r) = (entry, b, ?n, key, False, False)" by blast
      have m': "res = Inr r" "m' = m2\<lparr>mg_loaded := AList.update key r (mg_loaded m2)\<rparr>"
        using assms(2) by (simp_all add: ensure_locked_def None ev \<open>ev = Inr u\<close> ld Inr)
      have len: "int (length (AList.update key r (mg_loaded m1))) \<le> max 0 (mc_max_loaded (en_config E))"
        using ok1 \<open>ev = Inr u\<close> length_update_le [of key r "mg_loaded m1"] by auto
      have each: "q < length (mg_slots m2) \<and> sl_cache_key (mg_slots m2 ! q) = k \<and>
          \<not> sl_unloading (mg_slots m2 ! q) \<and> \<not> sl_closed (mg_slots m2 ! q)"
        if "map_of (AList.update key r (mg_loaded m1)) k = Some q" for k q
      proof (cases "k = key")
        case True
        then show ?thesis using that b l by (auto simp: map_of_update slot_core_def)
      next
        case False
        then have "map_of (mg_loaded m1) k = Some q" using that by (simp add: map_of_update)
        from table_okD [OF conjunct1 [OF ok1] this] l show ?thesis by auto
      qed
      have "table_ok (en_config E) m'"
        using ok1 len each l by (auto simp: table_ok_def m' intro!: dict_ok_update)
      moreover have "ctx_fits n_ctx (mg_slots m2 ! r)" if "0 \<le> mc_n_ctx_default (en_config E)"
        using b that by (auto simp: ctx_fits_def slot_core_def opt_int_or_def int_or_def split: option.splits)
      ultimately show ?thesis by (simp add: m' map_of_update)
    qed
  qed
qed

lemma length_move_to_end: "dict_ok d \<Longrightarrow> map_of d key = Some r \<Longrightarrow> length (move_to_end key r d) = length d"
proof -
  assume d: "dict_ok d" "map_of d key = Some r"
  then have "key \<in> fst ` set d" by (force dest: map_of_SomeD)
  moreover from this have "d \<noteq> []" by auto
  ultimately show ?thesis using length_delete [OF d(1), of key] by (cases d) (auto simp: move_to_end_def)
qed

lemma map_of_move_to_end:
  "map_of d key = Some r \<Longrightarrow> map_of (move_to_end key r d) k = map_of d k"
  by (auto simp: move_to_end_def map_add_def map_of_delete split: option.splits)

lemma dict_ok_move_to_end: "dict_ok d \<Longrightarrow> dict_ok (move_to_end key r d)"
  using dict_ok_delete [of d key] by (auto simp: move_to_end_def dict_ok_def dest: subsetD [OF dom_delete_subset] simp: AList.delete_notin_dom)

lemma ensure_loaded_table_ok:
  assumes "table_ok (en_config E) m" and "ensure_loaded E model_id n_ctx mode loras tenant m = (res, m')"
  shows "table_ok (en_config E) m' \<and> (\<forall>r. res = Inr r \<longrightarrow>
    map_of (mg_loaded m') (cache_key tenant model_id mode (lora_fingerprint loras)) = Some r \<and>
    (0 \<le> mc_n_ctx_default (en_config E) \<longrightarrow> ctx_fits n_ctx (mg_slots m' ! r)))"
proof (cases "for_tenant model_kind (en_json E) (en_now E) tenant (mg_models m, mg_fs m)")
  case (Inl e)
  then show ?thesis using assms by (auto simp: ensure_loaded_def)
next
  case (Inr a)
  obtain R models fs where a: "a = (R, models, fs)" by (cases a)
  define m1 where "m1 = m\<lparr>mg_models := models, mg_fs := fs\<rparr>"
  have ok1: "table_ok (en_config E) m1" using assms(1) by (simp add: m1_def table_ok_def)
  let ?key = "cache_key tenant model_id mode (lora_fingerprint loras)"
  note ens = assms(2) [unfolded ensure_loaded_def Inr a sum.case prod.case Let_def, folded m1_def]
  show ?thesis
  proof (cases "registry_get R model_id")
    case None
    then show ?thesis using ens ok1 by auto
  next
    case (Some entry)
    show ?thesis
    proof (cases "loaded_fitting ?key n_ctx m1")
      case (Some r)
      then have r: "map_of (mg_loaded m1) ?key = Some r" "ctx_fits n_ctx (mg_slots m1 ! r)"
        by (auto simp: loaded_fitting_def split: option.splits if_splits)
      define d where "d = move_to_end ?key r (mg_loaded m1)"
      have d: "dict_ok d" "length d = length (mg_loaded m1)" "\<And>k. map_of d k = map_of (mg_loaded m1) k"
        using ok1 r(1) by (simp_all add: d_def table_ok_def dict_ok_move_to_end length_move_to_end map_of_move_to_end)
      have res: "res = Inr r" "m' = reset_idle E r (m1\<lparr>mg_loaded := d\<rparr>)"
        using ens by (simp_all add: \<open>registry_get R model_id = Some entry\<close> Some d_def)
      have ok2: "table_ok (en_config E) (m1\<lparr>mg_loaded := d\<rparr>)"
        using ok1 d by (simp add: table_ok_def)
      have "table_ok (en_config E) m'"
        by (rule table_ok_frame [OF ok2]) (simp_all add: res reset_idle_def slot_core_def)
      then show ?thesis using r table_okD [OF ok1 r(1)] by (simp add: res reset_idle_def ctx_fits_timer d(3))
    next
      case None
      show ?thesis
      proof (cases "for_tenant lora_kind (en_json E) (en_now E) tenant (mg_loras m1, mg_fs m1)")
        case (Inl e)
        then show ?thesis using ens ok1 by (auto simp: Some None)
      next
        case (Inr b)
        obtain LR lrs fs' where b: "b = (LR, lrs, fs')" by (cases b)
        define m2 where "m2 = m1\<lparr>mg_loras := lrs, mg_fs := fs'\<rparr>"
        have ok2: "table_ok (en_config E) m2" using ok1 by (simp add: m2_def table_ok_def)
        show ?thesis
        proof (cases "find (\<lambda>(lid, scale). registry_get LR lid = None) loras")
          case None
          have "ensure_locked E R LR entry n_ctx ?key mode loras m2 = (res, m')"
            using ens by (simp add: Some \<open>loaded_fitting ?key n_ctx m1 = None\<close> Inr b None m2_def)
          from ensure_locked_table_ok [OF ok2 this] show ?thesis .
        next
          case (Some l)
          then show ?thesis using ens ok2
            by (auto simp: \<open>registry_get R model_id = Some entry\<close> \<open>loaded_fitting ?key n_ctx m1 = None\<close> Inr b m2_def
                split: prod.splits)
        qed
      qed
    qed
  qed
qed

section \<open>Runs of the manager\<close>

definition manager_new :: "model_entry multi_registry \<Rightarrow> lora_entry multi_registry \<Rightarrow> fs \<Rightarrow> 'c manager" where
  "manager_new models loras fs = \<lparr>mg_slots = [], mg_loaded = [], mg_closing = False, mg_models = models,
     mg_loras = loras, mg_fs = fs, mg_done = []\<rparr>"

text \<open>
  One step: a request up to its \<open>await fut\<close>, a turn of a worker, an administrator's unload, an idle
  timer, the shutdown. Steps do not interleave inside an unload; a job that comes between its two
  halves is the subject of \<open>late_job_never_answered\<close> below, all that can come between of theory \<open>Interleaving\<close>.
\<close>

inductive manager_step :: "manager_config \<Rightarrow> 'c manager \<Rightarrow> 'c manager \<Rightarrow> bool" for C where
  step_ensure: "en_config E = C \<Longrightarrow> ensure_loaded E model_id n_ctx mode loras tenant m = (res, m') \<Longrightarrow> manager_step C m m'"
| step_submit: "en_config E = C \<Longrightarrow> r < length (mg_slots m) \<Longrightarrow> submit E fut r kind payload stream m = (res, m') \<Longrightarrow>
    manager_step C m m'"
| step_worker: "en_config E = C \<Longrightarrow> r < length (mg_slots m) \<Longrightarrow> manager_step C m (worker_step E r m)"
| step_force_unload: "en_config E = C \<Longrightarrow> force_unload E model_id tenant m = (res, m') \<Longrightarrow> manager_step C m m'"
| step_idle: "en_config E = C \<Longrightarrow> r < length (mg_slots m) \<Longrightarrow> sl_idle_timer (mg_slots m ! r) \<noteq> None \<Longrightarrow>
    manager_step C m (idle_offload E r m)"
| step_shutdown: "en_config E = C \<Longrightarrow> manager_step C m (shutdown E m)"

inductive_cases manager_stepE: "manager_step C m m'"

inductive manager_reachable :: "manager_config \<Rightarrow> 'c manager \<Rightarrow> bool" for C where
  reach_new: "manager_reachable C (manager_new models loras fs)"
| reach_step: "manager_reachable C m \<Longrightarrow> manager_step C m m' \<Longrightarrow> manager_reachable C m'"

definition names_slots :: "'c manager \<Rightarrow> (string \<times> nat) list \<Rightarrow> bool" where
  "names_slots m kvs \<longleftrightarrow> (\<forall>(k, r) \<in> set kvs. r < length (mg_slots m) \<and> sl_cache_key (mg_slots m ! r) = k)"

lemma names_slots_unload:
  assumes "names_slots m kvs" and "r < length (mg_slots m)"
  shows "names_slots (unload E key r m) kvs"
proof -
  have "sl_cache_key (mg_slots (unload E key r m) ! q) = sl_cache_key (mg_slots m ! q)" if "q < length (mg_slots m)" for q
    using that unload_slot [OF assms(2), of E key] by (cases "q = r") (simp_all add: slot_core_def Let_def)
  then show ?thesis using assms(1) by (auto simp: names_slots_def)
qed

lemma table_ok_unload_all:
  "table_ok C m \<Longrightarrow> names_slots m kvs \<Longrightarrow> table_ok C (unload_all E kvs m)"
proof (induction kvs arbitrary: m)
  case (Cons kv kvs)
  obtain k r where kv: "kv = (k, r)" by (cases kv)
  have r: "r < length (mg_slots m)" "sl_cache_key (mg_slots m ! r) = k" and rest: "names_slots m kvs"
    using Cons.prems(2) by (auto simp: names_slots_def kv)
  show ?case using Cons.IH [OF table_ok_unload [OF Cons.prems(1) r] names_slots_unload [OF rest r(1)]]
    by (simp add: kv)
qed simp

lemma names_table: "table_ok C m \<Longrightarrow> set kvs \<subseteq> set (mg_loaded m) \<Longrightarrow> names_slots m kvs"
proof -
  assume ok: "table_ok C m" and sub: "set kvs \<subseteq> set (mg_loaded m)"
  show "names_slots m kvs" unfolding names_slots_def
  proof (rule ballI, clarify)
    fix k r assume "(k, r) \<in> set kvs"
    then have "map_of (mg_loaded m) k = Some r" using sub ok dict_values_in by (fastforce simp: table_ok_def)
    from table_okD [OF ok this] show "r < length (mg_slots m) \<and> sl_cache_key (mg_slots m ! r) = k" by simp
  qed
qed

lemma manager_step_table_ok: "manager_step C m m' \<Longrightarrow> table_ok C m \<Longrightarrow> table_ok C m'"
proof (induction rule: manager_step.induct)
  case (step_ensure E model_id n_ctx mode loras tenant m res m')
  then show ?case using ensure_loaded_table_ok [OF _ step_ensure(2)] by simp
next
  case (step_submit E r m fut kind payload stream res m')
  then show ?case by (intro table_ok_frame [OF step_submit(4)]) (auto simp: submit_def slot_core_def split: if_splits)
next
  case (step_worker E r m)
  then show ?case by (intro table_ok_frame [OF step_worker(3)]) simp_all
next
  case (step_force_unload E model_id tenant m res m')
  then show ?case
    by (auto simp: force_unload_def Let_def split: if_splits intro!: table_ok_unload_all intro: names_table)
next
  case (step_idle E r m)
  then show ?case by (auto simp: idle_offload_def Let_def intro!: table_ok_unload)
next
  case (step_shutdown E m)
  have "table_ok C (m\<lparr>mg_closing := True\<rparr>)" using step_shutdown(2) by (simp add: table_ok_def)
  moreover from this have "names_slots (m\<lparr>mg_closing := True\<rparr>) (mg_loaded m)" by (rule names_table) simp
  ultimately show ?case unfolding shutdown_def by (rule table_ok_unload_all)
qed

lemma manager_reachable_table_ok: "manager_reachable C m \<Longrightarrow> table_ok C m"
proof (induction rule: manager_reachable.induct)
  case (reach_new models loras fs)
  show ?case by (simp add: manager_new_def table_ok_def)
next
  case (reach_step m m')
  then show ?case by (simp add: manager_step_table_ok)
qed

section \<open>What a load leaves on disk\<close>

lemma decrypt_enter_files:
  assumes "\<And>k. 0 < w k" and "decrypt_enter A w uuid src tmpfs key fs = (res, fs')"
  shows "\<exists>pt ct. case res of
      Inl e \<Rightarrow> file_at fs' = file_at fs
    | Inr name \<Rightarrow> file_at fs name = None \<and> file_at fs' = (file_at fs)(name \<mapsto> (384, pt)) \<and>
        read_bytes fs src = Inr ct \<and> age_decrypt A ct (ark_identity key) = Some pt"
proof (cases "mkdir_p tmpfs fs")
  case (Inl e)
  then show ?thesis using assms(2) by (auto simp: decrypt_enter_def)
next
  case (Inr fs1)
  have f1: "file_at fs1 = file_at fs" using Inr by (simp add: mkdir_p_def file_at_mkdirs)
  have rd: "read_bytes fs1 p = Inr d \<longleftrightarrow> read_bytes fs p = Inr d" for p d by (simp add: file_at_read f1)
  have wr: "write_all w d = (d, Inr ())" for d using assms(1) by (simp add: write_all_def write_all_from_total)
  have "file_at (AList.update name (File 384 d) fs1) = (file_at fs)(name \<mapsto> (384, d))" for name d
    by (auto simp: file_at_def map_of_update f1 [symmetric] fun_eq_iff)
  moreover have "file_at fs name = None" if "\<not> exists_path fs1 name" for name
    using that by (auto simp: exists_path_def f1 [symmetric] file_at_def)
  ultimately show ?thesis using assms(2) f1
    by (auto simp: decrypt_enter_def Inr wr Let_def rd split: sum.splits option.splits if_splits)
qed

text \<open>The files of \<open>fs\<close> are those of \<open>base\<close> and the opened ones.\<close>

definition opened_ok :: "fs \<Rightarrow> path list \<Rightarrow> fs \<Rightarrow> bool" where
  "opened_ok base opened fs \<longleftrightarrow> distinct opened \<and>
     (\<forall>p \<in> set opened. file_at base p = None \<and> file_at fs p \<noteq> None) \<and>
     (\<forall>p. p \<notin> set opened \<longrightarrow> file_at fs p = file_at base p)"

lemma opened_ok_exit_all: "opened_ok base opened fs \<Longrightarrow> file_at (exit_all opened fs) = file_at base"
proof (induction opened arbitrary: fs)
  case Nil
  then show ?case by (auto simp: opened_ok_def)
next
  case (Cons p ps)
  from Cons.prems obtain m d where p: "map_of fs p = Some (File m d)"
    by (auto simp: opened_ok_def file_at_def split: option.splits node.splits)
  have "file_at (AList.delete p fs) = (file_at fs)(p := None)"
    by (auto simp: file_at_def map_of_delete fun_eq_iff)
  with Cons.prems have "opened_ok base ps (AList.delete p fs)" by (auto simp: opened_ok_def)
  from Cons.IH [OF this] show ?case by (simp add: decrypt_exit_def unlink_path_def p)
qed

lemma enter_loras_files:
  assumes "\<And>k. 0 < w k" and "opened_ok base opened fs"
    and "enter_loras A w uuid i key tmpfs reg loras fs opened = (res, opened', fs')"
  shows "opened_ok base opened' fs' \<and> (\<forall>p. file_at fs p \<noteq> None \<longrightarrow> file_at fs' p = file_at fs p) \<and>
    (\<forall>ps lid scale rest. res = Inr ps \<longrightarrow> loras = (lid, scale) # rest \<longrightarrow>
      (\<exists>p tl le ct pt. ps = (p, scale) # tl \<and> registry_get reg lid = Some le \<and>
         read_bytes fs (ciphertext_path lora_kind (rg_dir reg) le) = Inr ct \<and>
         age_decrypt A ct (ark_identity key) = Some pt \<and> file_at fs' p = Some (384, pt)))"
  using assms(2,3)
proof (induction loras arbitrary: i fs opened res opened' fs')
  case Nil
  then show ?case by simp
next
  case (Cons l loras)
  obtain lid scale where l: "l = (lid, scale)" by (cases l)
  show ?case
  proof (cases "registry_get reg lid")
    case None
    then show ?thesis using Cons.prems by (auto simp: l)
  next
    case (Some le)
    let ?src = "ciphertext_path lora_kind (rg_dir reg) le"
    obtain r1 fs1 where en: "decrypt_enter A w (uuid i) ?src tmpfs key fs = (r1, fs1)"
      by (cases "decrypt_enter A w (uuid i) ?src tmpfs key fs")
    note f1 = decrypt_enter_files [OF assms(1) en]
    show ?thesis
    proof (cases r1)
      case (Inl e)
      then show ?thesis using Cons.prems f1 by (auto simp: l Some en opened_ok_def)
    next
      case (Inr p)
      then obtain pt ct where p: "file_at fs p = None" "file_at fs1 = (file_at fs)(p \<mapsto> (384, pt))"
        "read_bytes fs ?src = Inr ct" "age_decrypt A ct (ark_identity key) = Some pt" using f1 by auto
      have op: "opened_ok base (p # opened) fs1" using Cons.prems(1) p(1,2) by (auto simp: opened_ok_def)
      obtain r2 o2 fs2 where rest: "enter_loras A w uuid (Suc i) key tmpfs reg loras fs1 (p # opened) = (r2, o2, fs2)"
        by (cases "enter_loras A w uuid (Suc i) key tmpfs reg loras fs1 (p # opened)")
      have IH: "opened_ok base o2 fs2" "\<And>q. file_at fs1 q \<noteq> None \<Longrightarrow> file_at fs2 q = file_at fs1 q"
        using Cons.IH [OF op rest] by auto
      have keep: "file_at fs2 q = file_at fs q" if "file_at fs q \<noteq> None" for q
        using IH(2) [of q] that p(1,2) by (cases "q = p") auto
      have head: "file_at fs2 p = Some (384, pt)" using IH(2) [of p] p(2) by simp
      have out: "opened' = o2" "fs' = fs2" "\<And>ps. res = Inr ps \<Longrightarrow> \<exists>tl. ps = (p, scale) # tl"
        using Cons.prems(2) by (auto simp: l Some en Inr rest split: sum.splits)
      show ?thesis using IH(1) keep head out p(3,4) by (auto simp: l Some)
    qed
  qed
qed

lemma load_files:
  assumes "\<And>k. 0 < en_written E k" and "load E R LR entry n_ctx key mode loras m = (res, m')"
  shows "file_at (mg_fs m') = file_at (mg_fs m)"
    and "res = Inr r \<Longrightarrow> \<exists>ct. read_bytes (mg_fs m) (ciphertext_path model_kind (rg_dir R) entry) = Inr ct \<and>
      age_decrypt (en_age E) ct (ark_identity (mc_at_rest (en_config E))) = Some (be_model (sl_backend (mg_slots m' ! r)))"
proof -
  let ?enter = "decrypt_enter (en_age E) (en_written E) (en_uuid E 0) (ciphertext_path model_kind (rg_dir R) entry)
    (mc_tmpfs_dir (en_config E)) (mc_at_rest (en_config E)) (mg_fs m)"
  obtain r1 fs1 where en: "?enter = (r1, fs1)" by (cases ?enter)
  note f1 = decrypt_enter_files [OF assms(1) en]
  have "file_at (mg_fs m') = file_at (mg_fs m) \<and> (\<forall>r. res = Inr r \<longrightarrow>
    (\<exists>ct. read_bytes (mg_fs m) (ciphertext_path model_kind (rg_dir R) entry) = Inr ct \<and>
      age_decrypt (en_age E) ct (ark_identity (mc_at_rest (en_config E))) = Some (be_model (sl_backend (mg_slots m' ! r)))))"
  proof (cases r1)
    case (Inl e)
    then show ?thesis using assms(2) f1 by (auto simp: load_def Let_def en)
  next
    case (Inr p)
    then obtain pt ct where p: "file_at (mg_fs m) p = None" "file_at fs1 = (file_at (mg_fs m))(p \<mapsto> (384, pt))"
      "read_bytes (mg_fs m) (ciphertext_path model_kind (rg_dir R) entry) = Inr ct"
      "age_decrypt (en_age E) ct (ark_identity (mc_at_rest (en_config E))) = Some pt" using f1 by auto
    have op: "opened_ok (mg_fs m) [p] fs1" using p(1,2) by (auto simp: opened_ok_def)
    let ?loras = "enter_loras (en_age E) (en_written E) (en_uuid E) 1 (mc_at_rest (en_config E))
      (mc_tmpfs_dir (en_config E)) LR loras fs1 [p]"
    obtain r2 o2 fs2 where el: "?loras = (r2, o2, fs2)" by (cases ?loras)
    note f2 = enter_loras_files [OF assms(1) op el]
    note ex = opened_ok_exit_all [OF conjunct1 [OF f2]]
    have "file_at fs2 p = Some (384, pt)" using f2 p(2) by auto
    then have plain: "read_bytes fs2 p = Inr d \<Longrightarrow> d = pt" for d by (simp add: file_at_read)
    have model: "be_model b = pt" if "make_backend ll fs2 p n e lp = Inr b" for ll n e lp b
      using that plain by (auto simp: make_backend_def and_then_Inr_iff Let_def split: option.splits)
    show ?thesis using assms(2) ex p(3,4)
      by (auto simp: load_def Let_def en Inr el [unfolded One_nat_def] reset_idle_def upd_slot_def nth_append list_update_append
          split: sum.splits dest: model)
  qed
  then show "file_at (mg_fs m') = file_at (mg_fs m)"
    and "res = Inr r \<Longrightarrow> \<exists>ct. read_bytes (mg_fs m) (ciphertext_path model_kind (rg_dir R) entry) = Inr ct \<and>
      age_decrypt (en_age E) ct (ark_identity (mc_at_rest (en_config E))) = Some (be_model (sl_backend (mg_slots m' ! r)))"
    by auto
qed

section \<open>Properties\<close>

text \<open>Whatever requests, timers and administrators do, the table never holds more slots than
  \<open>max_loaded\<close>, and every slot in it is filed under its own key and still open.\<close>

theorem manager_table_bounded:
  assumes "manager_reachable C m"
  shows "dict_ok (mg_loaded m) \<and> int (length (mg_loaded m)) \<le> max 0 (mc_max_loaded C) \<and>
    (\<forall>key r. map_of (mg_loaded m) key = Some r \<longrightarrow> r < length (mg_slots m) \<and>
       sl_cache_key (mg_slots m ! r) = key \<and> \<not> sl_unloading (mg_slots m ! r) \<and> \<not> sl_closed (mg_slots m ! r))"
  using manager_reachable_table_ok [OF assms] by (simp add: table_ok_def)

definition demo_config :: manager_config where
  "demo_config = \<lparr>mc_max_loaded = 1, mc_idle_timeout = 60, mc_n_ctx_default = 4096, mc_queue_depth = 2,
     mc_tmpfs_dir = [''t''], mc_at_rest = \<lparr>ark_identity = [1], ark_recipient = [1]\<rparr>\<rparr>"

definition demo_env :: "nat env" where
  "demo_env = \<lparr>en_config = demo_config, en_age = demo_age, en_written = (\<lambda>k. 100), en_uuid = (\<lambda>i. ''u''),
     en_json = unary_json, en_now = 0, en_llama = (\<lambda>b. None), en_str = (\<lambda>e. ''e''),
     en_infer = (\<lambda>b j. Returns (jb_id j)), en_cancelled = (\<lambda>j. None)\<rparr>"

definition demo_slot :: slot where
  "demo_slot = \<lparr>sl_entry = demo_model, sl_backend = \<lparr>be_model = [7], be_lora = None, be_n_ctx = 4096, be_embedding = False\<rparr>,
     sl_n_ctx = 4096, sl_last_used = 0, sl_cache_key = ''default:m:chat:'', sl_unloading = False, sl_queue = [],
     sl_worker = True, sl_idle_timer = Some 60, sl_last_error = None, sl_closed = False\<rparr>"

definition demo_manager :: "nat manager" where
  "demo_manager = manager_new
     \<lparr>mt_base = [''models''], mt_cache = [(DEFAULT_TENANT, \<lparr>rg_dir = [''models''], rg_by_id = [(''m'', demo_model)]\<rparr>)]\<rparr>
     \<lparr>mt_base = [''loras''], mt_cache = [(DEFAULT_TENANT, \<lparr>rg_dir = [''loras''], rg_by_id = []\<rparr>)]\<rparr>
     [([''t''], Dir), ([''models''], Dir), ([''models'', ''ab.gguf.age''], File 420 [7, 1])]"

lemma demo_load:
  "load demo_env \<lparr>rg_dir = [''models''], rg_by_id = [(''m'', demo_model)]\<rparr> LR demo_model 4096 ''default:m:chat:'' ''chat'' []
     demo_manager = (Inr 0, demo_manager\<lparr>mg_slots := [demo_slot]\<rparr>)"
proof -
  have wr: "write_all (\<lambda>k. 100) [7] = ([7], Inr ())" by (simp add: write_all_def write_all_from_total)
  show ?thesis
    by (simp add: load_def demo_env_def demo_config_def demo_manager_def manager_new_def decrypt_enter_def
        mkdir_p_def prefixes_of_def is_dir_def exists_path_def read_bytes_def ciphertext_path_def model_kind_def
        path_join_def path_parts_def demo_model_def demo_age_def wr make_backend_def decrypt_exit_def unlink_path_def
        reset_idle_def upd_slot_def demo_slot_def Let_def)
qed

lemma demo_ensure:
  "ensure_loaded demo_env ''m'' None ''chat'' [] DEFAULT_TENANT demo_manager =
     (Inr 0, demo_manager\<lparr>mg_slots := [demo_slot], mg_loaded := [(''default:m:chat:'', 0)]\<rparr>)"
proof -
  let ?d = "demo_manager :: nat manager"
  have key: "cache_key DEFAULT_TENANT ''m'' ''chat'' (lora_fingerprint []) = ''default:m:chat:''"
    by (simp add: cache_key_def lora_fingerprint_def DEFAULT_TENANT_def)
  have ft: "for_tenant model_kind J n DEFAULT_TENANT (mg_models ?d, mg_fs ?d) =
      Inr (\<lparr>rg_dir = [''models''], rg_by_id = [(''m'', demo_model)]\<rparr>, mg_models ?d, mg_fs ?d)"
    "for_tenant lora_kind J n DEFAULT_TENANT (mg_loras ?d, mg_fs ?d) =
      Inr (\<lparr>rg_dir = [''loras''], rg_by_id = []\<rparr>, mg_loras ?d, mg_fs ?d)" for J n
    by (simp_all add: for_tenant_def demo_manager_def manager_new_def)
  have same: "?d\<lparr>mg_models := mg_models ?d, mg_fs := mg_fs ?d\<rparr> = ?d" "?d\<lparr>mg_loras := mg_loras ?d, mg_fs := mg_fs ?d\<rparr> = ?d"
    by simp_all
  have lf: "loaded_fitting k n ?d = None" for k n by (simp add: loaded_fitting_def demo_manager_def manager_new_def)
  have tab: "mg_loaded ?d = []" by (simp add: demo_manager_def manager_new_def)
  have "mc_max_loaded (en_config demo_env) = 1" by (simp add: demo_env_def demo_config_def)
  then have ev: "evict demo_env ?d = (Inr (), ?d)" by (subst evict.simps) (simp add: tab)
  have n: "opt_int_or None (mc_n_ctx_default (en_config demo_env)) = 4096"
    by (simp add: opt_int_or_def demo_env_def demo_config_def)
  show ?thesis
    unfolding ensure_loaded_def ft sum.case prod.case Let_def same key lf option.case registry_get_def
    by (simp add: ensure_locked_def lf ev n demo_load tab)
qed

lemma demo_reachable:
  "manager_reachable demo_config (demo_manager\<lparr>mg_slots := [demo_slot], mg_loaded := [(''default:m:chat:'', 0)]\<rparr>)"
proof (rule reach_step)
  show "manager_reachable demo_config demo_manager" unfolding demo_manager_def by (rule reach_new)
  show "manager_step demo_config demo_manager
      (demo_manager\<lparr>mg_slots := [demo_slot], mg_loaded := [(''default:m:chat:'', 0)]\<rparr>)"
    by (rule step_ensure [OF _ demo_ensure]) (simp add: demo_env_def)
qed

theorem manager_table_bounded_witness:
  "int (length (mg_loaded (demo_manager\<lparr>mg_slots := [demo_slot], mg_loaded := [(''default:m:chat:'', 0)]\<rparr>))) \<le>
     max 0 (mc_max_loaded demo_config)"
  using manager_table_bounded [OF demo_reachable] by blast





text \<open>Unloading loses no work: every job that was queued before is answered, in order, before the backend
  is closed and the slot leaves the table.\<close>

theorem unload_answers_queue:
  assumes "r < length (mg_slots m)" and "sl_worker (mg_slots m ! r)"
    and "sl_queue (mg_slots m ! r) = map Job js"
  shows "map fst (mg_done (unload E key r m)) = map fst (mg_done m) @ map jb_id js \<and>
    sl_queue (mg_slots (unload E key r m) ! r) = [] \<and> sl_closed (mg_slots (unload E key r m) ! r) \<and>
    map_of (mg_loaded (unload E key r m)) key = None"
proof -
  define m1 where "m1 = unload_begin r m"
  have m1: "r < length (mg_slots m1)" "sl_worker (mg_slots m1 ! r)"
    "sl_queue (mg_slots m1 ! r) = map Job js @ StopSentinel # []" "mg_done m1 = mg_done m"
    using assms by (simp_all add: m1_def unload_begin_def)
  define m2 where "m2 = worker_run E r (length (sl_queue (mg_slots m1 ! r))) m1"
  have run: "map fst (mg_done m2) = map fst (mg_done m1) @ map jb_id js \<and> sl_queue (mg_slots m2 ! r) = []"
    unfolding m2_def using worker_run_jobs [OF m1(1-3), of "length (sl_queue (mg_slots m1 ! r))"]
    by (simp only: m1(3)) simp
  have un: "unload E key r m = unload_end key r m2" by (simp add: unload_def Let_def m1_def m2_def)
  have "r < length (mg_slots m2)" using m1(1) by (simp add: m2_def)
  then show ?thesis using run m1(4) by (simp add: un unload_end_def Let_def map_of_delete)
qed

theorem unload_answers_queue_witness:
  "map fst (mg_done (unload demo_env ''default:m:chat:'' 0 (demo_manager\<lparr>mg_slots := [demo_slot\<lparr>sl_queue :=
     [Job \<lparr>jb_id = 5, jb_kind = ''chat'', jb_payload = JNull, jb_stream = False\<rparr>]\<rparr>]\<rparr>))) = [5]"
proof -
  let ?j = "\<lparr>jb_id = 5, jb_kind = ''chat'', jb_payload = JNull, jb_stream = False\<rparr>"
  let ?m = "demo_manager\<lparr>mg_slots := [demo_slot\<lparr>sl_queue := [Job ?j]\<rparr>]\<rparr>"
  have "0 < length (mg_slots ?m)" "sl_worker (mg_slots ?m ! 0)" "sl_queue (mg_slots ?m ! 0) = map Job [?j]" "mg_done ?m = []"
    by (simp_all add: demo_slot_def demo_manager_def manager_new_def)
  from unload_answers_queue [OF this(1-3), of demo_env] this(4) show ?thesis by simp
qed

text \<open>A request that comes between the two halves of an unload still finds the slot, whose state nobody looks
  at, and its job is queued behind the sentinel: no number of turns of the worker ever answers it.\<close>

theorem late_job_never_answered:
  assumes "r < length (mg_slots m)" and "sl_worker (mg_slots m ! r)"
    and "sl_queue (mg_slots m ! r) = map Job js" and "map_of (mg_loaded m) key = Some r"
    and "ctx_fits n_ctx (mg_slots m ! r)" and "\<not> queue_full (en_config E) (mg_slots (unload_begin r m) ! r)"
    and "fut \<notin> set (map jb_id js) \<union> set (map fst (mg_done m))"
  shows "loaded_fitting key n_ctx (unload_begin r m) = Some r \<and>
    (\<exists>m'. submit E fut r kind payload stream (unload_begin r m) = (Inr fut, m') \<and>
      (\<forall>n. fut \<notin> set (map fst (mg_done (worker_run E r n m')))))"
proof
  have "ctx_fits n_ctx (mg_slots (unload_begin r m) ! r)"
    using assms(1,5) by (cases n_ctx) (simp_all add: unload_begin_def ctx_fits_def)
  then show "loaded_fitting key n_ctx (unload_begin r m) = Some r" using assms(4) by (simp add: loaded_fitting_def)
next
  let ?job = "\<lparr>jb_id = fut, jb_kind = kind, jb_payload = payload, jb_stream = stream\<rparr>"
  define m' where "m' = upd_slot r (\<lambda>s. s\<lparr>sl_queue := sl_queue s @ [Job ?job]\<rparr>) (unload_begin r m)"
  have m': "r < length (mg_slots m')" "sl_worker (mg_slots m' ! r)" "mg_done m' = mg_done m"
    "sl_queue (mg_slots m' ! r) = map Job js @ StopSentinel # [Job ?job]"
    using assms(1-3) by (simp_all add: m'_def unload_begin_def)
  have grows: "\<exists>xs. mg_done (worker_run E r (n + k) m') = mg_done (worker_run E r n m') @ xs" for n k
  proof -
    have step: "\<exists>xs. mg_done (worker_step E r a) = mg_done a @ xs" for a
      by (simp add: worker_step_def Let_def reset_idle_def split: list.splits queue_item.splits response.splits option.splits)
    have run: "\<exists>xs. mg_done (worker_run E r k a) = mg_done a @ xs" for k a
    proof (induction k arbitrary: a)
      case (Suc k)
      then show ?case using Suc.IH [of "worker_step E r a"] step [of a] by fastforce
    qed simp
    have "worker_run E r (n + k) m' = worker_run E r k (worker_run E r n m')"
      by (induction n arbitrary: m') simp_all
    then show ?thesis using run by simp
  qed
  have "fut \<notin> set (map fst (mg_done (worker_run E r n m')))" for n
  proof -
    have "map fst (mg_done (worker_run E r (n + Suc (length js)) m')) = map fst (mg_done m) @ map jb_id js"
      using worker_run_jobs [OF m'(1,2,4), of "n + Suc (length js)" E] m'(3) by simp
    moreover obtain xs where "mg_done (worker_run E r (n + Suc (length js)) m') = mg_done (worker_run E r n m') @ xs"
      using grows by blast
    ultimately have "set (map fst (mg_done (worker_run E r n m'))) \<subseteq> set (map jb_id js) \<union> set (map fst (mg_done m))"
      by (metis Un_commute map_append set_append sup_ge1)
    then show ?thesis using assms(7) by blast
  qed
  moreover have "submit E fut r kind payload stream (unload_begin r m) = (Inr fut, m')"
    using assms(6) by (simp add: submit_def m'_def)
  ultimately show "\<exists>m'. submit E fut r kind payload stream (unload_begin r m) = (Inr fut, m') \<and>
      (\<forall>n. fut \<notin> set (map fst (mg_done (worker_run E r n m'))))" by blast
qed

theorem late_job_never_answered_witness:
  "loaded_fitting ''default:m:chat:'' None
     (unload_begin 0 (demo_manager\<lparr>mg_slots := [demo_slot], mg_loaded := [(''default:m:chat:'', 0)]\<rparr>)) = Some 0"
proof -
  let ?m = "demo_manager\<lparr>mg_slots := [demo_slot], mg_loaded := [(''default:m:chat:'', 0)]\<rparr>"
  have "0 < length (mg_slots ?m)" "sl_worker (mg_slots ?m ! 0)" "sl_queue (mg_slots ?m ! 0) = map Job []"
    "map_of (mg_loaded ?m) ''default:m:chat:'' = Some 0" "ctx_fits None (mg_slots ?m ! 0)"
    "\<not> queue_full (en_config demo_env) (mg_slots (unload_begin 0 ?m) ! 0)"
    "3 \<notin> set (map jb_id []) \<union> set (map fst (mg_done ?m))"
    by (simp_all add: demo_slot_def ctx_fits_def queue_full_def unload_begin_def demo_env_def demo_config_def
        demo_manager_def manager_new_def)
  from late_job_never_answered [OF this] show ?thesis by blast
qed

section \<open>Forced unloading\<close>

lemma unload_all_loaded:
  "mg_loaded (unload_all E kvs m) = filter (\<lambda>(k, r). k \<notin> fst ` set kvs) (mg_loaded m)"
proof (induction kvs arbitrary: m)
  case (Cons kv kvs)
  then show ?case by (cases kv) (auto simp: AList.delete_eq intro!: filter_cong)
qed simp

lemma unload_all_other: "q < length (mg_slots m) \<Longrightarrow> q \<notin> snd ` set kvs \<Longrightarrow>
    mg_slots (unload_all E kvs m) ! q = mg_slots m ! q"
  by (induction E kvs m rule: unload_all.induct) auto

lemma unload_keeps_closed:
  assumes "q < length (mg_slots m)" and "sl_closed (mg_slots m ! q)" and "r < length (mg_slots m)"
  shows "sl_closed (mg_slots (unload E key r m) ! q)"
  using assms unload_slot [OF assms(3), of E key] by (cases "q = r") (auto simp: slot_core_def Let_def)

lemma unload_all_keeps_closed:
  "q < length (mg_slots m) \<Longrightarrow> sl_closed (mg_slots m ! q) \<Longrightarrow> names_slots m kvs \<Longrightarrow>
    sl_closed (mg_slots (unload_all E kvs m) ! q)"
proof (induction E kvs m rule: unload_all.induct)
  case (2 E key r kvs m)
  then have "r < length (mg_slots m)" "names_slots m kvs" by (auto simp: names_slots_def)
  then show ?case using 2 by (auto intro!: unload_keeps_closed names_slots_unload)
qed simp

lemma unload_all_closes: "names_slots m kvs \<Longrightarrow> (k, r) \<in> set kvs \<Longrightarrow> sl_closed (mg_slots (unload_all E kvs m) ! r)"
proof (induction E kvs m rule: unload_all.induct)
  case (2 E key q kvs m)
  then have q: "q < length (mg_slots m)" "names_slots m kvs" by (auto simp: names_slots_def)
  note nm = names_slots_unload [OF q(2,1), of E key]
  show ?case
  proof (cases "(k, r) \<in> set kvs")
    case True
    then show ?thesis using "2.IH" [OF nm] by simp
  next
    case False
    with 2 have "r = q" by auto
    moreover have "sl_closed (mg_slots (unload E key q m) ! q)"
      using unload_slot [OF q(1), of E key] by (auto simp: slot_core_def Let_def)
    ultimately show ?thesis using unload_all_keeps_closed [OF _ _ nm] q(1) by simp
  qed
qed simp

text \<open>Forcing a model out takes exactly the slots whose key starts with the tenant and the model: they leave
  the table closed, and every other slot is left as it was.\<close>

theorem force_unload_exact:
  assumes "manager_reachable C m" and "force_unload E model_id tenant m = (res, m')"
  shows "mg_loaded m' = filter (\<lambda>(k, r). \<not> has_prefix (tenant @ '':'' @ model_id @ '':'') k) (mg_loaded m) \<and>
    (\<forall>k r. map_of (mg_loaded m) k = Some r \<longrightarrow> (if has_prefix (tenant @ '':'' @ model_id @ '':'') k
      then sl_closed (mg_slots m' ! r) else mg_slots m' ! r = mg_slots m ! r))"
proof -
  let ?P = "has_prefix (tenant @ '':'' @ model_id @ '':'')"
  define ts where "ts = filter (\<lambda>(k, r). ?P k) (mg_loaded m)"
  note ok = manager_reachable_table_ok [OF assms(1)]
  have mem: "(k, r) \<in> set (mg_loaded m) \<longleftrightarrow> map_of (mg_loaded m) k = Some r" for k r
    using ok dict_values_in by (fastforce simp: table_ok_def)
  have ts: "(k, r) \<in> set ts \<longleftrightarrow> map_of (mg_loaded m) k = Some r \<and> ?P k" for k r by (auto simp: ts_def mem)
  have m': "m' = unload_all E ts m"
    using assms(2) by (auto simp: force_unload_def Let_def ts_def split: if_splits)
  have "mg_loaded m' = filter (\<lambda>(k, r). \<not> ?P k) (mg_loaded m)"
    unfolding m' unload_all_loaded
  proof (rule filter_cong [OF refl])
    fix x assume x: "x \<in> set (mg_loaded m)"
    obtain k r where kr: "x = (k, r)" by (cases x)
    have "k \<in> fst ` set ts \<longleftrightarrow> ?P k" using x unfolding kr ts_def by force
    then show "(case x of (k, r) \<Rightarrow> k \<notin> fst ` set ts) = (case x of (k, r) \<Rightarrow> \<not> ?P k)" by (simp add: kr)
  qed
  moreover have "names_slots m ts" by (rule names_table [OF ok]) (auto simp: ts_def)
  then have "sl_closed (mg_slots m' ! r)" if "map_of (mg_loaded m) k = Some r" "?P k" for k r
    unfolding m' by (rule unload_all_closes) (use that ts in blast)
  moreover have "mg_slots m' ! r = mg_slots m ! r" if k: "map_of (mg_loaded m) k = Some r" "\<not> ?P k" for k r
  proof -
    have "r \<notin> snd ` set ts"
    proof
      assume "r \<in> snd ` set ts"
      then obtain k' where "map_of (mg_loaded m) k' = Some r" "?P k'" using ts by force
      then show False using table_okD [OF ok] k by metis
    qed
    then show ?thesis unfolding m' using table_okD [OF ok k(1)] by (intro unload_all_other) simp_all
  qed
  ultimately show ?thesis by simp
qed

theorem force_unload_exact_witness:
  "mg_loaded (snd (force_unload demo_env ''m'' ''default''
     (demo_manager\<lparr>mg_slots := [demo_slot], mg_loaded := [(''default:m:chat:'', 0)]\<rparr>))) = []"
  using force_unload_exact [OF demo_reachable surjective_pairing, of demo_env "''m''" "''default''"]
  by (simp add: has_prefix_def)

section \<open>Asking for more context\<close>

text \<open>
  A request for a larger context than the loaded slot has replaces the slot in the table without
  closing it. When the old slot's idle timer fires it takes the new slot out of the table, still open.
\<close>

lemma upgraded_slot_leaks:
  assumes "table_ok (en_config E) m" and "map_of (mg_loaded m) key = Some old"
    and "loaded_fitting key n_ctx m = None" and "int (length (mg_loaded m)) < mc_max_loaded (en_config E)"
    and "ensure_locked E R LR entry n_ctx key mode loras m = (Inr new, m')" and "\<not> mg_closing m'"
  shows "old \<noteq> new \<and> map_of (mg_loaded m') key = Some new \<and> \<not> sl_closed (mg_slots m' ! old) \<and>
    map_of (mg_loaded (idle_offload E' old m')) key = None \<and> \<not> sl_closed (mg_slots (idle_offload E' old m') ! new)"
proof -
  note old = table_okD [OF assms(1,2)]
  have ev: "evict E m = (Inr (), m)" using assms(4) by (subst evict.simps) simp
  obtain m2 where ld: "load E R LR entry (opt_int_or n_ctx (mc_n_ctx_default (en_config E))) key mode loras m = (Inr new, m2)"
    and m': "m' = m2\<lparr>mg_loaded := AList.update key new (mg_loaded m2)\<rparr>"
    using assms(5) by (auto simp: ensure_locked_def assms(3) ev split: sum.splits prod.splits)
  note l = load_Inr [OF ld]
  have neq: "old \<noteq> new" using l old by auto
  have s: "mg_slots m' ! old = mg_slots m ! old" "length (mg_slots m') = Suc new" "old < new"
    using l old by (simp_all add: m')
  have new: "\<not> sl_closed (mg_slots m' ! new)" using l by (auto simp: m' slot_core_def)
  have off: "idle_offload E' old m' = unload E' key old m'"
    using old s assms(6) by (simp add: idle_offload_def Let_def)
  have "map_of (mg_loaded m') key = Some new" by (simp add: m' map_of_update)
  then show ?thesis using neq old s new by (simp add: off map_of_delete)
qed

end
