(* ===== verification/Keystore.thy ===== *)
theory Keystore
  imports Registry
begin

text \<open>
  The server's keystore (\<open>server/.../crypto/keystore.py\<close>) and the key files of a client
  (\<open>ClientIdentity\<close> in \<open>client/.../crypto/handshake.py\<close>). Fresh secrets are arguments, and so are the
  two library calls: \<open>tomllib.load\<close>, whose values are written as JSON values, and pyrage's identity
  generation. Directory modes are not modelled, and a write of a key of a few dozen bytes is never
  short. A TOML field of another type than the source expects is an error here.
\<close>

record toml_lib =
  toml_load :: "bytes \<Rightarrow> json option" \<comment> \<open>\<open>None\<close> where it raises \<open>TOMLDecodeError\<close>\<close>
  toml_str :: "json \<Rightarrow> string" \<comment> \<open>\<open>str(v)\<close> of a value that is not a string\<close>

record keystore =
  ks_server :: server_identity
  ks_allowlist :: "(bytes, authorized_client) dict"
  ks_allowlist_path :: "path option"

section \<open>Secret files\<close>

text \<open>\<open>S_IRWXG | S_IRWXO\<close>.\<close>

definition SECRET_MASK :: nat where
  "SECRET_MASK = 63"

definition require_secret_perms :: "fs \<Rightarrow> path \<Rightarrow> unit result" where
  "require_secret_perms fs p =
     and_then (file_mode fs p) (\<lambda>mode. if mode AND SECRET_MASK \<noteq> 0 then Inl PermissionError else Inr ())"

definition write_secret :: "path \<Rightarrow> bytes \<Rightarrow> fs \<Rightarrow> unit result \<times> fs" where
  "write_secret p data fs =
     (case mkdir_p (path_parent p) fs of
        Inl e \<Rightarrow> (Inl e, fs)
      | Inr fs \<Rightarrow>
          if exists_path fs p then (Inl FileExistsError, fs)
          else (Inr (), AList.update p (File 384 data) fs))"

text \<open>\<open>PrivateKey(b)\<close> and \<open>SigningKey(b)\<close>: both take 32 bytes.\<close>

definition nacl_key :: "bytes \<Rightarrow> bytes result" where
  "nacl_key b = (if length b = 32 then Inr b else Inl (ValueError ''key must be 32 bytes long''))"

section \<open>The server's identity\<close>

definition x25519_path :: "path \<Rightarrow> path" where
  "x25519_path key_dir = key_dir @ [''server.x25519.key'']"

definition x25519_pub_path :: "path \<Rightarrow> path" where
  "x25519_pub_path key_dir = key_dir @ [''server.x25519.key.pub'']"

definition ed25519_path :: "path \<Rightarrow> path" where
  "ed25519_path key_dir = key_dir @ [''server.ed25519.key'']"

definition ed25519_pub_path :: "path \<Rightarrow> path" where
  "ed25519_pub_path key_dir = key_dir @ [''server.ed25519.key.pub'']"

definition age_key_path :: "path \<Rightarrow> path" where
  "age_key_path key_dir = key_dir @ [''server.age.key'']"

definition write_file :: "path \<Rightarrow> bytes \<Rightarrow> fs \<Rightarrow> unit result \<times> fs" where
  "write_file p data fs =
     (case write_bytes DEFAULT_MODE p data fs of Inl e \<Rightarrow> (Inl e, fs) | Inr fs \<Rightarrow> (Inr (), fs))"

text \<open>Statements in sequence, each on the disk the one before left.\<close>

fun run_writes :: "(fs \<Rightarrow> unit result \<times> fs) list \<Rightarrow> fs \<Rightarrow> unit result \<times> fs" where
  "run_writes [] fs = (Inr (), fs)"
| "run_writes (w # ws) fs = (case w fs of (Inl e, fs) \<Rightarrow> (Inl e, fs) | (Inr u, fs) \<Rightarrow> run_writes ws fs)"

text \<open>\<open>age_text\<close> is \<open>str(Identity.generate())\<close>, \<open>None\<close> where pyrage is missing or raises.\<close>

definition write_age_key :: "string option \<Rightarrow> path \<Rightarrow> fs \<Rightarrow> unit result \<times> fs" where
  "write_age_key age_text p fs =
     (if exists_path fs p then (Inr (), fs)
      else case age_text of
        None \<Rightarrow> write_secret p [] fs
      | Some s \<Rightarrow>
          (case ascii_encode s of
             Inl e \<Rightarrow> write_secret p [] fs
           | Inr b \<Rightarrow> (case write_secret p b fs of (Inl e, fs) \<Rightarrow> write_secret p [] fs | res \<Rightarrow> res)))"

definition init_server_identity ::
  "nacl \<Rightarrow> bytes \<Rightarrow> bytes \<Rightarrow> string option \<Rightarrow> path \<Rightarrow> fs \<Rightarrow> server_identity result \<times> fs" where
  "init_server_identity N x_sk e_sk age_text key_dir fs =
     (case mkdir_p key_dir fs of
        Inl e \<Rightarrow> (Inl e, fs)
      | Inr fs \<Rightarrow>
          let x_pk = x25519_base N x_sk; e_pk = ed25519_pub N e_sk in
          (case run_writes
             [write_secret (x25519_path key_dir) x_sk, write_file (x25519_pub_path key_dir) x_pk,
              write_secret (ed25519_path key_dir) e_sk, write_file (ed25519_pub_path key_dir) e_pk,
              write_age_key age_text (age_key_path key_dir)] fs of
             (Inl e, fs) \<Rightarrow> (Inl e, fs)
           | (Inr u, fs) \<Rightarrow>
               (Inr \<lparr>si_x25519_sk = x_sk, si_x25519_pk = x_pk, si_ed25519_sk = e_sk, si_ed25519_pk = e_pk,
                  si_age_secret_path = age_key_path key_dir\<rparr>, fs)))"

definition load_server_identity :: "path \<Rightarrow> fs \<Rightarrow> server_identity result" where
  "load_server_identity key_dir fs =
     and_then (require_secret_perms fs (x25519_path key_dir)) (\<lambda>_.
     and_then (require_secret_perms fs (ed25519_path key_dir)) (\<lambda>_.
     and_then (and_then (read_bytes fs (x25519_path key_dir)) nacl_key) (\<lambda>x_sk.
     and_then (and_then (read_bytes fs (ed25519_path key_dir)) nacl_key) (\<lambda>e_sk.
     and_then (read_bytes fs (x25519_pub_path key_dir)) (\<lambda>x_pk.
     and_then (read_bytes fs (ed25519_pub_path key_dir)) (\<lambda>e_pk.
     Inr \<lparr>si_x25519_sk = x_sk, si_x25519_pk = x_pk, si_ed25519_sk = e_sk, si_ed25519_pk = e_pk,
          si_age_secret_path = age_key_path key_dir\<rparr>))))))"

section \<open>The allowlist\<close>

definition entry_tenant :: "toml_lib \<Rightarrow> string option \<Rightarrow> json option \<Rightarrow> string" where
  "entry_tenant T forced_tenant field =
     (case forced_tenant of
        Some (c # cs) \<Rightarrow> c # cs
      | _ \<Rightarrow> (case field of None \<Rightarrow> DEFAULT_TENANT | Some (JStr s) \<Rightarrow> s | Some v \<Rightarrow> toml_str T v))"

definition parse_client :: "toml_lib \<Rightarrow> string option \<Rightarrow> json \<Rightarrow> authorized_client result" where
  "parse_client T forced_tenant entry =
     and_then (json_bytes entry ''x25519_pk'') (\<lambda>x_pk.
     and_then (json_bytes entry ''ed25519_pk'') (\<lambda>e_pk.
     if length x_pk \<noteq> 32 \<or> length e_pk \<noteq> 32 then Inl (ValueError ''bad pk length'') else
     and_then (json_get entry ''tenant'') (\<lambda>tenant.
     and_then (json_get entry ''name'') (\<lambda>name.
     and_then (case name of None \<Rightarrow> Inr (take 16 (hex_encode x_pk)) | Some v \<Rightarrow> json_str v) (\<lambda>name.
     and_then (json_get entry ''scopes'') (\<lambda>scopes.
     and_then (and_then (json_iter (case scopes of None \<Rightarrow> JList [] | Some v \<Rightarrow> v)) json_strs) (\<lambda>scopes.
     and_then (json_get entry ''revoked'') (\<lambda>revoked.
     and_then (and_then (json_get entry ''not_before'') json_to_opt_int) (\<lambda>not_before.
     and_then (and_then (json_get entry ''not_after'') json_to_opt_int) (\<lambda>not_after.
     Inr \<lparr>ac_name = name, ac_x25519_pk = x_pk, ac_ed25519_pk = e_pk, ac_scopes = scopes,
          ac_revoked = (case revoked of None \<Rightarrow> False | Some v \<Rightarrow> json_truthy v),
          ac_not_before = not_before, ac_not_after = not_after,
          ac_tenant = entry_tenant T forced_tenant tenant\<rparr>))))))))))"

fun parse_clients :: "toml_lib \<Rightarrow> string option \<Rightarrow> json list \<Rightarrow> (bytes, authorized_client) dict \<Rightarrow>
    (bytes, authorized_client) dict result" where
  "parse_clients T forced_tenant [] out = Inr out"
| "parse_clients T forced_tenant (entry # entries) out =
     and_then (parse_client T forced_tenant entry)
       (\<lambda>c. parse_clients T forced_tenant entries (AList.update (ac_x25519_pk c) c out))"

definition parse_clients_file :: "toml_lib \<Rightarrow> fs \<Rightarrow> string option \<Rightarrow> path \<Rightarrow> (bytes, authorized_client) dict result" where
  "parse_clients_file T fs forced_tenant p =
     (if \<not> exists_path fs p then Inr []
      else and_then (read_bytes fs p) (\<lambda>text.
        case toml_load T text of
          None \<Rightarrow> Inl (ValueError ''TOMLDecodeError'')
        | Some data \<Rightarrow>
            and_then (json_get data ''clients'') (\<lambda>clients.
            and_then (json_iter (case clients of None \<Rightarrow> JList [] | Some v \<Rightarrow> v)) (\<lambda>entries.
              parse_clients T forced_tenant entries []))))"

definition dict_update :: "('k, 'v) dict \<Rightarrow> ('k, 'v) dict \<Rightarrow> ('k, 'v) dict" where
  "dict_update out new = fold (\<lambda>(k, v). AList.update k v) new out"

fun load_tenant_dirs :: "toml_lib \<Rightarrow> fs \<Rightarrow> path list \<Rightarrow> (bytes, authorized_client) dict \<Rightarrow>
    (bytes, authorized_client) dict result" where
  "load_tenant_dirs T fs [] out = Inr out"
| "load_tenant_dirs T fs (sub # subs) out =
     (if \<not> is_dir fs sub then load_tenant_dirs T fs subs out
      else and_then (parse_clients_file T fs (Some (path_name sub)) (sub @ [''authorized_clients.toml'']))
        (\<lambda>entries. load_tenant_dirs T fs subs (dict_update out entries)))"

definition load_allowlist :: "toml_lib \<Rightarrow> fs \<Rightarrow> path \<Rightarrow> (bytes, authorized_client) dict result" where
  "load_allowlist T fs p =
     and_then (parse_clients_file T fs (Some DEFAULT_TENANT) p) (\<lambda>out.
       let tenants_dir = path_parent p @ [''tenants''] in
       if is_dir fs tenants_dir then load_tenant_dirs T fs (sort (list_dir fs tenants_dir)) out else Inr out)"

definition reload_allowlist :: "toml_lib \<Rightarrow> fs \<Rightarrow> keystore \<Rightarrow> nat result \<times> keystore" where
  "reload_allowlist T fs ks =
     (case ks_allowlist_path ks of
        None \<Rightarrow> (Inr 0, ks)
      | Some p \<Rightarrow>
          (case load_allowlist T fs p of
             Inl e \<Rightarrow> (Inl e, ks)
           | Inr al \<Rightarrow> (Inr (length al), ks\<lparr>ks_allowlist := al\<rparr>)))"

section \<open>The keystore\<close>

record file_keystore_backend =
  fk_key_dir :: path
  fk_allowlist_path :: "path option"

definition backend_load_server_identity ::
  "nacl \<Rightarrow> bytes \<Rightarrow> bytes \<Rightarrow> string option \<Rightarrow> file_keystore_backend \<Rightarrow> fs \<Rightarrow> server_identity result \<times> fs" where
  "backend_load_server_identity N x_sk e_sk age_text b fs =
     (if \<not> exists_path fs (x25519_path (fk_key_dir b)) then init_server_identity N x_sk e_sk age_text (fk_key_dir b) fs
      else (load_server_identity (fk_key_dir b) fs, fs))"

definition backend_load_allowlist ::
  "toml_lib \<Rightarrow> file_keystore_backend \<Rightarrow> fs \<Rightarrow> (bytes, authorized_client) dict result" where
  "backend_load_allowlist T b fs =
     (case fk_allowlist_path b of None \<Rightarrow> Inr [] | Some p \<Rightarrow> load_allowlist T fs p)"

definition to_keystore ::
  "nacl \<Rightarrow> toml_lib \<Rightarrow> bytes \<Rightarrow> bytes \<Rightarrow> string option \<Rightarrow> file_keystore_backend \<Rightarrow> fs \<Rightarrow> keystore result \<times> fs" where
  "to_keystore N T x_sk e_sk age_text b fs =
     (case backend_load_server_identity N x_sk e_sk age_text b fs of
        (Inl e, fs) \<Rightarrow> (Inl e, fs)
      | (Inr server, fs) \<Rightarrow>
          (and_then (backend_load_allowlist T b fs) (\<lambda>al.
             Inr \<lparr>ks_server = server, ks_allowlist = al, ks_allowlist_path = fk_allowlist_path b\<rparr>), fs))"

definition load_or_init_keystore ::
  "nacl \<Rightarrow> toml_lib \<Rightarrow> bytes \<Rightarrow> bytes \<Rightarrow> string option \<Rightarrow> path \<Rightarrow> path option \<Rightarrow> fs \<Rightarrow> keystore result \<times> fs" where
  "load_or_init_keystore N T x_sk e_sk age_text key_dir allowlist_path fs =
     (case (if \<not> exists_path fs (x25519_path key_dir) then init_server_identity N x_sk e_sk age_text key_dir fs
            else (load_server_identity key_dir fs, fs)) of
        (Inl e, fs) \<Rightarrow> (Inl e, fs)
      | (Inr server, fs) \<Rightarrow>
          (and_then (case allowlist_path of None \<Rightarrow> Inr [] | Some p \<Rightarrow> load_allowlist T fs p) (\<lambda>al.
             Inr \<lparr>ks_server = server, ks_allowlist = al, ks_allowlist_path = allowlist_path\<rparr>), fs))"

text \<open>\<open>_cli_init\<close> after argument parsing: the exit status and what it prints.\<close>

definition cli_init ::
  "nacl \<Rightarrow> bytes \<Rightarrow> bytes \<Rightarrow> string option \<Rightarrow> path \<Rightarrow> string \<Rightarrow> fs \<Rightarrow> (int \<times> string list) result \<times> fs" where
  "cli_init N x_sk e_sk age_text key_dir shown fs =
     (if exists_path fs (x25519_path key_dir) then (Inr (0, [''keystore: '' @ shown @ '' already initialized'']), fs)
      else case init_server_identity N x_sk e_sk age_text key_dir fs of
        (Inl e, fs) \<Rightarrow> (Inl e, fs)
      | (Inr ident, fs) \<Rightarrow>
          (Inr (0, [''keystore: initialized at '' @ shown,
             ''  x25519 fingerprint: '' @ fingerprint (si_x25519_pk ident)]), fs))"

section \<open>A client's key files\<close>

definition with_suffix :: "path \<Rightarrow> string \<Rightarrow> path" where
  "with_suffix p suffix = path_parent p @ [path_stem p @ suffix]"

text \<open>\<open>os.open(p, O_WRONLY | O_CREAT | O_TRUNC, 0o600)\<close>: an existing file keeps its mode.\<close>

definition write_key_file :: "path \<Rightarrow> bytes \<Rightarrow> fs \<Rightarrow> unit result \<times> fs" where
  "write_key_file p data fs = (case write_bytes 384 p data fs of Inl e \<Rightarrow> (Inl e, fs) | Inr fs \<Rightarrow> (Inr (), fs))"

definition client_identity_load :: "nacl \<Rightarrow> path \<Rightarrow> fs \<Rightarrow> client_identity result" where
  "client_identity_load N base fs =
     (if path_name base = [] then Inl (ValueError ''empty name'') else
     and_then (and_then (read_bytes fs (with_suffix base ''.x25519.key'')) nacl_key) (\<lambda>x_sk.
     and_then (and_then (read_bytes fs (with_suffix base ''.ed25519.key'')) nacl_key) (\<lambda>e_sk.
     Inr \<lparr>ci_x25519_sk = x_sk, ci_x25519_pk = x25519_base N x_sk,
          ci_ed25519_sk = e_sk, ci_ed25519_pk = ed25519_pub N e_sk\<rparr>)))"

definition client_generate_and_save ::
  "nacl \<Rightarrow> bytes \<Rightarrow> bytes \<Rightarrow> path \<Rightarrow> fs \<Rightarrow> client_identity result \<times> fs" where
  "client_generate_and_save N x_sk e_sk base fs =
     (case mkdir_p (path_parent base) fs of
        Inl e \<Rightarrow> (Inl e, fs)
      | Inr fs \<Rightarrow>
          if path_name base = [] then (Inl (ValueError ''empty name''), fs) else
          (case run_writes
             [write_key_file (with_suffix base ''.x25519.key'') x_sk,
              write_key_file (with_suffix base ''.ed25519.key'') e_sk,
              write_key_file (with_suffix base ''.x25519.key.pub'') (x25519_base N x_sk),
              write_key_file (with_suffix base ''.ed25519.key.pub'') (ed25519_pub N e_sk)] fs of
             (Inl e, fs) \<Rightarrow> (Inl e, fs)
           | (Inr u, fs) \<Rightarrow>
               (Inr \<lparr>ci_x25519_sk = x_sk, ci_x25519_pk = x25519_base N x_sk,
                  ci_ed25519_sk = e_sk, ci_ed25519_pk = ed25519_pub N e_sk\<rparr>, fs)))"

section \<open>What the files hold\<close>

lemma write_secret_files:
  "write_secret p data fs = (Inr (), fs') \<Longrightarrow> file_at fs p = None \<and> file_at fs' = (file_at fs)(p \<mapsto> (384, data))"
proof -
  assume w: "write_secret p data fs = (Inr (), fs')"
  then obtain fs1 where mk: "mkdir_p (path_parent p) fs = Inr fs1" and new: "\<not> exists_path fs1 p"
    and fs': "fs' = AList.update p (File 384 data) fs1"
    by (auto simp: write_secret_def split: sum.splits if_splits)
  have eq: "file_at fs1 = file_at fs" using mk by (simp add: mkdir_p_def file_at_mkdirs)
  then have "file_at fs p = None" using file_at_exists [of fs1 p] new by (cases "file_at fs p") auto
  moreover have "file_at fs' = (file_at fs1)(p \<mapsto> (384, data))"
    by (auto simp: fs' file_at_def map_of_update fun_eq_iff)
  ultimately show ?thesis using eq by simp
qed

lemma write_file_files: "write_file p data fs = (Inr (), fs') \<Longrightarrow> \<exists>m. file_at fs' = (file_at fs)(p \<mapsto> (m, data))"
  by (auto simp: write_file_def dest: file_at_write split: sum.splits)

lemma write_key_file_files: "write_key_file p data fs = (Inr (), fs') \<Longrightarrow> \<exists>m. file_at fs' = (file_at fs)(p \<mapsto> (m, data))"
  by (auto simp: write_key_file_def dest: file_at_write split: sum.splits)

lemma write_age_key_files:
  assumes "write_age_key age_text p fs = (Inr (), fs')" and "q \<noteq> p"
  shows "file_at fs' q = file_at fs q"
proof -
  have ws: "file_at (snd (write_secret p data fs)) q = file_at fs q" for data fs
  proof (cases "fst (write_secret p data fs)")
    case (Inr u)
    then have "write_secret p data fs = (Inr (), snd (write_secret p data fs))" by (simp add: prod_eq_iff)
    from write_secret_files [OF this] assms(2) show ?thesis by auto
  next
    case (Inl e)
    then show ?thesis
      by (auto simp: write_secret_def mkdir_p_def file_at_mkdirs split: sum.splits if_splits)
  qed
  show ?thesis
    using assms(1) ws [of "[]" fs] ws [of _ fs] ws [of "[]"]
    by (auto simp: write_age_key_def split: if_splits option.splits sum.splits prod.splits) (metis snd_conv)+
qed

lemma run_writes_Cons:
  "run_writes (w # ws) fs = (Inr u, fs') \<longleftrightarrow> (\<exists>fs1. w fs = (Inr (), fs1) \<and> run_writes ws fs1 = (Inr (), fs'))"
  by (auto split: prod.splits sum.splits)

lemma init_files:
  assumes "init_server_identity N x_sk e_sk age_text key_dir fs = (Inr ident, fs')"
  shows "ident = \<lparr>si_x25519_sk = x_sk, si_x25519_pk = x25519_base N x_sk, si_ed25519_sk = e_sk,
      si_ed25519_pk = ed25519_pub N e_sk, si_age_secret_path = age_key_path key_dir\<rparr>"
    and "file_at fs' (x25519_path key_dir) = Some (384, x_sk)" "file_at fs' (ed25519_path key_dir) = Some (384, e_sk)"
    and "\<exists>m. file_at fs' (x25519_pub_path key_dir) = Some (m, x25519_base N x_sk)"
    and "\<exists>m. file_at fs' (ed25519_pub_path key_dir) = Some (m, ed25519_pub N e_sk)"
    and "file_at fs (x25519_path key_dir) = None" "file_at fs (ed25519_path key_dir) = None"
proof -
  note defs = x25519_path_def ed25519_path_def x25519_pub_path_def ed25519_pub_path_def age_key_path_def
  from assms obtain fs0 where mk: "mkdir_p key_dir fs = Inr fs0" and run: "run_writes
      [write_secret (x25519_path key_dir) x_sk, write_file (x25519_pub_path key_dir) (x25519_base N x_sk),
       write_secret (ed25519_path key_dir) e_sk, write_file (ed25519_pub_path key_dir) (ed25519_pub N e_sk),
       write_age_key age_text (age_key_path key_dir)] fs0 = (Inr (), fs')"
    and ident: "ident = \<lparr>si_x25519_sk = x_sk, si_x25519_pk = x25519_base N x_sk, si_ed25519_sk = e_sk,
      si_ed25519_pk = ed25519_pub N e_sk, si_age_secret_path = age_key_path key_dir\<rparr>"
    by (auto simp: init_server_identity_def Let_def split: sum.splits prod.splits)
  have f0: "file_at fs0 = file_at fs" using mk by (simp add: mkdir_p_def file_at_mkdirs)
  from run [unfolded run_writes_Cons run_writes.simps(1)] obtain fs1 fs2 fs3 fs4 where
    w: "write_secret (x25519_path key_dir) x_sk fs0 = (Inr (), fs1)"
      "write_file (x25519_pub_path key_dir) (x25519_base N x_sk) fs1 = (Inr (), fs2)"
      "write_secret (ed25519_path key_dir) e_sk fs2 = (Inr (), fs3)"
      "write_file (ed25519_pub_path key_dir) (ed25519_pub N e_sk) fs3 = (Inr (), fs4)"
      "write_age_key age_text (age_key_path key_dir) fs4 = (Inr (), fs')" by auto
  note f1 = write_secret_files [OF w(1)] and f3 = write_secret_files [OF w(3)]
  obtain m2 where f2: "file_at fs2 = (file_at fs1)(x25519_pub_path key_dir \<mapsto> (m2, x25519_base N x_sk))"
    using write_file_files [OF w(2)] by blast
  obtain m4 where f4: "file_at fs4 = (file_at fs3)(ed25519_pub_path key_dir \<mapsto> (m4, ed25519_pub N e_sk))"
    using write_file_files [OF w(4)] by blast
  note f5 = write_age_key_files [OF w(5)]
  show "ident = \<lparr>si_x25519_sk = x_sk, si_x25519_pk = x25519_base N x_sk, si_ed25519_sk = e_sk,
      si_ed25519_pk = ed25519_pub N e_sk, si_age_secret_path = age_key_path key_dir\<rparr>" by (rule ident)
  show "file_at fs' (x25519_path key_dir) = Some (384, x_sk)" "file_at fs' (ed25519_path key_dir) = Some (384, e_sk)"
    "\<exists>m. file_at fs' (x25519_pub_path key_dir) = Some (m, x25519_base N x_sk)"
    "\<exists>m. file_at fs' (ed25519_pub_path key_dir) = Some (m, ed25519_pub N e_sk)"
    using f1 f2 f3 f4 f5 by (simp_all add: defs)
  show "file_at fs (x25519_path key_dir) = None" using f1 f0 by simp
  show "file_at fs (ed25519_path key_dir) = None" using f1 f2 f3 f0 by (simp add: defs)
qed

lemma load_server_identity_files:
  assumes "file_at fs (x25519_path key_dir) = Some (384, x_sk)" and "file_at fs (ed25519_path key_dir) = Some (384, e_sk)"
    and "file_at fs (x25519_pub_path key_dir) = Some (m, x_pk)" and "file_at fs (ed25519_pub_path key_dir) = Some (m', e_pk)"
    and "length x_sk = 32" and "length e_sk = 32"
  shows "load_server_identity key_dir fs = Inr \<lparr>si_x25519_sk = x_sk, si_x25519_pk = x_pk, si_ed25519_sk = e_sk,
    si_ed25519_pk = e_pk, si_age_secret_path = age_key_path key_dir\<rparr>"
proof -
  have "(384::nat) AND 63 = 0" by code_simp
  then have "require_secret_perms fs (x25519_path key_dir) = Inr ()" "require_secret_perms fs (ed25519_path key_dir) = Inr ()"
    using file_at_mode [OF assms(1)] file_at_mode [OF assms(2)]
    by (simp_all add: require_secret_perms_def SECRET_MASK_def)
  moreover have "read_bytes fs (x25519_path key_dir) = Inr x_sk" "read_bytes fs (ed25519_path key_dir) = Inr e_sk"
    "read_bytes fs (x25519_pub_path key_dir) = Inr x_pk" "read_bytes fs (ed25519_pub_path key_dir) = Inr e_pk"
    using assms by (simp_all add: file_at_read)
  ultimately show ?thesis using assms(5,6) by (simp add: load_server_identity_def nacl_key_def)
qed

section \<open>Parsed clients\<close>

definition client_entry_ok :: "string option \<Rightarrow> bytes \<Rightarrow> authorized_client \<Rightarrow> bool" where
  "client_entry_ok forced_tenant pk c \<longleftrightarrow> ac_x25519_pk c = pk \<and> length pk = 32 \<and> length (ac_ed25519_pk c) = 32 \<and>
     (\<forall>t. forced_tenant = Some t \<longrightarrow> t \<noteq> [] \<longrightarrow> ac_tenant c = t)"

lemma parse_client_ok: "parse_client T ft entry = Inr c \<Longrightarrow> client_entry_ok ft (ac_x25519_pk c) c"
  by (auto simp: parse_client_def and_then_Inr_iff client_entry_ok_def entry_tenant_def neq_Nil_conv split: if_splits)

lemma parse_clients_ok:
  assumes "parse_clients T ft entries out = Inr out'" and "dict_ok out"
    and "\<And>pk c. map_of out pk = Some c \<Longrightarrow> client_entry_ok ft pk c"
  shows "dict_ok out' \<and> (\<forall>pk c. map_of out' pk = Some c \<longrightarrow> client_entry_ok ft pk c)"
  using assms
proof (induction entries arbitrary: out)
  case (Cons entry entries)
  then obtain c where c: "parse_client T ft entry = Inr c"
    and rest: "parse_clients T ft entries (AList.update (ac_x25519_pk c) c out) = Inr out'"
    by (auto simp: and_then_Inr_iff)
  show ?case
  proof (rule Cons.IH [OF rest])
    show "dict_ok (AList.update (ac_x25519_pk c) c out)" using Cons.prems(2) by blast
    show "client_entry_ok ft pk d" if "map_of (AList.update (ac_x25519_pk c) c out) pk = Some d" for pk d
      using that parse_client_ok [OF c] Cons.prems(3) by (auto simp: map_of_update split: if_splits)
  qed
qed simp

lemma parse_clients_file_ok:
  assumes "parse_clients_file T fs ft p = Inr out"
  shows "dict_ok out" and "map_of out pk = Some c \<Longrightarrow> client_entry_ok ft pk c"
  using assms parse_clients_ok [of T ft _ "[]" out]
  by (auto simp: parse_clients_file_def and_then_Inr_iff split: if_splits option.splits)

lemma map_of_dict_update:
  "dict_ok new \<Longrightarrow> map_of (dict_update out new) k = (case map_of new k of None \<Rightarrow> map_of out k | Some v \<Rightarrow> Some v)"
proof (induction new arbitrary: out)
  case (Cons kv new)
  then have "dict_ok new" "map_of new (fst kv) = None" by (auto simp: dict_ok_def map_of_eq_None_iff)
  then show ?case using Cons.IH [of "AList.update (fst kv) (snd kv) out"]
    by (cases kv) (auto simp: dict_update_def map_of_update split: option.splits)
qed (simp add: dict_update_def)

text \<open>What the file of a tenant's directory says of a key.\<close>

definition tenant_says :: "toml_lib \<Rightarrow> fs \<Rightarrow> path \<Rightarrow> bytes \<Rightarrow> authorized_client option \<Rightarrow> bool" where
  "tenant_says T fs sub pk entry \<longleftrightarrow> (\<exists>es.
     parse_clients_file T fs (Some (path_name sub)) (sub @ [''authorized_clients.toml'']) = Inr es \<and> map_of es pk = entry)"

lemma load_tenant_dirs_says:
  "load_tenant_dirs T fs subs out = Inr al \<Longrightarrow> map_of al pk = Some c \<Longrightarrow>
    (\<exists>sub \<in> set subs. is_dir fs sub \<and> tenant_says T fs sub pk (Some c)) \<or>
    (map_of out pk = Some c \<and> (\<forall>sub \<in> set (filter (is_dir fs) subs). tenant_says T fs sub pk None))"
proof (induction subs arbitrary: out)
  case (Cons sub subs)
  show ?case
  proof (cases "is_dir fs sub")
    case False
    then show ?thesis using Cons by auto
  next
    case True
    with Cons.prems(1) obtain es where es: "parse_clients_file T fs (Some (path_name sub)) (sub @ [''authorized_clients.toml'']) = Inr es"
      and rest: "load_tenant_dirs T fs subs (dict_update out es) = Inr al"
      by (auto simp: and_then_Inr_iff)
    note m = map_of_dict_update [OF parse_clients_file_ok(1) [OF es], of out pk]
    have says: "tenant_says T fs sub pk (map_of es pk)" using es by (auto simp: tenant_says_def)
    from Cons.IH [OF rest Cons.prems(2)] m says True show ?thesis
      by (cases "map_of es pk") auto
  qed
qed simp

section \<open>Properties\<close>

text \<open>The server keeps its identity: after a successful initialisation both secrets lie in files that only
  the owner may read, and every later start loads the identity that was created, whatever fresh
  randomness it is given; an initialised directory is never initialised again.\<close>

theorem identity_survives_restart:
  assumes "length x_sk = 32" and "length e_sk = 32"
    and "init_server_identity N x_sk e_sk age_text key_dir fs = (Inr ident, fs')"
  shows "server_identity_ok N ident \<and> load_server_identity key_dir fs' = Inr ident \<and>
    file_mode fs' (x25519_path key_dir) = Inr 384 \<and> file_mode fs' (ed25519_path key_dir) = Inr 384 \<and>
    load_or_init_keystore N T x_sk' e_sk' age_text' key_dir None fs' =
      (Inr \<lparr>ks_server = ident, ks_allowlist = [], ks_allowlist_path = None\<rparr>, fs')"
proof -
  note i = init_files [OF assms(3)]
  obtain m m' where pub: "file_at fs' (x25519_pub_path key_dir) = Some (m, x25519_base N x_sk)"
    "file_at fs' (ed25519_pub_path key_dir) = Some (m', ed25519_pub N e_sk)" using i(4,5) by blast
  have load: "load_server_identity key_dir fs' = Inr ident"
    using load_server_identity_files [OF i(2,3) pub assms(1,2)] by (simp add: i(1))
  have "exists_path fs' (x25519_path key_dir)" using i(2) by (intro file_at_exists) simp
  then show ?thesis using load file_at_mode [OF i(2)] file_at_mode [OF i(3)] assms(1)
    by (simp add: server_identity_ok_def i(1) load_or_init_keystore_def)
qed

theorem identity_survives_restart_witness:
  "\<exists>ident fs'. init_server_identity demo_nacl (replicate 32 1) (replicate 32 2) None [''k''] [] = (Inr ident, fs') \<and>
     load_server_identity [''k''] fs' = Inr ident"
proof -
  obtain ident fs' where init: "init_server_identity demo_nacl (replicate 32 1) (replicate 32 2) None [''k''] [] = (Inr ident, fs')"
    by (simp add: init_server_identity_def write_secret_def write_file_def write_age_key_def write_bytes_def mkdir_p_def
        prefixes_of_def is_dir_def exists_path_def path_parent_def x25519_path_def ed25519_path_def x25519_pub_path_def
        ed25519_pub_path_def age_key_path_def Let_def)
  from identity_survives_restart [OF _ _ init] have "load_server_identity [''k''] fs' = Inr ident" by simp
  with init show ?thesis by blast
qed

text \<open>C30. A client cannot escape its directory: every entry of the allowlist is filed under its own key of 32
  bytes; if a tenant's directory lists the key then the entry is one of a tenant's directory and its
  tenant is that directory's name, and otherwise it is the root file's and belongs to the default tenant.\<close>

theorem allowlist_tenants_confined:
  assumes "load_allowlist T fs p = Inr al" and "map_of al pk = Some c"
    and "\<And>q. map_of fs q \<noteq> None \<Longrightarrow> [] \<notin> set q"
  shows "ac_x25519_pk c = pk \<and> length pk = 32 \<and> length (ac_ed25519_pk c) = 32 \<and>
    ((\<exists>sub. path_parent sub = path_parent p @ [''tenants''] \<and> is_dir fs sub \<and> tenant_says T fs sub pk (Some c) \<and>
        ac_tenant c = path_name sub) \<or>
     (ac_tenant c = DEFAULT_TENANT \<and> (\<exists>es. parse_clients_file T fs (Some DEFAULT_TENANT) p = Inr es \<and> map_of es pk = Some c) \<and>
      (\<forall>sub. path_parent sub = path_parent p @ [''tenants''] \<and> is_dir fs sub \<and> is_dir fs (path_parent sub) \<longrightarrow>
         tenant_says T fs sub pk None)))"
proof -
  let ?td = "path_parent p @ [''tenants'']"
  from assms(1) obtain out where out: "parse_clients_file T fs (Some DEFAULT_TENANT) p = Inr out"
    and al: "(if is_dir fs ?td then load_tenant_dirs T fs (sort (list_dir fs ?td)) out else Inr out) = Inr al"
    by (auto simp: load_allowlist_def and_then_Inr_iff Let_def)
  have dflt: "client_entry_ok (Some DEFAULT_TENANT) pk c" if "map_of out pk = Some c"
    using parse_clients_file_ok(2) [OF out that] .
  have root: ?thesis if "map_of out pk = Some c"
      "\<And>sub. path_parent sub = ?td \<Longrightarrow> is_dir fs sub \<Longrightarrow> is_dir fs ?td \<Longrightarrow> tenant_says T fs sub pk None"
    using dflt [OF that(1)] out that by (auto simp: client_entry_ok_def DEFAULT_TENANT_def)
  show ?thesis
  proof (cases "is_dir fs ?td")
    case False
    then show ?thesis using al assms(2) by (intro root) auto
  next
    case True
    with al have ld: "load_tenant_dirs T fs (sort (list_dir fs ?td)) out = Inr al" by simp
    have listed: "sub \<in> set (sort (list_dir fs ?td)) \<longleftrightarrow> path_parent sub = ?td" if "is_dir fs sub" "sub \<noteq> []" for sub
      using that by (auto simp: list_dir_mem is_dir_def)
    from load_tenant_dirs_says [OF ld assms(2)] show ?thesis
    proof
      assume "\<exists>sub \<in> set (sort (list_dir fs ?td)). is_dir fs sub \<and> tenant_says T fs sub pk (Some c)"
      then obtain sub where sub: "path_parent sub = ?td" "is_dir fs sub" "map_of fs sub \<noteq> None" "sub \<noteq> []"
        and says: "tenant_says T fs sub pk (Some c)" by (auto simp: list_dir_mem)
      have "path_name sub \<noteq> []" using assms(3) [OF sub(3)] sub(4) by (metis last_in_set path_name_def)
      moreover obtain es where "parse_clients_file T fs (Some (path_name sub)) (sub @ [''authorized_clients.toml'']) = Inr es"
        "map_of es pk = Some c" using says by (auto simp: tenant_says_def)
      then have "client_entry_ok (Some (path_name sub)) pk c" by (rule parse_clients_file_ok(2))
      ultimately show ?thesis using sub says by (auto simp: client_entry_ok_def)
    next
      assume "map_of out pk = Some c \<and> (\<forall>sub \<in> set (filter (is_dir fs) (sort (list_dir fs ?td))). tenant_says T fs sub pk None)"
      moreover have "sub \<noteq> []" if "path_parent sub = ?td" for sub using that by (auto simp: path_parent_def)
      ultimately show ?thesis using listed by (intro root) auto
    qed
  qed
qed

definition demo_pk_text :: string where
  "demo_pk_text = replicate 43 (CHR ''A'') @ ''=''"

definition demo_toml :: toml_lib where
  "demo_toml = \<lparr>toml_load = (\<lambda>b. Some (JObj [(''clients'', JList [JObj
     [(''name'', JStr ''c''), (''x25519_pk'', JStr demo_pk_text), (''ed25519_pk'', JStr demo_pk_text),
      (''scopes'', JList [JStr ''chat'']), (''tenant'', JStr ''other'')]])])), toml_str = (\<lambda>v. [])\<rparr>"

definition demo_keys_fs :: fs where
  "demo_keys_fs = [([''k''], Dir), ([''k'', ''authorized_clients.toml''], File 420 []), ([''k'', ''tenants''], Dir),
     ([''k'', ''tenants'', ''acme''], Dir), ([''k'', ''tenants'', ''acme'', ''authorized_clients.toml''], File 420 [])]"

lemma demo_pk: "b64decode False demo_pk_text = Inr (replicate 32 0)"
  by code_simp

lemma demo_allowlist_load:
  "load_allowlist demo_toml demo_keys_fs [''k'', ''authorized_clients.toml''] =
     Inr [(replicate 32 0, \<lparr>ac_name = ''c'', ac_x25519_pk = replicate 32 0, ac_ed25519_pk = replicate 32 0,
       ac_scopes = [''chat''], ac_revoked = False, ac_not_before = None, ac_not_after = None, ac_tenant = ''acme''\<rparr>)]"
proof -
  have ls: "list_dir demo_keys_fs [''k'', ''tenants''] = [[''k'', ''tenants'', ''acme'']]"
    by (simp add: list_dir_def demo_keys_fs_def path_parent_def)
  show ?thesis
    by (simp add: load_allowlist_def parse_clients_file_def ls path_parent_def Let_def)
      (simp add: demo_keys_fs_def exists_path_def read_bytes_def is_dir_def path_name_def demo_toml_def parse_client_def
        json_bytes_def demo_pk entry_tenant_def parse_clients_file_def dict_update_def DEFAULT_TENANT_def)
qed

theorem allowlist_tenants_confined_witness:
  "\<exists>al c. load_allowlist demo_toml demo_keys_fs [''k'', ''authorized_clients.toml''] = Inr al \<and>
     map_of al (replicate 32 0) = Some c \<and> ac_x25519_pk c = replicate 32 0 \<and> ac_tenant c = ''acme''"
proof -
  have "[] \<notin> set q" if "map_of demo_keys_fs q \<noteq> None" for q
    using that by (auto simp: demo_keys_fs_def split: if_splits)
  from allowlist_tenants_confined [OF demo_allowlist_load _ this] demo_allowlist_load show ?thesis by auto
qed

text \<open>A client that saves its keys loads the same identity, whatever files were there before.\<close>

theorem client_identity_saved:
  assumes "length x_sk = 32" and "length e_sk = 32"
    and "client_generate_and_save N x_sk e_sk base fs = (Inr ident, fs')"
  shows "client_identity_load N base fs' = Inr ident \<and> client_identity_ok N ident"
proof -
  let ?x = "with_suffix base ''.x25519.key''" and ?e = "with_suffix base ''.ed25519.key''"
  let ?xp = "with_suffix base ''.x25519.key.pub''" and ?ep = "with_suffix base ''.ed25519.key.pub''"
  from assms(3) obtain fs0 where run: "run_writes
      [write_key_file ?x x_sk, write_key_file ?e e_sk, write_key_file ?xp (x25519_base N x_sk),
       write_key_file ?ep (ed25519_pub N e_sk)] fs0 = (Inr (), fs')"
    and base: "path_name base \<noteq> []"
    and ident: "ident = \<lparr>ci_x25519_sk = x_sk, ci_x25519_pk = x25519_base N x_sk,
      ci_ed25519_sk = e_sk, ci_ed25519_pk = ed25519_pub N e_sk\<rparr>"
    by (auto simp: client_generate_and_save_def simp del: run_writes.simps split: sum.splits prod.splits if_splits)
  from run [unfolded run_writes_Cons run_writes.simps(1)] obtain fs1 fs2 fs3 where
    w: "write_key_file ?x x_sk fs0 = (Inr (), fs1)" "write_key_file ?e e_sk fs1 = (Inr (), fs2)"
      "write_key_file ?xp (x25519_base N x_sk) fs2 = (Inr (), fs3)"
      "write_key_file ?ep (ed25519_pub N e_sk) fs3 = (Inr (), fs')" by auto
  obtain m1 m2 m3 m4 where f: "file_at fs1 = (file_at fs0)(?x \<mapsto> (m1, x_sk))" "file_at fs2 = (file_at fs1)(?e \<mapsto> (m2, e_sk))"
    "file_at fs3 = (file_at fs2)(?xp \<mapsto> (m3, x25519_base N x_sk))" "file_at fs' = (file_at fs3)(?ep \<mapsto> (m4, ed25519_pub N e_sk))"
    using w [THEN write_key_file_files] by blast
  have "read_bytes fs' ?x = Inr x_sk" "read_bytes fs' ?e = Inr e_sk"
    by (simp_all add: file_at_read f with_suffix_def)
  then show ?thesis using assms(1,2) base
    by (simp add: client_identity_load_def nacl_key_def ident client_identity_ok_def)
qed

end
