(* ===== verification/Transport.thy ===== *)
theory Transport
  imports Handshake Replay
begin

text \<open>
  The SDK's HTTP transport (\<open>client/.../transport.py\<close>): handshake on first use, sealed requests, one
  automatic re-handshake, decoding of responses and of event streams. The network is an argument
  \<open>net\<close> that answers a request given everything sent before it, or raises (\<open>None\<close>); pydantic's
  validation of the handshake response is an argument, and so are the ephemeral keys and the clock,
  numbered by handshake. The fields of an error body are taken as missing when they have another
  type than the SDK's annotations say. Locks are not modelled: one thread uses the transport.
\<close>

record http_request =
  hq_method :: string
  hq_path :: string
  hq_headers :: "(string \<times> string) list"
  hq_body :: bytes

record http_response =
  hp_status :: int
  hp_content_type :: string
  hp_body :: bytes
  hp_lines :: "string list" \<comment> \<open>the body as \<open>iter_lines\<close> yields it\<close>

type_synonym network = "http_request list \<Rightarrow> http_response option"

record session_state =
  ss_outcome :: handshake_outcome
  ss_c2s_counter :: int
  ss_last_replay_high :: int

record transport =
  tr_base :: string
  tr_identity :: client_identity
  tr_pinned :: bytes
  tr_verifier :: "attestation_verifier option"
  tr_measurement :: "string option"
  tr_attestation_required :: bool
  tr_session :: "session_state option"
  tr_replay :: replay_client
  tr_log :: "http_request list" \<comment> \<open>what was sent\<close>
  tr_handshakes :: nat

record client_lib =
  cl_nacl :: nacl
  cl_json :: json_lib
  cl_validate :: "bytes \<Rightarrow> handshake_response option" \<comment> \<open>\<open>model_validate_json\<close>\<close>
  cl_eph :: "nat \<Rightarrow> bytes"
  cl_clock :: "nat \<Rightarrow> int"

section \<open>Addresses\<close>

definition rstrip_char :: "char \<Rightarrow> string \<Rightarrow> string" where
  "rstrip_char c s = rev (dropWhile (\<lambda>x. x = c) (rev s))"

definition is_scheme_char :: "char \<Rightarrow> bool" where
  "is_scheme_char c \<longleftrightarrow>
     c \<in> set ''abcdefghijklmnopqrstuvwxyzABCDEFGHIJKLMNOPQRSTUVWXYZ0123456789+-.''"

text \<open>\<open>urllib.parse.urlparse(url).netloc\<close>.\<close>

definition url_after_scheme :: "string \<Rightarrow> string" where
  "url_after_scheme url =
     (let scheme = takeWhile (\<lambda>c. c \<noteq> CHR '':'') url in
      if CHR '':'' \<in> set url \<and> scheme \<noteq> [] \<and> list_all is_scheme_char scheme
         \<and> hd scheme \<notin> set ''0123456789+-.''
      then drop (length scheme + 1) url else url)"

definition netloc :: "string \<Rightarrow> string" where
  "netloc url =
     (let rest = url_after_scheme url in
      if take 2 rest = ''//'' then takeWhile (\<lambda>c. c \<notin> set ''/?#'') (drop 2 rest) else [])"

definition transport_new ::
  "string \<Rightarrow> client_identity \<Rightarrow> bytes \<Rightarrow> attestation_verifier option \<Rightarrow> string option \<Rightarrow> bool \<Rightarrow> transport" where
  "transport_new base_url identity pinned verifier measurement required =
     \<lparr>tr_base = rstrip_char (CHR ''/'') base_url, tr_identity = identity, tr_pinned = pinned, tr_verifier = verifier,
      tr_measurement = measurement, tr_attestation_required = required, tr_session = None,
      tr_replay = replay_client_new, tr_log = [], tr_handshakes = 0\<rparr>"

definition server_host :: "transport \<Rightarrow> string" where
  "server_host t = netloc (tr_base t)"

definition send :: "network \<Rightarrow> http_request \<Rightarrow> transport \<Rightarrow> http_response option \<times> transport" where
  "send net q t = (let t = t\<lparr>tr_log := tr_log t @ [q]\<rparr> in (net (tr_log t), t))"

definition http_error :: client_exn where
  "http_error = ClientOther (OSError ''httpx.HTTPError'')"

section \<open>The handshake\<close>

definition handshake_request_json :: "handshake_request \<Rightarrow> json" where
  "handshake_request_json r = JObj
     [(''protocol'', JStr (hr_protocol r)), (''client_static_pk'', JStr (hr_client_static_pk r)),
      (''client_ephemeral_pk'', JStr (hr_client_ephemeral_pk r)), (''timestamp'', JInt (hr_timestamp r)),
      (''transcript_sig'', JStr (hr_transcript_sig r)), (''server_host'', json_opt_str (hr_server_host r))]"

text \<open>\<open>ErrorCode(code_str) if code_str else d\<close>: a value that is no code raises.\<close>

definition code_or :: "'a \<Rightarrow> (error_code \<Rightarrow> 'a) \<Rightarrow> json option \<Rightarrow> 'a result" where
  "code_or d f v =
     (case v of
        None \<Rightarrow> Inr d
      | Some v \<Rightarrow>
          if \<not> json_truthy v then Inr d
          else (case v of JStr s \<Rightarrow> and_then (code_of_value s) (\<lambda>c. Inr (f c)) | _ \<Rightarrow> Inl (ValueError ''ErrorCode'')))"

definition json_or :: "json option \<Rightarrow> json option \<Rightarrow> json option" where
  "json_or a b = (case a of None \<Rightarrow> b | Some v \<Rightarrow> if json_truthy v then Some v else b)"

definition handshake_error_code :: "json_lib \<Rightarrow> bytes \<Rightarrow> error_code" where
  "handshake_error_code J body =
     (case (case json_loads J body of
              None \<Rightarrow> Inl (ValueError ''JSONDecodeError'')
            | Some detail \<Rightarrow>
                and_then (json_get detail ''detail'') (\<lambda>d.
                and_then (json_get (case d of None \<Rightarrow> JObj [] | Some d \<Rightarrow> d) ''code'') (\<lambda>c1.
                and_then (if (case c1 of None \<Rightarrow> False | Some v \<Rightarrow> json_truthy v) then Inr c1 else json_get detail ''code'')
                  (code_or BAD_SIGNATURE (\<lambda>c. c))))) of
        Inl e \<Rightarrow> BAD_SIGNATURE
      | Inr c \<Rightarrow> c)"

definition do_handshake :: "client_lib \<Rightarrow> network \<Rightarrow> transport \<Rightarrow> (client_exn + session_state) \<times> transport" where
  "do_handshake L net t =
     (let N = cl_nacl L; i = tr_handshakes t; eph_sk = cl_eph L i; ts = cl_clock L i;
          req = build_handshake_request N (tr_identity t) (server_host t) (x25519_base N eph_sk) (Some ts) ts;
          t = t\<lparr>tr_handshakes := Suc i\<rparr> in
      case send net \<lparr>hq_method = ''POST'', hq_path = ''/v1/session'', hq_headers = [],
             hq_body = json_dumps (cl_json L) (handshake_request_json req)\<rparr> t of
        (None, t) \<Rightarrow> (Inl http_error, t)
      | (Some r, t) \<Rightarrow>
          if hp_status r \<noteq> 200
          then (Inl (SdkError (mk_error HandshakeFailed (''handshake failed: '' @ str_of_int (hp_status r))
                  (Some (handshake_error_code (cl_json L) (hp_body r))) None)), t)
          else (case cl_validate L (hp_body r) of
             None \<Rightarrow> (Inl (ClientOther (ValueError ''ValidationError'')), t)
           | Some response \<Rightarrow>
               (case derive_session N (cl_json L) (tr_identity t) eph_sk (server_host t) ts response (tr_pinned t)
                       (tr_verifier t) (tr_measurement t) (tr_attestation_required t) of
                  Inl e \<Rightarrow> (Inl e, t)
                | Inr outcome \<Rightarrow>
                    (Inr \<lparr>ss_outcome = outcome, ss_c2s_counter = 0, ss_last_replay_high = 0\<rparr>,
                     t\<lparr>tr_replay := replay_client_new\<rparr>))))"

definition get_session :: "client_lib \<Rightarrow> network \<Rightarrow> transport \<Rightarrow> (client_exn + session_state) \<times> transport" where
  "get_session L net t =
     (case tr_session t of
        Some s \<Rightarrow> (Inr s, t)
      | None \<Rightarrow>
          (case do_handshake L net t of
             (Inl e, t) \<Rightarrow> (Inl e, t)
           | (Inr s, t) \<Rightarrow> (Inr s, t\<lparr>tr_session := Some s\<rparr>)))"

definition reset_session :: "network \<Rightarrow> transport \<Rightarrow> transport" where
  "reset_session net t =
     (case tr_session t of
        None \<Rightarrow> t
      | Some s \<Rightarrow>
          snd (send net \<lparr>hq_method = ''DELETE'',
            hq_path = ''/v1/session/'' @ urlsafe_b64encode (ho_session_id (ss_outcome s)), hq_headers = [],
            hq_body = []\<rparr> (t\<lparr>tr_session := None\<rparr>)))"

section \<open>Responses\<close>

definition field_str :: "json option \<Rightarrow> string" where
  "field_str v = (case v of Some (JStr s) \<Rightarrow> s | _ \<Rightarrow> [])"

definition field_opt_str :: "json option \<Rightarrow> string option" where
  "field_opt_str v = (case v of Some (JStr s) \<Rightarrow> Some s | _ \<Rightarrow> None)"

definition field_opt_num :: "json option \<Rightarrow> rat option" where
  "field_opt_num v = (case v of Some (JInt i) \<Rightarrow> Some (of_int i) | Some (JFloat q) \<Rightarrow> Some q | _ \<Rightarrow> None)"

text \<open>\<open>from_error_envelope(code, err.get("message", ""), ...)\<close> for an object \<open>err\<close>.\<close>

definition error_of_object :: "error_code \<Rightarrow> (string \<times> json) list \<Rightarrow> client_error" where
  "error_of_object code err =
     from_error_envelope code (field_str (map_of err ''message'')) (field_opt_str (map_of err ''error_id''))
       (field_opt_num (map_of err ''retry_after_seconds''))"

definition try_extract_error_code :: "json_lib \<Rightarrow> bytes \<Rightarrow> error_code option" where
  "try_extract_error_code J body =
     (case json_loads J body of
        None \<Rightarrow> None
      | Some data \<Rightarrow>
          (case and_then (json_get data ''code'') (\<lambda>c.
                and_then (if (case c of None \<Rightarrow> False | Some v \<Rightarrow> json_truthy v) then Inr c
                  else and_then (json_get data ''detail'') (\<lambda>d.
                    json_get (case json_or d (Some (JObj [])) of None \<Rightarrow> JObj [] | Some v \<Rightarrow> v) ''code''))
                  (code_or None Some)) of
             Inl e \<Rightarrow> None | Inr c \<Rightarrow> c))"

text \<open>The error a plain JSON body stands for: always an exception, of the SDK or not.\<close>

definition plain_json_error :: "json_lib \<Rightarrow> bytes \<Rightarrow> client_exn" where
  "plain_json_error J body =
     (case json_loads J body of
        None \<Rightarrow> ClientOther (ValueError ''JSONDecodeError'')
      | Some data \<Rightarrow>
          (case json_get data ''detail'' of
             Inl e \<Rightarrow> ClientOther e
           | Inr d \<Rightarrow>
               (case (case d of None \<Rightarrow> data | Some v \<Rightarrow> v) of
                  JObj err \<Rightarrow>
                    (case map_of err ''code'' of
                       None \<Rightarrow> SdkError (error_of_object INTERNAL_ERROR err)
                     | Some (JStr s) \<Rightarrow>
                         (case code_of_value s of
                            Inl e \<Rightarrow> ClientOther e | Inr code \<Rightarrow> SdkError (error_of_object code err))
                     | Some v \<Rightarrow> ClientOther (ValueError ''ErrorCode''))
                | v \<Rightarrow> ClientOther AttributeError)))"

definition looks_like_error :: "json \<Rightarrow> bool" where
  "looks_like_error data =
     (case data of
        JObj kvs \<Rightarrow> map_of kvs ''code'' \<noteq> None \<and> map_of kvs ''message'' \<noteq> None \<and> length kvs \<le> 4
      | _ \<Rightarrow> False)"

text \<open>The end of \<open>_decode_response\<close>: what a decrypted body stands for.\<close>

definition decode_plaintext :: "int \<Rightarrow> json \<Rightarrow> client_exn + json" where
  "decode_plaintext status data =
     (if 400 \<le> status \<or> looks_like_error data then
        (case data of
           JObj kvs \<Rightarrow>
             (case map_of kvs ''code'' of
                None \<Rightarrow> Inr data
              | Some v \<Rightarrow>
                  if \<not> json_truthy v then Inr data
                  else (case v of
                     JStr s \<Rightarrow>
                       (case code_of_value s of
                          Inl e \<Rightarrow> Inl (ClientOther e)
                        | Inr code \<Rightarrow>
                            if code = SESSION_EXPIRED
                            then Inl (SdkError (mk_error SessionExpired (field_str (map_of kvs ''message'')) None None))
                            else Inl (SdkError (error_of_object code kvs)))
                   | _ \<Rightarrow> Inl (ClientOther (ValueError ''ErrorCode''))))
         | _ \<Rightarrow> Inl (ClientOther AttributeError))
      else Inr data)"

fun sdk_replay_error :: "replay_error \<Rightarrow> client_exn" where
  "sdk_replay_error (ReplayDetected msg) = SdkError (mk_error SecureLLMError msg (Some REPLAY_DETECTED) None)"

fun decrypt_failed :: "open_error \<Rightarrow> client_exn" where
  "decrypt_failed (EnvelopeAuthError m) =
     SdkError (mk_error SecureLLMError (''response decrypt failed: '' @ m) (Some DECRYPT_FAILED) None)"
| "decrypt_failed (OpenExn e) = ClientOther e"

definition load_plaintext :: "json_lib \<Rightarrow> bytes \<Rightarrow> client_exn + json" where
  "load_plaintext J plaintext =
     (if plaintext = [] then Inr (JObj [])
      else case json_loads J plaintext of None \<Rightarrow> Inl (ClientOther (ValueError ''JSONDecodeError'')) | Some v \<Rightarrow> Inr v)"

definition decode_response ::
  "client_lib \<Rightarrow> http_response \<Rightarrow> session_state \<Rightarrow> string \<Rightarrow> string \<Rightarrow> replay_client \<Rightarrow>
   (client_exn + json) \<times> replay_client" where
  "decode_response L r state mth path replay =
     (if hp_status r = 204 then (Inr (JObj []), replay)
      else if has_prefix ''application/json'' (hp_content_type r)
      then (Inl (plain_json_error (cl_json L) (hp_body r)), replay)
      else if \<not> has_prefix ''application/octet-stream'' (hp_content_type r)
      then (Inl (SdkError (mk_error SecureLLMError (''unexpected content-type: '' @ hp_content_type r) None None)), replay)
      else case client_open_envelope (cl_nacl L) (ho_s2c (ss_outcome state)) (ho_session_id (ss_outcome state))
             (str_upper mth) path (hp_body r) of
        Inl e \<Rightarrow> (Inl (decrypt_failed e), replay)
      | Inr (env, plaintext) \<Rightarrow>
          (case replay_client_check (env_counter env) replay of
             Inl e \<Rightarrow> (Inl (sdk_replay_error e), replay)
           | Inr replay \<Rightarrow>
               (and_then (load_plaintext (cl_json L) plaintext) (decode_plaintext (hp_status r)), replay)))"

section \<open>Requests\<close>

fun seal_exn :: "seal_error \<Rightarrow> client_exn" where
  "seal_exn (SealExn e) = ClientOther e"
| "seal_exn (SealEnvelope e) = ClientOther (ValueError (envelope_error_text e))"

definition request_body :: "json_lib \<Rightarrow> json option \<Rightarrow> bytes" where
  "request_body J payload = (case payload of None \<Rightarrow> [] | Some v \<Rightarrow> json_dumps J v)"

text \<open>
  The common start of both request methods: a session, the next counter, the sealed body. The counter
  is that of the session object, which the transport still holds.
\<close>

definition seal_next ::
  "client_lib \<Rightarrow> network \<Rightarrow> string \<Rightarrow> string \<Rightarrow> json option \<Rightarrow> transport \<Rightarrow>
   (client_exn + session_state \<times> bytes) \<times> transport" where
  "seal_next L net mth path payload t =
     (case get_session L net t of
        (Inl e, t) \<Rightarrow> (Inl e, t)
      | (Inr s, t) \<Rightarrow>
          let s = s\<lparr>ss_c2s_counter := ss_c2s_counter s + 1\<rparr>; t = t\<lparr>tr_session := Some s\<rparr> in
          (case client_seal (cl_nacl L) (ho_c2s (ss_outcome s)) (ss_c2s_counter s) (ho_session_id (ss_outcome s))
                  (str_upper mth) path (request_body (cl_json L) payload) of
             Inl e \<Rightarrow> (Inl (seal_exn e), t)
           | Inr envelope \<Rightarrow> (Inr (s, envelope), t)))"

function request ::
  "client_lib \<Rightarrow> network \<Rightarrow> string \<Rightarrow> string \<Rightarrow> json option \<Rightarrow> bool \<Rightarrow> transport \<Rightarrow> (client_exn + json) \<times> transport" where
  "request L net mth path payload retry t =
     (case seal_next L net mth path payload t of
        (Inl e, t) \<Rightarrow> (Inl e, t)
      | (Inr (s, envelope), t) \<Rightarrow>
          (case send net \<lparr>hq_method = mth, hq_path = path,
                  hq_headers = [(''content-type'', ''application/octet-stream'')], hq_body = envelope\<rparr> t of
             (None, t) \<Rightarrow> (Inl http_error, t)
           | (Some r, t) \<Rightarrow>
               if hp_status r \<in> {401, 400} \<and> retry \<and>
                  try_extract_error_code (cl_json L) (hp_body r) \<in> {Some UNKNOWN_SESSION, Some SESSION_EXPIRED}
               then request L net mth path payload False (t\<lparr>tr_session := None\<rparr>)
               else (case decode_response L r s mth path (tr_replay t) of
                  (res, replay) \<Rightarrow> (res, t\<lparr>tr_replay := replay\<rparr>))))"
  by pat_completeness auto
termination
  by (relation "measure (\<lambda>(L, net, mth, path, payload, retry, t). if retry then 1 else 0)") auto

declare request.simps [simp del]

text \<open>
  The event lines of a stream: the payloads that are yielded, and the exception that ends the
  iteration, if one does.
\<close>

fun stream_lines ::
  "client_lib \<Rightarrow> session_state \<Rightarrow> string \<Rightarrow> string \<Rightarrow> string list \<Rightarrow> replay_client \<Rightarrow>
   json list \<times> client_exn option \<times> replay_client" where
  "stream_lines L s mth path [] replay = ([], None, replay)"
| "stream_lines L s mth path (line # lines) replay =
     (if line = [] \<or> has_prefix '':'' line \<or> \<not> has_prefix ''data:'' line
      then stream_lines L s mth path lines replay
      else let data = strip (drop 5 line) in
      if data = ''[DONE]'' then ([], None, replay)
      else case b64decode True data of
        Inl e \<Rightarrow> ([], Some (SdkError (mk_error SecureLLMError ''bad SSE base64'' (Some BAD_ENVELOPE) None)), replay)
      | Inr raw_envelope \<Rightarrow>
          (case client_open_envelope (cl_nacl L) (ho_s2c (ss_outcome s)) (ho_session_id (ss_outcome s))
                  (str_upper mth) path raw_envelope of
             Inl (EnvelopeAuthError m) \<Rightarrow> ([], Some (ClientOther (RuntimeError m)), replay)
           | Inl (OpenExn e) \<Rightarrow> ([], Some (ClientOther e), replay)
           | Inr (env, plaintext) \<Rightarrow>
               (case replay_client_check (env_counter env) replay of
                  Inl e \<Rightarrow> ([], Some (sdk_replay_error e), replay)
                | Inr replay \<Rightarrow>
                    (case load_plaintext (cl_json L) plaintext of
                       Inl e \<Rightarrow> ([], Some e, replay)
                     | Inr v \<Rightarrow>
                         (case stream_lines L s mth path lines replay of
                            (vs, err, replay) \<Rightarrow> (v # vs, err, replay))))))"

definition stream_request ::
  "client_lib \<Rightarrow> network \<Rightarrow> string \<Rightarrow> string \<Rightarrow> json option \<Rightarrow> transport \<Rightarrow>
   (json list \<times> client_exn option) \<times> transport" where
  "stream_request L net mth path payload t =
     (case seal_next L net mth path payload t of
        (Inl e, t) \<Rightarrow> (([], Some e), t)
      | (Inr (s, envelope), t) \<Rightarrow>
          (case send net \<lparr>hq_method = mth, hq_path = path,
                  hq_headers = [(''content-type'', ''application/octet-stream''), (''accept'', ''text/event-stream'')],
                  hq_body = envelope\<rparr> t of
             (None, t) \<Rightarrow> (([], Some http_error), t)
           | (Some r, t) \<Rightarrow>
               if hp_status r \<noteq> 200
               then (case decode_response L r s mth path (tr_replay t) of
                  (res, replay) \<Rightarrow> (([], case res of Inl e \<Rightarrow> Some e | Inr v \<Rightarrow> None), t\<lparr>tr_replay := replay\<rparr>))
               else (case stream_lines L s mth path (hp_lines r) (tr_replay t) of
                  (vs, err, replay) \<Rightarrow> ((vs, err), t\<lparr>tr_replay := replay\<rparr>))))"

definition close_transport :: "network \<Rightarrow> transport \<Rightarrow> transport" where
  "close_transport net t = reset_session net t"

section \<open>Counters\<close>

text \<open>
  The next envelope is sealed above this mark: handshakes are numbered from 1, and the pair only grows,
  also when a handshake fails or a session is forgotten.
\<close>

definition frontier :: "transport \<Rightarrow> nat \<times> int" where
  "frontier t = (case tr_session t of
     None \<Rightarrow> (Suc (tr_handshakes t), 0) | Some s \<Rightarrow> (tr_handshakes t, ss_c2s_counter s))"

definition mark_le :: "nat \<times> int \<Rightarrow> nat \<times> int \<Rightarrow> bool" where
  "mark_le a b \<longleftrightarrow> fst a < fst b \<or> (fst a = fst b \<and> snd a \<le> snd b)"

definition mark_less :: "nat \<times> int \<Rightarrow> nat \<times> int \<Rightarrow> bool" where
  "mark_less a b \<longleftrightarrow> fst a < fst b \<or> (fst a = fst b \<and> snd a < snd b)"

lemma mark_trans: "mark_le a b \<Longrightarrow> mark_le b c \<Longrightarrow> mark_le a c" "mark_less a b \<Longrightarrow> mark_le b c \<Longrightarrow> mark_less a c"
  "mark_le a b \<Longrightarrow> mark_less b c \<Longrightarrow> mark_less a c" "mark_less a b \<Longrightarrow> mark_le a b" "mark_le a a" "\<not> mark_less a a"
  by (auto simp: mark_le_def mark_less_def)

lemma send_simps [simp]:
  "tr_session (snd (send net q t)) = tr_session t" "tr_handshakes (snd (send net q t)) = tr_handshakes t"
  "tr_replay (snd (send net q t)) = tr_replay t" "tr_log (snd (send net q t)) = tr_log t @ [q]"
  by (simp_all add: send_def Let_def)

lemma send_eq: "send net q t = (res, t') \<Longrightarrow> tr_session t' = tr_session t \<and> tr_handshakes t' = tr_handshakes t \<and>
    tr_replay t' = tr_replay t \<and> tr_log t' = tr_log t @ [q]"
  by (auto simp: send_def Let_def)

lemma do_handshake_effect:
  assumes "do_handshake L net t = (res, t')"
  shows "tr_handshakes t' = Suc (tr_handshakes t) \<and> tr_session t' = tr_session t \<and> length (tr_log t') = Suc (length (tr_log t)) \<and>
    (\<forall>s. res = Inr s \<longrightarrow> ss_c2s_counter s = 0)"
  using assms
  by (auto simp: do_handshake_def Let_def dest!: send_eq split: prod.splits option.splits if_splits sum.splits)

lemma get_session_effect:
  assumes "get_session L net t = (res, t')"
  shows "mark_le (frontier t) (frontier t') \<and> length (tr_log t') \<le> Suc (length (tr_log t)) \<and>
    tr_handshakes t' \<le> Suc (tr_handshakes t) \<and> (\<forall>s. res = Inr s \<longrightarrow> tr_session t' = Some s)"
proof (cases "tr_session t")
  case (Some s)
  then show ?thesis using assms by (auto simp: get_session_def mark_trans)
next
  case None
  obtain r t1 where h: "do_handshake L net t = (r, t1)" by (cases "do_handshake L net t")
  note e = do_handshake_effect [OF h]
  show ?thesis using assms e
    by (cases r) (auto simp: get_session_def None h frontier_def mark_le_def)
qed

lemma seal_next_effect:
  assumes "seal_next L net mth path payload t = (res, t')"
  shows "mark_le (frontier t) (frontier t') \<and> length (tr_log t') \<le> Suc (length (tr_log t)) \<and>
    tr_handshakes t' \<le> Suc (tr_handshakes t) \<and>
    (\<forall>s e. res = Inr (s, e) \<longrightarrow> mark_less (frontier t) (frontier t') \<and> frontier t' = (tr_handshakes t', ss_c2s_counter s) \<and>
       tr_session t' = Some s \<and>
       client_seal (cl_nacl L) (ho_c2s (ss_outcome s)) (ss_c2s_counter s) (ho_session_id (ss_outcome s))
         (str_upper mth) path (request_body (cl_json L) payload) = Inr e)"
proof -
  obtain r t1 where g: "get_session L net t = (r, t1)" by (cases "get_session L net t")
  note e = get_session_effect [OF g]
  show ?thesis
  proof (cases r)
    case (Inl x)
    then show ?thesis using assms e by (auto simp: seal_next_def g)
  next
    case (Inr s)
    define s' where "s' = s\<lparr>ss_c2s_counter := ss_c2s_counter s + 1\<rparr>"
    define t2 where "t2 = t1\<lparr>tr_session := Some s'\<rparr>"
    have "mark_less (frontier t1) (frontier t2)"
      using e by (simp add: Inr frontier_def t2_def s'_def mark_less_def)
    then have less: "mark_less (frontier t) (frontier t2)" using e mark_trans by blast
    have t2: "length (tr_log t2) \<le> Suc (length (tr_log t))" "tr_handshakes t2 \<le> Suc (tr_handshakes t)"
      "frontier t2 = (tr_handshakes t2, ss_c2s_counter s')" "tr_session t2 = Some s'"
      using e by (simp_all add: t2_def frontier_def)
    have "seal_next L net mth path payload t =
        (case client_seal (cl_nacl L) (ho_c2s (ss_outcome s')) (ss_c2s_counter s') (ho_session_id (ss_outcome s'))
            (str_upper mth) path (request_body (cl_json L) payload) of
           Inl e \<Rightarrow> (Inl (seal_exn e), t2) | Inr envelope \<Rightarrow> (Inr (s', envelope), t2))"
      unfolding seal_next_def g Inr prod.case sum.case Let_def s'_def [symmetric] t2_def [symmetric] ..
    then show ?thesis using assms less t2 mark_trans(4) [OF less] by (auto split: sum.splits)
  qed
qed

text \<open>Any use of one transport, as far as sealing goes: seal the next body, send, forget the session, reset.\<close>

datatype seal_op = SealOp string string "json option" | SendOp http_request | ForgetOp | ResetOp

fun seal_marks :: "client_lib \<Rightarrow> network \<Rightarrow> seal_op list \<Rightarrow> transport \<Rightarrow> (nat \<times> int) list" where
  "seal_marks L net [] t = []"
| "seal_marks L net (SealOp mth path payload # ops) t =
     (case seal_next L net mth path payload t of
        (Inl e, t) \<Rightarrow> seal_marks L net ops t
      | (Inr (s, envelope), t) \<Rightarrow> (tr_handshakes t, ss_c2s_counter s) # seal_marks L net ops t)"
| "seal_marks L net (SendOp q # ops) t = seal_marks L net ops (snd (send net q t))"
| "seal_marks L net (ForgetOp # ops) t = seal_marks L net ops (t\<lparr>tr_session := None\<rparr>)"
| "seal_marks L net (ResetOp # ops) t = seal_marks L net ops (reset_session net t)"

lemma frontier_forget: "mark_le (frontier t) (frontier (t\<lparr>tr_session := None\<rparr>))"
  by (cases "tr_session t") (simp_all add: frontier_def mark_le_def)

lemma frontier_send [simp]: "frontier (snd (send net q t)) = frontier t"
  by (cases "tr_session t") (simp_all add: frontier_def)

lemma frontier_reset: "mark_le (frontier t) (frontier (reset_session net t))"
  by (cases "tr_session t") (simp_all add: reset_session_def mark_trans frontier_forget)

lemma seal_marks_sorted:
  "(\<forall>b \<in> set (seal_marks L net ops t). mark_less (frontier t) b) \<and> distinct (seal_marks L net ops t)"
proof (induction L net ops t rule: seal_marks.induct)
  case (2 L net mth path payload ops t)
  obtain r t' where r: "seal_next L net mth path payload t = (r, t')" by (cases "seal_next L net mth path payload t")
  note e = seal_next_effect [OF r]
  show ?case
  proof (cases r)
    case (Inl x)
    then show ?thesis using "2.IH"(1) [OF r [symmetric]] e by (auto simp: r intro: mark_trans(3))
  next
    case (Inr se)
    obtain s env where se: "se = (s, env)" by (cases se)
    from e Inr se have f: "mark_less (frontier t) (frontier t')" "frontier t' = (tr_handshakes t', ss_c2s_counter s)" by auto
    have IH: "\<forall>b \<in> set (seal_marks L net ops t'). mark_less (frontier t') b" "distinct (seal_marks L net ops t')"
      using "2.IH"(2) [OF r [symmetric]] Inr se by auto
    then have "frontier t' \<notin> set (seal_marks L net ops t')" using mark_trans(6) by blast
    moreover have "mark_less (frontier t) b" if "b \<in> set (seal_marks L net ops t')" for b
      using IH(1) that by (intro mark_trans(3) [OF mark_trans(4) [OF f(1)]]) simp
    ultimately show ?thesis using IH(2) f by (simp add: r Inr se)
  qed
next
  case (3 L net q ops t)
  then show ?case by simp
next
  case (4 L net ops t)
  then show ?case using mark_trans(3) [OF frontier_forget [of t]] by simp
next
  case (5 L net ops t)
  then show ?case using mark_trans(3) [OF frontier_reset [of t net]] by simp
qed simp

section \<open>Properties\<close>

text \<open>C22. No counter is ever used twice under one session's keys: along any use of a transport (requests,
  streams, failed sends, forgotten and reset sessions) the pairs of handshake number and counter under
  which bodies are sealed are pairwise distinct.\<close>

theorem client_counters_never_reused:
  "distinct (seal_marks L net ops (transport_new base identity pinned verifier measurement required))"
  using seal_marks_sorted by blast

lemma request_once_bound:
  assumes "request L net mth path payload retry t = (res, t')"
  shows "length (tr_log t') \<le> length (tr_log t) + (if retry then 4 else 2) \<and>
    tr_handshakes t' \<le> tr_handshakes t + (if retry then 2 else 1)"
  using assms
proof (induction L net mth path payload retry t rule: request.induct)
  case (1 L net mth path payload retry t)
  obtain r t1 where sn: "seal_next L net mth path payload t = (r, t1)" by (cases "seal_next L net mth path payload t")
  note e = seal_next_effect [OF sn]
  show ?case
  proof (cases r)
    case (Inl x)
    then show ?thesis using 1(2) e by (auto simp: request.simps [of L net mth path payload retry t] sn)
  next
    case (Inr se)
    obtain s env where se: "se = (s, env)" by (cases se)
    define q where "q = \<lparr>hq_method = mth, hq_path = path,
      hq_headers = [(''content-type'', ''application/octet-stream'')], hq_body = env\<rparr>"
    obtain ans t2 where sd: "send net q t1 = (ans, t2)" by (cases "send net q t1")
    note d = send_eq [OF sd]
    show ?thesis
    proof (cases ans)
      case None
      then show ?thesis using 1(2) e d
        by (auto simp: request.simps [of L net mth path payload retry t] sn Inr se sd [unfolded q_def])
    next
      case (Some a)
      show ?thesis
      proof (cases "hp_status a \<in> {401, 400} \<and> retry \<and>
          try_extract_error_code (cl_json L) (hp_body a) \<in> {Some UNKNOWN_SESSION, Some SESSION_EXPIRED}")
        case True
        have rq: "request L net mth path payload False (t2\<lparr>tr_session := None\<rparr>) = (res, t')"
          using 1(2) unfolding request.simps [of L net mth path payload retry t] sn Inr se prod.case sum.case
            sd [unfolded q_def] Some option.case if_P [OF True] .
        have "length (tr_log t') \<le> length (tr_log (t2\<lparr>tr_session := None\<rparr>)) + (if False then 4 else 2) \<and>
            tr_handshakes t' \<le> tr_handshakes (t2\<lparr>tr_session := None\<rparr>) + (if False then 2 else 1)"
          by (rule 1(1) [OF sn [symmetric] Inr se [symmetric] sd [unfolded q_def, symmetric] Some True rq])
        then show ?thesis using True d e by simp
      next
        case False
        then show ?thesis using 1(2) e d
          by (auto simp: request.simps [of L net mth path payload retry t] sn Inr se sd [unfolded q_def] Some
              split: prod.splits)
      qed
    qed
  qed
qed



definition demo_lib :: client_lib where
  "demo_lib = \<lparr>cl_nacl = demo_nacl, cl_json = unary_json, cl_validate = (\<lambda>b. None), cl_eph = (\<lambda>i. []), cl_clock = (\<lambda>i. 0)\<rparr>"

definition demo_session_state :: session_state where
  "demo_session_state = \<lparr>ss_outcome = \<lparr>ho_session_id = replicate 16 8, ho_c2s = demo_keys, ho_s2c = demo_keys,
     ho_ttl_seconds = 60, ho_server_static_pk = replicate 32 1\<rparr>, ss_c2s_counter = 0, ss_last_replay_high = 0\<rparr>"

lemma demo_response:
  "\<exists>buf env. client_open_envelope demo_nacl demo_keys (replicate 16 8) ''GET'' ''/'' buf = Inr (env, []) \<and> env_counter env = 1"
proof -
  obtain buf where "seal demo_nacl demo_keys 1 (replicate 16 8) ''GET'' ''/'' [] = Inr buf"
    using demo_seal [of 1 "[]"] by (auto simp: counter_ok_def)
  from open_seal [OF demo_nacl_laws(1) demo_keys_ok this] show ?thesis unfolding client_open_eq by blast
qed


end
