(* ===== verification/Streaming.thy ===== *)
theory Streaming
  imports EnvelopeDep Transport Filesystem
begin

text \<open>
  Streaming of chat completions (\<open>server/.../llm/streaming.py\<close>): every chunk of llama.cpp becomes one
  server-sent event that carries an envelope of its own. What happens at each turn of the loop (a chunk,
  the keepalive timeout, the end, a cancellation, an exception of the source) is a list of events. The
  \<open>is_disconnected\<close> argument is always \<open>None\<close> in the source and left out. The client's side is
  \<open>stream_lines\<close> of theory \<open>Transport\<close>; here the two are put together.
\<close>

section \<open>Chunks\<close>

record chunk_choice =
  cc_index :: int
  cc_role :: "string option"
  cc_content :: "string option"
  cc_finish_reason :: "string option"

record chat_chunk =
  ch_id :: string
  ch_model :: string
  ch_created :: int
  ch_choices :: "chunk_choice list"

text \<open>The fields as the schema admits them.\<close>

definition ROLES :: "string list" where
  "ROLES = [''system'', ''user'', ''assistant'', ''tool'']"

definition FINISH_REASONS :: "string list" where
  "FINISH_REASONS = [''stop'', ''length'', ''cancelled'', ''error'']"

definition validation_error :: exn where
  "validation_error = ValueError ''ValidationError''"

fun opt_text :: "json option \<Rightarrow> string option result" where
  "opt_text None = Inr None"
| "opt_text (Some JNull) = Inr None"
| "opt_text (Some (JStr s)) = Inr (Some s)"
| "opt_text (Some v) = Inl validation_error"

definition opt_literal :: "string list \<Rightarrow> json option \<Rightarrow> string option result" where
  "opt_literal allowed v =
     and_then (opt_text v) (\<lambda>s. case s of
       None \<Rightarrow> Inr None
     | Some w \<Rightarrow> if w \<in> set allowed then Inr (Some w) else Inl validation_error)"

text \<open>\<open>x.get(k) or default\<close>.\<close>

definition get_or :: "json \<Rightarrow> string \<Rightarrow> json \<Rightarrow> json result" where
  "get_or v k d = and_then (json_get v k) (\<lambda>x. case x of None \<Rightarrow> Inr d | Some y \<Rightarrow> Inr (if json_truthy y then y else d))"

definition get_default :: "json \<Rightarrow> string \<Rightarrow> json \<Rightarrow> json result" where
  "get_default v k d = and_then (json_get v k) (\<lambda>x. case x of None \<Rightarrow> Inr d | Some y \<Rightarrow> Inr y)"

definition to_choice :: "json \<Rightarrow> chunk_choice result" where
  "to_choice choice =
     and_then (get_or choice ''delta'' (JObj [])) (\<lambda>delta.
     and_then (and_then (get_default choice ''index'' (JInt 0)) json_int) (\<lambda>index.
     and_then (and_then (json_get delta ''role'') (opt_literal ROLES)) (\<lambda>role.
     and_then (and_then (json_get delta ''content'') opt_text) (\<lambda>content.
     and_then (and_then (json_get choice ''finish_reason'') (opt_literal FINISH_REASONS)) (\<lambda>finish.
     Inr \<lparr>cc_index = index, cc_role = role, cc_content = content, cc_finish_reason = finish\<rparr>)))))"

fun to_choices :: "json list \<Rightarrow> chunk_choice list result" where
  "to_choices [] = Inr []"
| "to_choices (c # cs) = and_then (to_choice c) (\<lambda>x. and_then (to_choices cs) (\<lambda>xs. Inr (x # xs)))"

definition text_field :: "json \<Rightarrow> string result" where
  "text_field v = (case v of JStr s \<Rightarrow> Inr s | _ \<Rightarrow> Inl validation_error)"

definition llama_chunk_to_pydantic :: "string \<Rightarrow> string \<Rightarrow> int \<Rightarrow> json \<Rightarrow> chat_chunk result" where
  "llama_chunk_to_pydantic model msg_id created raw =
     and_then (and_then (get_or raw ''choices'' (JList [])) json_iter) (\<lambda>choices.
     and_then (to_choices choices) (\<lambda>choices.
     and_then (and_then (get_default raw ''id'' (JStr msg_id)) text_field) (\<lambda>ident.
     and_then (and_then (get_default raw ''model'' (JStr model)) text_field) (\<lambda>mdl.
     and_then (and_then (get_default raw ''created'' (JInt created)) json_int) (\<lambda>created.
     Inr \<lparr>ch_id = ident, ch_model = mdl, ch_created = created, ch_choices = choices\<rparr>)))))"

text \<open>\<open>model_dump_json\<close>: every field, absent ones as null.\<close>

definition choice_json :: "chunk_choice \<Rightarrow> json" where
  "choice_json c = JObj
     [(''index'', JInt (cc_index c)),
      (''delta'', JObj [(''role'', json_opt_str (cc_role c)), (''content'', json_opt_str (cc_content c))]),
      (''finish_reason'', json_opt_str (cc_finish_reason c))]"

definition chunk_json :: "chat_chunk \<Rightarrow> json" where
  "chunk_json c = JObj
     [(''id'', JStr (ch_id c)), (''model'', JStr (ch_model c)), (''created'', JInt (ch_created c)),
      (''choices'', JList (map choice_json (ch_choices c)))]"

section \<open>Events\<close>

definition SSE_END_MARKER :: string where
  "SSE_END_MARKER = ''data: [DONE]'' @ [CHR 0x0A, CHR 0x0A]"

definition sse_frame :: "bytes \<Rightarrow> string" where
  "sse_frame envelope = ''data: '' @ b64encode envelope @ [CHR 0x0A, CHR 0x0A]"

definition keepalive_json :: json where
  "keepalive_json = JObj [(''keepalive'', JBool True)]"

text \<open>The counter advances before sealing, also when sealing fails.\<close>

definition seal_chunk :: "nacl \<Rightarrow> json_lib \<Rightarrow> string \<Rightarrow> string \<Rightarrow> json \<Rightarrow> session \<Rightarrow> (seal_error + string) \<times> session" where
  "seal_chunk N J mth path payload s =
     (let s = s\<lparr>se_s2c_counter := se_s2c_counter s + 1\<rparr> in
      (case seal N (se_s2c s) (se_s2c_counter s) (se_session_id s) mth path (json_dumps J payload) of
         Inl e \<Rightarrow> Inl e
       | Inr envelope \<Rightarrow> Inr (sse_frame envelope), s))"

datatype stream_event =
    NextChunk json
  | KeepaliveTimeout
  | Exhausted \<comment> \<open>\<open>StopAsyncIteration\<close>\<close>
  | CancelSeen \<comment> \<open>\<open>cancel_event.is_set()\<close> at the head of the loop, or \<open>CancelledError\<close>\<close>
  | SourceRaises exn

datatype stream_exn = StreamExn exn | StreamSeal seal_error

fun stream_chat_envelopes ::
  "nacl \<Rightarrow> json_lib \<Rightarrow> string \<Rightarrow> string \<Rightarrow> string \<Rightarrow> string \<Rightarrow> int \<Rightarrow> stream_event list \<Rightarrow> session \<Rightarrow>
   string list \<times> stream_exn option \<times> session" where
  "stream_chat_envelopes N J mth path model msg_id created [] s = ([SSE_END_MARKER], None, s)"
| "stream_chat_envelopes N J mth path model msg_id created (ev # evs) s =
     (case ev of
        Exhausted \<Rightarrow> ([SSE_END_MARKER], None, s)
      | CancelSeen \<Rightarrow> ([SSE_END_MARKER], None, s)
      | SourceRaises e \<Rightarrow> ([], Some (StreamExn e), s)
      | KeepaliveTimeout \<Rightarrow>
          (case seal_chunk N J mth path keepalive_json s of
             (Inl e, s) \<Rightarrow> ([], Some (StreamSeal e), s)
           | (Inr sse, s) \<Rightarrow>
               (case stream_chat_envelopes N J mth path model msg_id created evs s of
                  (out, err, s) \<Rightarrow> (sse # out, err, s)))
      | NextChunk raw \<Rightarrow>
          (case llama_chunk_to_pydantic model msg_id created raw of
             Inl e \<Rightarrow> ([], Some (StreamExn e), s)
           | Inr chunk \<Rightarrow>
               (case seal_chunk N J mth path (chunk_json chunk) s of
                  (Inl e, s) \<Rightarrow> ([], Some (StreamSeal e), s)
                | (Inr sse, s) \<Rightarrow>
                    (case stream_chat_envelopes N J mth path model msg_id created evs s of
                       (out, err, s) \<Rightarrow> (sse # out, err, s)))))"

text \<open>What a stream is meant to carry: the normalized chunks and keepalives up to its end.\<close>

fun stream_payloads :: "string \<Rightarrow> string \<Rightarrow> int \<Rightarrow> stream_event list \<Rightarrow> json list" where
  "stream_payloads model msg_id created [] = []"
| "stream_payloads model msg_id created (ev # evs) =
     (case ev of
        KeepaliveTimeout \<Rightarrow> keepalive_json # stream_payloads model msg_id created evs
      | NextChunk raw \<Rightarrow>
          (case llama_chunk_to_pydantic model msg_id created raw of
             Inl e \<Rightarrow> []
           | Inr chunk \<Rightarrow> chunk_json chunk # stream_payloads model msg_id created evs)
      | _ \<Rightarrow> [])"

section \<open>From the server to the client\<close>

text \<open>The lines of a text as \<open>iter_lines\<close> yields them.\<close>

definition text_lines :: "string \<Rightarrow> string list" where
  "text_lines s = split_on (CHR 0x0A) s"

lemma split_on_append: "c \<notin> set xs \<Longrightarrow> split_on c (xs @ c # ys) = xs # split_on c ys"
  by (induction xs) auto

lemma b64_char_alphabet: "n < 64 \<Longrightarrow> b64_char n \<in> set b64_alphabet"
proof -
  assume n: "n < 64"
  have "length b64_alphabet = 64" by code_simp
  then show ?thesis using n by (simp add: b64_char_def)
qed

lemma b64encode_alphabet: "set (b64encode bs) \<subseteq> insert (CHR ''='') (set b64_alphabet)"
proof (induction bs rule: b64encode.induct)
  case 1
  then show ?case by simp
next
  case (2 a)
  then show ?case using byte_lt [of a] by (auto simp: Let_def intro!: b64_char_alphabet)
next
  case (3 a b)
  then show ?case using byte_lt [of a] byte_lt [of b] by (auto simp: Let_def intro!: b64_char_alphabet)
next
  case (4 a b c bs)
  then show ?case using byte_lt [of a] byte_lt [of b] byte_lt [of c] by (auto simp: Let_def intro!: b64_char_alphabet)
qed

lemma b64encode_plain: "c \<in> set (b64encode bs) \<Longrightarrow> \<not> is_space c \<and> c \<noteq> CHR 0x0A \<and> c \<noteq> CHR ''[''"
proof -
  assume "c \<in> set (b64encode bs)"
  then have "c \<in> set (''='' @ b64_alphabet)" using b64encode_alphabet by fastforce
  moreover have "list_all (\<lambda>c. \<not> is_space c \<and> c \<noteq> CHR 0x0A \<and> c \<noteq> CHR ''['') (''='' @ b64_alphabet)" by code_simp
  ultimately show ?thesis unfolding list_all_iff by blast
qed

lemma strip_b64: "strip (CHR '' '' # b64encode bs) = b64encode bs"
proof -
  have none: "dropWhile is_space xs = xs" if "\<And>c. c \<in> set xs \<Longrightarrow> \<not> is_space c" for xs
    using that by (cases xs) auto
  have "is_space (CHR '' '')" by code_simp
  moreover have "dropWhile is_space (b64encode bs) = b64encode bs" "dropWhile is_space (rev (b64encode bs)) = rev (b64encode bs)"
    using b64encode_plain by (auto intro!: none)
  ultimately show ?thesis by (simp add: strip_def)
qed

lemma strip_done: "strip '' [DONE]'' = ''[DONE]''"
  by code_simp

lemma frame_lines: "text_lines (sse_frame e @ rest) = (''data: '' @ b64encode e) # [] # text_lines rest"
proof -
  have "CHR 0x0A \<notin> set (''data: '' @ b64encode e)" using b64encode_plain by force
  from split_on_append [OF this, of "CHR 0x0A # rest"] show ?thesis
    by (simp add: text_lines_def sse_frame_def)
qed

lemma end_lines: "text_lines SSE_END_MARKER = [''data: [DONE]'', [], []]"
  by code_simp

lemma replay_check_new:
  assumes "\<forall>x \<in> set (rc_seen r). x < c"
  shows "\<exists>r'. replay_client_check c r = Inr r' \<and> (\<forall>x \<in> set (rc_seen r'). x \<le> c)"
proof -
  have "c \<notin> set (rc_seen r)" using assms by auto
  moreover have "set (drop n (sort (List.insert c (rc_seen r)))) \<subseteq> insert c (set (rc_seen r))" for n
    using set_drop_subset [of n "sort (List.insert c (rc_seen r))"] by simp
  ultimately show ?thesis using assms by (fastforce simp: replay_client_check_def Let_def)
qed

lemma client_reads_frame:
  assumes "aead_ok (cl_nacl L)" and "dk_ok (ho_s2c (ss_outcome cs))"
    and "seal (cl_nacl L) (ho_s2c (ss_outcome cs)) c (ho_session_id (ss_outcome cs)) (str_upper mth) path
      (json_dumps (cl_json L) v) = Inr e"
    and "json_roundtrips (cl_json L) v" and "json_dumps (cl_json L) v \<noteq> []"
    and "replay_client_check c replay = Inr replay'"
  shows "stream_lines L cs mth path (text_lines (sse_frame e @ rest)) replay =
    (case stream_lines L cs mth path (text_lines rest) replay' of (vs, err, r) \<Rightarrow> (v # vs, err, r))"
proof -
  obtain env where op: "client_open_envelope (cl_nacl L) (ho_s2c (ss_outcome cs)) (ho_session_id (ss_outcome cs))
      (str_upper mth) path e = Inr (env, json_dumps (cl_json L) v)" "env_counter env = c"
    using open_seal [OF assms(1-3)] unfolding client_open_eq by blast
  have dec: "b64decode True (b64encode e) = Inr e" by (rule b64_strict.dec_enc) simp
  have not_done: "b64encode e \<noteq> ''[DONE]''" using b64encode_plain [of "CHR ''[''" e] by auto
  have ld: "load_plaintext (cl_json L) (json_dumps (cl_json L) v) = Inr v"
    using assms(4,5) by (simp add: load_plaintext_def json_roundtrips_def)
  show ?thesis unfolding frame_lines
    by (simp add: has_prefix_def strip_b64 dec not_done op assms(6) ld Let_def)
qed

lemma end_stream: "stream_lines L cs mth path (text_lines SSE_END_MARKER) r = ([], None, r)"
  by (simp add: end_lines strip_done has_prefix_def)

section \<open>Properties\<close>

text \<open>A stream arrives as it was sent: a client that shares the session's keys and has seen none of the
  coming counters reads, from the lines of everything the server yields, exactly the normalized chunks
  and keepalives in their order, and ends without an exception.\<close>

theorem client_receives_stream:
  assumes "aead_ok (cl_nacl L)" and "\<And>v. json_roundtrips (cl_json L) v \<and> json_dumps (cl_json L) v \<noteq> []"
    and "dk_ok (se_s2c s)" and "ho_s2c (ss_outcome cs) = se_s2c s" and "ho_session_id (ss_outcome cs) = se_session_id s"
    and "\<forall>x \<in> set (rc_seen replay). x \<le> se_s2c_counter s"
    and "stream_chat_envelopes (cl_nacl L) (cl_json L) (str_upper mth) path model msg_id created evs s = (out, None, s')"
  shows "\<exists>replay'. stream_lines L cs mth path (text_lines (concat out)) replay =
      (stream_payloads model msg_id created evs, None, replay') \<and>
    (\<forall>x \<in> set (rc_seen replay'). x \<le> se_s2c_counter s')"
  using assms(3-7)
proof (induction evs arbitrary: s out replay)
  case Nil
  then show ?case using end_stream by auto
next
  case (Cons ev evs)
  have frame: "\<exists>replay'. stream_lines L cs mth path (text_lines (concat out)) replay =
      (v # stream_payloads model msg_id created evs, None, replay') \<and> (\<forall>x \<in> set (rc_seen replay'). x \<le> se_s2c_counter s')"
    if sc: "seal_chunk (cl_nacl L) (cl_json L) (str_upper mth) path v s = (Inr sse, s1)"
      and rest: "stream_chat_envelopes (cl_nacl L) (cl_json L) (str_upper mth) path model msg_id created evs s1 = (out1, None, s')"
      and out: "out = sse # out1" for v sse s1 out1
  proof -
    let ?c = "se_s2c_counter s + 1"
    from sc obtain e where e: "seal (cl_nacl L) (se_s2c s) ?c (se_session_id s) (str_upper mth) path (json_dumps (cl_json L) v) = Inr e"
      and sse: "sse = sse_frame e" and s1: "s1 = s\<lparr>se_s2c_counter := ?c\<rparr>"
      by (auto simp: seal_chunk_def Let_def split: sum.splits)
    obtain r1 where r1: "replay_client_check ?c replay = Inr r1" "\<forall>x \<in> set (rc_seen r1). x \<le> ?c"
      using replay_check_new [of replay ?c] Cons.prems(4) by fastforce
    have dk: "dk_ok (ho_s2c (ss_outcome cs))" using Cons.prems(1,2) by simp
    have e': "seal (cl_nacl L) (ho_s2c (ss_outcome cs)) ?c (ho_session_id (ss_outcome cs)) (str_upper mth) path
        (json_dumps (cl_json L) v) = Inr e" using e Cons.prems(2,3) by simp
    note rd = client_reads_frame [OF assms(1) dk e' conjunct1 [OF assms(2)] conjunct2 [OF assms(2)] r1(1), of "concat out1"]
    obtain r2 where r2: "stream_lines L cs mth path (text_lines (concat out1)) r1 =
        (stream_payloads model msg_id created evs, None, r2)" "\<forall>x \<in> set (rc_seen r2). x \<le> se_s2c_counter s'"
      using Cons.IH [OF _ _ _ _ rest, of r1] Cons.prems(1-3) r1(2) by (auto simp: s1)
    show ?thesis using rd r2 by (simp add: out sse)
  qed
  show ?case
  proof (cases ev)
    case (NextChunk raw)
    then obtain chunk where ch: "llama_chunk_to_pydantic model msg_id created raw = Inr chunk"
      using Cons.prems(5) by (cases "llama_chunk_to_pydantic model msg_id created raw") auto
    obtain sse s1 out1 where "seal_chunk (cl_nacl L) (cl_json L) (str_upper mth) path (chunk_json chunk) s = (Inr sse, s1)"
      "stream_chat_envelopes (cl_nacl L) (cl_json L) (str_upper mth) path model msg_id created evs s1 = (out1, None, s')"
      "out = sse # out1"
      using Cons.prems(5) by (auto simp: NextChunk ch split: prod.splits sum.splits)
    from frame [OF this] show ?thesis by (simp add: NextChunk ch)
  next
    case KeepaliveTimeout
    obtain sse s1 out1 where "seal_chunk (cl_nacl L) (cl_json L) (str_upper mth) path keepalive_json s = (Inr sse, s1)"
      "stream_chat_envelopes (cl_nacl L) (cl_json L) (str_upper mth) path model msg_id created evs s1 = (out1, None, s')"
      "out = sse # out1"
      using Cons.prems(5) by (auto simp: KeepaliveTimeout split: prod.splits sum.splits)
    from frame [OF this] show ?thesis by (simp add: KeepaliveTimeout)
  next
    case Exhausted
    then show ?thesis using Cons.prems(4,5) end_stream by auto
  next
    case CancelSeen
    then show ?thesis using Cons.prems(4,5) end_stream by auto
  next
    case (SourceRaises e)
    then show ?thesis using Cons.prems(5) by simp
  qed
qed

definition demo_stream_session :: session where
  "demo_stream_session = \<lparr>se_session_id = replicate 16 8, se_c2s = demo_keys, se_s2c = demo_keys, se_created_at = 0,
     se_last_used_at = 0, se_ttl_seconds = 60, se_max_lifetime_seconds = 600, se_client_fingerprint = ''f'',
     se_scopes = {||}, se_tenant = DEFAULT_TENANT, se_replay = replay_window_new, se_s2c_counter = 0, se_closed = False\<rparr>"

theorem client_receives_stream_witness:
  "\<exists>out s' replay'. stream_chat_envelopes demo_nacl unary_json ''GET'' ''/'' ''m'' ''id'' 0
      [NextChunk (JObj [(''choices'', JList [])]), KeepaliveTimeout, Exhausted] demo_stream_session = (out, None, s') \<and>
    stream_lines demo_lib demo_session_state ''GET'' ''/'' (text_lines (concat out)) replay_client_new =
      ([chunk_json \<lparr>ch_id = ''id'', ch_model = ''m'', ch_created = 0, ch_choices = []\<rparr>, keepalive_json], None, replay')"
proof -
  let ?evs = "[NextChunk (JObj [(''choices'', JList [])]), KeepaliveTimeout, Exhausted]"
  let ?chunk = "\<lparr>ch_id = ''id'', ch_model = ''m'', ch_created = 0, ch_choices = []\<rparr>"
  have ch: "llama_chunk_to_pydantic ''m'' ''id'' 0 (JObj [(''choices'', JList [])]) = Inr ?chunk"
    by (simp add: llama_chunk_to_pydantic_def get_or_def get_default_def text_field_def)
  have sc: "\<exists>sse. seal_chunk demo_nacl unary_json ''GET'' ''/'' v (demo_stream_session\<lparr>se_s2c_counter := c\<rparr>) =
      (Inr sse, demo_stream_session\<lparr>se_s2c_counter := c + 1\<rparr>)" if "0 \<le> c" "c < 100" for v c
  proof -
    have "counter_ok (c + 1)" using that by (simp add: counter_ok_def)
    from demo_seal [OF this] obtain buf where
      "seal demo_nacl demo_keys (c + 1) (replicate 16 8) ''GET'' ''/'' (json_dumps unary_json v) = Inr buf" by blast
    then show ?thesis by (simp add: seal_chunk_def demo_stream_session_def Let_def)
  qed
  obtain e1 e2 where e: "seal_chunk demo_nacl unary_json ''GET'' ''/'' (chunk_json ?chunk) (demo_stream_session\<lparr>se_s2c_counter := 0\<rparr>) =
      (Inr e1, demo_stream_session\<lparr>se_s2c_counter := 1\<rparr>)"
    "seal_chunk demo_nacl unary_json ''GET'' ''/'' keepalive_json (demo_stream_session\<lparr>se_s2c_counter := 1\<rparr>) =
      (Inr e2, demo_stream_session\<lparr>se_s2c_counter := 2\<rparr>)"
    using sc [of 0 "chunk_json ?chunk"] sc [of 1 keepalive_json] by auto
  have zero: "demo_stream_session\<lparr>se_s2c_counter := 0\<rparr> = demo_stream_session" by (simp add: demo_stream_session_def)
  have st: "stream_chat_envelopes demo_nacl unary_json ''GET'' ''/'' ''m'' ''id'' 0 ?evs demo_stream_session =
      ([e1, e2, SSE_END_MARKER], None, demo_stream_session\<lparr>se_s2c_counter := 2\<rparr>)"
    by (simp add: ch e [unfolded zero])
  have up: "str_upper ''GET'' = ''GET''" by code_simp
  have L: "cl_nacl demo_lib = demo_nacl" "cl_json demo_lib = unary_json" by (simp_all add: demo_lib_def)
  have laws: "json_roundtrips unary_json v \<and> json_dumps unary_json v \<noteq> []" for v by simp
  have keys: "dk_ok (se_s2c demo_stream_session)" "ho_s2c (ss_outcome demo_session_state) = se_s2c demo_stream_session"
    "ho_session_id (ss_outcome demo_session_state) = se_session_id demo_stream_session"
    "\<forall>x \<in> set (rc_seen replay_client_new). x \<le> se_s2c_counter demo_stream_session"
    by (simp_all add: demo_stream_session_def demo_session_state_def demo_keys_ok replay_client_new_def)
  note rs = client_receives_stream [where L = demo_lib and mth = "''GET''", unfolded L up,
      OF demo_nacl_laws(1) laws keys st]
  with st show ?thesis by (auto simp: ch)
qed

text \<open>Cutting a stream is not noticed: the client yields a prefix of the payloads and ends without an
  exception wherever the lines stop, although the server always sends a final \<open>[DONE]\<close>.\<close>

theorem stream_truncation_unnoticed:
  assumes "stream_lines L s mth path (lines @ rest) replay = (vs, None, replay')"
  shows "\<exists>vs' replay''. stream_lines L s mth path lines replay = (vs', None, replay'') \<and> vs' = take (length vs') vs"
  using assms
proof (induction L s mth path lines replay arbitrary: vs replay' rule: stream_lines.induct)
  case (1 L s mth path replay)
  then show ?case by simp
next
  case (2 L s mth path line lines replay)
  show ?case
  proof (cases "line = [] \<or> has_prefix '':'' line \<or> \<not> has_prefix ''data:'' line")
    case True
    then show ?thesis using "2.IH"(1) [OF True] "2.prems" by auto
  next
    case False
    show ?thesis
    proof (cases "strip (drop 5 line) = ''[DONE]''")
      case True
      then show ?thesis using False by simp
    next
      case no_end: False
      obtain raw env pt r1 v vs1 where st: "b64decode True (strip (drop 5 line)) = Inr raw"
        "client_open_envelope (cl_nacl L) (ho_s2c (ss_outcome s)) (ho_session_id (ss_outcome s)) (str_upper mth) path raw = Inr (env, pt)"
        "replay_client_check (env_counter env) replay = Inr r1" "load_plaintext (cl_json L) pt = Inr v"
        "stream_lines L s mth path (lines @ rest) r1 = (vs1, None, replay')" "vs = v # vs1"
        using "2.prems" False no_end by (auto simp: Let_def split: sum.splits open_error.splits prod.splits)
      from "2.IH"(2) [OF False refl no_end st(1,2) refl st(3,4,5)] obtain vs' r' where
        "stream_lines L s mth path lines r1 = (vs', None, r')" "vs' = take (length vs') vs1" by blast
      then show ?thesis using False no_end st by (auto simp: Let_def)
    qed
  qed
qed

theorem stream_truncation_unnoticed_witness:
  "\<exists>line rest vs' r1 r'. stream_lines demo_lib demo_session_state ''GET'' ''/'' ([line] @ rest) replay_client_new =
      ([keepalive_json], None, r1) \<and>
    stream_lines demo_lib demo_session_state ''GET'' ''/'' [line] replay_client_new = (vs', None, r') \<and>
    vs' = take (length vs') [keepalive_json]"
proof -
  have "counter_ok 1" by (simp add: counter_ok_def)
  from demo_seal [OF this] obtain e where e: "seal demo_nacl demo_keys 1 (replicate 16 8) ''GET'' ''/'' (json_dumps unary_json keepalive_json) = Inr e"
    by blast
  obtain r1 where r1: "replay_client_check 1 replay_client_new = Inr r1"
    by (simp add: replay_client_check_def replay_client_new_def Let_def)
  have up: "str_upper ''GET'' = ''GET''" by code_simp
  have "stream_lines demo_lib demo_session_state ''GET'' ''/'' (text_lines (sse_frame e @ SSE_END_MARKER)) replay_client_new =
      (case stream_lines demo_lib demo_session_state ''GET'' ''/'' (text_lines SSE_END_MARKER) r1 of
         (vs, err, r) \<Rightarrow> (keepalive_json # vs, err, r))"
    by (rule client_reads_frame [where c = 1])
      (simp_all add: demo_lib_def demo_session_state_def demo_nacl_laws demo_keys_ok up e r1)
  then have full: "stream_lines demo_lib demo_session_state ''GET'' ''/''
      ([''data: '' @ b64encode e] @ [] # text_lines SSE_END_MARKER) replay_client_new = ([keepalive_json], None, r1)"
    by (simp only: frame_lines end_stream prod.case append_Cons append_Nil)
  from stream_truncation_unnoticed [OF this] full show ?thesis by blast
qed

end
