(* ===== verification/Observability.thy ===== *)
theory Observability
  imports Filesystem Json
begin

text \<open>
  Logging and error records (\<open>server/.../logging.py\<close>, \<open>observability/ring_log.py\<close>,
  \<open>observability/error_tracker.py\<close>, \<open>middleware/audit.py\<close>): the processors an event goes through, the
  ring behind the log tail of the debug API and the bounded record of exceptions. Handlers, files and
  the rendering of a line are not modelled: a line that reaches the handlers is the event dictionary.
  \<open>str\<close> of a value that is no string and pydantic's reading of a number are arguments. The locks of
  the ring and of the tracker are not modelled (operations are atomic).
\<close>

datatype pyval = PyJson json | PyBytes bytes

type_synonym event_dict = "(string, pyval) dict"

record obs_lib =
  ol_str :: "pyval \<Rightarrow> string" \<comment> \<open>\<open>str(v)\<close> of a value that is not a string\<close>
  ol_float :: "pyval \<Rightarrow> float_py option" \<comment> \<open>a pydantic \<open>float\<close> field; \<open>None\<close> where it raises\<close>

definition py_str :: "obs_lib \<Rightarrow> pyval \<Rightarrow> string" where
  "py_str L v = (case v of PyJson (JStr s) \<Rightarrow> s | _ \<Rightarrow> ol_str L v)"

definition dict_get :: "event_dict \<Rightarrow> string \<Rightarrow> pyval \<Rightarrow> pyval" where
  "dict_get d k dflt = (case map_of d k of None \<Rightarrow> dflt | Some v \<Rightarrow> v)"

definition dict_setdefault :: "('k, 'v) dict \<Rightarrow> 'k \<Rightarrow> 'v \<Rightarrow> ('k, 'v) dict" where
  "dict_setdefault d k v = (case map_of d k of None \<Rightarrow> AList.update k v d | Some _ \<Rightarrow> d)"

section \<open>The ring of log entries\<close>

record log_entry =
  le_ts :: float_py
  le_level :: string
  le_component :: string
  le_event :: string
  le_fields :: event_dict

record ring_log =
  rg_max :: nat
  rg_buf :: "log_entry list" \<comment> \<open>oldest first\<close>

definition ring_new :: "nat \<Rightarrow> ring_log" where
  "ring_new max_size = \<lparr>rg_max = max_size, rg_buf = []\<rparr>"

definition RESERVED_KEYS :: "string list" where
  "RESERVED_KEYS = [''timestamp'', ''level'', ''logger'', ''event'', ''component'']"

text \<open>\<open>deque(maxlen=n).append\<close>.\<close>

definition deque_append :: "nat \<Rightarrow> 'a \<Rightarrow> 'a list \<Rightarrow> 'a list" where
  "deque_append n x xs = drop (Suc (length xs) - n) (xs @ [x])"

definition ring_entry :: "obs_lib \<Rightarrow> float_py \<Rightarrow> event_dict \<Rightarrow> log_entry result" where
  "ring_entry L now event_dict =
     (case ol_float L (dict_get event_dict ''timestamp'' (PyJson (JFloat now))) of
        None \<Rightarrow> Inl (ValueError ''ValidationError'')
      | Some ts \<Rightarrow> Inr
          \<lparr>le_ts = ts,
           le_level = str_lower (py_str L (dict_get event_dict ''level'' (PyJson (JStr ''info'')))),
           le_component = py_str L (dict_get event_dict ''logger''
             (dict_get event_dict ''component'' (PyJson (JStr [])))),
           le_event = py_str L (dict_get event_dict ''event'' (PyJson (JStr []))),
           le_fields = filter (\<lambda>(k, v). k \<notin> set RESERVED_KEYS) event_dict\<rparr>)"

definition ring_add :: "obs_lib \<Rightarrow> float_py \<Rightarrow> event_dict \<Rightarrow> ring_log \<Rightarrow> unit result \<times> ring_log" where
  "ring_add L now event_dict ring =
     (case ring_entry L now event_dict of
        Inl e \<Rightarrow> (Inl e, ring)
      | Inr entry \<Rightarrow> (Inr (), ring\<lparr>rg_buf := deque_append (rg_max ring) entry (rg_buf ring)\<rparr>))"

record log_query =
  lq_limit :: int
  lq_level :: "string option"
  lq_component :: "string option"
  lq_since :: "float_py option"
  lq_client_fingerprint :: "string option"

definition tail_skips :: "log_query \<Rightarrow> log_entry \<Rightarrow> bool" where
  "tail_skips q e \<longleftrightarrow>
     (\<exists>l \<in> set_option (lq_level q). l \<noteq> [] \<and> le_level e \<noteq> str_lower l) \<or>
     (\<exists>c \<in> set_option (lq_component q). c \<noteq> [] \<and> \<not> has_prefix c (le_component e)) \<or>
     (\<exists>fp \<in> set_option (lq_client_fingerprint q). fp \<noteq> [] \<and>
        map_of (le_fields e) ''client_fp'' \<noteq> Some (PyJson (JStr fp)))"

definition too_old :: "log_query \<Rightarrow> log_entry \<Rightarrow> bool" where
  "too_old q e \<longleftrightarrow> (\<exists>since \<in> set_option (lq_since q). le_ts e < since)"

text \<open>The loop of \<open>tail\<close> over the newest entries first, with the number already taken.\<close>

fun tail_scan :: "log_query \<Rightarrow> nat \<Rightarrow> log_entry list \<Rightarrow> log_entry list" where
  "tail_scan q n [] = []"
| "tail_scan q n (entry # es) =
     (if too_old q entry then []
      else if tail_skips q entry then tail_scan q n es
      else entry # (if lq_limit q \<le> int (Suc n) then [] else tail_scan q (Suc n) es))"

definition ring_tail :: "log_query \<Rightarrow> ring_log \<Rightarrow> log_entry list" where
  "ring_tail q ring = rev (tail_scan q 0 (rev (rg_buf ring)))"

section \<open>The error tracker\<close>

definition SENSITIVE_LOCAL_NAMES :: "string list" where
  "SENSITIVE_LOCAL_NAMES = [''prompt'', ''messages'', ''content'', ''delta'', ''completion'', ''plaintext'',
     ''ciphertext'', ''key'', ''x25519_sk'', ''ed25519_sk'', ''secret'']"

record error_record =
  er_error_id :: string
  er_ts :: float_py
  er_code :: string
  er_message :: string
  er_stack :: string
  er_request_id :: "string option"
  er_client_fingerprint :: "string option"
  er_extra :: event_dict

definition error_summary :: "error_record \<Rightarrow> json" where
  "error_summary r = JObj
     [(''error_id'', JStr (er_error_id r)), (''ts'', JFloat (er_ts r)), (''code'', JStr (er_code r)),
      (''message'', JStr (er_message r)), (''request_id'', json_opt_str (er_request_id r))]"

record error_tracker =
  et_cap :: int
  et_records :: "(string, error_record) dict"

definition tracker_new :: "int \<Rightarrow> error_tracker" where
  "tracker_new capacity = \<lparr>et_cap = capacity, et_records = []\<rparr>"

text \<open>What the code reads off the exception: \<open>str(exc)\<close> and the formatted traceback.\<close>

definition error_record_of ::
  "string \<Rightarrow> float_py \<Rightarrow> string \<Rightarrow> string \<Rightarrow> string \<Rightarrow> string option \<Rightarrow> string option \<Rightarrow> event_dict \<Rightarrow> error_record" where
  "error_record_of eid now text stack code request_id client_fingerprint extra =
     \<lparr>er_error_id = eid, er_ts = now, er_code = code, er_message = take 500 text, er_stack = stack,
      er_request_id = request_id, er_client_fingerprint = client_fingerprint,
      er_extra = filter (\<lambda>(k, v). k \<notin> set SENSITIVE_LOCAL_NAMES) extra\<rparr>"

definition tracker_insert :: "error_record \<Rightarrow> error_tracker \<Rightarrow> error_tracker" where
  "tracker_insert rec t =
     (let records = AList.update (er_error_id rec) rec (et_records t) in
      t\<lparr>et_records := (if et_cap t < int (length records) then tl records else records)\<rparr>)"

definition tracker_record ::
  "string \<Rightarrow> float_py \<Rightarrow> string \<Rightarrow> string \<Rightarrow> string \<Rightarrow> string option \<Rightarrow> string option \<Rightarrow> event_dict \<Rightarrow>
   error_tracker \<Rightarrow> error_record \<times> error_tracker" where
  "tracker_record eid now text stack code request_id client_fingerprint extra t =
     (let rec = error_record_of eid now text stack code request_id client_fingerprint extra
      in (rec, tracker_insert rec t))"

definition tracker_get :: "error_tracker \<Rightarrow> string \<Rightarrow> error_record option" where
  "tracker_get t error_id = map_of (et_records t) error_id"

text \<open>\<open>xs[-limit:]\<close>.\<close>

definition slice_last :: "int \<Rightarrow> 'a list \<Rightarrow> 'a list" where
  "slice_last limit xs = (if 0 < limit then drop (length xs - nat limit) xs else drop (nat (- limit)) xs)"

definition tracker_recent :: "error_tracker \<Rightarrow> int \<Rightarrow> error_record list" where
  "tracker_recent t limit = rev (slice_last limit (map snd (et_records t)))"

section \<open>The processors\<close>

definition SENSITIVE_KEYS :: "string list" where
  "SENSITIVE_KEYS = [''prompt'', ''messages'', ''content'', ''delta'', ''completion'', ''text'', ''plaintext'',
     ''ciphertext'', ''session_key'', ''secret'', ''private_key'']"

definition redact :: "event_dict \<Rightarrow> event_dict" where
  "redact event_dict = map (\<lambda>(k, v).
     (k, if k \<in> set SENSITIVE_KEYS then PyJson (JStr ''<redacted>'')
         else (case v of PyBytes b \<Rightarrow> PyJson (JStr (''<'' @ str_of_int (int (length b)) @ ''B>'')) | _ \<Rightarrow> v)))
     event_dict"

definition add_ts :: "float_py \<Rightarrow> event_dict \<Rightarrow> event_dict" where
  "add_ts now event_dict = dict_setdefault event_dict ''timestamp'' (PyJson (JFloat now))"

text \<open>\<open>_RingSink\<close>: whatever the ring raises is swallowed.\<close>

definition ring_sink :: "obs_lib \<Rightarrow> float_py \<Rightarrow> event_dict \<Rightarrow> ring_log \<Rightarrow> ring_log" where
  "ring_sink L now event_dict ring = snd (ring_add L now event_dict ring)"

text \<open>
  The state of \<open>structlog\<close> and \<open>logging\<close> after \<open>configure\<close>: the level below which the bound loggers
  drop a call, the levels of the standard library's loggers, the ring, and what reached the handlers.
\<close>

record logging =
  lg_min :: int
  lg_root :: int
  lg_levels :: "(string, int) dict"
  lg_ring :: ring_log
  lg_out :: "(string \<times> event_dict) list"

text \<open>
  \<open>getattr(logging, level.upper(), logging.INFO)\<close> given to \<open>setLevel\<close>: two upper-case names of the
  module are no levels and raise there.
\<close>

definition log_level_of :: "string \<Rightarrow> int result" where
  "log_level_of level =
     (let name = str_upper level in
      case map_of [(''CRITICAL'', 50), (''FATAL'', 50), (''ERROR'', 40), (''WARNING'', 30), (''WARN'', 30),
             (''INFO'', 20), (''DEBUG'', 10), (''NOTSET'', 0)] name of
        Some n \<Rightarrow> Inr n
      | None \<Rightarrow>
          if name = ''BASIC_FORMAT'' then Inl (ValueError ''Unknown level'')
          else if name = ''_STYLES'' then Inl TypeError
          else Inr 20)"

definition logging_configure :: "string \<Rightarrow> ring_log option \<Rightarrow> logging result" where
  "logging_configure level ring =
     and_then (log_level_of level) (\<lambda>n. Inr
       \<lparr>lg_min = n, lg_root = n, lg_levels = [],
        lg_ring = (case ring of None \<Rightarrow> ring_new 10000 | Some r \<Rightarrow> r), lg_out = []\<rparr>)"

definition set_component_level :: "string \<Rightarrow> string \<Rightarrow> logging \<Rightarrow> unit result \<times> logging" where
  "set_component_level component level lg =
     (case log_level_of level of
        Inl e \<Rightarrow> (Inl e, lg)
      | Inr n \<Rightarrow>
          (Inr (), if component \<in> {[], ''root''} then lg\<lparr>lg_root := n\<rparr>
                   else lg\<lparr>lg_levels := AList.update component n (lg_levels lg)\<rparr>))"

text \<open>A logger's own level, or that of the nearest ancestor that has one.\<close>

definition logger_ancestors :: "string \<Rightarrow> string list" where
  "logger_ancestors c = c # rev (map (\<lambda>i. take i c) (filter (\<lambda>i. c ! i = CHR ''.'') [0..<length c]))"

definition effective_level :: "logging \<Rightarrow> string \<Rightarrow> int" where
  "effective_level lg c =
     (case List.find (\<lambda>a. \<exists>n \<in> set_option (map_of (lg_levels lg) a). n \<noteq> 0) (logger_ancestors c) of
        None \<Rightarrow> lg_root lg
      | Some a \<Rightarrow> (case map_of (lg_levels lg) a of None \<Rightarrow> lg_root lg | Some n \<Rightarrow> n))"

text \<open>
  One call of a logger: context variables, the call's fields and event, level and logger name, then the
  source's own processors. The ring comes before the standard library's level check.
\<close>

definition log_fields ::
  "float_py \<Rightarrow> event_dict \<Rightarrow> string \<Rightarrow> string \<Rightarrow> string \<Rightarrow> event_dict \<Rightarrow> event_dict" where
  "log_fields now ctx component level_name event kw =
     redact (add_ts now
       (AList.update ''logger'' (PyJson (JStr component))
       (AList.update ''level'' (PyJson (JStr level_name))
       (AList.update ''event'' (PyJson (JStr event))
          (fold (\<lambda>(k, v). AList.update k v) kw ctx)))))"

definition log_event ::
  "obs_lib \<Rightarrow> float_py \<Rightarrow> event_dict \<Rightarrow> string \<Rightarrow> int \<Rightarrow> string \<Rightarrow> string \<Rightarrow> event_dict \<Rightarrow> logging \<Rightarrow> logging" where
  "log_event L now ctx component level level_name event kw lg =
     (if level < lg_min lg then lg
      else
        let d = log_fields now ctx component level_name event kw;
            lg = lg\<lparr>lg_ring := ring_sink L now d (lg_ring lg)\<rparr>
        in if effective_level lg component \<le> level then lg\<lparr>lg_out := lg_out lg @ [(component, d)]\<rparr> else lg)"

text \<open>\<open>audit_event\<close>: an ordinary log call at level INFO.\<close>

definition AUDIT_LOGGER :: string where
  "AUDIT_LOGGER = ''secure_llm_server.audit''"

definition audit_log :: "obs_lib \<Rightarrow> float_py \<Rightarrow> event_dict \<Rightarrow> string \<Rightarrow> event_dict \<Rightarrow> logging \<Rightarrow> logging" where
  "audit_log L now ctx event kw lg = log_event L now ctx AUDIT_LOGGER 20 ''info'' event kw lg"

section \<open>The tail is the latest of the matching entries\<close>

definition tail_wants :: "log_query \<Rightarrow> log_entry \<Rightarrow> bool" where
  "tail_wants q e \<longleftrightarrow> \<not> too_old q e \<and> \<not> tail_skips q e"

lemma tail_scan_take:
  "tail_scan q n es = take (max 1 (nat (lq_limit q) - n)) (filter (\<lambda>e. \<not> tail_skips q e) (takeWhile (\<lambda>e. \<not> too_old q e) es))"
proof (induction es arbitrary: n)
  case (Cons e es)
  show ?case
  proof (cases "too_old q e \<or> tail_skips q e")
    case False
    show ?thesis
    proof (cases "lq_limit q \<le> int (Suc n)")
      case True
      then have "max 1 (nat (lq_limit q) - n) = Suc 0" by simp
      then show ?thesis using False True by simp
    next
      case lim: False
      then have "max 1 (nat (lq_limit q) - n) = Suc (max 1 (nat (lq_limit q) - Suc n))" by linarith
      then show ?thesis using False lim Cons.IH [of "Suc n"] by simp
    qed
  qed (use Cons.IH in auto)
qed simp

lemma takeWhile_antimono:
  assumes "sorted_wrt (\<lambda>x y. P y \<longrightarrow> P x) xs"
  shows "takeWhile P xs = filter P xs"
  using assms by (induction xs) (auto simp: filter_empty_conv)

lemma ring_tail_sorted:
  assumes "sorted (map le_ts (rg_buf ring))" and "1 \<le> lq_limit q"
  shows "ring_tail q ring =
    (let ms = filter (tail_wants q) (rg_buf ring) in drop (length ms - nat (lq_limit q)) ms)"
proof -
  let ?es = "rev (rg_buf ring)"
  have "sorted_wrt (\<lambda>x y. le_ts y \<le> le_ts x) ?es"
    using assms(1) by (simp add: sorted_map sorted_wrt_rev)
  then have "sorted_wrt (\<lambda>x y. \<not> too_old q y \<longrightarrow> \<not> too_old q x) ?es"
    by (rule sorted_wrt_mono_rel [rotated]) (auto simp: too_old_def)
  then have "takeWhile (\<lambda>e. \<not> too_old q e) ?es = filter (\<lambda>e. \<not> too_old q e) ?es" by (rule takeWhile_antimono)
  then have "tail_scan q 0 ?es = take (nat (lq_limit q)) (rev (filter (tail_wants q) (rg_buf ring)))"
    using assms(2) by (simp add: tail_scan_take filter_filter tail_wants_def [abs_def] rev_filter conj_commute
        max_absorb2 Suc_le_eq)
  then show ?thesis by (simp add: ring_tail_def Let_def take_rev)
qed

lemma ring_tail_subset: "e \<in> set (ring_tail q ring) \<Longrightarrow> e \<in> set (rg_buf ring) \<and> tail_wants q e"
  by (auto simp: ring_tail_def tail_scan_take tail_wants_def dest!: in_set_takeD set_takeWhileD)

section \<open>The ring keeps the latest entries\<close>

lemma deque_append_length: "length xs \<le> n \<Longrightarrow> length (deque_append n x xs) \<le> n"
  by (simp add: deque_append_def)

lemma deque_append_last: "deque_append n x (drop (length ys - n) ys) = drop (length (ys @ [x]) - n) (ys @ [x])"
  by (cases "length ys \<le> n") (auto simp: deque_append_def Suc_diff_le)

lemma deque_append_tl:
  "length xs \<le> n \<Longrightarrow> deque_append n x xs = (if n < Suc (length xs) then tl (xs @ [x]) else xs @ [x])"
  by (cases "length xs = n"; cases xs) (auto simp: deque_append_def)

lemma fold_deque_append: "fold (deque_append n) xs (drop (length ys - n) ys) = drop (length (ys @ xs) - n) (ys @ xs)"
proof (induction xs arbitrary: ys)
  case (Cons x xs)
  then show ?case using deque_append_last [of n x ys] Cons.IH [of "ys @ [x]"] by simp
qed simp

section \<open>The tracker keeps the latest records\<close>

lemma tracker_insert_cap [simp]: "et_cap (tracker_insert rec t) = et_cap t"
  by (simp add: tracker_insert_def Let_def)

lemma tracker_insert_bounded:
  assumes "int (length (et_records t)) \<le> max 0 (et_cap t)"
  shows "int (length (et_records (tracker_insert rec t))) \<le> max 0 (et_cap (tracker_insert rec t))"
proof -
  have "length (AList.update (er_error_id rec) rec (et_records t)) \<le> Suc (length (et_records t))"
    by (rule length_update_le)
  then show ?thesis using assms by (auto simp: tracker_insert_def Let_def)
qed

definition last_records :: "int \<Rightarrow> error_record list \<Rightarrow> (string, error_record) dict" where
  "last_records cap recs = drop (length recs - nat cap) (map (\<lambda>r. (er_error_id r, r)) recs)"

lemma tracker_insert_last:
  assumes "et_records t = last_records (et_cap t) recs" and "0 \<le> et_cap t" and "er_error_id r \<notin> set (map er_error_id recs)"
  shows "et_records (tracker_insert r t) = last_records (et_cap t) (recs @ [r])"
proof -
  let ?d = "et_records t" and ?n = "nat (et_cap t)"
  have "fst ` set ?d \<subseteq> set (map er_error_id recs)"
    by (force simp: assms(1) last_records_def dest: in_set_dropD)
  then have "AList.update (er_error_id r) r ?d = ?d @ [(er_error_id r, r)]"
    using assms(3) by (intro update_absent_append) blast
  then have "et_records (tracker_insert r t) = deque_append ?n (er_error_id r, r) ?d"
    using assms(2) by (subst deque_append_tl) (auto simp: tracker_insert_def Let_def assms(1) last_records_def)
  also have "\<dots> = last_records (et_cap t) (recs @ [r])"
    using deque_append_last [of ?n "(er_error_id r, r)" "map (\<lambda>r. (er_error_id r, r)) recs"]
    by (simp add: assms(1) last_records_def)
  finally show ?thesis .
qed

section \<open>What reaches the ring\<close>

definition clean_fields :: "event_dict \<Rightarrow> bool" where
  "clean_fields d \<longleftrightarrow> (\<forall>(k, v) \<in> set d. (\<exists>j. v = PyJson j) \<and> (k \<in> set SENSITIVE_KEYS \<longrightarrow> v = PyJson (JStr ''<redacted>'')))"

lemma clean_redact: "clean_fields (redact d)"
  by (auto simp: clean_fields_def redact_def split: pyval.splits)

lemma clean_filter: "clean_fields d \<Longrightarrow> clean_fields (filter P d)"
  by (auto simp: clean_fields_def)

lemma ring_sink_entries:
  "e \<in> set (rg_buf (ring_sink L now d ring)) \<Longrightarrow> e \<in> set (rg_buf ring) \<or> ring_entry L now d = Inr e"
  by (auto simp: ring_sink_def ring_add_def deque_append_def dest!: in_set_dropD split: sum.splits)

text \<open>A call of a logger, or an administrator setting a component's level.\<close>

datatype log_op =
    LogCall float_py event_dict string int string string event_dict
  | SetLevel string string

fun log_step :: "obs_lib \<Rightarrow> log_op \<Rightarrow> logging \<Rightarrow> logging" where
  "log_step L (LogCall now ctx c level level_name event kw) lg = log_event L now ctx c level level_name event kw lg"
| "log_step L (SetLevel c level) lg = snd (set_component_level c level lg)"

fun heard :: "int \<Rightarrow> log_op \<Rightarrow> bool" where
  "heard m (LogCall now ctx c level level_name event kw) \<longleftrightarrow> m \<le> level"
| "heard m (SetLevel c level) \<longleftrightarrow> False"

lemma log_step_min [simp]: "lg_min (log_step L op lg) = lg_min lg"
  by (cases op) (auto simp: log_event_def set_component_level_def Let_def split: sum.splits)

lemma log_step_ring: "lg_ring lg = lg_ring lg' \<Longrightarrow> lg_min lg = lg_min lg' \<Longrightarrow>
    lg_ring (log_step L op lg) = lg_ring (if heard (lg_min lg) op then log_step L op lg' else lg')"
  by (cases op) (auto simp: log_event_def set_component_level_def Let_def split: sum.splits)

lemma log_run_ring:
  "lg_ring lg = lg_ring lg' \<Longrightarrow> lg_min lg = lg_min lg' \<Longrightarrow>
    lg_ring (fold (log_step L) ops lg) = lg_ring (fold (log_step L) (filter (heard (lg_min lg)) ops) lg')"
proof (induction ops arbitrary: lg lg')
  case (Cons op ops)
  let ?lg' = "if heard (lg_min lg) op then log_step L op lg' else lg'"
  have "lg_ring (fold (log_step L) ops (log_step L op lg))
      = lg_ring (fold (log_step L) (filter (heard (lg_min (log_step L op lg))) ops) ?lg')"
    by (rule Cons.IH) (use Cons.prems log_step_ring in auto)
  then show ?case by simp
qed simp

lemma log_step_clean:
  assumes "\<forall>e \<in> set (rg_buf (lg_ring lg)). clean_fields (le_fields e)"
  shows "\<forall>e \<in> set (rg_buf (lg_ring (log_step L op lg))). clean_fields (le_fields e)"
proof (cases op)
  case (LogCall now ctx c level level_name event kw)
  have "clean_fields (le_fields e)" if "ring_entry L now (log_fields now ctx c level_name event kw) = Inr e" for e
    using that by (auto simp: ring_entry_def log_fields_def clean_redact clean_filter split: option.splits)
  then show ?thesis using assms LogCall by (auto simp: log_event_def Let_def dest!: ring_sink_entries)
qed (use assms in \<open>auto simp: set_component_level_def split: sum.splits\<close>)

lemma log_run_clean:
  "\<forall>e \<in> set (rg_buf (lg_ring lg)). clean_fields (le_fields e) \<Longrightarrow>
    \<forall>e \<in> set (rg_buf (lg_ring (fold (log_step L) ops lg))). clean_fields (le_fields e)"
proof (induction ops arbitrary: lg)
  case (Cons op ops)
  show ?case using Cons.IH [OF log_step_clean [OF Cons.prems]] by simp
qed simp

section \<open>Properties\<close>

text \<open>C31. The log tail is exact: after any number of events, as long as their timestamps do not decrease, a query
  returns the latest \<open>limit\<close> of the wanted entries among the last \<open>max_size\<close> that were accepted, oldest
  first; the early exit of the scan and the eviction of the ring lose nothing else.\<close>

theorem log_tail_exact:
  assumes "entries = concat (map (\<lambda>(now, d). case ring_entry L now d of Inl e \<Rightarrow> [] | Inr entry \<Rightarrow> [entry]) events)"
    and "sorted (map le_ts entries)" and "1 \<le> lq_limit q"
  shows "ring_tail q (fold (\<lambda>(now, d) ring. ring_sink L now d ring) events (ring_new max_size)) =
    (let ms = filter (tail_wants q) (drop (length entries - max_size) entries)
     in drop (length ms - nat (lq_limit q)) ms)"
proof -
  have "fold (\<lambda>(now, d) ring. ring_sink L now d ring) events ring
      = ring\<lparr>rg_buf := fold (deque_append (rg_max ring)) (concat (map (\<lambda>(now, d).
          case ring_entry L now d of Inl e \<Rightarrow> [] | Inr entry \<Rightarrow> [entry]) events)) (rg_buf ring)\<rparr>" for ring
    by (induction events arbitrary: ring) (auto simp: ring_sink_def ring_add_def split: sum.splits)
  then have buf: "fold (\<lambda>(now, d) ring. ring_sink L now d ring) events (ring_new max_size)
      = \<lparr>rg_max = max_size, rg_buf = drop (length entries - max_size) entries\<rparr>"
    using fold_deque_append [of max_size entries "[]"] by (simp add: ring_new_def assms(1))
  let ?ring = "\<lparr>rg_max = max_size, rg_buf = drop (length entries - max_size) entries\<rparr>"
  have "sorted (map le_ts (rg_buf ?ring))"
    using assms(2) unfolding drop_map [symmetric] ring_log.select_convs by (rule sorted_wrt_drop)
  from ring_tail_sorted [OF this assms(3)] show ?thesis unfolding buf ring_log.select_convs .
qed


text \<open>Component levels do not reach the debug log: the ring holds what it would hold had no administrator set
  any level, and calls below the level of the configuration leave nothing in it; at a level above INFO
  this includes every audit event.\<close>

theorem component_levels_invisible:
  "lg_ring (fold (log_step L) ops lg) = lg_ring (fold (log_step L) (filter (heard (lg_min lg)) ops) lg)"
  by (rule log_run_ring) simp_all

text \<open>The error tracker holds the last \<open>capacity\<close> exceptions: with fresh identifiers, the records after any
  run are exactly the latest ones, and \<open>recent\<close> lists them newest first.\<close>

theorem tracker_keeps_latest:
  assumes "distinct (map er_error_id recs)" and "0 \<le> cap" and "0 < limit"
  shows "tracker_recent (fold tracker_insert recs (tracker_new cap)) limit
    = take (nat limit) (rev (drop (length recs - nat cap) recs))"
proof -
  have "et_records (fold tracker_insert recs (tracker_new cap)) = last_records cap recs \<and>
      et_cap (fold tracker_insert recs (tracker_new cap)) = cap"
    using assms(1)
  proof (induction recs rule: rev_induct)
    case (snoc r recs)
    then show ?case using tracker_insert_last [of "fold tracker_insert recs (tracker_new cap)" recs r] assms(2) by simp
  qed (simp add: tracker_new_def last_records_def)
  then show ?thesis using assms(3)
    by (simp add: tracker_recent_def last_records_def drop_map slice_last_def comp_def take_rev)
qed

definition demo_obs :: obs_lib where
  "demo_obs = \<lparr>ol_str = (\<lambda>v. []), ol_float = (\<lambda>v. case v of PyJson (JFloat q) \<Rightarrow> Some q | _ \<Rightarrow> None)\<rparr>"

theorem log_tail_exact_witness:
  "map le_event (ring_tail \<lparr>lq_limit = 1, lq_level = Some ''INFO'', lq_component = None, lq_since = Some 2,
       lq_client_fingerprint = None\<rparr>
     (fold (\<lambda>(now, d) ring. ring_sink demo_obs now d ring)
       [(1, [(''event'', PyJson (JStr ''a''))]), (2, [(''event'', PyJson (JStr ''b''))]),
        (3, [(''event'', PyJson (JStr ''c''))])] (ring_new 2))) = [''c'']"
proof -
  let ?events = "[(1, [(''event'', PyJson (JStr ''a''))]), (2, [(''event'', PyJson (JStr ''b''))]),
      (3, [(''event'', PyJson (JStr ''c''))])]"
  let ?q = "\<lparr>lq_limit = 1, lq_level = Some ''INFO'', lq_component = None, lq_since = Some 2, lq_client_fingerprint = None\<rparr>"
  let ?e = "\<lambda>ts ev. \<lparr>le_ts = ts, le_level = ''info'', le_component = [], le_event = ev, le_fields = []\<rparr>"
  have low: "str_lower ''info'' = ''info''" "str_lower ''INFO'' = ''info''" by code_simp+
  have "concat (map (\<lambda>(now, d). case ring_entry demo_obs now d of Inl e \<Rightarrow> [] | Inr entry \<Rightarrow> [entry]) ?events)
      = [?e 1 ''a'', ?e 2 ''b'', ?e 3 ''c'']"
    by (simp add: ring_entry_def demo_obs_def dict_get_def py_str_def low RESERVED_KEYS_def)
  from log_tail_exact [OF this [symmetric], of ?q 2] show ?thesis
    by (simp add: tail_wants_def too_old_def tail_skips_def low Let_def)
qed

theorem tracker_keeps_latest_witness:
  "map er_error_id (tracker_recent (fold tracker_insert
     (map (\<lambda>i. error_record_of i 0 [] [] [] None None []) [''a'', ''b'', ''c'']) (tracker_new 2)) 5) = [''c'', ''b'']"
proof -
  have "distinct (map er_error_id (map (\<lambda>i. error_record_of i 0 [] [] [] None None []) [''a'', ''b'', ''c'']))"
    by (simp add: error_record_of_def)
  from tracker_keeps_latest [OF this, of 2 5] show ?thesis by (simp add: error_record_of_def)
qed

end
