(* ===== verification/Middleware.thy ===== *)
theory Middleware
  imports Observability Wire
begin

text \<open>
  The middleware stack and the handler for unhandled exceptions (\<open>server/.../middleware/*.py\<close>,
  \<open>create_app\<close> in \<open>server/.../main.py\<close>). A handler takes a request and a state and returns an exception
  or a response, the request with the attributes that were set on its \<open>state\<close>, and the new state. Header
  names are in lower case; a response lists the headers the source sets, those that Starlette derives
  from the body are left out. Clock readings and random identifiers are arguments.
\<close>

record http_in =
  hi_method :: string
  hi_path :: string
  hi_headers :: "(string, string) dict"
  hi_body :: bytes
  hi_state :: "(string, string) dict" \<comment> \<open>attributes of \<open>request.state\<close>\<close>
  hi_context :: event_dict \<comment> \<open>structlog's context variables of the task\<close>

record http_out =
  rsp_status :: int
  rsp_headers :: "(string, string) dict"
  rsp_body :: pyval

type_synonym 'st handler = "http_in \<Rightarrow> 'st \<Rightarrow> (exn + http_out) \<times> http_in \<times> 'st"

definition json_response :: "int \<Rightarrow> (string, string) dict \<Rightarrow> (string \<times> json) list \<Rightarrow> http_out" where
  "json_response status headers content =
     \<lparr>rsp_status = status, rsp_headers = headers, rsp_body = PyJson (JObj content)\<rparr>"

text \<open>Modify the response a handler returned, if it returned one.\<close>

definition map_response :: "(http_out \<Rightarrow> http_out) \<Rightarrow> (exn + http_out) \<times> 'a \<Rightarrow> (exn + http_out) \<times> 'a" where
  "map_response f res = (case res of (Inl e, x) \<Rightarrow> (Inl e, x) | (Inr r, x) \<Rightarrow> (Inr (f r), x))"

section \<open>Rate limiting\<close>

record bucket =
  bk_tokens :: float_py
  bk_last :: float_py

record rate_limiter =
  rl_rate :: float_py \<comment> \<open>tokens per second\<close>
  rl_capacity :: float_py
  rl_buckets :: "(string, bucket) dict"

definition rate_limit_new :: "int \<Rightarrow> rate_limiter" where
  "rate_limit_new rpm_per_client =
     \<lparr>rl_rate = of_int (max 1 rpm_per_client) / 60, rl_capacity = max 10 (of_int rpm_per_client / 2), rl_buckets = []\<rparr>"

definition rate_allow :: "float_py \<Rightarrow> string \<Rightarrow> rate_limiter \<Rightarrow> bool \<times> rate_limiter" where
  "rate_allow now key rl =
     (let b = (case map_of (rl_buckets rl) key of
                 None \<Rightarrow> \<lparr>bk_tokens = rl_capacity rl, bk_last = now\<rparr> | Some b \<Rightarrow> b);
          elapsed = now - bk_last b;
          tokens = min (rl_capacity rl) (bk_tokens b + elapsed * rl_rate rl);
          put = (\<lambda>tokens. rl\<lparr>rl_buckets := AList.update key \<lparr>bk_tokens = tokens, bk_last = now\<rparr> (rl_buckets rl)\<rparr>)
      in if tokens < 1 then (False, put tokens) else (True, put (tokens - 1)))"

definition rate_key :: "http_in \<Rightarrow> string" where
  "rate_key rq =
     (let fp = opt_str_or (map_of (hi_state rq) ''client_fingerprint'') ''anon'';
          tenant = (case map_of (hi_state rq) ''tenant'' of None \<Rightarrow> ''default'' | Some t \<Rightarrow> t)
      in tenant @ '':'' @ fp)"

definition rate_limit :: "float_py \<Rightarrow> 'st handler \<Rightarrow> (rate_limiter \<times> 'st) handler" where
  "rate_limit now call_next rq s =
     (let (rl, st) = s; (ok, rl) = rate_allow now (rate_key rq) rl in
      if \<not> ok
      then (Inr (json_response 429 [(''retry-after'', ''1'')]
              [(''code'', JStr (code_value RATE_LIMITED)), (''message'', JStr ''slow down'')]), rq, (rl, st))
      else case call_next rq st of (res, rq, st) \<Rightarrow> (res, rq, (rl, st)))"

section \<open>Size limit\<close>

text \<open>
  \<open>int(s)\<close> of a header: blanks around, a sign, digits with single underscores between them; more than
  4300 digits raise as well.
\<close>

fun digits_ok :: "string \<Rightarrow> bool" where
  "digits_ok [] = False"
| "digits_ok [c] = is_digit c"
| "digits_ok (c # d # cs) = (is_digit c \<and> (if d = CHR ''_'' then digits_ok cs else digits_ok (d # cs)))"

definition digit_value :: "char \<Rightarrow> int" where
  "digit_value c = int (of_char c) - 48"

definition py_int :: "string \<Rightarrow> int option" where
  "py_int s =
     (let s = strip s; neg = (take 1 s = ''-'');
          body = (if take 1 s = ''-'' \<or> take 1 s = ''+'' then tl s else s);
          ds = filter is_digit body
      in if digits_ok body \<and> length ds \<le> 4300
         then Some ((if neg then -1 else 1) * foldl (\<lambda>n c. 10 * n + digit_value c) 0 ds) else None)"

definition size_limit :: "int \<Rightarrow> 'st handler \<Rightarrow> 'st handler" where
  "size_limit max_bytes call_next rq st =
     (case map_of (hi_headers rq) ''content-length'' of
        None \<Rightarrow> call_next rq st
      | Some cl \<Rightarrow>
          (case py_int cl of
             None \<Rightarrow> (Inr (json_response 400 []
               [(''code'', JStr (code_value BAD_REQUEST)), (''message'', JStr ''bad content-length'')]), rq, st)
           | Some n \<Rightarrow>
               if max_bytes < n
               then (Inr (json_response 413 [] [(''code'', JStr (code_value BODY_TOO_LARGE)),
                       (''message'', JStr (''max '' @ str_of_int max_bytes @ '' bytes''))]), rq, st)
               else call_next rq st))"

section \<open>Request identifiers and security headers\<close>

text \<open>\<open>token\<close> is \<open>secrets.token_hex(8)\<close>. An exception of the inner handler passes through the \<open>finally\<close>.\<close>

definition request_id :: "string \<Rightarrow> 'st handler \<Rightarrow> 'st handler" where
  "request_id token call_next rq st =
     (let rid = opt_str_or (map_of (hi_headers rq) ''x-request-id'') token;
          rq = rq\<lparr>hi_state := AList.update ''request_id'' rid (hi_state rq),
                  hi_context := AList.update ''request_id'' (PyJson (JStr rid)) (hi_context rq)\<rparr>
      in case map_response (\<lambda>r. r\<lparr>rsp_headers := AList.update ''x-request-id'' rid (rsp_headers r)\<rparr>) (call_next rq st) of
           (res, rq, st) \<Rightarrow> (res, rq\<lparr>hi_context := AList.delete ''request_id'' (hi_context rq)\<rparr>, st))"

definition SECURITY_HEADERS :: "(string \<times> string) list" where
  "SECURITY_HEADERS =
     [(''strict-transport-security'', ''max-age=31536000; includeSubDomains''), (''x-content-type-options'', ''nosniff''),
      (''referrer-policy'', ''no-referrer''), (''cache-control'', ''no-store''), (''x-frame-options'', ''DENY'')]"

definition security_headers :: "'st handler \<Rightarrow> 'st handler" where
  "security_headers call_next rq st =
     map_response (\<lambda>r. r\<lparr>rsp_headers := fold (\<lambda>(k, v) h. dict_setdefault h k v) SECURITY_HEADERS (rsp_headers r)\<rparr>)
       (call_next rq st)"

section \<open>The application\<close>

definition MAX_BODY :: int where
  "MAX_BODY = 16 * 1024 * 1024"

definition APP_RPM :: int where
  "APP_RPM = 120"

text \<open>What the exception handler reads off an exception: its text and traceback, and a fresh error id.\<close>

record exn_text =
  xt_id :: string
  xt_now :: float_py
  xt_str :: "exn \<Rightarrow> string"
  xt_stack :: "exn \<Rightarrow> string"

text \<open>\<open>_unhandled\<close>: outside every middleware.\<close>

definition unhandled :: "exn_text \<Rightarrow> http_in \<Rightarrow> exn \<Rightarrow> error_tracker \<Rightarrow> http_out \<times> error_tracker" where
  "unhandled X rq e t =
     (let (err, t) = tracker_record (xt_id X) (xt_now X) (xt_str X e) (xt_stack X e) (code_value INTERNAL_ERROR)
            (map_of (hi_state rq) ''request_id'') (map_of (hi_state rq) ''client_fingerprint'') [] t
      in (json_response 500 [] [(''code'', JStr (code_value INTERNAL_ERROR)), (''message'', JStr ''internal error''),
            (''error_id'', JStr (er_error_id err))], t))"

record 's app_state =
  as_errors :: error_tracker
  as_limiter :: rate_limiter
  as_inner :: 's

definition app_new :: "int \<Rightarrow> 's \<Rightarrow> 's app_state" where
  "app_new error_buffer_size s =
     \<lparr>as_errors = tracker_new error_buffer_size, as_limiter = rate_limit_new APP_RPM, as_inner = s\<rparr>"

text \<open>
  One request through the stack: the middleware added last is the outermost. The routers read the error
  tracker and never write it.
\<close>

definition app_dispatch ::
  "exn_text \<Rightarrow> float_py \<Rightarrow> string \<Rightarrow> (error_tracker \<Rightarrow> 's handler) \<Rightarrow> http_in \<Rightarrow> 's app_state \<Rightarrow> http_out \<times> 's app_state" where
  "app_dispatch X now token routers rq st =
     (case request_id token (size_limit MAX_BODY (rate_limit now (security_headers (routers (as_errors st))))) rq
             (as_limiter st, as_inner st) of
        (res, rq, (rl, s)) \<Rightarrow>
          let st = st\<lparr>as_limiter := rl, as_inner := s\<rparr> in
          (case res of
             Inr r \<Rightarrow> (r, st)
           | Inl e \<Rightarrow> (case unhandled X rq e (as_errors st) of (r, t) \<Rightarrow> (r, st\<lparr>as_errors := t\<rparr>))))"

section \<open>Token buckets\<close>

fun rate_run :: "rate_limiter \<Rightarrow> (float_py \<times> string) list \<Rightarrow> bool list \<times> rate_limiter" where
  "rate_run rl [] = ([], rl)"
| "rate_run rl ((now, key) # evs) =
     (let (ok, rl) = rate_allow now key rl; (oks, rl) = rate_run rl evs in (ok # oks, rl))"

definition bucket_ok :: "float_py \<Rightarrow> float_py \<Rightarrow> bucket \<Rightarrow> bool" where
  "bucket_ok cap s b \<longleftrightarrow> 0 \<le> bk_tokens b \<and> bk_tokens b \<le> cap \<and> bk_last b \<le> s"

definition limiter_ok :: "float_py \<Rightarrow> rate_limiter \<Rightarrow> bool" where
  "limiter_ok s rl \<longleftrightarrow> 0 < rl_rate rl \<and> 1 \<le> rl_capacity rl \<and>
     (\<forall>k b. map_of (rl_buckets rl) k = Some b \<longrightarrow> bucket_ok (rl_capacity rl) s b)"

text \<open>The tokens a key has at a time.\<close>

definition avail :: "rate_limiter \<Rightarrow> string \<Rightarrow> float_py \<Rightarrow> float_py" where
  "avail rl key now =
     (case map_of (rl_buckets rl) key of
        None \<Rightarrow> rl_capacity rl
      | Some b \<Rightarrow> min (rl_capacity rl) (bk_tokens b + (now - bk_last b) * rl_rate rl))"

lemma limiter_ok_new: "limiter_ok s (rate_limit_new rpm)"
  by (simp add: limiter_ok_def rate_limit_new_def max_def)

lemma limiter_ok_later: "limiter_ok s rl \<Longrightarrow> s \<le> s' \<Longrightarrow> limiter_ok s' rl"
  by (force simp: limiter_ok_def bucket_ok_def)

lemma rate_allow_eq:
  assumes "limiter_ok now rl"
  shows "rate_allow now key rl =
    (1 \<le> avail rl key now, rl\<lparr>rl_buckets := AList.update key
       \<lparr>bk_tokens = avail rl key now - (if 1 \<le> avail rl key now then 1 else 0), bk_last = now\<rparr> (rl_buckets rl)\<rparr>)"
  using assms by (auto simp: rate_allow_def avail_def Let_def not_less split: option.splits)

lemma avail_bounds:
  assumes "limiter_ok s rl" and "s \<le> now"
  shows "0 \<le> avail rl key now" and "avail rl key now \<le> rl_capacity rl"
    and "avail rl key now \<le> avail rl key s + (now - s) * rl_rate rl"
proof -
  have r: "0 < rl_rate rl" "1 \<le> rl_capacity rl" using assms(1) by (simp_all add: limiter_ok_def)
  show "avail rl key now \<le> rl_capacity rl" by (simp add: avail_def split: option.splits)
  show "0 \<le> avail rl key now"
  proof (cases "map_of (rl_buckets rl) key")
    case (Some b)
    then have "0 \<le> bk_tokens b" "bk_last b \<le> now" using assms by (force simp: limiter_ok_def bucket_ok_def)+
    then show ?thesis using r Some by (simp add: avail_def)
  qed (use r in \<open>simp add: avail_def\<close>)
  show "avail rl key now \<le> avail rl key s + (now - s) * rl_rate rl"
  proof (cases "map_of (rl_buckets rl) key")
    case (Some b)
    have "(now - bk_last b) * rl_rate rl = (s - bk_last b) * rl_rate rl + (now - s) * rl_rate rl"
      by (simp add: algebra_simps)
    moreover have "0 \<le> (now - s) * rl_rate rl" using r assms(2) by simp
    ultimately show ?thesis using Some by (simp add: avail_def min_def)
  qed (use r assms(2) in \<open>simp add: avail_def\<close>)
qed

lemma avail_update: "avail (rl\<lparr>rl_buckets := AList.update k b (rl_buckets rl)\<rparr>) key now =
    (if key = k then min (rl_capacity rl) (bk_tokens b + (now - bk_last b) * rl_rate rl) else avail rl key now)"
  by (cases "map_of (rl_buckets rl) key") (simp_all add: avail_def map_of_update)

lemma rate_allow_ok:
  assumes "limiter_ok s rl" and "s \<le> now" and "rate_allow now key rl = (ok, rl')"
  shows "limiter_ok now rl'" and "rl_rate rl' = rl_rate rl" and "rl_capacity rl' = rl_capacity rl"
    and "ok \<longleftrightarrow> 1 \<le> avail rl key now"
    and "avail rl' key now = avail rl key now - (if ok then 1 else 0)"
    and "key' \<noteq> key \<Longrightarrow> avail rl' key' now = avail rl key' now"
proof -
  note ok = limiter_ok_later [OF assms(1,2)]
  note b = avail_bounds [OF ok order_refl, of key]
  note eq = rate_allow_eq [OF ok, of key, unfolded assms(3)]
  show "rl_rate rl' = rl_rate rl" "rl_capacity rl' = rl_capacity rl" "ok \<longleftrightarrow> 1 \<le> avail rl key now"
    using eq by simp_all
  show "limiter_ok now rl'"
    using ok b eq by (auto simp: limiter_ok_def bucket_ok_def map_of_update)
  show "avail rl' key now = avail rl key now - (if ok then 1 else 0)"
    using b eq by (auto simp: avail_update)
  show "avail rl' key' now = avail rl key' now" if "key' \<noteq> key"
    using that eq by (auto simp: avail_update)
qed

text \<open>How many requests of a key are let through.\<close>

definition admitted :: "string \<Rightarrow> (float_py \<times> string) list \<Rightarrow> bool list \<Rightarrow> nat" where
  "admitted key evs oks = length (filter (\<lambda>((now, k), ok). k = key \<and> ok) (zip evs oks))"

lemma admitted_bound:
  assumes "limiter_ok s rl" and "sorted (map fst evs)" and "\<forall>(now, k) \<in> set evs. s \<le> now \<and> now \<le> e" and "s \<le> e"
  shows "of_nat (admitted key evs (fst (rate_run rl evs))) \<le> avail rl key s + (e - s) * rl_rate rl"
  using assms
proof (induction evs arbitrary: rl s)
  case Nil
  then show ?case using avail_bounds(1) [OF Nil(1) order_refl, of key] by (simp add: admitted_def limiter_ok_def)
next
  case (Cons ev evs)
  obtain now k where ev: "ev = (now, k)" by (cases ev)
  obtain ok rl' where al: "rate_allow now k rl = (ok, rl')" by (cases "rate_allow now k rl")
  have now: "s \<le> now" "now \<le> e" using Cons.prems(3) ev by auto
  note a = rate_allow_ok [OF Cons.prems(1) now(1) al]
  have "of_nat (admitted key evs (fst (rate_run rl' evs))) \<le> avail rl' key now + (e - now) * rl_rate rl'"
    using Cons.prems(2,3) now ev by (intro Cons.IH a(1)) auto
  then have IH: "of_nat (admitted key evs (fst (rate_run rl' evs))) \<le> avail rl' key now + (e - now) * rl_rate rl"
    using a(2) by simp
  have "avail rl key now + (e - now) * rl_rate rl \<le> avail rl key s + (e - s) * rl_rate rl"
    using avail_bounds(3) [OF Cons.prems(1) now(1), of key] by (simp add: algebra_simps)
  moreover have "admitted key (ev # evs) (fst (rate_run rl (ev # evs)))
      = (if k = key \<and> ok then 1 else 0) + admitted key evs (fst (rate_run rl' evs))"
    by (simp add: ev al admitted_def split: prod.splits)
  moreover have "avail rl' key now = avail rl key now - (if k = key \<and> ok then 1 else 0)"
    using a(5,6) by (cases "k = key") auto
  ultimately show ?case using IH by (auto split: if_splits)
qed

lemma rate_run_append:
  "rate_run rl (xs @ ys) = (let (os, rl) = rate_run rl xs; (os', rl) = rate_run rl ys in (os @ os', rl))"
  by (induction rl xs rule: rate_run.induct) (auto simp: Let_def split: prod.splits)

lemma rate_run_ok:
  assumes "limiter_ok s rl" and "sorted (map fst evs)" and "\<forall>(now, k) \<in> set evs. s \<le> now \<and> now \<le> e" and "s \<le> e"
  shows "limiter_ok e (snd (rate_run rl evs)) \<and> rl_rate (snd (rate_run rl evs)) = rl_rate rl \<and>
    rl_capacity (snd (rate_run rl evs)) = rl_capacity rl"
  using assms
proof (induction evs arbitrary: rl s)
  case Nil
  then show ?case by (simp add: limiter_ok_later)
next
  case (Cons ev evs)
  obtain now k where ev: "ev = (now, k)" by (cases ev)
  obtain ok rl' where al: "rate_allow now k rl = (ok, rl')" by (cases "rate_allow now k rl")
  have now: "s \<le> now" "now \<le> e" using Cons.prems(3) ev by auto
  note a = rate_allow_ok [OF Cons.prems(1) now(1) al]
  have "limiter_ok e (snd (rate_run rl' evs)) \<and> rl_rate (snd (rate_run rl' evs)) = rl_rate rl' \<and>
      rl_capacity (snd (rate_run rl' evs)) = rl_capacity rl'"
    by (rule Cons.IH [OF a(1)]) (use Cons.prems(2,3) now ev in auto)
  then show ?case using a(2,3) by (cases "rate_run rl' evs") (simp add: ev al)
qed

section \<open>The limiter in the stack\<close>

definition passes_size :: "http_in \<Rightarrow> bool" where
  "passes_size rq \<longleftrightarrow> (\<forall>cl \<in> set_option (map_of (hi_headers rq) ''content-length'').
     case py_int cl of None \<Rightarrow> False | Some n \<Rightarrow> n \<le> MAX_BODY)"

definition SHARED_KEY :: string where
  "SHARED_KEY = ''default:anon''"

text \<open>A request as it enters: no router has set anything on its state yet.\<close>

lemma rate_key_fresh: "hi_state rq = [] \<Longrightarrow> rate_key (rq\<lparr>hi_state := AList.update ''request_id'' rid (hi_state rq), hi_context := c\<rparr>) = SHARED_KEY"
  by (simp add: rate_key_def opt_str_or_def SHARED_KEY_def)

lemma app_dispatch_limited:
  fixes st :: "'s app_state"
  assumes "hi_state rq = []" and "passes_size rq" and "rate_allow now SHARED_KEY (as_limiter st) = (ok, rl)"
  shows "as_limiter (snd (app_dispatch X now token routers rq st)) = rl"
    and "\<not> ok \<Longrightarrow> as_inner (snd (app_dispatch X now token routers rq st)) = as_inner st"
    and "\<not> ok \<Longrightarrow> rsp_status (fst (app_dispatch X now token routers rq st)) = 429"
    and "\<not> ok \<Longrightarrow> map fst (rsp_headers (fst (app_dispatch X now token routers rq st))) = [''retry-after'', ''x-request-id'']"
proof -
  let ?rid = "opt_str_or (map_of (hi_headers rq) ''x-request-id'') token"
  let ?rq = "rq\<lparr>hi_state := AList.update ''request_id'' ?rid (hi_state rq),
      hi_context := AList.update ''request_id'' (PyJson (JStr ?rid)) (hi_context rq)\<rparr>"
  let ?sec = "security_headers (routers (as_errors st)) :: 's handler"
  have sz: "size_limit MAX_BODY nxt ?rq x = nxt ?rq x" for nxt :: "(rate_limiter \<times> 's) handler" and x
    using assms(2) by (auto simp: size_limit_def passes_size_def split: option.splits)
  have rl: "rate_limit now ?sec ?rq (as_limiter st, as_inner st) =
      (if \<not> ok then (Inr (json_response 429 [(''retry-after'', ''1'')]
          [(''code'', JStr (code_value RATE_LIMITED)), (''message'', JStr ''slow down'')]), ?rq, (rl, as_inner st))
       else case ?sec ?rq (as_inner st) of (res, rq, s) \<Rightarrow> (res, rq, (rl, s)))"
    by (simp add: rate_limit_def rate_key_fresh [OF assms(1)] assms(3) Let_def)
  show "as_limiter (snd (app_dispatch X now token routers rq st)) = rl"
    by (simp add: app_dispatch_def request_id_def Let_def sz rl map_response_def unhandled_def split: prod.splits sum.splits)
  assume no: "\<not> ok"
  note eq = app_dispatch_def request_id_def Let_def sz rl map_response_def no
  show "as_inner (snd (app_dispatch X now token routers rq st)) = as_inner st" by (simp add: eq)
  show "rsp_status (fst (app_dispatch X now token routers rq st)) = 429" by (simp add: eq json_response_def)
  show "map fst (rsp_headers (fst (app_dispatch X now token routers rq st))) = [''retry-after'', ''x-request-id'']"
    by (simp add: eq json_response_def)
qed

lemma shared_bucket_drains:
  assumes "\<forall>(X, token, rq) \<in> set burst. hi_state rq = [] \<and> passes_size rq"
    and "limiter_ok now (as_limiter st)" and "avail (as_limiter st) SHARED_KEY now = of_nat n"
  shows "limiter_ok now (as_limiter (fold (\<lambda>(X, token, rq) st. snd (app_dispatch X now token routers rq st)) burst st)) \<and>
    avail (as_limiter (fold (\<lambda>(X, token, rq) st. snd (app_dispatch X now token routers rq st)) burst st)) SHARED_KEY now
      = of_nat (n - length burst)"
  using assms
proof (induction burst arbitrary: st n)
  case (Cons b burst)
  obtain X token rq where b: "b = (X, token, rq)" by (cases b)
  obtain ok rl where al: "rate_allow now SHARED_KEY (as_limiter st) = (ok, rl)" by (cases "rate_allow now SHARED_KEY (as_limiter st)")
  note a = rate_allow_ok [OF Cons.prems(2) order_refl al]
  let ?st = "snd (app_dispatch X now token routers rq st)"
  have lim: "as_limiter ?st = rl" using app_dispatch_limited(1) [OF _ _ al] Cons.prems(1) b by auto
  have "avail (as_limiter ?st) SHARED_KEY now = of_nat (n - 1)"
    using a(4,5) Cons.prems(3) by (cases n) (auto simp: lim)
  with Cons.IH [of ?st "n - 1"] Cons.prems(1) a(1) show ?case by (simp add: b lim)
qed simp

section \<open>Properties\<close>

text \<open>C33. A client is held to its rate in every window of time: after any history, the requests of a key that the
  limiter lets through between two instants are at most the capacity of a bucket plus what it refills in
  between.\<close>

theorem rate_window_bound:
  assumes "sorted (map fst (hist @ evs))" and "\<forall>(now, k) \<in> set hist. now \<le> s"
    and "\<forall>(now, k) \<in> set evs. s \<le> now \<and> now \<le> e" and "s \<le> e"
  shows "of_nat (admitted key evs (fst (rate_run (snd (rate_run (rate_limit_new rpm) hist)) evs)))
    \<le> max 10 (of_int rpm / 2) + (e - s) * (of_int (max 1 rpm) / 60)"
proof -
  let ?rl = "snd (rate_run (rate_limit_new rpm) hist)"
  define t where "t = (case hist of [] \<Rightarrow> s | ev # evs \<Rightarrow> fst ev)"
  have "limiter_ok s ?rl \<and> rl_rate ?rl = rl_rate (rate_limit_new rpm) \<and> rl_capacity ?rl = rl_capacity (rate_limit_new rpm)"
    by (rule rate_run_ok [OF limiter_ok_new [of t]])
      (use assms(1,2) in \<open>fastforce simp: t_def sorted_append split: list.splits\<close>)+
  then have ok: "limiter_ok s ?rl" and rate: "rl_rate ?rl = of_int (max 1 rpm) / 60"
    and cap: "rl_capacity ?rl = max 10 (of_int rpm / 2)"
    by (simp_all only: rate_limit_new_def rate_limiter.select_convs)
  have "of_nat (admitted key evs (fst (rate_run ?rl evs))) \<le> avail ?rl key s + (e - s) * rl_rate ?rl"
    using assms(1) by (intro admitted_bound [OF ok _ assms(3,4)]) (simp add: sorted_append)
  from this [unfolded rate] show ?thesis
    by (rule order_trans [OF _ add_right_mono [OF avail_bounds(2) [OF ok order_refl, unfolded cap]]])
qed

theorem rate_window_bound_witness:
  "of_nat (admitted ''k'' [(1, ''k''), (1, ''j''), (2, ''k'')] (fst (rate_run (snd (rate_run (rate_limit_new 60) [(0, ''k'')]))
     [(1, ''k''), (1, ''j''), (2, ''k'')]))) \<le> (31::rat)"
  using rate_window_bound [of "[(0, ''k'')]" "[(1, ''k''), (1, ''j''), (2, ''k'')]" 1 2 "''k''" 60] by simp

text \<open>One client can lock everyone out: the limiter runs before any router has identified the caller, so all
  requests share one bucket; after sixty requests in an instant, whoever sent them, any further request is
  refused with status 429 without reaching the routers, and its response carries no security header.\<close>

theorem one_client_starves_all:
  assumes "\<forall>(X, token, rq) \<in> set burst. hi_state rq = [] \<and> passes_size rq" and "60 \<le> length burst"
    and "hi_state rq = []" and "passes_size rq"
    and "st = fold (\<lambda>(X, token, rq) st. snd (app_dispatch X now token routers rq st)) burst (app_new n s)"
  shows "rsp_status (fst (app_dispatch X now token routers rq st)) = 429 \<and>
    as_inner (snd (app_dispatch X now token routers rq st)) = as_inner st \<and>
    map fst (rsp_headers (fst (app_dispatch X now token routers rq st))) = [''retry-after'', ''x-request-id'']"
proof -
  have lim: "as_limiter (app_new n s) = rate_limit_new 120" by (simp add: app_new_def APP_RPM_def)
  have "avail (as_limiter (app_new n s)) SHARED_KEY now = of_nat 60"
    unfolding lim by (simp add: avail_def rate_limit_new_def)
  from shared_bucket_drains [OF assms(1) _ this] limiter_ok_new assms(2,5) have
    st: "limiter_ok now (as_limiter st)" "avail (as_limiter st) SHARED_KEY now = 0"
    by (simp_all add: lim)
  obtain ok rl where al: "rate_allow now SHARED_KEY (as_limiter st) = (ok, rl)" by (cases "rate_allow now SHARED_KEY (as_limiter st)")
  with rate_allow_ok(4) [OF st(1) order_refl al] st(2) have "\<not> ok" by simp
  with app_dispatch_limited [OF assms(3,4) al] show ?thesis by blast
qed

definition demo_request :: http_in where
  "demo_request = \<lparr>hi_method = ''POST'', hi_path = ''/v1/models/list'', hi_headers = [], hi_body = [], hi_state = [], hi_context = []\<rparr>"

definition demo_texts :: exn_text where
  "demo_texts = \<lparr>xt_id = ''AB'', xt_now = 0, xt_str = (\<lambda>e. []), xt_stack = (\<lambda>e. [])\<rparr>"

theorem one_client_starves_all_witness:
  "rsp_status (fst (app_dispatch demo_texts 5 ''t'' (\<lambda>errors rq st. (Inr (json_response 200 [] []), rq, st + 1)) demo_request
     (fold (\<lambda>(X, token, rq) st. snd (app_dispatch X 5 token (\<lambda>errors rq st. (Inr (json_response 200 [] []), rq, st + 1)) rq st))
       (replicate 60 (demo_texts, ''t'', demo_request)) (app_new 10 (0::nat))))) = 429"
  by (rule one_client_starves_all [THEN conjunct1, OF _ _ _ _ refl])
    (simp_all add: demo_request_def passes_size_def)

end
