(* ===== verification/Federation.thy ===== *)
theory Federation
  imports EnvelopeDep
begin

text \<open>
  Two instances that share a Redis: what the second one answers after it has taken over a session. The
  handlers are those of theory \<open>EnvelopeDep\<close>; the order of their calls is what matters here: a session is
  persisted when its request has been decrypted (\<open>_envelope_dep.py:109\<close>), and the counter of the response
  advances afterwards (\<open>_envelope_dep.py:139\<close>).
\<close>

lemma encrypt_response_frame:
  assumes "r < length h" and "dk_ok (se_s2c (h ! r))"
    and "encrypt_response N J r payload m path None (h, st) = (Inr buf, w)"
  shows "snd w = st" and "\<exists>aad. build_aad m path (se_session_id (h ! r)) (se_s2c_counter (h ! r) + 1) = Inr aad \<and>
    (let nonce = dk_nonce_prefix (se_s2c (h ! r)) @ be_enc 8 (se_s2c_counter (h ! r) + 1) in
     buf = frame (se_session_id (h ! r)) (se_s2c_counter (h ! r) + 1) nonce
       (aead_encrypt N (payload_body J payload) aad nonce (dk_key (se_s2c (h ! r)))))"
  using assms by (auto simp: encrypt_response_def upd_session_def Let_def seal_Inr_iff)

lemma redis_persist_session:
  "fst (redis_put R J key_ttl t r (h, st)) = h"
  by (simp add: redis_put_def Let_def)

text \<open>C36. After a failover a nonce is used twice: instance A accepts a request and answers it; instance B, which
  shares the Redis, takes the session over and answers the next request. Both answers are sealed under the
  same key with the same nonce and counter, so the AEAD's confidentiality is gone; a client that has
  received the first answer rejects the second as a replay.\<close>

theorem failover_reuses_nonce:
  assumes "redis_inv R J h st" and "decrypt_request N (redis_store R J key_ttl) validate t0 f t t' rq (h, st) = (Accepted r x, w)"
    and "session_ok (fst w ! r)" and "encrypt_response N J r payload m path None w = (Inr buf, wA)"
    and "\<not> is_expired t2 (fst w ! r)" and "t2 < t' + of_int (redis_ttl key_ttl t' (fst w ! r))"
    and "redis_ok R" and "\<And>v. json_roundtrips J v"
  shows "\<exists>stB. sm_find (redis_store R J key_ttl) t2 (se_session_id (fst w ! r))
      ([], \<lparr>rs_redis = rs_redis (snd wA), rs_cache = []\<rparr>) = (Inr (Some 0), ([stored (fst w ! r)], stB)) \<and>
    (\<forall>payload' m' path' buf' wB.
      encrypt_response N J 0 payload' m' path' None ([stored (fst w ! r)], stB) = (Inr buf', wB) \<longrightarrow>
      (\<exists>sid c nonce key aad aad'. buf = frame sid c nonce (aead_encrypt N (payload_body J payload) aad nonce key) \<and>
         buf' = frame sid c nonce (aead_encrypt N (payload_body J payload') aad' nonce key) \<and>
         (\<forall>seen :: replay_client. c \<in> set (rc_seen seen) \<longrightarrow> \<not> is_ok (replay_client_check c seen))))"
proof -
  from decrypt_Accepted [OF assms(2)] obtain env :: envelope and w1 win where
    look: "sm_lookup_async (redis_store R J key_ttl) t t' (env_session_id env) (h, st) = (Inr (Some r), w1)"
    and w: "w = sm_persist (redis_store R J key_ttl) t' r (upd_session r (touch t') (upd_session r (\<lambda>s. s\<lparr>se_replay := win\<rparr>) w1))"
    by blast
  obtain h1 st1 where w1: "w1 = (h1, st1)" by (cases w1)
  from redis.lookup_async_live [OF assms(1) look [unfolded w1]] have r: "r < length h1" by auto
  obtain h2 where h2: "w = redis_put R J key_ttl t' r (h2, st1)" "length h2 = length h1"
    unfolding w w1 sm_persist_def by (simp add: redis_store_def upd_session_def)
  have wh: "fst w = h2" by (simp add: h2(1) redis_persist_session)
  have pair: "w = (h2, snd w)" using wh by (cases w) simp
  have ok: "session_ok (h2 ! r)" using assms(3) wh by simp
  then have dk: "dk_ok (se_s2c (h2 ! r))" by (simp add: session_ok_def)
  note A = encrypt_response_frame [OF _ dk, of N J payload m path "snd w" buf wA, folded pair, OF _ assms(4)]
  have sA: "snd wA = snd w" "\<exists>aad. build_aad m path (se_session_id (h2 ! r)) (se_s2c_counter (h2 ! r) + 1) = Inr aad \<and>
    (let nonce = dk_nonce_prefix (se_s2c (h2 ! r)) @ be_enc 8 (se_s2c_counter (h2 ! r) + 1) in
     buf = frame (se_session_id (h2 ! r)) (se_s2c_counter (h2 ! r) + 1) nonce
       (aead_encrypt N (payload_body J payload) aad nonce (dk_key (se_s2c (h2 ! r)))))"
    using A r h2(2) by simp_all
  obtain stB where find: "sm_find (redis_store R J key_ttl) t2 (se_session_id (h2 ! r))
      ([], \<lparr>rs_redis = rs_redis (snd w), rs_cache = []\<rparr>) = (Inr (Some 0), ([stored (h2 ! r)], stB))"
    using redis_failover_find [OF assms(7,8) ok, of t2 t' key_ttl st1] assms(5,6) unfolding wh h2(1) [symmetric] by blast
  have B: "\<exists>aad'. let c = se_s2c_counter (h2 ! r) + 1; nonce = dk_nonce_prefix (se_s2c (h2 ! r)) @ be_enc 8 c in
      buf' = frame (se_session_id (h2 ! r)) c nonce (aead_encrypt N (payload_body J payload') aad' nonce (dk_key (se_s2c (h2 ! r))))"
    if "encrypt_response N J 0 payload' m' path' None ([stored (h2 ! r)], stB) = (Inr buf', wB)" for payload' m' path' buf' wB
    using encrypt_response_frame(2) [OF _ _ that] dk by (auto simp: stored_def Let_def)
  have seen: "\<not> is_ok (replay_client_check c seen)" if "c \<in> set (rc_seen seen)" for c seen
    using that by (auto simp: replay_client_check_def)
  show ?thesis
    unfolding wh sA(1) using find sA(2) B seen unfolding Let_def by blast
qed

lemma demo_response_sealed:
  assumes "dk_ok (se_s2c x)" and "se_s2c_counter x = 0" and "se_session_id x = replicate 16 5"
  shows "\<exists>buf wA. encrypt_response demo_nacl unary_json 0 p ''GET'' ''/'' None ([x], st) = (Inr buf, wA)"
proof -
  have "method_ok ''GET''" by code_simp
  then show ?thesis
    using seal_total [of "se_s2c x" 1 "replicate 16 5" "''GET''" demo_nacl "''/''" "payload_body unary_json p"] assms
    by (auto simp: encrypt_response_def upd_session_def Let_def counter_ok_def)
qed

theorem failover_reuses_nonce_witness:
  "\<exists>buf buf' sid c nonce key a b aad aad' (w :: (string \<Rightarrow> (bytes \<times> float_py) option) redis_state world) wA
       (st' :: (string \<Rightarrow> (bytes \<times> float_py) option) redis_state) wB.
     encrypt_response demo_nacl unary_json 0 (ModelPayload a) ''GET'' ''/'' None w = (Inr buf, wA) \<and>
     encrypt_response demo_nacl unary_json 0 (ModelPayload b) ''GET'' ''/'' None ([stored (fst w ! 0)], st') = (Inr buf', wB) \<and>
     a \<noteq> b \<and> buf = frame sid c nonce (aead_encrypt demo_nacl a aad nonce key) \<and>
     buf' = frame sid c nonce (aead_encrypt demo_nacl b aad' nonce key)"
proof -
  obtain h st buf0 env s st1 where st: "redis_inv demo_redis unary_json h st"
    and acc: "decrypt_request demo_nacl (redis_store demo_redis unary_json 60) (\<lambda>pt. Inr pt) 0 0 700 700
       \<lparr>rq_method = ''GET'', rq_path = ''/'', rq_body = buf0\<rparr> (h, st) = (Accepted 0 [7], ([s], st1))"
    and s: "s = demo_session\<lparr>se_replay := se_replay s, se_last_used_at := 700\<rparr>"
    using demo_redis_accepts by blast
  have sel: "se_c2s s = se_c2s demo_session" "se_s2c s = se_s2c demo_session" "se_s2c_counter s = 0"
    "se_session_id s = replicate 16 5" "\<not> se_closed s" "se_last_used_at s = 700" "se_ttl_seconds s = se_ttl_seconds demo_session"
    "se_created_at s = se_created_at demo_session" "se_max_lifetime_seconds s = se_max_lifetime_seconds demo_session"
    by (subst s, simp add: demo_session_simps demo_session_def session_new_def demo_material_def)+
  have ok: "session_ok s" by (simp add: session_ok_def sel demo_session_simps demo_material_def demo_keys_def dk_ok_def)
  have live: "\<not> is_expired 710 s"
    by (simp add: is_expired_def sel demo_session_def session_new_def demo_material_def int_or_def)
  have ttl: "(710 :: float_py) < 700 + of_int (redis_ttl 60 700 s)"
    by (simp add: redis_ttl_def sel demo_session_def session_new_def demo_material_def int_or_def py_trunc_def Let_def)
  obtain buf wA where A: "encrypt_response demo_nacl unary_json 0 (ModelPayload [1]) ''GET'' ''/'' None ([s], st1) = (Inr buf, wA)"
    using demo_response_sealed [of s "ModelPayload [1]" st1] ok sel unfolding session_ok_def by blast
  have "fst ([s], st1) ! 0 = s" by simp
  note F = failover_reuses_nonce [OF st acc _ A _ _ demo_redis_ok unary_json_roundtrips, unfolded this, OF ok live ttl]
  then obtain stB :: "(string \<Rightarrow> (bytes \<times> float_py) option) redis_state" where B: "\<forall>payload' m' path' buf' wB.
      encrypt_response demo_nacl unary_json 0 payload' m' path' None ([stored s], stB) = (Inr buf', wB) \<longrightarrow>
      (\<exists>sid c nonce key aad aad'. buf = frame sid c nonce (aead_encrypt demo_nacl (payload_body unary_json (ModelPayload [1])) aad nonce key) \<and>
         buf' = frame sid c nonce (aead_encrypt demo_nacl (payload_body unary_json payload') aad' nonce key) \<and>
         (\<forall>seen :: replay_client. c \<in> set (rc_seen seen) \<longrightarrow> \<not> is_ok (replay_client_check c seen)))" by blast
  obtain buf' wB where B': "encrypt_response demo_nacl unary_json 0 (ModelPayload [2]) ''GET'' ''/'' None ([stored s], stB) = (Inr buf', wB)"
    using demo_response_sealed [of "stored s" "ModelPayload [2]" stB] ok sel by (auto simp: stored_def session_ok_def)
  from B [rule_format, OF B'] obtain sid c nonce key aad aad' where
    frames: "buf = frame sid c nonce (aead_encrypt demo_nacl [1] aad nonce key)"
      "buf' = frame sid c nonce (aead_encrypt demo_nacl [2] aad' nonce key)" by auto
  have B1: "encrypt_response demo_nacl unary_json 0 (ModelPayload [2]) ''GET'' ''/'' None ([stored (fst ([s], st1) ! 0)], stB)
      = (Inr buf', wB)" using B' by simp
  show ?thesis
    by (rule exI [of _ buf], rule exI [of _ buf'], rule exI [of _ sid], rule exI [of _ c], rule exI [of _ nonce],
        rule exI [of _ key], rule exI [of _ "[1]"], rule exI [of _ "[2]"], rule exI [of _ aad], rule exI [of _ aad'],
        rule exI [of _ "([s], st1)"], rule exI [of _ wA], rule exI [of _ stB], rule exI [of _ wB])
      (use A B1 frames in simp)
qed

end
