(* ===== verification/Schemas.thy ===== *)
theory Schemas
  imports Streaming
begin

text \<open>
  The bodies that travel inside envelopes (\<open>protocol/.../schemas.py\<close>): one record per pydantic model, the
  constraints its fields declare, and what \<open>model_dump\<close> makes of it. Parsing and its coercions are
  pydantic's: a parameter of the definitions that receive a body.
\<close>

section \<open>Chat messages\<close>

datatype content_part = TextPart string | ImagePart string string \<comment> \<open>url, detail\<close>

datatype message_content = PlainContent string | PartsContent "content_part list"

record chat_message =
  cm_role :: string
  cm_content :: message_content
  cm_name :: "string option"

definition IMAGE_DETAILS :: "string list" where
  "IMAGE_DETAILS = [''auto'', ''low'', ''high'']"

fun part_ok :: "content_part \<Rightarrow> bool" where
  "part_ok (TextPart t) \<longleftrightarrow> True"
| "part_ok (ImagePart url detail) \<longleftrightarrow> detail \<in> set IMAGE_DETAILS"

fun content_ok :: "message_content \<Rightarrow> bool" where
  "content_ok (PlainContent s) \<longleftrightarrow> True"
| "content_ok (PartsContent ps) \<longleftrightarrow> list_all part_ok ps"

definition message_ok :: "chat_message \<Rightarrow> bool" where
  "message_ok m \<longleftrightarrow> cm_role m \<in> set ROLES \<and> content_ok (cm_content m)"

fun part_json :: "content_part \<Rightarrow> json" where
  "part_json (TextPart t) = JObj [(''type'', JStr ''text''), (''text'', JStr t)]"
| "part_json (ImagePart url detail) = JObj
     [(''type'', JStr ''image_url''), (''image_url'', JObj [(''url'', JStr url), (''detail'', JStr detail)])]"

fun content_json :: "message_content \<Rightarrow> json" where
  "content_json (PlainContent s) = JStr s"
| "content_json (PartsContent ps) = JList (map part_json ps)"

definition message_json :: "chat_message \<Rightarrow> json" where
  "message_json m = JObj
     [(''role'', JStr (cm_role m)), (''content'', content_json (cm_content m)), (''name'', json_opt_str (cm_name m))]"

section \<open>Generation parameters\<close>

record lora_ref =
  lr_id :: string
  lr_scale :: float_py

definition lora_ref_ok :: "lora_ref \<Rightarrow> bool" where
  "lora_ref_ok l \<longleftrightarrow> - 2 \<le> lr_scale l \<and> lr_scale l \<le> 2"

definition lora_ref_json :: "lora_ref \<Rightarrow> json" where
  "lora_ref_json l = JObj [(''id'', JStr (lr_id l)), (''scale'', JFloat (lr_scale l))]"

record generation_params =
  gp_model :: string
  gp_max_tokens :: int
  gp_temperature :: float_py
  gp_top_p :: float_py
  gp_top_k :: int
  gp_repeat_penalty :: float_py
  gp_presence_penalty :: float_py
  gp_frequency_penalty :: float_py
  gp_seed :: "int option"
  gp_stop :: "string list"
  gp_stream :: bool
  gp_n_ctx :: "int option"
  gp_loras :: "lora_ref list"

record chat_request = generation_params +
  cq_messages :: "chat_message list"

record completion_request = generation_params +
  cq_prompt :: string

definition n_ctx_ok :: "int option \<Rightarrow> bool" where
  "n_ctx_ok n \<longleftrightarrow> (case n of None \<Rightarrow> True | Some i \<Rightarrow> 128 \<le> i \<and> i \<le> 131072)"

definition generation_ok :: "'a generation_params_scheme \<Rightarrow> bool" where
  "generation_ok g \<longleftrightarrow>
     1 \<le> gp_max_tokens g \<and> gp_max_tokens g \<le> 32768 \<and>
     0 \<le> gp_temperature g \<and> gp_temperature g \<le> 4 \<and>
     0 \<le> gp_top_p g \<and> gp_top_p g \<le> 1 \<and>
     0 \<le> gp_top_k g \<and> gp_top_k g \<le> 4096 \<and>
     0 \<le> gp_repeat_penalty g \<and> gp_repeat_penalty g \<le> 4 \<and>
     - 2 \<le> gp_presence_penalty g \<and> gp_presence_penalty g \<le> 2 \<and>
     - 2 \<le> gp_frequency_penalty g \<and> gp_frequency_penalty g \<le> 2 \<and>
     n_ctx_ok (gp_n_ctx g) \<and> list_all lora_ref_ok (gp_loras g)"

definition chat_request_ok :: "chat_request \<Rightarrow> bool" where
  "chat_request_ok q \<longleftrightarrow> generation_ok q \<and> cq_messages q \<noteq> [] \<and> list_all message_ok (cq_messages q)"

definition generation_fields :: "'a generation_params_scheme \<Rightarrow> (string \<times> json) list" where
  "generation_fields g =
     [(''model'', JStr (gp_model g)), (''max_tokens'', JInt (gp_max_tokens g)),
      (''temperature'', JFloat (gp_temperature g)), (''top_p'', JFloat (gp_top_p g)), (''top_k'', JInt (gp_top_k g)),
      (''repeat_penalty'', JFloat (gp_repeat_penalty g)), (''presence_penalty'', JFloat (gp_presence_penalty g)),
      (''frequency_penalty'', JFloat (gp_frequency_penalty g)), (''seed'', json_opt_int (gp_seed g)),
      (''stop'', JList (map JStr (gp_stop g))), (''stream'', JBool (gp_stream g)),
      (''n_ctx'', json_opt_int (gp_n_ctx g)), (''loras'', JList (map lora_ref_json (gp_loras g)))]"

definition chat_request_json :: "chat_request \<Rightarrow> json" where
  "chat_request_json q = JObj (generation_fields q @ [(''messages'', JList (map message_json (cq_messages q)))])"

definition completion_request_json :: "completion_request \<Rightarrow> json" where
  "completion_request_json q = JObj (generation_fields q @ [(''prompt'', JStr (cq_prompt q))])"

text \<open>\<open>model_dump(exclude_none=True)\<close> of a model whose dictionaries are all models.\<close>

fun exclude_none :: "json \<Rightarrow> json" where
  "exclude_none (JObj kvs) = JObj (map (\<lambda>(k, v). (k, exclude_none v)) (filter (\<lambda>(k, v). v \<noteq> JNull) kvs))"
| "exclude_none (JList xs) = JList (map exclude_none xs)"
| "exclude_none v = v"

text \<open>The defaults of the constructor.\<close>

definition generation_defaults :: "string \<Rightarrow> generation_params" where
  "generation_defaults model =
     \<lparr>gp_model = model, gp_max_tokens = 512, gp_temperature = 7 / 10, gp_top_p = 95 / 100, gp_top_k = 40,
      gp_repeat_penalty = 11 / 10, gp_presence_penalty = 0, gp_frequency_penalty = 0, gp_seed = None, gp_stop = [],
      gp_stream = False, gp_n_ctx = None, gp_loras = []\<rparr>"

section \<open>Completions\<close>

record usage =
  us_prompt_tokens :: int
  us_completion_tokens :: int
  us_total_tokens :: int

definition usage_json :: "usage \<Rightarrow> json" where
  "usage_json u = JObj [(''prompt_tokens'', JInt (us_prompt_tokens u)),
     (''completion_tokens'', JInt (us_completion_tokens u)), (''total_tokens'', JInt (us_total_tokens u))]"

record chat_choice =
  hc_index :: int
  hc_role :: string
  hc_content :: string
  hc_finish_reason :: string

definition chat_choice_json :: "chat_choice \<Rightarrow> json" where
  "chat_choice_json c = JObj [(''index'', JInt (hc_index c)),
     (''message'', JObj [(''role'', JStr (hc_role c)), (''content'', JStr (hc_content c))]),
     (''finish_reason'', JStr (hc_finish_reason c))]"

record chat_response =
  ans_id :: string
  ans_model :: string
  ans_created :: int
  ans_choices :: "chat_choice list"
  ans_usage :: usage

definition chat_response_json :: "chat_response \<Rightarrow> json" where
  "chat_response_json r = JObj [(''id'', JStr (ans_id r)), (''model'', JStr (ans_model r)),
     (''created'', JInt (ans_created r)), (''choices'', JList (map chat_choice_json (ans_choices r))),
     (''usage'', usage_json (ans_usage r))]"

record completion_response =
  txt_id :: string
  txt_model :: string
  txt_created :: int
  txt_text :: string
  txt_finish_reason :: string
  txt_usage :: usage

definition completion_response_json :: "completion_response \<Rightarrow> json" where
  "completion_response_json r = JObj [(''id'', JStr (txt_id r)), (''model'', JStr (txt_model r)),
     (''created'', JInt (txt_created r)), (''text'', JStr (txt_text r)),
     (''finish_reason'', JStr (txt_finish_reason r)), (''usage'', usage_json (txt_usage r))]"

section \<open>Embeddings\<close>

record embeddings_request =
  eq_model :: string
  eq_input :: "string + string list"

record embedding_datum =
  ed_index :: int
  ed_embedding :: "float_py list"

record embeddings_response =
  emb_id :: string
  emb_model :: string
  emb_created :: int
  emb_data :: "embedding_datum list"
  emb_prompt_tokens :: int
  emb_total_tokens :: int

definition embeddings_response_json :: "embeddings_response \<Rightarrow> json" where
  "embeddings_response_json r = JObj [(''id'', JStr (emb_id r)), (''model'', JStr (emb_model r)),
     (''created'', JInt (emb_created r)),
     (''data'', JList (map (\<lambda>d. JObj [(''index'', JInt (ed_index d)),
        (''embedding'', JList (map JFloat (ed_embedding d)))]) (emb_data r))),
     (''usage'', JObj [(''prompt_tokens'', JInt (emb_prompt_tokens r)), (''total_tokens'', JInt (emb_total_tokens r))])]"

section \<open>Errors\<close>

text \<open>An \<open>ErrorEnvelope\<close> with a code and a message.\<close>

definition error_envelope_json :: "error_code \<Rightarrow> string \<Rightarrow> json" where
  "error_envelope_json code message = JObj [(''code'', JStr (code_value code)), (''message'', JStr message),
     (''error_id'', JNull), (''retry_after_seconds'', JNull)]"

section \<open>Reading values llama.cpp returns\<close>

text \<open>
  Validation of a Python value for an \<open>int\<close>, a \<open>str\<close> or a \<open>float\<close> field. pydantic also reads numbers out of
  strings, which counts as an error here.
\<close>

fun pyd_int :: "json \<Rightarrow> int result" where
  "pyd_int (JInt i) = Inr i"
| "pyd_int (JBool b) = Inr (if b then 1 else 0)"
| "pyd_int (JFloat q) = (if of_int \<lfloor>q\<rfloor> = q then Inr \<lfloor>q\<rfloor> else Inl validation_error)"
| "pyd_int v = Inl validation_error"

fun pyd_float :: "json \<Rightarrow> float_py result" where
  "pyd_float (JFloat q) = Inr q"
| "pyd_float (JInt i) = Inr (of_int i)"
| "pyd_float (JBool b) = Inr (if b then 1 else 0)"
| "pyd_float v = Inl validation_error"

definition pyd_literal :: "string list \<Rightarrow> json \<Rightarrow> string result" where
  "pyd_literal allowed v = and_then (text_field v) (\<lambda>s. if s \<in> set allowed then Inr s else Inl validation_error)"

text \<open>\<open>xs[0]\<close>.\<close>

fun json_first :: "json \<Rightarrow> json result" where
  "json_first (JList []) = Inl IndexError"
| "json_first (JList (x # xs)) = Inr x"
| "json_first (JStr []) = Inl IndexError"
| "json_first (JStr (c # cs)) = Inr (JStr [c])"
| "json_first (JObj kvs) = Inl (KeyError ''0'')"
| "json_first v = Inl TypeError"

fun map_result :: "('a \<Rightarrow> 'b result) \<Rightarrow> 'a list \<Rightarrow> 'b list result" where
  "map_result f [] = Inr []"
| "map_result f (x # xs) = and_then (f x) (\<lambda>y. and_then (map_result f xs) (\<lambda>ys. Inr (y # ys)))"

end
