(* ===== verification/Endpoints.thy ===== *)
theory Endpoints
  imports Schemas Manager Keystore Middleware Downloader
begin

text \<open>
  The state the routers share (\<open>app.state\<close>), what every encrypted endpoint does around its own work, and the
  endpoints for inference, models, status and debugging (\<open>server/.../routers/chat.py\<close>, \<open>completions.py\<close>,
  \<open>embeddings.py\<close>, \<open>models.py\<close>, \<open>system.py\<close>, \<open>debug.py\<close>, \<open>observability/status.py\<close>, \<open>health.py\<close>). A handler
  that waits for the worker of a slot is two definitions: up to the \<open>await\<close> of the future, and from its
  value on. Prometheus counters are not modelled.
\<close>

section \<open>Shared state\<close>

type_synonym audit_fields = "(string \<times> json) list"

text \<open>
  The services of \<open>app.state\<close> that do not change, and the settings the routers read. \<open>sv_dump\<close> is
  \<open>model_dump_json\<close> of a model with the given dump; \<open>sv_cpu\<close>, \<open>sv_ram\<close>, \<open>sv_disk\<close> and \<open>sv_gpus\<close> stand for psutil
  and pynvml.
\<close>

record ('s, 'c) services =
  sv_nacl :: nacl
  sv_json :: json_lib
  sv_dump :: "json \<Rightarrow> bytes"
  sv_ops :: "'s store_ops"
  sv_env :: "'c env"
  sv_toml :: toml_lib
  sv_hub :: hub
  sv_allow_download :: bool
  sv_allowed_repo_prefixes :: "string list"
  sv_disk_quota_gb :: int
  sv_log_level :: string
  sv_version :: string
  sv_started_at :: float_py
  sv_cpu :: float_py
  sv_ram :: "int \<times> int"
  sv_disk :: "int \<times> int"
  sv_gpus :: "json list"

text \<open>What one request reads from outside: clocks, randomness, the name of a new future.\<close>

record moment =
  mo_started :: float_py \<comment> \<open>monotonic clock at the start\<close>
  mo_failed :: float_py \<comment> \<open>monotonic clock where \<open>_slow\<close> is called\<close>
  mo_lookup :: float_py
  mo_now :: float_py
  mo_token :: string \<comment> \<open>\<open>secrets.token_hex(8)\<close>\<close>
  mo_rnd :: bytes
  mo_scratch :: path
  mo_future :: nat
  mo_collected :: int \<comment> \<open>\<open>gc.collect()\<close>\<close>

record ('s, 'c) app =
  ap_world :: "'s world"
  ap_models :: "'c manager"
  ap_keystore :: keystore
  ap_logging :: logging
  ap_errors :: error_tracker
  ap_audit :: "(string \<times> audit_fields) list"
  ap_reverts :: "(float_py \<times> string) list" \<comment> \<open>pending reverts of a log level: when, which component\<close>
  ap_term_at :: "float_py option" \<comment> \<open>when SIGTERM is sent\<close>

definition audit :: "string \<Rightarrow> audit_fields \<Rightarrow> ('s, 'c) app \<Rightarrow> ('s, 'c) app" where
  "audit event kw st = st\<lparr>ap_audit := ap_audit st @ [(event, kw)]\<rparr>"

section \<open>Around a handler\<close>

datatype reply =
    Sealed int bytes \<comment> \<open>status and envelope\<close>
  | Refused rejection
  | EventStream "string list" "stream_exn option"
  | PlainReply int string
  | Crashed exn
  | SealCrash seal_error

definition session_of :: "ref \<Rightarrow> ('s, 'c) app \<Rightarrow> session" where
  "session_of r st = fst (ap_world st) ! r"

definition with_request ::
  "('s, 'c) services \<Rightarrow> moment \<Rightarrow> (bytes \<Rightarrow> string + 'q) \<Rightarrow> request \<Rightarrow>
   (ref \<Rightarrow> 'q \<Rightarrow> ('s, 'c) app \<Rightarrow> 'r \<times> ('s, 'c) app) \<Rightarrow> (reply \<Rightarrow> 'r) \<Rightarrow> ('s, 'c) app \<Rightarrow> 'r \<times> ('s, 'c) app" where
  "with_request S T validate rq handler fail st =
     (case decrypt_request (sv_nacl S) (sv_ops S) validate (mo_started T) (mo_failed T) (mo_lookup T) (mo_now T) rq
             (ap_world st) of
        (Rejected rj, w) \<Rightarrow> (fail (Refused rj), st\<lparr>ap_world := w\<rparr>)
      | (Raised e, w) \<Rightarrow> (fail (Crashed e), st\<lparr>ap_world := w\<rparr>)
      | (Accepted r q, w) \<Rightarrow> handler r q (st\<lparr>ap_world := w\<rparr>))"

definition answer ::
  "('s, 'c) services \<Rightarrow> request \<Rightarrow> ref \<Rightarrow> int \<Rightarrow> payload \<Rightarrow> direction_keys option \<Rightarrow> ('s, 'c) app \<Rightarrow> reply \<times> ('s, 'c) app" where
  "answer S rq r status payload direction st =
     (case encrypt_response (sv_nacl S) (sv_json S) r payload (rq_method rq) (rq_path rq) direction (ap_world st) of
        (Inl e, w) \<Rightarrow> (SealCrash e, st\<lparr>ap_world := w\<rparr>)
      | (Inr body, w) \<Rightarrow> (Sealed status body, st\<lparr>ap_world := w\<rparr>))"

definition answer_model :: "('s, 'c) services \<Rightarrow> request \<Rightarrow> ref \<Rightarrow> json \<Rightarrow> ('s, 'c) app \<Rightarrow> reply \<times> ('s, 'c) app" where
  "answer_model S rq r v = answer S rq r 200 (ModelPayload (sv_dump S v)) None"

definition answer_dict :: "('s, 'c) services \<Rightarrow> request \<Rightarrow> ref \<Rightarrow> json \<Rightarrow> ('s, 'c) app \<Rightarrow> reply \<times> ('s, 'c) app" where
  "answer_dict S rq r v = answer S rq r 200 (DictPayload v) None"

text \<open>\<open>ErrorEnvelope(code=..., message=...)\<close>, sealed with the given status.\<close>

definition answer_error ::
  "('s, 'c) services \<Rightarrow> request \<Rightarrow> ref \<Rightarrow> int \<Rightarrow> error_code \<Rightarrow> string \<Rightarrow> ('s, 'c) app \<Rightarrow> reply \<times> ('s, 'c) app" where
  "answer_error S rq r status code message =
     answer S rq r status (ModelPayload (sv_dump S (error_envelope_json code message))) None"

text \<open>\<open>except ManagerError\<close>: anything else is unhandled.\<close>

definition answer_manager_error ::
  "('s, 'c) services \<Rightarrow> request \<Rightarrow> ref \<Rightarrow> manager_error \<Rightarrow> ('s, 'c) app \<Rightarrow> reply \<times> ('s, 'c) app" where
  "answer_manager_error S rq r e st =
     (case e of
        ManagerError code message \<Rightarrow> answer_error S rq r 400 code message st
      | ManagerOther x \<Rightarrow> (Crashed x, st))"

text \<open>A call of the model manager.\<close>

definition on_models :: "('c manager \<Rightarrow> 'r \<times> 'c manager) \<Rightarrow> ('s, 'c) app \<Rightarrow> 'r \<times> ('s, 'c) app" where
  "on_models f st = (case f (ap_models st) of (res, m) \<Rightarrow> (res, st\<lparr>ap_models := m\<rparr>))"

lemma answer_world:
  "answer S rq r status payload direction st = (rep, st') \<Longrightarrow>
    ap_world st' = upd_session r (\<lambda>x. x\<lparr>se_s2c_counter := se_s2c_counter x + 1\<rparr>) (ap_world st)"
  by (auto simp: answer_def encrypt_response_def Let_def split: sum.splits)

section \<open>Inference\<close>

definition chat_sampling :: "chat_request \<Rightarrow> (string \<times> json) list" where
  "chat_sampling q =
     [(''temperature'', JFloat (gp_temperature q)), (''top_p'', JFloat (gp_top_p q)), (''top_k'', JInt (gp_top_k q)),
      (''repeat_penalty'', JFloat (gp_repeat_penalty q)), (''presence_penalty'', JFloat (gp_presence_penalty q)),
      (''frequency_penalty'', JFloat (gp_frequency_penalty q)), (''max_tokens'', JInt (gp_max_tokens q))]
     @ (if gp_stop q \<noteq> [] then [(''stop'', JList (map JStr (gp_stop q)))] else [])
     @ (case gp_seed q of None \<Rightarrow> [] | Some s \<Rightarrow> [(''seed'', JInt s)])"

definition completion_sampling :: "completion_request \<Rightarrow> (string \<times> json) list" where
  "completion_sampling q =
     [(''temperature'', JFloat (gp_temperature q)), (''top_p'', JFloat (gp_top_p q)), (''top_k'', JInt (gp_top_k q)),
      (''repeat_penalty'', JFloat (gp_repeat_penalty q)), (''max_tokens'', JInt (gp_max_tokens q))]
     @ (if gp_stop q \<noteq> [] then [(''stop'', JList (map JStr (gp_stop q)))] else [])
     @ (case gp_seed q of None \<Rightarrow> [] | Some s \<Rightarrow> [(''seed'', JInt s)])"

definition lora_spec_of :: "'a generation_params_scheme \<Rightarrow> lora_spec" where
  "lora_spec_of q = map (\<lambda>l. (lr_id l, lr_scale l)) (gp_loras q)"

text \<open>A handler that waits: the session, the request and the future.\<close>

datatype 'q pending = Done reply | Waiting ref 'q nat

definition chat_completions ::
  "('s, 'c) services \<Rightarrow> moment \<Rightarrow> (bytes \<Rightarrow> string + chat_request) \<Rightarrow> request \<Rightarrow> ('s, 'c) app \<Rightarrow>
   chat_request pending \<times> ('s, 'c) app" where
  "chat_completions S T validate rq =
     with_request S T validate rq (\<lambda>r q st.
       case on_models (chat (sv_env S) (mo_future T) (gp_model q) (gp_n_ctx q) (JList (map message_json (cq_messages q)))
              (gp_stream q) (lora_spec_of q) (se_tenant (session_of r st)) (chat_sampling q)) st of
         (Inl e, st) \<Rightarrow> apfst Done (answer_manager_error S rq r e st)
       | (Inr fut, st) \<Rightarrow> (Waiting r q fut, st)) Done"

definition usage_of :: "json \<Rightarrow> usage result" where
  "usage_of result =
     and_then (get_default result ''usage'' (JObj [])) (\<lambda>usage.
     and_then (and_then (get_default usage ''prompt_tokens'' (JInt 0)) pyd_int) (\<lambda>p.
     and_then (and_then (get_default usage ''completion_tokens'' (JInt 0)) pyd_int) (\<lambda>c.
     and_then (and_then (get_default usage ''total_tokens'' (JInt 0)) pyd_int) (\<lambda>t.
     Inr \<lparr>us_prompt_tokens = p, us_completion_tokens = c, us_total_tokens = t\<rparr>))))"

definition finish_of :: "json \<Rightarrow> string result" where
  "finish_of choice = and_then (get_or choice ''finish_reason'' (JStr ''stop'')) (pyd_literal FINISH_REASONS)"

definition chat_response_of :: "moment \<Rightarrow> chat_request \<Rightarrow> json \<Rightarrow> chat_response result" where
  "chat_response_of T q result =
     and_then (and_then (json_item result ''choices'') json_first) (\<lambda>choice.
     and_then (usage_of result) (\<lambda>usage.
     and_then (and_then (get_default result ''id'' (JStr (''chatcmpl-'' @ mo_token T))) text_field) (\<lambda>ident.
     and_then (and_then (get_default result ''created'' (JFloat (mo_now T))) json_int) (\<lambda>created.
     and_then (json_item choice ''message'') (\<lambda>message.
     and_then (and_then (get_default message ''role'' (JStr ''assistant'')) (pyd_literal ROLES)) (\<lambda>role.
     and_then (and_then (get_default message ''content'' (JStr [])) text_field) (\<lambda>content.
     and_then (finish_of choice) (\<lambda>finish.
     Inr \<lparr>ans_id = ident, ans_model = gp_model q, ans_created = created,
          ans_choices = [\<lparr>hc_index = 0, hc_role = role, hc_content = content, hc_finish_reason = finish\<rparr>],
          ans_usage = usage\<rparr>))))))))"

text \<open>
  After the \<open>await\<close>. \<open>evs\<close> is what the loop of the streaming encoder meets when it reads the handle; a
  disconnected client shows in it as a cancellation.
\<close>

definition chat_finish ::
  "('s, 'c) services \<Rightarrow> moment \<Rightarrow> request \<Rightarrow> ref \<Rightarrow> chat_request \<Rightarrow> json future \<Rightarrow> stream_event list \<Rightarrow> ('s, 'c) app \<Rightarrow>
   reply \<times> ('s, 'c) app" where
  "chat_finish S T rq r q fut evs st =
     (case fut of
        FutExn e \<Rightarrow> (Crashed e, st)
      | FutStream chunks err \<Rightarrow>
          if \<not> gp_stream q then (Crashed TypeError, st)
          else (case stream_chat_envelopes (sv_nacl S) (sv_json S) (rq_method rq) (rq_path rq) (gp_model q)
                  (''chatcmpl-'' @ mo_token T) (py_trunc (mo_now T)) evs (session_of r st) of
             (out, err, s) \<Rightarrow> (EventStream out err, st\<lparr>ap_world := upd_session r (\<lambda>_. s) (ap_world st)\<rparr>))
      | FutResult result \<Rightarrow>
          if gp_stream q then (Crashed AssertionError, st)
          else (case chat_response_of T q result of
             Inl e \<Rightarrow> (Crashed e, st)
           | Inr payload \<Rightarrow> answer_model S rq r (chat_response_json payload) st))"

definition completions ::
  "('s, 'c) services \<Rightarrow> moment \<Rightarrow> (bytes \<Rightarrow> string + completion_request) \<Rightarrow> request \<Rightarrow> ('s, 'c) app \<Rightarrow>
   completion_request pending \<times> ('s, 'c) app" where
  "completions S T validate rq =
     with_request S T validate rq (\<lambda>r q st.
       if gp_stream q
       then apfst Done (answer_error S rq r 400 BAD_REQUEST ''streaming not implemented in v1; set stream=false'' st)
       else case on_models (complete (sv_env S) (mo_future T) (gp_model q) (gp_n_ctx q) (cq_prompt q) False
              (lora_spec_of q) (se_tenant (session_of r st)) (completion_sampling q)) st of
         (Inl e, st) \<Rightarrow> apfst Done (answer_manager_error S rq r e st)
       | (Inr fut, st) \<Rightarrow> (Waiting r q fut, st)) Done"

definition completion_response_of :: "moment \<Rightarrow> completion_request \<Rightarrow> json \<Rightarrow> completion_response result" where
  "completion_response_of T q result =
     and_then (and_then (json_item result ''choices'') json_first) (\<lambda>choice.
     and_then (usage_of result) (\<lambda>usage.
     and_then (and_then (get_default result ''id'' (JStr (''cmpl-'' @ mo_token T))) text_field) (\<lambda>ident.
     and_then (and_then (get_default result ''created'' (JFloat (mo_now T))) json_int) (\<lambda>created.
     and_then (and_then (get_default choice ''text'' (JStr [])) text_field) (\<lambda>text.
     and_then (finish_of choice) (\<lambda>finish.
     Inr \<lparr>txt_id = ident, txt_model = gp_model q, txt_created = created, txt_text = text,
          txt_finish_reason = finish, txt_usage = usage\<rparr>))))))"

definition completions_finish ::
  "('s, 'c) services \<Rightarrow> moment \<Rightarrow> request \<Rightarrow> ref \<Rightarrow> completion_request \<Rightarrow> json future \<Rightarrow> ('s, 'c) app \<Rightarrow>
   reply \<times> ('s, 'c) app" where
  "completions_finish S T rq r q fut st =
     (case fut of
        FutExn e \<Rightarrow> (Crashed e, st)
      | FutStream chunks err \<Rightarrow> (Crashed TypeError, st)
      | FutResult result \<Rightarrow>
          (case completion_response_of T q result of
             Inl e \<Rightarrow> (Crashed e, st)
           | Inr payload \<Rightarrow> answer_model S rq r (completion_response_json payload) st))"

definition embedding_inputs :: "embeddings_request \<Rightarrow> json" where
  "embedding_inputs q = JList (map JStr (case eq_input q of Inl s \<Rightarrow> [s] | Inr ss \<Rightarrow> ss))"

definition embeddings ::
  "('s, 'c) services \<Rightarrow> moment \<Rightarrow> (bytes \<Rightarrow> string + embeddings_request) \<Rightarrow> request \<Rightarrow> ('s, 'c) app \<Rightarrow>
   embeddings_request pending \<times> ('s, 'c) app" where
  "embeddings S T validate rq =
     with_request S T validate rq (\<lambda>r q st.
       case on_models (embed (sv_env S) (mo_future T) (eq_model q) (embedding_inputs q) (se_tenant (session_of r st))) st of
         (Inl e, st) \<Rightarrow> apfst Done (answer_manager_error S rq r e st)
       | (Inr fut, st) \<Rightarrow> (Waiting r q fut, st)) Done"

definition embedding_item :: "nat \<times> json \<Rightarrow> embedding_datum result" where
  "embedding_item = (\<lambda>(i, item).
     and_then (and_then (get_default item ''index'' (JInt (int i))) json_int) (\<lambda>index.
     and_then (and_then (get_default item ''embedding'' (JList [])) json_iter) (\<lambda>xs.
     and_then (map_result pyd_float xs) (\<lambda>xs. Inr \<lparr>ed_index = index, ed_embedding = xs\<rparr>))))"

text \<open>A result that is no dictionary counts as an empty one.\<close>

definition embeddings_response_of :: "moment \<Rightarrow> embeddings_request \<Rightarrow> json \<Rightarrow> embeddings_response result" where
  "embeddings_response_of T q result =
     (let result = (case result of JObj kvs \<Rightarrow> result | _ \<Rightarrow> JObj []) in
      and_then (and_then (get_default result ''data'' (JList [])) json_iter) (\<lambda>items.
      and_then (get_default result ''usage'' (JObj [])) (\<lambda>usage.
      and_then (get_default usage ''prompt_tokens'' (JInt 0)) (\<lambda>prompt.
      and_then (map_result embedding_item (enumerate 0 items)) (\<lambda>dat.
      and_then (json_int prompt) (\<lambda>p.
      and_then (and_then (get_default usage ''total_tokens'' prompt) json_int) (\<lambda>t.
      Inr \<lparr>emb_id = ''embd-'' @ mo_token T, emb_model = eq_model q, emb_created = py_trunc (mo_now T),
           emb_data = dat, emb_prompt_tokens = p, emb_total_tokens = t\<rparr>)))))))"

definition embeddings_finish ::
  "('s, 'c) services \<Rightarrow> moment \<Rightarrow> request \<Rightarrow> ref \<Rightarrow> embeddings_request \<Rightarrow> json future \<Rightarrow> ('s, 'c) app \<Rightarrow>
   reply \<times> ('s, 'c) app" where
  "embeddings_finish S T rq r q fut st =
     (case fut of
        FutExn e \<Rightarrow> (Crashed e, st)
      | FutStream chunks err \<Rightarrow> answer_model S rq r (embeddings_response_json
          \<lparr>emb_id = ''embd-'' @ mo_token T, emb_model = eq_model q, emb_created = py_trunc (mo_now T),
           emb_data = [], emb_prompt_tokens = 0, emb_total_tokens = 0\<rparr>) st
      | FutResult result \<Rightarrow>
          (case embeddings_response_of T q result of
             Inl e \<Rightarrow> (Crashed e, st)
           | Inr payload \<Rightarrow> answer_model S rq r (embeddings_response_json payload) st))"

section \<open>A small server\<close>

definition demo_json_env :: "json env" where
  "demo_json_env = \<lparr>en_config = demo_config, en_age = demo_age, en_written = (\<lambda>k. 100), en_uuid = (\<lambda>i. ''u''),
     en_json = unary_json, en_now = 0, en_llama = (\<lambda>b. None), en_str = (\<lambda>e. ''e''),
     en_infer = (\<lambda>b j. Returns JNull), en_cancelled = (\<lambda>j. None)\<rparr>"

definition demo_services :: "(cache, json) services" where
  "demo_services = \<lparr>sv_nacl = demo_nacl, sv_json = unary_json, sv_dump = json_dumps unary_json, sv_ops = in_memory_store,
     sv_env = demo_json_env, sv_toml = demo_toml, sv_hub = demo_hub, sv_allow_download = True,
     sv_allowed_repo_prefixes = [''org/''], sv_disk_quota_gb = 1, sv_log_level = ''info'', sv_version = ''0'',
     sv_started_at = 0, sv_cpu = 0, sv_ram = (0, 0), sv_disk = (0, 0), sv_gpus = []\<rparr>"

definition demo_moment :: moment where
  "demo_moment = \<lparr>mo_started = 0, mo_failed = 0, mo_lookup = 150, mo_now = 150, mo_token = ''t'', mo_rnd = [],
     mo_scratch = [''s''], mo_future = 0, mo_collected = 0\<rparr>"

definition demo_caller :: "string list \<Rightarrow> session" where
  "demo_caller scopes = demo_session\<lparr>se_scopes := fset_of_list scopes\<rparr>"

definition demo_app :: "session list \<Rightarrow> cache \<Rightarrow> (cache, json) app" where
  "demo_app h d = \<lparr>ap_world = (h, d),
     ap_models = manager_new \<lparr>mt_base = [''models''], mt_cache = [(''acme'', \<lparr>rg_dir = [''models''], rg_by_id = []\<rparr>)]\<rparr>
       \<lparr>mt_base = [''loras''], mt_cache = []\<rparr> [],
     ap_keystore = \<lparr>ks_server = demo_server, ks_allowlist = [], ks_allowlist_path = None\<rparr>,
     ap_logging = \<lparr>lg_min = 20, lg_root = 20, lg_levels = [], lg_ring = ring_new 10, lg_out = []\<rparr>,
     ap_errors = tracker_new 10, ap_audit = [], ap_reverts = [], ap_term_at = None\<rparr>"

lemma demo_caller_simps:
  "se_session_id (demo_caller sc) = replicate 16 5" "se_c2s (demo_caller sc) = demo_keys"
  "se_s2c (demo_caller sc) = \<lparr>dk_key = replicate 32 6, dk_nonce_prefix = [4, 3, 2, 1]\<rparr>"
  "se_s2c_counter (demo_caller sc) = 0" "se_tenant (demo_caller sc) = ''acme''"
  "se_replay (demo_caller sc) = replay_window_new" "se_scopes (demo_caller sc) = fset_of_list sc"
  "\<not> is_expired 150 (demo_caller sc)" "se_client_fingerprint (demo_caller sc) = ''fp''"
  by (simp_all add: demo_caller_def demo_session_def is_expired_def session_new_def demo_material_def int_or_def)

lemma demo_caller_cache: "cache_ok [demo_caller sc] [(replicate 16 5, 0)]"
  by (simp add: cache_ok_def dict_ok_def demo_caller_simps)

text \<open>The session at position 0 of the heap sends a body for this endpoint.\<close>

lemma demo_call:
  assumes "h \<noteq> [] \<and> h ! 0 = demo_caller sc" and "cache_ok h d" and "map_of d (replicate 16 5) = Some 0" and "validate pt = Inr x"
  shows "\<exists>buf win. decrypt_request demo_nacl in_memory_store validate 0 0 150 150
      \<lparr>rq_method = ''GET'', rq_path = ''/'', rq_body = buf\<rparr> (h, d)
      = (Accepted 0 x, (h[0 := touch 150 ((demo_caller sc)\<lparr>se_replay := win\<rparr>)], AList.update (replicate 16 5) 0 d))"
proof -
  obtain buf where buf: "client_seal demo_nacl demo_keys 3 (replicate 16 5) ''GET'' ''/'' pt = Inr buf"
    using demo_client_seal by blast
  have "\<not> rw_blocked replay_window_new 3"
    by (simp add: rw_blocked_def replay_window_new_def rw_seen_def WINDOW_BITS_def)
  with live_request_accepted [of demo_nacl h d "replicate 16 5" 0 150 150 3 "''GET''" "''/''" pt buf validate x 0 0]
    assms buf show ?thesis by (auto simp: demo_nacl_laws demo_keys_ok demo_caller_simps)
qed

end
