(* ===== verification/Delivery.thy ===== *)
theory Delivery
  imports Endpoints
begin

text \<open>
  Client and server together: a call of the client's transport (\<open>client/.../transport.py\<close>) answered by a
  handler of the server (\<open>server/.../routers\<close>). The two ends agree where the session of the transport and
  the session object of the server hold the same keys and the same id, which is what a handshake leaves; the
  network carries the bytes of one to the other.
\<close>

section \<open>One exchange\<close>

text \<open>What the web framework sends for a reply of a handler, as the client reads it.\<close>

fun http_of :: "reply \<Rightarrow> http_response option" where
  "http_of (Sealed status body) = Some \<lparr>hp_status = status, hp_content_type = ''application/octet-stream'',
     hp_body = body, hp_lines = []\<rparr>"
| "http_of _ = None"

text \<open>The session of a transport and a session object of the server belong to one handshake.\<close>

definition same_session :: "session_state \<Rightarrow> session \<Rightarrow> bool" where
  "same_session s x \<longleftrightarrow> ho_session_id (ss_outcome s) = se_session_id x \<and> ho_c2s (ss_outcome s) = se_c2s x \<and>
     ho_s2c (ss_outcome s) = se_s2c x \<and> dk_ok (se_c2s x) \<and> dk_ok (se_s2c x) \<and> length (se_session_id x) = 16"

definition call_request :: "string \<Rightarrow> string \<Rightarrow> bytes \<Rightarrow> http_request" where
  "call_request mth path body = \<lparr>hq_method = mth, hq_path = path,
     hq_headers = [(''content-type'', ''application/octet-stream'')], hq_body = body\<rparr>"

text \<open>The server's view of it: httpx sends the method in upper case.\<close>

definition served_request :: "string \<Rightarrow> string \<Rightarrow> bytes \<Rightarrow> request" where
  "served_request mth path body = \<lparr>rq_method = str_upper mth, rq_path = path, rq_body = body\<rparr>"

text \<open>Sealing with the session's own direction, or with one that was put aside before the session was zeroed.\<close>

lemma answer_readable_with:
  assumes "aead_ok (sv_nacl S)" and "cl_nacl L = sv_nacl S" and "r < length (fst (ap_world st))"
    and "ho_session_id (ss_outcome s) = se_session_id (session_of r st)" and "length (se_session_id (session_of r st)) = 16"
    and "ho_s2c (ss_outcome s) = (case direction of Some d \<Rightarrow> d | None \<Rightarrow> se_s2c (session_of r st))"
    and "dk_ok (ho_s2c (ss_outcome s))" and "counter_ok (se_s2c_counter (session_of r st) + 1)"
    and "method_ok (str_upper mth)" and "se_s2c_counter (session_of r st) + 1 \<notin> set (rc_seen replay)"
    and "status \<noteq> 204" and "json_loads (cl_json L) (payload_body (sv_json S) payload) = Some v"
    and "payload_body (sv_json S) payload \<noteq> []" and "rq_method rq = str_upper mth" and "rq_path rq = path"
  shows "\<exists>body st' replay'. answer S rq r status payload direction st = (Sealed status body, st') \<and>
    decode_response L \<lparr>hp_status = status, hp_content_type = ''application/octet-stream'', hp_body = body, hp_lines = []\<rparr>
      s mth path replay = (decode_plaintext status v, replay') \<and>
    set (rc_seen replay') \<subseteq> insert (se_s2c_counter (session_of r st) + 1) (set (rc_seen replay)) \<and>
    (\<exists>junk. body = ENVELOPE_MAGIC @ junk)"
proof -
  obtain h d where w: "ap_world st = (h, d)" by (metis prod.exhaust)
  let ?x = "session_of r st" and ?d = "ho_s2c (ss_outcome s)"
  have x: "h ! r = ?x" by (simp add: session_of_def w)
  obtain body where sl: "seal (sv_nacl S) ?d (se_s2c_counter ?x + 1) (se_session_id ?x) (str_upper mth) path
      (payload_body (sv_json S) payload) = Inr body"
    using seal_total [OF assms(7,8,5,9)] by metis
  from open_seal [OF assms(1,7) sl] obtain env where
    op: "client_open_envelope (cl_nacl L) ?d (se_session_id ?x) (str_upper mth) path body
      = Inr (env, payload_body (sv_json S) payload)" and env: "env_counter env = se_s2c_counter ?x + 1"
    unfolding client_open_eq assms(2) by blast
  have pre: "\<not> has_prefix ''application/json'' ''application/octet-stream''"
    "has_prefix ''application/octet-stream'' ''application/octet-stream''" by code_simp+
  obtain replay' where ck: "replay_client_check (env_counter env) replay = Inr replay'"
    using assms(10) by (simp add: replay_client_check_def env Let_def)
  have "set (rc_seen replay') \<subseteq> insert (env_counter env) (set (rc_seen replay))"
    using ck by (auto simp: replay_client_check_def Let_def set_insort_key split: if_splits dest!: in_set_dropD)
  moreover have "fst (answer S rq r status payload direction st) = Sealed status body"
    using sl assms(3,6,14,15) x by (simp add: answer_def encrypt_response_def upd_session_def Let_def w split: option.splits)
  moreover have "decode_response L \<lparr>hp_status = status, hp_content_type = ''application/octet-stream'', hp_body = body, hp_lines = []\<rparr>
      s mth path replay = (decode_plaintext status v, replay')"
    using op ck assms(4,11-13) pre by (simp add: decode_response_def load_plaintext_def)
  moreover have "\<exists>junk. body = ENVELOPE_MAGIC @ junk" using sl by (auto simp: seal_Inr_iff [OF assms(7)] frame_def)
  ultimately show ?thesis using env by (metis prod.collapse)
qed

lemma answer_readable:
  assumes "aead_ok (sv_nacl S)" and "cl_nacl L = sv_nacl S" and "r < length (fst (ap_world st))"
    and "same_session s (session_of r st)" and "counter_ok (se_s2c_counter (session_of r st) + 1)"
    and "method_ok (str_upper mth)" and "se_s2c_counter (session_of r st) + 1 \<notin> set (rc_seen replay)"
    and "status \<noteq> 204" and "json_loads (cl_json L) (payload_body (sv_json S) payload) = Some v"
    and "payload_body (sv_json S) payload \<noteq> []" and "rq_method rq = str_upper mth" and "rq_path rq = path"
  shows "\<exists>body st' replay'. answer S rq r status payload None st = (Sealed status body, st') \<and>
    decode_response L \<lparr>hp_status = status, hp_content_type = ''application/octet-stream'', hp_body = body, hp_lines = []\<rparr>
      s mth path replay = (decode_plaintext status v, replay') \<and>
    set (rc_seen replay') \<subseteq> insert (se_s2c_counter (session_of r st) + 1) (set (rc_seen replay)) \<and>
    (\<exists>junk. body = ENVELOPE_MAGIC @ junk)"
  by (rule answer_readable_with [OF assms(1-3) _ _ _ _ assms(5-12)])
    (use assms(4) in \<open>simp_all add: same_session_def\<close>)

section \<open>A whole call\<close>

lemma request_answered:
  assumes "tr_session t = Some s"
    and "client_seal (cl_nacl L) (ho_c2s (ss_outcome s)) (ss_c2s_counter s + 1) (ho_session_id (ss_outcome s))
      (str_upper mth) path (request_body (cl_json L) payload) = Inr envelope"
    and "net (tr_log t @ [call_request mth path envelope]) = Some (resp :: http_response)"
    and "hp_status resp \<in> {401, 400} \<Longrightarrow> try_extract_error_code (cl_json L) (hp_body resp) \<notin> {Some UNKNOWN_SESSION, Some SESSION_EXPIRED}"
  shows "fst (request L net mth path payload retry t)
    = fst (decode_response L resp (s\<lparr>ss_c2s_counter := ss_c2s_counter s + 1\<rparr>) mth path (tr_replay t))"
proof -
  from assms(1,2) have "seal_next L net mth path payload t
      = (Inr (s\<lparr>ss_c2s_counter := ss_c2s_counter s + 1\<rparr>, envelope),
         t\<lparr>tr_session := Some (s\<lparr>ss_c2s_counter := ss_c2s_counter s + 1\<rparr>)\<rparr>)"
    by (simp add: seal_next_def get_session_def Let_def)
  then show ?thesis using assms(3,4)
    by (subst request.simps) (auto simp: send_def Let_def call_request_def split: prod.splits)
qed

lemma call_decoded:
  assumes "aead_ok (sv_nacl S)" and "cl_nacl L = sv_nacl S" and "sv_ops S = in_memory_store"
    and "tr_session t = Some s" and "cache_ok (fst (ap_world st)) (snd (ap_world st))"
    and "map_of (snd (ap_world st)) (ho_session_id (ss_outcome s)) = Some r" and "same_session s (session_of r st)"
    and "\<not> is_expired (mo_lookup T) (session_of r st)" and "\<not> is_expired (mo_now T) (session_of r st)"
    and "counter_ok (ss_c2s_counter s + 1)" and "\<not> rw_blocked (se_replay (session_of r st)) (ss_c2s_counter s + 1)"
    and "counter_ok (se_s2c_counter (session_of r st) + 1)"
    and "se_s2c_counter (session_of r st) + 1 \<notin> set (rc_seen (tr_replay t))" and "method_ok (str_upper mth)"
    and "validate (request_body (cl_json L) payload) = Inr q"
    and "\<And>rq st'. session_of r st' = touch (mo_now T) ((session_of r st)\<lparr>se_replay := se_replay (session_of r st')\<rparr>) \<Longrightarrow>
      handler rq r q st' = answer S rq r status body None (effect st') \<and> ap_world (effect st') = ap_world st'"
    and "status \<noteq> 204" and "json_loads (cl_json L) (payload_body (sv_json S) body) = Some v"
    and "payload_body (sv_json S) body \<noteq> []"
    and "\<And>envelope. net (tr_log t @ [call_request mth path envelope])
      = http_of (fst (with_request S T validate (served_request mth path envelope)
          (handler (served_request mth path envelope)) (\<lambda>x. x) st))"
    and "\<And>junk. status \<in> {401, 400} \<Longrightarrow> json_loads (cl_json L) (ENVELOPE_MAGIC @ junk) = None"
  shows "fst (request L net mth path payload retry t) = decode_plaintext status v"
proof -
  obtain h d where w: "ap_world st = (h, d)" by (metis prod.exhaust)
  let ?x = "session_of r st"
  have x: "h ! r = ?x" by (simp add: session_of_def w)
  from assms(5,6) have r: "r < length h" and id: "se_session_id ?x = ho_session_id (ss_outcome s)"
    by (auto simp: w simp flip: x dest: cache_okD)
  from assms(7) have ids: "ho_c2s (ss_outcome s) = se_c2s ?x" "dk_ok (se_c2s ?x)" "length (se_session_id ?x) = 16"
    by (simp_all add: same_session_def)
  obtain envelope where sl: "client_seal (cl_nacl L) (ho_c2s (ss_outcome s)) (ss_c2s_counter s + 1)
      (ho_session_id (ss_outcome s)) (str_upper mth) path (request_body (cl_json L) payload) = Inr envelope"
    using seal_total [OF ids(2) assms(10) ids(3) assms(14)] id ids(1) unfolding client_seal_eq by metis
  let ?rq = "served_request mth path envelope"
  obtain win where acc: "decrypt_request (sv_nacl S) in_memory_store validate (mo_started T) (mo_failed T) (mo_lookup T)
      (mo_now T) ?rq (h, d)
      = (Accepted r q, (h[r := touch (mo_now T) ((h ! r)\<lparr>se_replay := win\<rparr>)],
          AList.update (ho_session_id (ss_outcome s)) r d))"
    using live_request_accepted [of "sv_nacl S" h d "ho_session_id (ss_outcome s)" r "mo_lookup T" "mo_now T"
        "ss_c2s_counter s + 1" "str_upper mth" path "request_body (cl_json L) payload" envelope validate q
        "mo_started T" "mo_failed T"] assms(1,2,5,6,8,9,11,15) sl ids w x by (auto simp: served_request_def)
  let ?st = "st\<lparr>ap_world := (h[r := touch (mo_now T) ((h ! r)\<lparr>se_replay := win\<rparr>)],
          AList.update (ho_session_id (ss_outcome s)) r d)\<rparr>"
  have x': "session_of r ?st = touch (mo_now T) (?x\<lparr>se_replay := win\<rparr>)" using r by (simp add: session_of_def w)
  then have wn: "se_replay (session_of r ?st) = win" by (simp add: touch_def)
  have "with_request S T validate ?rq (handler ?rq) (\<lambda>x. x) st = handler ?rq r q ?st"
    using acc assms(3) w by (simp add: with_request_def)
  moreover have han: "handler ?rq r q ?st = answer S ?rq r status body None (effect ?st)" "ap_world (effect ?st) = ap_world ?st"
    using assms(16) [of ?st ?rq] x' wn by auto
  moreover have se: "session_of r (effect ?st) = session_of r ?st" using han(2) by (simp add: session_of_def)
  let ?s = "s\<lparr>ss_c2s_counter := ss_c2s_counter s + 1\<rparr>"
  have "\<exists>b st' replay'. answer S ?rq r status body None (effect ?st) = (Sealed status b, st') \<and>
    decode_response L \<lparr>hp_status = status, hp_content_type = ''application/octet-stream'', hp_body = b, hp_lines = []\<rparr>
      ?s mth path (tr_replay t) = (decode_plaintext status v, replay') \<and>
    set (rc_seen replay') \<subseteq> insert (se_s2c_counter (session_of r (effect ?st)) + 1) (set (rc_seen (tr_replay t))) \<and>
    (\<exists>junk. b = ENVELOPE_MAGIC @ junk)"
  proof (rule answer_readable [OF assms(1,2)])
    show "r < length (fst (ap_world (effect ?st)))" using r han(2) by simp
    show "same_session ?s (session_of r (effect ?st))" using assms(7) se x' by (simp add: same_session_def touch_def)
    show "counter_ok (se_s2c_counter (session_of r (effect ?st)) + 1)" using assms(12) se x' by (simp add: touch_def)
    show "se_s2c_counter (session_of r (effect ?st)) + 1 \<notin> set (rc_seen (tr_replay t))"
      using assms(13) se x' by (simp add: touch_def)
  qed (use assms in \<open>simp_all add: served_request_def\<close>)
  ultimately obtain b junk replay' where junk: "b = ENVELOPE_MAGIC @ junk" and
    out: "http_of (fst (with_request S T validate ?rq (handler ?rq) (\<lambda>x. x) st))
      = Some \<lparr>hp_status = status, hp_content_type = ''application/octet-stream'', hp_body = b, hp_lines = []\<rparr>"
    and dec: "decode_response L \<lparr>hp_status = status, hp_content_type = ''application/octet-stream'', hp_body = b, hp_lines = []\<rparr>
      ?s mth path (tr_replay t) = (decode_plaintext status v, replay')" by auto
  have "fst (request L net mth path payload retry t) = fst (decode_response L
      \<lparr>hp_status = status, hp_content_type = ''application/octet-stream'', hp_body = b, hp_lines = []\<rparr> ?s mth path (tr_replay t))"
    by (rule request_answered [OF assms(4) sl]) (use out assms(20) assms(21) [of junk] in \<open>auto simp: junk try_extract_error_code_def\<close>)
  with dec show ?thesis by simp
qed

lemma decode_error_envelope:
  "decode_plaintext status (error_envelope_json code msg) = Inl (SdkError
     (if code = SESSION_EXPIRED then mk_error SessionExpired msg None None else from_error_envelope code msg None None))"
proof -
  have "code_value code \<noteq> []" by (cases code) simp_all
  then show ?thesis
    by (simp add: decode_plaintext_def error_envelope_json_def looks_like_error_def err.dec_enc error_of_object_def
      field_str_def field_opt_str_def field_opt_num_def)
qed

text \<open>C14. A call is answered: for a live session that client and server agree on and a counter the server has not
  seen, the server accepts what the transport sends and runs the handler on the parsed payload, and when
  the handler answers with a value under a success status (no error object), that value is exactly what
  the call returns; with an error envelope, the call raises the error the server named.\<close>

theorem call_answered:
  assumes "aead_ok (sv_nacl S)" and "cl_nacl L = sv_nacl S" and "sv_ops S = in_memory_store"
    and "tr_session t = Some s" and "cache_ok (fst (ap_world st)) (snd (ap_world st))"
    and "map_of (snd (ap_world st)) (ho_session_id (ss_outcome s)) = Some r" and "same_session s (session_of r st)"
    and "\<not> is_expired (mo_lookup T) (session_of r st)" and "\<not> is_expired (mo_now T) (session_of r st)"
    and "counter_ok (ss_c2s_counter s + 1)" and "\<not> rw_blocked (se_replay (session_of r st)) (ss_c2s_counter s + 1)"
    and "counter_ok (se_s2c_counter (session_of r st) + 1)"
    and "se_s2c_counter (session_of r st) + 1 \<notin> set (rc_seen (tr_replay t))" and "method_ok (str_upper mth)"
    and "validate (request_body (cl_json L) payload) = Inr q"
    and "\<And>rq st'. session_of r st' = touch (mo_now T) ((session_of r st)\<lparr>se_replay := se_replay (session_of r st')\<rparr>) \<Longrightarrow>
      handler rq r q st' = answer S rq r status body None (effect st') \<and> ap_world (effect st') = ap_world st'"
    and "status \<noteq> 204" and "json_loads (cl_json L) (payload_body (sv_json S) body) = Some v"
    and "payload_body (sv_json S) body \<noteq> []"
    and "\<And>envelope. net (tr_log t @ [call_request mth path envelope])
      = http_of (fst (with_request S T validate (served_request mth path envelope)
          (handler (served_request mth path envelope)) (\<lambda>x. x) st))"
    and "\<And>junk. status \<in> {401, 400} \<Longrightarrow> json_loads (cl_json L) (ENVELOPE_MAGIC @ junk) = None"
  shows "(status < 400 \<longrightarrow> \<not> looks_like_error v \<longrightarrow> fst (request L net mth path payload retry t) = Inr v) \<and>
    (\<forall>code msg. v = error_envelope_json code msg \<longrightarrow> fst (request L net mth path payload retry t) = Inl (SdkError
      (if code = SESSION_EXPIRED then mk_error SessionExpired msg None None else from_error_envelope code msg None None)))"
proof -
  have "fst (request L net mth path payload retry t) = decode_plaintext status v"
    by (rule call_decoded [where validate = validate and handler = handler and effect = effect, OF assms])
  then show ?thesis by (auto simp: decode_error_envelope) (simp add: decode_plaintext_def)
qed

definition demo_transport :: transport where
  "demo_transport = \<lparr>tr_base = ''b'', tr_identity = demo_client, tr_pinned = [], tr_verifier = None, tr_measurement = None,
     tr_attestation_required = False,
     tr_session = Some \<lparr>ss_outcome = \<lparr>ho_session_id = replicate 16 5, ho_c2s = demo_keys,
        ho_s2c = \<lparr>dk_key = replicate 32 6, dk_nonce_prefix = [4, 3, 2, 1]\<rparr>, ho_ttl_seconds = 60, ho_server_static_pk = []\<rparr>,
        ss_c2s_counter = 2, ss_last_replay_high = 0\<rparr>,
     tr_replay = replay_client_new, tr_log = [], tr_handshakes = 1\<rparr>"

text \<open>The network hands what it is given to the version endpoint.\<close>

definition demo_network :: network where
  "demo_network sent = http_of (fst (with_request demo_services demo_moment (\<lambda>b. Inr ())
     (served_request ''GET'' ''/'' (hq_body (last sent)))
     (\<lambda>r q. answer demo_services (served_request ''GET'' ''/'' (hq_body (last sent))) r 200 (DictPayload (JObj [])) None)
     (\<lambda>x. x) (demo_app [demo_caller []] [(replicate 16 5, 0)])))"

theorem call_answered_witness:
  "fst (request demo_lib demo_network ''GET'' ''/'' None True demo_transport) = Inr (JObj [])"
proof -
  have up: "str_upper ''GET'' = ''GET''" by code_simp
  have ok: "method_ok ''GET''" by code_simp
  have ld: "json_loads unary_json (json_dumps unary_json v) = Some v" for v
    using unary_json_roundtrips [of v] by (simp only: json_roundtrips_def)
  have ne: "json_dumps unary_json v \<noteq> []" for v by (simp add: unary_json_def)
  have "\<not> rw_blocked replay_window_new 3"
    by (simp add: rw_blocked_def replay_window_new_def rw_seen_def WINDOW_BITS_def)
  moreover have "\<not> looks_like_error (JObj [])" by (simp add: looks_like_error_def)
  moreover have "cache_ok [demo_caller []] [(replicate 16 5, 0)]" by (rule demo_caller_cache)
  moreover have "dk_ok \<lparr>dk_key = replicate 32 6, dk_nonce_prefix = [4, 3, 2, 1]\<rparr>" by (simp add: dk_ok_def)
  ultimately have "(200 < (400 :: int) \<longrightarrow> \<not> looks_like_error (JObj []) \<longrightarrow>
      fst (request demo_lib demo_network ''GET'' ''/'' None True demo_transport) = Inr (JObj [])) \<and>
    (\<forall>code msg. JObj [] = error_envelope_json code msg \<longrightarrow>
      fst (request demo_lib demo_network ''GET'' ''/'' None True demo_transport) = Inl (SdkError
      (if code = SESSION_EXPIRED then mk_error SessionExpired msg None None else from_error_envelope code msg None None)))"
    by (intro call_answered [where S = demo_services and T = demo_moment and r = 0
        and st = "demo_app [demo_caller []] [(replicate 16 5, 0)]"
        and validate = "\<lambda>b. Inr ()" and q = "()" and body = "DictPayload (JObj [])"
        and s = "the (tr_session demo_transport)"
        and handler = "\<lambda>rq r q. answer demo_services rq r 200 (DictPayload (JObj [])) None" and effect = "\<lambda>st. st"])
      (simp_all add: demo_services_def demo_lib_def demo_transport_def demo_app_def demo_moment_def demo_nacl_laws session_of_def
        demo_caller_simps same_session_def demo_keys_ok up ok ld ne counter_ok_def replay_client_new_def
        demo_network_def call_request_def)
  then show ?thesis by (simp add: looks_like_error_def)
qed

text \<open>A chat answer reaches the client as the model gave it: when the worker's result has the OpenAI shape, the
  endpoint seals a 200 whose decoding on the client is the response object with the requested model, the
  message llama.cpp produced and its token counts; every other shape is an unhandled exception, and nothing
  but the session's counter changes on the server.\<close>

theorem chat_reply_delivered:
  assumes "aead_ok (sv_nacl S)" and "cl_nacl L = sv_nacl S" and "r < length (fst (ap_world st))"
    and "same_session s (session_of r st)" and "counter_ok (se_s2c_counter (session_of r st) + 1)"
    and "method_ok (str_upper mth)" and "se_s2c_counter (session_of r st) + 1 \<notin> set (rc_seen replay)"
    and "\<And>v. json_loads (cl_json L) (sv_dump S v) = Some v \<and> sv_dump S v \<noteq> []"
    and "rq_method rq = str_upper mth" and "rq_path rq = path" and "\<not> gp_stream q"
  shows "case chat_response_of T q result of
      Inl e \<Rightarrow> chat_finish S T rq r q (FutResult result) evs st = (Crashed e, st)
    | Inr ans \<Rightarrow> \<exists>body st'. chat_finish S T rq r q (FutResult result) evs st = (Sealed 200 body, st') \<and>
        fst (decode_response L \<lparr>hp_status = 200, hp_content_type = ''application/octet-stream'', hp_body = body, hp_lines = []\<rparr>
          s mth path replay) = Inr (chat_response_json ans) \<and>
        ans_model ans = gp_model q \<and> length (ans_choices ans) = 1 \<and>
        (\<exists>choices choice message content. json_item result ''choices'' = Inr choices \<and> json_first choices = Inr choice \<and>
          json_item choice ''message'' = Inr message \<and> get_default message ''content'' (JStr []) = Inr (JStr content) \<and>
          hc_content (hd (ans_choices ans)) = content) \<and>
        ap_world st' = upd_session r (\<lambda>x. x\<lparr>se_s2c_counter := se_s2c_counter x + 1\<rparr>) (ap_world st)"
proof (cases "chat_response_of T q result")
  case (Inl e)
  then show ?thesis using assms(11) by (simp add: chat_finish_def)
next
  case (Inr ans)
  have shape: "ans_model ans = gp_model q \<and> length (ans_choices ans) = 1 \<and>
    (\<exists>choices choice message content. json_item result ''choices'' = Inr choices \<and> json_first choices = Inr choice \<and>
      json_item choice ''message'' = Inr message \<and> get_default message ''content'' (JStr []) = Inr (JStr content) \<and>
      hc_content (hd (ans_choices ans)) = content)"
    using Inr by (auto simp: chat_response_of_def and_then_Inr_iff text_field_def split: json.splits)
  obtain body st' replay' where a: "answer S rq r 200 (ModelPayload (sv_dump S (chat_response_json ans))) None st
      = (Sealed 200 body, st')"
    and d: "decode_response L \<lparr>hp_status = 200, hp_content_type = ''application/octet-stream'', hp_body = body, hp_lines = []\<rparr>
      s mth path replay = (decode_plaintext 200 (chat_response_json ans), replay')"
    using answer_readable [OF assms(1-7), of 200 "ModelPayload (sv_dump S (chat_response_json ans))" "chat_response_json ans" rq path]
      assms(8-10) by auto
  have "decode_plaintext 200 (chat_response_json ans) = Inr (chat_response_json ans)"
    by (simp add: decode_plaintext_def looks_like_error_def chat_response_json_def)
  with a d Inr shape answer_world [OF a] show ?thesis
    using assms(11) by (simp add: chat_finish_def answer_model_def)
qed

definition demo_result :: json where
  "demo_result = JObj [(''choices'', JList [JObj [(''message'', JObj [(''content'', JStr ''hi'')])]])]"

definition demo_chat :: chat_request where
  "demo_chat = generation_params.extend (generation_defaults ''m'') (chat_request.fields [])"

lemma demo_answer:
  obtains ans where "chat_response_of demo_moment demo_chat demo_result = Inr ans" "hc_content (hd (ans_choices ans)) = ''hi''"
  by (simp add: chat_response_of_def demo_moment_def demo_chat_def demo_result_def generation_params.defs generation_defaults_def
      usage_of_def finish_of_def get_default_def get_or_def pyd_literal_def text_field_def ROLES_def FINISH_REASONS_def)

theorem chat_reply_delivered_witness:
  "\<exists>body ans st'. chat_finish demo_services demo_moment (served_request ''GET'' ''/'' []) 0 demo_chat (FutResult demo_result) []
      (demo_app [demo_caller []] [(replicate 16 5, 0)]) = (Sealed 200 body, st') \<and>
    fst (decode_response demo_lib \<lparr>hp_status = 200, hp_content_type = ''application/octet-stream'', hp_body = body, hp_lines = []\<rparr>
      (the (tr_session demo_transport)) ''GET'' ''/'' replay_client_new) = Inr (chat_response_json ans) \<and>
    hc_content (hd (ans_choices ans)) = ''hi''"
proof -
  let ?st = "demo_app [demo_caller []] [(replicate 16 5, 0)]"
  let ?s = "the (tr_session demo_transport)"
  have up: "str_upper ''GET'' = ''GET''" by code_simp
  have ok: "method_ok ''GET''" by code_simp
  have ld: "json_loads unary_json (json_dumps unary_json v) = Some v" for v
    using unary_json_roundtrips [of v] by (simp only: json_roundtrips_def)
  have ne: "json_dumps unary_json v \<noteq> []" for v by (simp add: unary_json_def)
  have "dk_ok \<lparr>dk_key = replicate 32 6, dk_nonce_prefix = [4, 3, 2, 1]\<rparr>" by (simp add: dk_ok_def)
  then have same: "same_session ?s (session_of 0 ?st)"
    by (simp add: same_session_def demo_transport_def session_of_def demo_app_def demo_caller_simps demo_keys_ok)
  obtain ans where ans: "chat_response_of demo_moment demo_chat demo_result = Inr ans" "hc_content (hd (ans_choices ans)) = ''hi''"
    by (rule demo_answer)
  have "case chat_response_of demo_moment demo_chat demo_result of
      Inl e \<Rightarrow> chat_finish demo_services demo_moment (served_request ''GET'' ''/'' []) 0 demo_chat (FutResult demo_result) [] ?st
        = (Crashed e, ?st)
    | Inr ans \<Rightarrow> \<exists>body st'. chat_finish demo_services demo_moment (served_request ''GET'' ''/'' []) 0 demo_chat (FutResult demo_result) []
        ?st = (Sealed 200 body, st') \<and>
        fst (decode_response demo_lib \<lparr>hp_status = 200, hp_content_type = ''application/octet-stream'', hp_body = body, hp_lines = []\<rparr>
          ?s ''GET'' ''/'' replay_client_new) = Inr (chat_response_json ans) \<and>
        ans_model ans = gp_model demo_chat \<and> length (ans_choices ans) = 1 \<and>
        (\<exists>choices choice message content. json_item demo_result ''choices'' = Inr choices \<and> json_first choices = Inr choice \<and>
          json_item choice ''message'' = Inr message \<and> get_default message ''content'' (JStr []) = Inr (JStr content) \<and>
          hc_content (hd (ans_choices ans)) = content) \<and>
        ap_world st' = upd_session 0 (\<lambda>x. x\<lparr>se_s2c_counter := se_s2c_counter x + 1\<rparr>) (ap_world ?st)"
    by (rule chat_reply_delivered [OF _ _ _ same])
      (simp_all add: demo_services_def demo_lib_def demo_app_def session_of_def demo_nacl_laws demo_caller_simps
        up ok ld ne counter_ok_def replay_client_new_def served_request_def
        demo_chat_def generation_params.defs generation_defaults_def)
  then show ?thesis using ans by auto
qed

end
