(* ===== verification/Catalog.thy ===== *)
theory Catalog
  imports Endpoints
begin

text \<open>
  The endpoints for models (\<open>server/.../routers/models.py\<close>): listing, downloading into the tenant's registry and
  removing. The registries are the manager's, which the routers share with it. The download runs in a
  thread of its own in the source; here it is one step.
\<close>

definition model_info_json :: "model_info \<Rightarrow> json" where
  "model_info_json i = JObj
     [(''id'', JStr (mi_id i)), (''repo_id'', JStr (mi_repo_id i)), (''filename'', JStr (mi_filename i)),
      (''state'', JStr (mi_state i)), (''bytes_on_disk'', JInt (mi_bytes_on_disk i)), (''sha256'', JStr (mi_sha256 i)),
      (''n_ctx_max'', json_opt_int (mi_n_ctx_max i)),
      (''last_used_at'', case mi_last_used_at i of None \<Rightarrow> JNull | Some t \<Rightarrow> JFloat t),
      (''queue_depth'', JInt (mi_queue_depth i)), (''last_error'', json_opt_str (mi_last_error i))]"

definition model_list_json :: "model_info list \<Rightarrow> json" where
  "model_list_json infos = JObj [(''models'', JList (map model_info_json infos))]"

text \<open>\<open>ModelList(models=state.models.snapshot(tenant=session.tenant))\<close>, sealed.\<close>

definition answer_snapshot :: "('s, 'c) services \<Rightarrow> request \<Rightarrow> ref \<Rightarrow> ('s, 'c) app \<Rightarrow> reply \<times> ('s, 'c) app" where
  "answer_snapshot S rq r st =
     (case snapshot (sv_env S) (se_tenant (session_of r st)) (ap_models st) of
        Inl e \<Rightarrow> (Crashed e, st)
      | Inr (infos, m) \<Rightarrow> answer_model S rq r (model_list_json infos) (st\<lparr>ap_models := m\<rparr>))"

definition list_models ::
  "('s, 'c) services \<Rightarrow> moment \<Rightarrow> (bytes \<Rightarrow> string + unit) \<Rightarrow> request \<Rightarrow> ('s, 'c) app \<Rightarrow> reply \<times> ('s, 'c) app" where
  "list_models S T validate rq = with_request S T validate rq (\<lambda>r q. answer_snapshot S rq r) (\<lambda>x. x)"

record download_request =
  dq_repo_id :: string
  dq_filename :: string
  dq_sha256 :: "string option"

text \<open>The tenant's registry after an operation on it: the same object in the cache of the factory.\<close>

definition put_registry :: "string \<Rightarrow> 'e registry \<Rightarrow> 'e multi_registry \<Rightarrow> 'e multi_registry" where
  "put_registry tenant reg mt = mt\<lparr>mt_cache := AList.update tenant reg (mt_cache mt)\<rparr>"

definition set_model_registry ::
  "string \<Rightarrow> model_entry registry \<Rightarrow> model_entry multi_registry \<Rightarrow> fs \<Rightarrow> ('s, 'c) app \<Rightarrow> ('s, 'c) app" where
  "set_model_registry tenant reg mt fs st =
     st\<lparr>ap_models := (ap_models st)\<lparr>mg_models := put_registry tenant reg mt, mg_fs := fs\<rparr>\<rparr>"

definition download_model ::
  "('s, 'c) services \<Rightarrow> moment \<Rightarrow> (bytes \<Rightarrow> string + download_request) \<Rightarrow> request \<Rightarrow> ('s, 'c) app \<Rightarrow>
   reply \<times> ('s, 'c) app" where
  "download_model S T validate rq =
     with_request S T validate rq (\<lambda>r q st.
       let tenant = se_tenant (session_of r st); E = sv_env S in
       if \<not> sv_allow_download S then answer_error S rq r 403 BAD_REQUEST ''downloads disabled'' st
       else case for_tenant model_kind (sv_json S) (mo_now T) tenant (mg_models (ap_models st), mg_fs (ap_models st)) of
         Inl e \<Rightarrow> (Crashed e, st)
       | Inr (reg, mt, fs) \<Rightarrow>
           (case download_and_seal (sv_json S) (en_age E) (sv_hub S) (mo_rnd T) (mo_scratch T) (mo_now T)
                   (dq_repo_id q) (dq_filename q) (dq_sha256 q) (mc_at_rest (en_config E))
                   (sv_allowed_repo_prefixes S) (sv_disk_quota_gb S) (reg, fs) of
              (res, reg, fs) \<Rightarrow>
                let st = set_model_registry tenant reg mt fs st in
                (case res of
                   Inl (DownloadError code message) \<Rightarrow>
                     answer_error S rq r 400 code message
                       (audit ''model.download.fail'' [(''code'', JStr (code_value code)), (''repo'', JStr (dq_repo_id q)),
                          (''tenant'', JStr tenant)] st)
                 | Inl (DownloadOther e) \<Rightarrow> (Crashed e, st)
                 | Inr entry \<Rightarrow>
                     answer_snapshot S rq r
                       (audit ''model.download.ok'' [(''id'', JStr (me_id entry)), (''sha'', JStr (me_sha256_plaintext entry)),
                          (''tenant'', JStr tenant)] st)))) (\<lambda>x. x)"

definition remove_model ::
  "('s, 'c) services \<Rightarrow> moment \<Rightarrow> (bytes \<Rightarrow> string + string) \<Rightarrow> request \<Rightarrow> ('s, 'c) app \<Rightarrow> reply \<times> ('s, 'c) app" where
  "remove_model S T validate rq =
     with_request S T validate rq (\<lambda>r ident st.
       let tenant = se_tenant (session_of r st); E = sv_env S;
           st = snd (on_models (force_unload E ident tenant) st) in
       case for_tenant model_kind (sv_json S) (mo_now T) tenant (mg_models (ap_models st), mg_fs (ap_models st)) of
         Inl e \<Rightarrow> (Crashed e, st)
       | Inr (reg, mt, fs) \<Rightarrow>
           (case model_registry_remove ident (reg, fs) of
              (res, reg, fs) \<Rightarrow>
                let st = set_model_registry tenant reg mt fs st in
                (case res of
                   Inl e \<Rightarrow> (Crashed e, st)
                 | Inr removed \<Rightarrow>
                     answer_snapshot S rq r
                       (audit ''model.remove'' [(''id'', JStr ident), (''tenant'', JStr tenant)] st)))) (\<lambda>x. x)"

end
