(* ===== verification/Introspection.thy ===== *)
theory Introspection
  imports Catalog
begin

text \<open>
  Status, logs and checks: \<open>server/.../observability/status.py\<close>, \<open>routers/system.py\<close>, \<open>routers/debug.py\<close>,
  \<open>health.py\<close> and \<open>scripts_doctor.py\<close>. What psutil, \<open>shutil.which\<close> and \<open>os.stat\<close> say are arguments.
\<close>

section \<open>Status\<close>

text \<open>A log entry as JSON; a byte string cannot be serialized (redaction leaves none).\<close>

fun pyval_json :: "pyval \<Rightarrow> json result" where
  "pyval_json (PyJson v) = Inr v"
| "pyval_json (PyBytes b) = Inl TypeError"

definition log_entry_json :: "log_entry \<Rightarrow> json result" where
  "log_entry_json e =
     and_then (map_result (\<lambda>(k, v). and_then (pyval_json v) (\<lambda>j. Inr (k, j))) (le_fields e)) (\<lambda>kvs.
       Inr (JObj [(''ts'', JFloat (le_ts e)), (''level'', JStr (le_level e)), (''component'', JStr (le_component e)),
         (''event'', JStr (le_event e)), (''fields'', JObj kvs)]))"

text \<open>\<open>StatusBuilder.system\<close>: two snapshots of the default tenant.\<close>

definition status_system :: "('s, 'c) services \<Rightarrow> moment \<Rightarrow> ('s, 'c) app \<Rightarrow> (json \<times> ('s, 'c) app) result" where
  "status_system S T st =
     and_then (snapshot (sv_env S) DEFAULT_TENANT (ap_models st)) (\<lambda>(infos, m).
     and_then (snapshot (sv_env S) DEFAULT_TENANT m) (\<lambda>(infos', m).
       Inr (JObj
         [(''cpu_percent'', JFloat (sv_cpu S)), (''ram_total_bytes'', JInt (fst (sv_ram S))),
          (''ram_available_bytes'', JInt (snd (sv_ram S))), (''disk_total_bytes'', JInt (fst (sv_disk S))),
          (''disk_free_bytes'', JInt (snd (sv_disk S))), (''gpu'', JList (sv_gpus S)),
          (''loaded_models'', JList (map (JStr \<circ> mi_id) (filter (\<lambda>i. mi_state i = ''loaded'') infos))),
          (''queue_depths'', JObj (map (\<lambda>i. (mi_id i, JInt (mi_queue_depth i))) infos')),
          (''uptime_seconds'', JFloat (mo_now T - sv_started_at S))], st\<lparr>ap_models := m\<rparr>)))"

definition status_debug :: "('s, 'c) services \<Rightarrow> moment \<Rightarrow> ('s, 'c) app \<Rightarrow> (json \<times> ('s, 'c) app) result" where
  "status_debug S T st =
     and_then (status_system S T st) (\<lambda>(system, st).
     and_then (snapshot (sv_env S) DEFAULT_TENANT (ap_models st)) (\<lambda>(infos, m).
     and_then (map_result log_entry_json (ring_tail \<lparr>lq_limit = 50, lq_level = None, lq_component = None,
         lq_since = None, lq_client_fingerprint = None\<rparr> (lg_ring (ap_logging st)))) (\<lambda>entries.
       Inr (JObj
         [(''protocol_version'', JStr PROTOCOL_VERSION), (''server_version'', JStr (sv_version S)), (''build_sha'', JNull),
          (''uptime_seconds'', JFloat (mo_now T - sv_started_at S)), (''system'', system),
          (''loaded_models'', JList (map model_info_json infos)),
          (''recent_errors'', JList (map error_summary (tracker_recent (ap_errors st) 20))),
          (''recent_logs'', JList entries)], st\<lparr>ap_models := m\<rparr>))))"

section \<open>The endpoints\<close>

definition system_status ::
  "('s, 'c) services \<Rightarrow> moment \<Rightarrow> (bytes \<Rightarrow> string + unit) \<Rightarrow> request \<Rightarrow> ('s, 'c) app \<Rightarrow> reply \<times> ('s, 'c) app" where
  "system_status S T validate rq =
     with_request S T validate rq (\<lambda>r q st.
       case status_system S T st of Inl e \<Rightarrow> (Crashed e, st) | Inr (v, st) \<Rightarrow> answer_model S rq r v st) (\<lambda>x. x)"

definition debug_status ::
  "('s, 'c) services \<Rightarrow> moment \<Rightarrow> (bytes \<Rightarrow> string + unit) \<Rightarrow> request \<Rightarrow> ('s, 'c) app \<Rightarrow> reply \<times> ('s, 'c) app" where
  "debug_status S T validate rq =
     with_request S T validate rq (\<lambda>r q st.
       case status_debug S T st of Inl e \<Rightarrow> (Crashed e, st) | Inr (v, st) \<Rightarrow> answer_model S rq r v st) (\<lambda>x. x)"

definition debug_version ::
  "('s, 'c) services \<Rightarrow> moment \<Rightarrow> (bytes \<Rightarrow> string + unit) \<Rightarrow> request \<Rightarrow> ('s, 'c) app \<Rightarrow> reply \<times> ('s, 'c) app" where
  "debug_version S T validate rq =
     with_request S T validate rq (\<lambda>r q. answer_dict S rq r
       (JObj [(''server_version'', JStr (sv_version S)), (''protocol_version'', JStr ''1.0'')])) (\<lambda>x. x)"

text \<open>\<open>tail\<close> for the caller: only the \<open>admin\<close> scope lifts the restriction to the caller's own events.\<close>

definition log_query_for :: "session \<Rightarrow> log_query \<Rightarrow> log_query" where
  "log_query_for sess q = q\<lparr>lq_client_fingerprint :=
     if has_scope ''admin'' sess then None else Some (se_client_fingerprint sess)\<rparr>"

definition debug_logs ::
  "('s, 'c) services \<Rightarrow> moment \<Rightarrow> (bytes \<Rightarrow> string + log_query) \<Rightarrow> request \<Rightarrow> ('s, 'c) app \<Rightarrow> reply \<times> ('s, 'c) app" where
  "debug_logs S T validate rq =
     with_request S T validate rq (\<lambda>r q st.
       case map_result log_entry_json (ring_tail (log_query_for (session_of r st) q) (lg_ring (ap_logging st))) of
         Inl e \<Rightarrow> (Crashed e, st)
       | Inr entries \<Rightarrow> answer_dict S rq r (JObj [(''entries'', JList entries)]) st) (\<lambda>x. x)"

definition debug_errors ::
  "('s, 'c) services \<Rightarrow> moment \<Rightarrow> (bytes \<Rightarrow> string + int) \<Rightarrow> request \<Rightarrow> ('s, 'c) app \<Rightarrow> reply \<times> ('s, 'c) app" where
  "debug_errors S T validate rq =
     with_request S T validate rq (\<lambda>r limit st. answer_dict S rq r
       (JObj [(''errors'', JList (map error_summary (tracker_recent (ap_errors st) limit)))]) st) (\<lambda>x. x)"

section \<open>Probes\<close>

record readiness =
  rd_config_loaded :: bool
  rd_keystore_loaded :: bool
  rd_storage_dir_writable :: bool

definition readiness_new :: readiness where
  "readiness_new = \<lparr>rd_config_loaded = False, rd_keystore_loaded = False, rd_storage_dir_writable = False\<rparr>"

definition ready :: "readiness \<Rightarrow> bool" where
  "ready r \<longleftrightarrow> rd_config_loaded r \<and> rd_keystore_loaded r \<and> rd_storage_dir_writable r"

text \<open>\<open>check_storage\<close>: every exception means not writable; a file written before a failure stays.\<close>

definition check_storage :: "path \<Rightarrow> fs \<Rightarrow> readiness \<Rightarrow> readiness \<times> fs" where
  "check_storage dir fs r =
     (let test = dir @ [''.rw_check'']; failed = r\<lparr>rd_storage_dir_writable := False\<rparr> in
      case mkdir_p dir fs of
        Inl e \<Rightarrow> (failed, fs)
      | Inr fs \<Rightarrow>
          (case write_bytes DEFAULT_MODE test (raw_bytes ''x'') fs of
             Inl e \<Rightarrow> (failed, fs)
           | Inr fs \<Rightarrow>
               (case unlink_path test fs of
                  Inl e \<Rightarrow> (failed, fs)
                | Inr fs \<Rightarrow> (r\<lparr>rd_storage_dir_writable := True\<rparr>, fs))))"

definition healthz :: reply where
  "healthz = PlainReply 200 ''{\"status\":\"ok\"}''"

definition readyz :: "readiness \<Rightarrow> reply" where
  "readyz r =
     (if ready r then PlainReply 200 ''{\"status\":\"ready\"}'' else PlainReply 503 ''{\"status\":\"not_ready\"}'')"

section \<open>The doctor\<close>

datatype step_status = StepOk | StepFix | StepSkip | StepFail | StepWarn

record doctor_step =
  ds_name :: string
  ds_status :: step_status
  ds_detail :: string

fun status_text :: "step_status \<Rightarrow> string" where
  "status_text StepOk = ''ok''"
| "status_text StepFix = ''fix''"
| "status_text StepSkip = ''skip''"
| "status_text StepFail = ''fail''"
| "status_text StepWarn = ''warn''"

definition step :: "step_status \<Rightarrow> string \<Rightarrow> string \<Rightarrow> doctor_step" where
  "step status name detail = \<lparr>ds_name = name, ds_status = status, ds_detail = detail\<rparr>"

text \<open>
  What the machine says: the interpreter's version, programs on the PATH, whether \<open>/dev/shm\<close> is a writable
  directory, the permission bits of a directory (\<open>None\<close> where it is missing), \<open>str\<close> of a path and of an exception.
\<close>

record machine =
  ma_python :: string
  ma_which :: "string \<Rightarrow> bool"
  ma_shm :: bool
  ma_dir_mode :: "path \<Rightarrow> nat option"
  ma_str_path :: "path \<Rightarrow> string"
  ma_str_exn :: "exn \<Rightarrow> string"

fun oct_digits :: "nat \<Rightarrow> string" where
  "oct_digits n = (if n < 8 then [digit_char n] else oct_digits (n div 8) @ [digit_char (n mod 8)])"

declare oct_digits.simps [simp del]

definition py_oct :: "nat \<Rightarrow> string" where
  "py_oct n = ''0o'' @ oct_digits n"

definition check_dir_perms :: "machine \<Rightarrow> path \<Rightarrow> string \<Rightarrow> nat \<Rightarrow> doctor_step" where
  "check_dir_perms M p name want_mode =
     (case ma_dir_mode M p of
        None \<Rightarrow> step StepFail name (ma_str_path M p @ '' missing'')
      | Some bits \<Rightarrow>
          let mode = bits AND 511 in
          if mode AND SECRET_MASK \<noteq> 0
          then step StepWarn name (ma_str_path M p @ '' mode='' @ py_oct mode @ ''; should be '' @ py_oct want_mode)
          else step StepOk name (ma_str_path M p @ '' mode='' @ py_oct mode))"

definition machine_checks :: "machine \<Rightarrow> doctor_step list" where
  "machine_checks M =
     [step StepOk ''python'' (ma_python M),
      (if ma_which M ''uv'' then step StepOk ''uv'' ''found''
       else step StepWarn ''uv'' ''not on PATH; make targets won't work''),
      (if ma_which M ''cc'' \<or> ma_which M ''gcc'' then step StepOk ''toolchain'' ''C compiler present''
       else step StepWarn ''toolchain'' ''no C compiler; relying on prebuilt wheels''),
      (if ma_which M ''nvidia-smi'' then step StepOk ''gpu'' ''nvidia-smi found''
       else step StepWarn ''gpu'' ''no nvidia-smi (CPU-only is fine)''),
      (if ma_shm M then step StepOk ''tmpfs'' ''/dev/shm writable''
       else step StepWarn ''tmpfs'' ''/dev/shm not writable; fallback in use'')]"

text \<open>The settings are the key directory and the storage directory, if a configuration was loaded.\<close>

definition run_checks :: "machine \<Rightarrow> (path \<times> path) option \<Rightarrow> fs \<Rightarrow> doctor_step list \<times> fs" where
  "run_checks M settings fs =
     (case settings of
        None \<Rightarrow> (machine_checks M, fs)
      | Some (key_dir, storage) \<Rightarrow>
          let keys = check_dir_perms M key_dir ''key_dir'' 448 in
          (case mkdir_p storage fs of
             Inl e \<Rightarrow> (machine_checks M @ [keys, step StepWarn ''settings'' (''could not introspect: '' @ ma_str_exn M e)], fs)
           | Inr fs \<Rightarrow> (machine_checks M @ [keys, step StepOk ''storage_dir'' (ma_str_path M storage)], fs)))"

definition doctor_overall :: "doctor_step list \<Rightarrow> step_status" where
  "doctor_overall steps =
     (if list_ex (\<lambda>s. ds_status s = StepFail) steps then StepFail
      else if list_ex (\<lambda>s. ds_status s = StepWarn) steps then StepWarn else StepOk)"

definition doctor_report_json :: "doctor_step list \<Rightarrow> json" where
  "doctor_report_json steps = JObj
     [(''overall'', JStr (status_text (doctor_overall steps))),
      (''steps'', JList (map (\<lambda>s. JObj [(''name'', JStr (ds_name s)), (''status'', JStr (status_text (ds_status s))),
         (''detail'', JStr (ds_detail s))]) steps))]"

definition debug_doctor ::
  "('s, 'c) services \<Rightarrow> machine \<Rightarrow> path \<times> path \<Rightarrow> moment \<Rightarrow> (bytes \<Rightarrow> string + unit) \<Rightarrow> request \<Rightarrow> ('s, 'c) app \<Rightarrow>
   reply \<times> ('s, 'c) app" where
  "debug_doctor S M dirs T validate rq =
     with_request S T validate rq (\<lambda>r q st.
       case run_checks M (Some dirs) (mg_fs (ap_models st)) of
         (steps, fs) \<Rightarrow> answer_model S rq r (doctor_report_json steps) (st\<lparr>ap_models := (ap_models st)\<lparr>mg_fs := fs\<rparr>\<rparr>))
       (\<lambda>x. x)"

text \<open>The command: exit status and the lines it prints, once the settings are loaded (or not).\<close>

fun status_marker :: "step_status \<Rightarrow> string" where
  "status_marker StepOk = ''  ok ''"
| "status_marker StepWarn = '' warn''"
| "status_marker StepFail = '' FAIL''"
| "status_marker StepFix = ''  fix''"
| "status_marker StepSkip = '' skip''"

definition doctor_main :: "machine \<Rightarrow> (path \<times> path) option \<Rightarrow> fs \<Rightarrow> (int \<times> string list) \<times> fs" where
  "doctor_main M settings fs =
     (case run_checks M settings fs of
        (steps, fs) \<Rightarrow>
          let bad = length (filter (\<lambda>s. ds_status s = StepFail) steps);
              out = (''doctor: overall='' @ status_text (doctor_overall steps)) #
                map (\<lambda>s. ''  ['' @ status_marker (ds_status s) @ ''] '' @ ds_name s @ '': '' @ ds_detail s) steps
          in (if bad \<noteq> 0 then (1, out @ [''doctor: failing'']) else (0, out @ [''doctor: ok'']), fs))"

end
