(* ===== verification/Admin.thy ===== *)
theory Admin
  imports Introspection
begin

text \<open>
  The control plane (\<open>server/.../routers/admin.py\<close>): every endpoint decrypts the request, asks for a scope of
  the session and then works on the shared state. The requests are the pydantic models of the file; their
  validators are arguments. The task that reverts a log level is an entry of \<open>ap_reverts\<close> until
  \<open>run_reverts\<close> fires it; the delayed SIGTERM is the time at which it is sent.
\<close>

section \<open>Scopes\<close>

definition is_admin :: "session \<Rightarrow> bool" where
  "is_admin s \<longleftrightarrow> has_scope ''admin'' s \<or> has_scope ''super_admin'' s"

definition is_super :: "session \<Rightarrow> bool" where
  "is_super s \<longleftrightarrow> has_scope ''super_admin'' s"

definition denied_fields :: "request \<Rightarrow> session \<Rightarrow> audit_fields" where
  "denied_fields rq s =
     [(''path'', JStr (rq_path rq)), (''client_fp'', JStr (se_client_fingerprint s)), (''tenant'', JStr (se_tenant s))]"

text \<open>Sealing the refusal comes first: where it raises, nothing is audited.\<close>

definition deny ::
  "('s, 'c) services \<Rightarrow> request \<Rightarrow> ref \<Rightarrow> string \<Rightarrow> string \<Rightarrow> ('s, 'c) app \<Rightarrow> reply \<times> ('s, 'c) app" where
  "deny S rq r message event st =
     (case answer_error S rq r 403 ADMIN_REQUIRED message st of
        (Sealed status body, st) \<Rightarrow> (Sealed status body, audit event (denied_fields rq (session_of r st)) st)
      | other \<Rightarrow> other)"

definition require_admin ::
  "('s, 'c) services \<Rightarrow> request \<Rightarrow> ref \<Rightarrow> ('s, 'c) app \<Rightarrow> (reply \<times> ('s, 'c) app) option" where
  "require_admin S rq r st =
     (if is_admin (session_of r st) then None else Some (deny S rq r ''admin scope required'' ''admin.denied'' st))"

definition require_super_admin ::
  "('s, 'c) services \<Rightarrow> request \<Rightarrow> ref \<Rightarrow> ('s, 'c) app \<Rightarrow> (reply \<times> ('s, 'c) app) option" where
  "require_super_admin S rq r st =
     (if is_super (session_of r st) then None
      else Some (deny S rq r ''super_admin scope required for cross-tenant operations'' ''admin.super_required'' st))"

text \<open>The common start of the handlers.\<close>

definition guarded ::
  "(('s, 'c) services \<Rightarrow> request \<Rightarrow> ref \<Rightarrow> ('s, 'c) app \<Rightarrow> (reply \<times> ('s, 'c) app) option) \<Rightarrow>
   ('s, 'c) services \<Rightarrow> moment \<Rightarrow> (bytes \<Rightarrow> string + 'q) \<Rightarrow> request \<Rightarrow>
   (ref \<Rightarrow> 'q \<Rightarrow> ('s, 'c) app \<Rightarrow> reply \<times> ('s, 'c) app) \<Rightarrow> ('s, 'c) app \<Rightarrow> reply \<times> ('s, 'c) app" where
  "guarded guard S T validate rq body =
     with_request S T validate rq (\<lambda>r q st. case guard S rq r st of Some denied \<Rightarrow> denied | None \<Rightarrow> body r q st) (\<lambda>x. x)"

section \<open>Sessions\<close>

definition session_info_json :: "session \<Rightarrow> json" where
  "session_info_json s = JObj
     [(''session_id'', JStr (session_id_b64 s)), (''client_fingerprint'', JStr (se_client_fingerprint s)),
      (''scopes'', JList (map JStr (sorted_list_of_fset (se_scopes s)))), (''created_at'', JFloat (se_created_at s)),
      (''last_used_at'', JFloat (se_last_used_at s)), (''ttl_seconds'', JInt (se_ttl_seconds s))]"

text \<open>The sessions a caller sees.\<close>

definition visible_sessions :: "('s, 'c) services \<Rightarrow> moment \<Rightarrow> ref \<Rightarrow> ('s, 'c) app \<Rightarrow> session list" where
  "visible_sessions S T r st =
     filter (\<lambda>s. is_super (session_of r st) \<or> se_tenant s = se_tenant (session_of r st))
       (map (\<lambda>q. session_of q st) (sm_all (sv_ops S) (mo_now T) (ap_world st)))"

definition list_sessions ::
  "('s, 'c) services \<Rightarrow> moment \<Rightarrow> (bytes \<Rightarrow> string + unit) \<Rightarrow> request \<Rightarrow> ('s, 'c) app \<Rightarrow> reply \<times> ('s, 'c) app" where
  "list_sessions S T validate rq =
     guarded require_admin S T validate rq (\<lambda>r q st. answer_dict S rq r
       (JObj [(''sessions'', JList (map session_info_json (visible_sessions S T r st)))]) st)"

text \<open>The handler after the check of the scope.\<close>

definition terminate_body ::
  "('s, 'c) services \<Rightarrow> moment \<Rightarrow> request \<Rightarrow> ref \<Rightarrow> string \<Rightarrow> ('s, 'c) app \<Rightarrow> reply \<times> ('s, 'c) app" where
  "terminate_body S T rq r sid_b64 st =
     (let tenant = se_tenant (session_of r st) in
      case b64decode False sid_b64 of
        Inl e \<Rightarrow> (Crashed e, st)
      | Inr sid \<Rightarrow>
          (case sm_lookup_async (sv_ops S) (mo_now T) (mo_now T) sid (ap_world st) of
             (Inl e, w) \<Rightarrow> (Crashed e, st\<lparr>ap_world := w\<rparr>)
           | (Inr target, w) \<Rightarrow>
               let st = st\<lparr>ap_world := w\<rparr> in
               if (\<exists>t \<in> set_option target. \<not> is_super (session_of r st) \<and> se_tenant (session_of t st) \<noteq> tenant)
               then answer_error S rq r 403 ADMIN_REQUIRED ''cross-tenant termination requires super_admin''
                      (audit ''admin.session.terminate.cross_tenant_denied''
                        [(''session_id'', JStr sid_b64), (''tenant'', JStr tenant)] st)
               else
                 let saved_direction = (if sid = se_session_id (session_of r st) then Some (se_s2c (session_of r st)) else None) in
                 (case sm_terminate (sv_ops S) (mo_now T) sid (ap_world st) of
                    (Inl e, w) \<Rightarrow> (Crashed e, st\<lparr>ap_world := w\<rparr>)
                  | (Inr removed, w) \<Rightarrow>
                      answer S rq r 200 (DictPayload (JObj [(''terminated'', JBool removed)])) saved_direction
                        (audit ''admin.session.terminate''
                          [(''session_id'', JStr sid_b64), (''removed'', JBool removed), (''tenant'', JStr tenant)]
                          (st\<lparr>ap_world := w\<rparr>)))))"

definition admin_terminate_session ::
  "('s, 'c) services \<Rightarrow> moment \<Rightarrow> (bytes \<Rightarrow> string + string) \<Rightarrow> request \<Rightarrow> ('s, 'c) app \<Rightarrow> reply \<times> ('s, 'c) app" where
  "admin_terminate_session S T validate rq = guarded require_admin S T validate rq (terminate_body S T rq)"

section \<open>Clients\<close>

definition client_info_json :: "authorized_client \<Rightarrow> json" where
  "client_info_json c = JObj
     [(''name'', JStr (ac_name c)), (''fingerprint'', JStr (fingerprint (ac_x25519_pk c))),
      (''scopes'', JList (map JStr (sort (remdups (ac_scopes c))))), (''revoked'', JBool (ac_revoked c)),
      (''not_before'', json_opt_int (ac_not_before c)), (''not_after'', json_opt_int (ac_not_after c))]"

definition visible_clients :: "ref \<Rightarrow> ('s, 'c) app \<Rightarrow> authorized_client list" where
  "visible_clients r st =
     filter (\<lambda>c. is_super (session_of r st) \<or> ac_tenant c = se_tenant (session_of r st))
       (map snd (ks_allowlist (ap_keystore st)))"

definition list_clients ::
  "('s, 'c) services \<Rightarrow> moment \<Rightarrow> (bytes \<Rightarrow> string + unit) \<Rightarrow> request \<Rightarrow> ('s, 'c) app \<Rightarrow> reply \<times> ('s, 'c) app" where
  "list_clients S T validate rq =
     guarded require_admin S T validate rq (\<lambda>r q st. answer_dict S rq r
       (JObj [(''clients'', JList (map client_info_json (visible_clients r st)))]) st)"

definition reload_clients ::
  "('s, 'c) services \<Rightarrow> moment \<Rightarrow> (bytes \<Rightarrow> string + unit) \<Rightarrow> request \<Rightarrow> ('s, 'c) app \<Rightarrow> reply \<times> ('s, 'c) app" where
  "reload_clients S T validate rq =
     guarded require_admin S T validate rq (\<lambda>r q st.
       case reload_allowlist (sv_toml S) (mg_fs (ap_models st)) (ap_keystore st) of
         (Inl e, ks) \<Rightarrow> (Crashed e, st\<lparr>ap_keystore := ks\<rparr>)
       | (Inr n, ks) \<Rightarrow> answer_dict S rq r (JObj [(''clients'', JInt (int n))])
           (audit ''admin.clients.reload'' [(''count'', JInt (int n))] (st\<lparr>ap_keystore := ks\<rparr>)))"

section \<open>Models\<close>

definition admin_models_list ::
  "('s, 'c) services \<Rightarrow> moment \<Rightarrow> (bytes \<Rightarrow> string + unit) \<Rightarrow> request \<Rightarrow> ('s, 'c) app \<Rightarrow> reply \<times> ('s, 'c) app" where
  "admin_models_list S T validate rq = guarded require_admin S T validate rq (\<lambda>r q. answer_snapshot S rq r)"

text \<open>A \<open>ManagerError\<close> is not caught here.\<close>

fun manager_crash :: "manager_error \<Rightarrow> reply" where
  "manager_crash (ManagerError code message) = Crashed (RuntimeError message)"
| "manager_crash (ManagerOther e) = Crashed e"

definition preload_model ::
  "('s, 'c) services \<Rightarrow> moment \<Rightarrow> (bytes \<Rightarrow> string + string) \<Rightarrow> request \<Rightarrow> ('s, 'c) app \<Rightarrow> reply \<times> ('s, 'c) app" where
  "preload_model S T validate rq =
     guarded require_admin S T validate rq (\<lambda>r ident st.
       let tenant = se_tenant (session_of r st) in
       case on_models (preload (sv_env S) ident tenant) st of
         (Inl e, st) \<Rightarrow> (manager_crash e, st)
       | (Inr u, st) \<Rightarrow> answer_dict S rq r (JObj [(''id'', JStr ident), (''state'', JStr ''loaded'')])
           (audit ''admin.model.preload'' [(''id'', JStr ident), (''tenant'', JStr tenant)] st))"

definition unload_model ::
  "('s, 'c) services \<Rightarrow> moment \<Rightarrow> (bytes \<Rightarrow> string + string) \<Rightarrow> request \<Rightarrow> ('s, 'c) app \<Rightarrow> reply \<times> ('s, 'c) app" where
  "unload_model S T validate rq =
     guarded require_admin S T validate rq (\<lambda>r ident st.
       let tenant = se_tenant (session_of r st) in
       case on_models (force_unload (sv_env S) ident tenant) st of
         (removed, st) \<Rightarrow> answer_dict S rq r (JObj [(''id'', JStr ident), (''unloaded'', JBool removed)])
           (audit ''admin.model.unload''
             [(''id'', JStr ident), (''was_loaded'', JBool removed), (''tenant'', JStr tenant)] st))"

section \<open>The process\<close>

record log_level_request =
  ll_component :: string
  ll_level :: string
  ll_ttl_seconds :: "int option"

definition set_log_level ::
  "('s, 'c) services \<Rightarrow> moment \<Rightarrow> (bytes \<Rightarrow> string + log_level_request) \<Rightarrow> request \<Rightarrow> ('s, 'c) app \<Rightarrow>
   reply \<times> ('s, 'c) app" where
  "set_log_level S T validate rq =
     guarded require_admin S T validate rq (\<lambda>r q st.
       case set_component_level (ll_component q) (ll_level q) (ap_logging st) of
         (Inl e, lg) \<Rightarrow> (Crashed e, st\<lparr>ap_logging := lg\<rparr>)
       | (Inr u, lg) \<Rightarrow>
           let st = audit ''admin.log_level''
                 [(''component'', JStr (ll_component q)), (''level'', JStr (ll_level q)), (''ttl'', json_opt_int (ll_ttl_seconds q))]
                 (st\<lparr>ap_logging := lg\<rparr>);
               st = (case ll_ttl_seconds q of
                       None \<Rightarrow> st
                     | Some ttl \<Rightarrow> st\<lparr>ap_reverts := ap_reverts st @ [(mo_now T + of_int ttl, ll_component q)]\<rparr>)
           in answer_dict S rq r (JObj [(''ok'', JBool True)]) st)"

text \<open>\<open>_revert\<close> for the tasks whose sleep is over, oldest first; a level the settings do not name raises there.\<close>

definition revert_one :: "('s, 'c) services \<Rightarrow> string \<Rightarrow> ('s, 'c) app \<Rightarrow> ('s, 'c) app" where
  "revert_one S component st =
     (case set_component_level component (sv_log_level S) (ap_logging st) of
        (Inl e, lg) \<Rightarrow> st\<lparr>ap_logging := lg\<rparr>
      | (Inr u, lg) \<Rightarrow> audit ''admin.log_level.revert'' [(''component'', JStr component)] (st\<lparr>ap_logging := lg\<rparr>))"

definition run_reverts :: "('s, 'c) services \<Rightarrow> float_py \<Rightarrow> ('s, 'c) app \<Rightarrow> ('s, 'c) app" where
  "run_reverts S now st =
     fold (\<lambda>(due, component). revert_one S component) (sort_key fst (filter (\<lambda>(due, component). due \<le> now) (ap_reverts st)))
       (st\<lparr>ap_reverts := filter (\<lambda>(due, component). now < due) (ap_reverts st)\<rparr>)"

definition admin_gc ::
  "('s, 'c) services \<Rightarrow> moment \<Rightarrow> (bytes \<Rightarrow> string + unit) \<Rightarrow> request \<Rightarrow> ('s, 'c) app \<Rightarrow> reply \<times> ('s, 'c) app" where
  "admin_gc S T validate rq =
     guarded require_admin S T validate rq (\<lambda>r q st.
       answer_dict S rq r (JObj [(''collected'', JInt (mo_collected T))])
         (audit ''admin.gc'' [(''collected'', JInt (mo_collected T))] st))"

text \<open>\<open>call_later(0.1, ...)\<close>: of several signals the first one counts. The grace period is only logged.\<close>

definition admin_shutdown ::
  "('s, 'c) services \<Rightarrow> moment \<Rightarrow> (bytes \<Rightarrow> string + int) \<Rightarrow> request \<Rightarrow> ('s, 'c) app \<Rightarrow> reply \<times> ('s, 'c) app" where
  "admin_shutdown S T validate rq =
     guarded require_admin S T validate rq (\<lambda>r grace st.
       let at' = mo_now T + 1 / 10;
           st = audit ''admin.shutdown'' [(''grace'', JInt grace)] st
       in answer_dict S rq r (JObj [(''shutting_down'', JBool True)])
            (st\<lparr>ap_term_at := Some (case ap_term_at st of None \<Rightarrow> at' | Some t \<Rightarrow> min t at')\<rparr>))"

section \<open>LoRA adapters\<close>

definition lora_info_json :: "lora_entry \<Rightarrow> json" where
  "lora_info_json e = JObj
     [(''id'', JStr (le_id e)), (''repo_id'', JStr (le_repo_id e)), (''filename'', JStr (le_filename e)),
      (''sha256'', JStr (le_sha256_plaintext e)), (''bytes_on_disk'', JInt (le_bytes_ciphertext e)),
      (''base_model_id'', json_opt_str (le_base_model_id e))]"

text \<open>\<open>state.lora_registry.for_tenant(session.tenant)\<close>, with the factory and the disk it leaves.\<close>

definition tenant_loras ::
  "('s, 'c) services \<Rightarrow> moment \<Rightarrow> string \<Rightarrow> ('s, 'c) app \<Rightarrow> (lora_entry registry \<times> lora_entry multi_registry \<times> fs) result" where
  "tenant_loras S T tenant st =
     for_tenant lora_kind (sv_json S) (mo_now T) tenant (mg_loras (ap_models st), mg_fs (ap_models st))"

definition set_lora_registry ::
  "string \<Rightarrow> lora_entry registry \<Rightarrow> lora_entry multi_registry \<Rightarrow> fs \<Rightarrow> ('s, 'c) app \<Rightarrow> ('s, 'c) app" where
  "set_lora_registry tenant reg mt fs st =
     st\<lparr>ap_models := (ap_models st)\<lparr>mg_loras := put_registry tenant reg mt, mg_fs := fs\<rparr>\<rparr>"

definition admin_loras_list ::
  "('s, 'c) services \<Rightarrow> moment \<Rightarrow> (bytes \<Rightarrow> string + unit) \<Rightarrow> request \<Rightarrow> ('s, 'c) app \<Rightarrow> reply \<times> ('s, 'c) app" where
  "admin_loras_list S T validate rq =
     guarded require_admin S T validate rq (\<lambda>r q st.
       let tenant = se_tenant (session_of r st) in
       case tenant_loras S T tenant st of
         Inl e \<Rightarrow> (Crashed e, st)
       | Inr (reg, mt, fs) \<Rightarrow> answer_model S rq r (JObj [(''loras'', JList (map lora_info_json (registry_all reg)))])
           (set_lora_registry tenant reg mt fs st))"

record lora_download_request =
  lq_repo_id :: string
  lq_filename :: string
  lq_sha256 :: "string option"
  lq_base_model_id :: "string option"

definition admin_loras_pull ::
  "('s, 'c) services \<Rightarrow> moment \<Rightarrow> (bytes \<Rightarrow> string + lora_download_request) \<Rightarrow> request \<Rightarrow> ('s, 'c) app \<Rightarrow>
   reply \<times> ('s, 'c) app" where
  "admin_loras_pull S T validate rq =
     guarded require_admin S T validate rq (\<lambda>r q st.
       let tenant = se_tenant (session_of r st); E = sv_env S in
       if \<not> sv_allow_download S then answer_error S rq r 403 BAD_REQUEST ''downloads disabled'' st
       else case tenant_loras S T tenant st of
         Inl e \<Rightarrow> (Crashed e, st)
       | Inr (reg, mt, fs) \<Rightarrow>
           (case download_and_seal_lora (sv_json S) (en_age E) (sv_hub S) (mo_rnd T) (mo_scratch T) (mo_now T)
                   (lq_base_model_id q) (lq_repo_id q) (lq_filename q) (lq_sha256 q) (mc_at_rest (en_config E))
                   (sv_allowed_repo_prefixes S) (sv_disk_quota_gb S) (reg, fs) of
              (res, reg, fs) \<Rightarrow>
                let st = set_lora_registry tenant reg mt fs st in
                (case res of
                   Inl (DownloadError code message) \<Rightarrow>
                     answer_error S rq r 400 code message
                       (audit ''admin.lora.pull.fail'' [(''code'', JStr (code_value code)), (''repo'', JStr (lq_repo_id q)),
                          (''tenant'', JStr tenant)] st)
                 | Inl (DownloadOther e) \<Rightarrow> (Crashed e, st)
                 | Inr entry \<Rightarrow>
                     answer_model S rq r (lora_info_json entry)
                       (audit ''admin.lora.pull.ok'' [(''id'', JStr (le_id entry)), (''sha'', JStr (le_sha256_plaintext entry)),
                          (''tenant'', JStr tenant)] st))))"

definition admin_loras_rm ::
  "('s, 'c) services \<Rightarrow> moment \<Rightarrow> (bytes \<Rightarrow> string + string) \<Rightarrow> request \<Rightarrow> ('s, 'c) app \<Rightarrow> reply \<times> ('s, 'c) app" where
  "admin_loras_rm S T validate rq =
     guarded require_admin S T validate rq (\<lambda>r ident st.
       let tenant = se_tenant (session_of r st) in
       case tenant_loras S T tenant st of
         Inl e \<Rightarrow> (Crashed e, st)
       | Inr (reg, mt, fs) \<Rightarrow>
           (case lora_registry_remove ident (reg, fs) of
              (Inl e, reg, fs) \<Rightarrow> (Crashed e, set_lora_registry tenant reg mt fs st)
            | (Inr removed, reg, fs) \<Rightarrow>
                answer_dict S rq r (JObj [(''id'', JStr ident), (''removed'', JBool removed)])
                  (audit ''admin.lora.rm'' [(''id'', JStr ident), (''removed'', JBool removed), (''tenant'', JStr tenant)]
                    (set_lora_registry tenant reg mt fs st))))"

record lora_apply_request =
  la_base_model_id :: string
  la_loras :: "lora_ref list"
  la_n_ctx :: "int option"

definition admin_loras_apply ::
  "('s, 'c) services \<Rightarrow> moment \<Rightarrow> (bytes \<Rightarrow> string + lora_apply_request) \<Rightarrow> request \<Rightarrow> ('s, 'c) app \<Rightarrow>
   reply \<times> ('s, 'c) app" where
  "admin_loras_apply S T validate rq =
     guarded require_admin S T validate rq (\<lambda>r q st.
       let tenant = se_tenant (session_of r st);
           spec = map (\<lambda>l. (lr_id l, lr_scale l)) (la_loras q);
           shown = JList (map lora_ref_json (la_loras q))
       in case on_models (ensure_loaded (sv_env S) (la_base_model_id q) (la_n_ctx q) ''chat'' spec tenant) st of
            (Inl e, st) \<Rightarrow> answer_manager_error S rq r e st
          | (Inr slot, st) \<Rightarrow>
              answer_dict S rq r (JObj [(''base_model_id'', JStr (la_base_model_id q)), (''loras'', shown)])
                (audit ''admin.lora.apply''
                  [(''base_model_id'', JStr (la_base_model_id q)), (''loras'', shown), (''tenant'', JStr tenant)] st))"

section \<open>Tenants\<close>

definition tenant_clients :: "('s, 'c) app \<Rightarrow> string \<Rightarrow> authorized_client list" where
  "tenant_clients st t = filter (\<lambda>c. ac_tenant c = t) (map snd (ks_allowlist (ap_keystore st)))"

definition tenant_sessions :: "('s, 'c) services \<Rightarrow> moment \<Rightarrow> ('s, 'c) app \<Rightarrow> string \<Rightarrow> session list" where
  "tenant_sessions S T st t =
     filter (\<lambda>s. se_tenant s = t) (map (\<lambda>q. session_of q st) (sm_all (sv_ops S) (mo_now T) (ap_world st)))"

definition all_tenants :: "('s, 'c) services \<Rightarrow> moment \<Rightarrow> ('s, 'c) app \<Rightarrow> string list" where
  "all_tenants S T st = sort (remdups
     (map (ac_tenant \<circ> snd) (ks_allowlist (ap_keystore st))
      @ known_tenants (mg_models (ap_models st), mg_fs (ap_models st))
      @ map (\<lambda>q. se_tenant (session_of q st)) (sm_all (sv_ops S) (mo_now T) (ap_world st))))"

text \<open>The rows of the report: counting a tenant's models opens its registry, which creates its directory.\<close>

fun tenant_rows ::
  "('s, 'c) services \<Rightarrow> moment \<Rightarrow> string list \<Rightarrow> ('s, 'c) app \<Rightarrow> json list result \<times> ('s, 'c) app" where
  "tenant_rows S T [] st = (Inr [], st)"
| "tenant_rows S T (t # ts) st =
     (case for_tenant model_kind (sv_json S) (mo_now T) t (mg_models (ap_models st), mg_fs (ap_models st)) of
        Inl e \<Rightarrow> (Inl e, st)
      | Inr (reg, mt, fs) \<Rightarrow>
          let row = JObj
                [(''name'', JStr t), (''clients'', JInt (int (length (tenant_clients st t)))),
                 (''revoked_clients'', JInt (int (length (filter ac_revoked (tenant_clients st t))))),
                 (''active_sessions'', JInt (int (length (tenant_sessions S T st t)))),
                 (''models'', JInt (int (length (registry_all reg))))];
              st = st\<lparr>ap_models := (ap_models st)\<lparr>mg_models := mt, mg_fs := fs\<rparr>\<rparr>
          in (case tenant_rows S T ts st of (Inl e, st) \<Rightarrow> (Inl e, st) | (Inr rows, st) \<Rightarrow> (Inr (row # rows), st)))"

definition admin_tenants_list ::
  "('s, 'c) services \<Rightarrow> moment \<Rightarrow> (bytes \<Rightarrow> string + unit) \<Rightarrow> request \<Rightarrow> ('s, 'c) app \<Rightarrow> reply \<times> ('s, 'c) app" where
  "admin_tenants_list S T validate rq =
     guarded require_super_admin S T validate rq (\<lambda>r q st.
       let tenants = all_tenants S T st in
       case tenant_rows S T tenants st of
         (Inl e, st) \<Rightarrow> (Crashed e, st)
       | (Inr rows, st) \<Rightarrow> answer_dict S rq r (JObj [(''tenants'', JList rows)])
           (audit ''admin.tenants.list'' [(''count'', JInt (int (length tenants)))] st))"

section \<open>All endpoints\<close>

text \<open>The validators of the request models, and one name for each route.\<close>

record admin_schemas =
  as_empty :: "bytes \<Rightarrow> string + unit"
  as_model_id :: "bytes \<Rightarrow> string + string"
  as_terminate :: "bytes \<Rightarrow> string + string"
  as_log_level :: "bytes \<Rightarrow> string + log_level_request"
  as_shutdown :: "bytes \<Rightarrow> string + int"
  as_lora_id :: "bytes \<Rightarrow> string + string"
  as_lora_download :: "bytes \<Rightarrow> string + lora_download_request"
  as_lora_apply :: "bytes \<Rightarrow> string + lora_apply_request"

datatype admin_route =
    SessionsList | SessionsTerminate | ClientsList | ClientsReload | ModelsList | ModelsPreload | ModelsUnload
  | LogLevel | Gc | Shutdown | LorasList | LorasPull | LorasRm | LorasApply | TenantsList

fun admin_dispatch ::
  "('s, 'c) services \<Rightarrow> moment \<Rightarrow> admin_schemas \<Rightarrow> admin_route \<Rightarrow> request \<Rightarrow> ('s, 'c) app \<Rightarrow> reply \<times> ('s, 'c) app" where
  "admin_dispatch S T V SessionsList = list_sessions S T (as_empty V)"
| "admin_dispatch S T V SessionsTerminate = admin_terminate_session S T (as_terminate V)"
| "admin_dispatch S T V ClientsList = list_clients S T (as_empty V)"
| "admin_dispatch S T V ClientsReload = reload_clients S T (as_empty V)"
| "admin_dispatch S T V ModelsList = admin_models_list S T (as_empty V)"
| "admin_dispatch S T V ModelsPreload = preload_model S T (as_model_id V)"
| "admin_dispatch S T V ModelsUnload = unload_model S T (as_model_id V)"
| "admin_dispatch S T V LogLevel = set_log_level S T (as_log_level V)"
| "admin_dispatch S T V Gc = admin_gc S T (as_empty V)"
| "admin_dispatch S T V Shutdown = admin_shutdown S T (as_shutdown V)"
| "admin_dispatch S T V LorasList = admin_loras_list S T (as_empty V)"
| "admin_dispatch S T V LorasPull = admin_loras_pull S T (as_lora_download V)"
| "admin_dispatch S T V LorasRm = admin_loras_rm S T (as_lora_id V)"
| "admin_dispatch S T V LorasApply = admin_loras_apply S T (as_lora_apply V)"
| "admin_dispatch S T V TenantsList = admin_tenants_list S T (as_empty V)"

definition may_use :: "admin_route \<Rightarrow> session \<Rightarrow> bool" where
  "may_use route s \<longleftrightarrow> (if route = TenantsList then is_super s else is_admin s)"

end
