(* ===== verification/Authority.thy ===== *)
theory Authority
  imports Admin Delivery
begin

text \<open>
  What a caller of the control plane can reach: nothing without the scope, the sessions of its own tenant with
  \<open>admin\<close>, every tenant with \<open>super_admin\<close>; and what reloading the allowlist and ending sessions leave.
\<close>

section \<open>Who may change what\<close>

text \<open>The session a request authenticates as, whatever its body says.\<close>

definition caller :: "('s, 'c) services \<Rightarrow> moment \<Rightarrow> request \<Rightarrow> ('s, 'c) app \<Rightarrow> session option" where
  "caller S T rq st =
     (case decrypt_request (sv_nacl S) (sv_ops S) (\<lambda>body. Inr ()) (mo_started T) (mo_failed T) (mo_lookup T) (mo_now T)
             rq (ap_world st) of
        (Accepted r q, w) \<Rightarrow> Some (fst w ! r)
      | _ \<Rightarrow> None)"

lemma decrypt_any_body:
  "decrypt_request N ops validate s f t t' rq w = (Accepted r q, w') \<Longrightarrow>
    decrypt_request N ops (\<lambda>body. Inr ()) s f t t' rq w = (Accepted r (), w')"
  unfolding decrypt_request_def Let_def
  by (auto split: if_splits sum.splits prod.splits option.splits open_error.splits)

text \<open>What authentication alone leaves of the sessions, for some verdict on the body, up to the counter of an answer.\<close>

definition only_authenticated :: "('s, 'c) services \<Rightarrow> moment \<Rightarrow> request \<Rightarrow> ('s, 'c) app \<Rightarrow> 's world \<Rightarrow> bool" where
  "only_authenticated S T rq st w' \<longleftrightarrow> (\<exists>(validate :: bytes \<Rightarrow> string + unit) r.
     let w = snd (decrypt_request (sv_nacl S) (sv_ops S) validate (mo_started T) (mo_failed T) (mo_lookup T) (mo_now T) rq
           (ap_world st))
     in w' = w \<or> w' = upd_session r (\<lambda>s. s\<lparr>se_s2c_counter := se_s2c_counter s + 1\<rparr>) w)"

lemma decrypt_forget:
  "snd (decrypt_request N ops (\<lambda>b. map_sum (\<lambda>m. m) (\<lambda>q. ()) (validate b)) s f t t' rq w)
    = snd (decrypt_request N ops validate s f t t' rq w)"
  unfolding decrypt_request_def Let_def
  by (auto split: if_splits sum.splits prod.splits option.splits open_error.splits)

lemma only_authenticatedI:
  assumes "decrypt_request (sv_nacl S) (sv_ops S) validate (mo_started T) (mo_failed T) (mo_lookup T) (mo_now T) rq
      (ap_world st) = (res, w)"
    and "w' = w \<or> w' = upd_session r (\<lambda>s. s\<lparr>se_s2c_counter := se_s2c_counter s + 1\<rparr>) w"
  shows "only_authenticated S T rq st w'"
  unfolding only_authenticated_def Let_def
  by (rule exI [of _ "\<lambda>b. map_sum (\<lambda>m. m) (\<lambda>q. ()) (validate b)"], rule exI [of _ r])
    (use assms in \<open>simp add: decrypt_forget\<close>)

text \<open>What the services other than the sessions hold.\<close>

definition control_state :: "('s, 'c) app \<Rightarrow> 'c manager \<times> keystore \<times> logging \<times> (float_py \<times> string) list \<times> float_py option" where
  "control_state st = (ap_models st, ap_keystore st, ap_logging st, ap_reverts st, ap_term_at st)"

lemma control_state_simps [simp]:
  "control_state (st\<lparr>ap_world := w\<rparr>) = control_state st" "control_state (audit ev kw st) = control_state st"
  "ap_world (audit ev kw st) = ap_world st" "ap_audit (st\<lparr>ap_world := w\<rparr>) = ap_audit st"
  by (simp_all add: control_state_def audit_def)

lemma answer_effect:
  assumes "answer S rq r status payload direction st = (rep, st')"
  shows "control_state st' = control_state st \<and> ap_audit st' = ap_audit st \<and>
    ap_world st' = upd_session r (\<lambda>s. s\<lparr>se_s2c_counter := se_s2c_counter s + 1\<rparr>) (ap_world st) \<and>
    (\<forall>b body. rep = Sealed b body \<longrightarrow> b = status)"
  using assms by (auto simp: answer_def encrypt_response_def Let_def split: sum.splits)

definition is_sealed :: "int \<Rightarrow> reply \<Rightarrow> bool" where
  "is_sealed status rep \<longleftrightarrow> (\<exists>body. rep = Sealed status body)"

lemma deny_effect:
  assumes "deny S rq r message event st = (rep, st')"
  shows "control_state st' = control_state st \<and> \<not> is_sealed 200 rep \<and>
    (\<exists>as. ap_audit st' = ap_audit st @ as \<and> set (map fst as) \<subseteq> {event}) \<and>
    ap_world st' = upd_session r (\<lambda>s. s\<lparr>se_s2c_counter := se_s2c_counter s + 1\<rparr>) (ap_world st)"
proof -
  obtain rep1 st1 where a: "answer_error S rq r 403 ADMIN_REQUIRED message st = (rep1, st1)"
    by (cases "answer_error S rq r 403 ADMIN_REQUIRED message st")
  note e = answer_effect [OF a [unfolded answer_error_def]]
  show ?thesis using assms e a
    by (cases rep1) (auto simp: deny_def is_sealed_def audit_def control_state_def)
qed

lemma guarded_denied:
  assumes "guarded guard S T validate rq body st = (rep, st')"
    and "\<forall>s. caller S T rq st = Some s \<longrightarrow> \<not> P s"
    and "\<And>r st. guard S rq r st = (if P (session_of r st) then None else Some (deny S rq r message event st))"
  shows "control_state st' = control_state st \<and> \<not> is_sealed 200 rep \<and>
    (\<exists>as. ap_audit st' = ap_audit st @ as \<and> set (map fst as) \<subseteq> {event}) \<and>
    only_authenticated S T rq st (ap_world st')"
proof -
  obtain res w where d: "decrypt_request (sv_nacl S) (sv_ops S) validate (mo_started T) (mo_failed T) (mo_lookup T) (mo_now T)
      rq (ap_world st) = (res, w)" by (rule prod.exhaust)
  show ?thesis
  proof (cases res)
    case (Accepted r q)
    from decrypt_any_body [OF d [unfolded Accepted]] have "caller S T rq st = Some (fst w ! r)"
      by (simp add: caller_def)
    with assms(2) have "\<not> P (session_of r (st\<lparr>ap_world := w\<rparr>))" by (simp add: session_of_def)
    then have "deny S rq r message event (st\<lparr>ap_world := w\<rparr>) = (rep, st')"
      using assms(1) by (simp add: guarded_def with_request_def d Accepted assms(3))
    note de = deny_effect [OF this]
    have "only_authenticated S T rq st (ap_world st')"
      by (rule only_authenticatedI [OF d, of _ r]) (use de in simp)
    with de show ?thesis by simp
  next
    case (Rejected rj)
    then show ?thesis using assms(1) d only_authenticatedI [OF d, of w]
      by (auto simp: guarded_def with_request_def is_sealed_def)
  next
    case (Raised e)
    then show ?thesis using assms(1) d only_authenticatedI [OF d, of w]
      by (auto simp: guarded_def with_request_def is_sealed_def)
  qed
qed

lemma require_admin_guard:
  "require_admin S rq r st = (if is_admin (session_of r st) then None
    else Some (deny S rq r ''admin scope required'' ''admin.denied'' st))"
  by (simp add: require_admin_def)

lemma require_super_guard:
  "require_super_admin S rq r st = (if is_super (session_of r st) then None
    else Some (deny S rq r ''super_admin scope required for cross-tenant operations'' ''admin.super_required'' st))"
  by (simp add: require_super_admin_def)

lemma guarded_admin_denied:
  assumes "guarded require_admin S T validate rq body st = (rep, st')"
    and "\<forall>s. caller S T rq st = Some s \<longrightarrow> \<not> is_admin s"
  shows "control_state st' = control_state st \<and> \<not> is_sealed 200 rep \<and>
    (\<exists>as. ap_audit st' = ap_audit st @ as \<and> set (map fst as) \<subseteq> {''admin.denied''}) \<and>
    only_authenticated S T rq st (ap_world st')"
  by (rule guarded_denied [OF assms(1,2)]) (rule require_admin_guard)

lemma guarded_super_denied:
  assumes "guarded require_super_admin S T validate rq body st = (rep, st')"
    and "\<forall>s. caller S T rq st = Some s \<longrightarrow> \<not> is_super s"
  shows "control_state st' = control_state st \<and> \<not> is_sealed 200 rep \<and>
    (\<exists>as. ap_audit st' = ap_audit st @ as \<and> set (map fst as) \<subseteq> {''admin.super_required''}) \<and>
    only_authenticated S T rq st (ap_world st')"
  by (rule guarded_denied [OF assms(1,2)]) (rule require_super_guard)

lemmas route_defs = list_sessions_def admin_terminate_session_def list_clients_def reload_clients_def
  admin_models_list_def preload_model_def unload_model_def set_log_level_def admin_gc_def admin_shutdown_def
  admin_loras_list_def admin_loras_pull_def admin_loras_rm_def admin_loras_apply_def

text \<open>C18. The control plane needs its scope: whatever admin endpoint is called with whatever body, unless the
  request authenticates as a session with the scope for it, no model, adapter, file, allowlist entry, log
  level or pending task changes, no shutdown is scheduled, the sessions are what authenticating and
  answering leaves of them, the answer is not a success, and the audit trail gains nothing but denials.\<close>

theorem admin_needs_scope:
  assumes "admin_dispatch S T V route rq st = (rep, st')"
    and "\<forall>s. caller S T rq st = Some s \<longrightarrow> \<not> may_use route s"
  shows "control_state st' = control_state st \<and> \<not> is_sealed 200 rep \<and>
    (\<exists>as. ap_audit st' = ap_audit st @ as \<and> set (map fst as) \<subseteq> {''admin.denied'', ''admin.super_required''}) \<and>
    only_authenticated S T rq st (ap_world st')"
proof (cases "route = TenantsList")
  case True
  with assms(2) have no: "\<forall>s. caller S T rq st = Some s \<longrightarrow> \<not> is_super s" by (simp add: may_use_def)
  from assms(1) True have "guarded require_super_admin S T (as_empty V) rq (\<lambda>r q st.
       let tenants = all_tenants S T st in
       case tenant_rows S T tenants st of
         (Inl e, st) \<Rightarrow> (Crashed e, st)
       | (Inr rows, st) \<Rightarrow> answer_dict S rq r (JObj [(''tenants'', JList rows)])
           (audit ''admin.tenants.list'' [(''count'', JInt (int (length tenants)))] st)) st = (rep, st')"
    by (simp add: admin_tenants_list_def)
  from guarded_super_denied [OF this no] show ?thesis by blast
next
  case False
  with assms(2) have no: "\<forall>s. caller S T rq st = Some s \<longrightarrow> \<not> is_admin s" by (simp add: may_use_def)
  show ?thesis using assms(1) False
    by (cases route) (simp_all only: admin_dispatch.simps route_defs simp_thms, (drule guarded_admin_denied [OF _ no], blast)+)
qed

definition demo_schemas :: admin_schemas where
  "demo_schemas = \<lparr>as_empty = (\<lambda>b. Inr ()), as_model_id = (\<lambda>b. Inr ''m''), as_terminate = (\<lambda>b. Inr (b64encode (replicate 16 9))),
     as_log_level = (\<lambda>b. Inl ''''), as_shutdown = (\<lambda>b. Inr 30), as_lora_id = (\<lambda>b. Inl ''''),
     as_lora_download = (\<lambda>b. Inl ''''), as_lora_apply = (\<lambda>b. Inl '''')\<rparr>"

text \<open>A request of the session at position 0, and the session it authenticates as.\<close>

lemma demo_caller_of:
  assumes "h \<noteq> [] \<and> h ! 0 = demo_caller sc" and "cache_ok h d" and "map_of d (replicate 16 5) = Some 0" and "validate pt = Inr (x :: 'a)"
  shows "\<exists>buf win. decrypt_request demo_nacl in_memory_store validate 0 0 150 150
      \<lparr>rq_method = ''GET'', rq_path = ''/'', rq_body = buf\<rparr> (h, d)
      = (Accepted 0 x, (h[0 := touch 150 ((demo_caller sc)\<lparr>se_replay := win\<rparr>)], AList.update (replicate 16 5) 0 d)) \<and>
    caller demo_services demo_moment \<lparr>rq_method = ''GET'', rq_path = ''/'', rq_body = buf\<rparr> (demo_app h d)
      = Some (touch 150 ((demo_caller sc)\<lparr>se_replay := win\<rparr>))"
proof -
  obtain buf win where run: "decrypt_request demo_nacl in_memory_store validate 0 0 150 150
      \<lparr>rq_method = ''GET'', rq_path = ''/'', rq_body = buf\<rparr> (h, d)
      = (Accepted 0 x, (h[0 := touch 150 ((demo_caller sc)\<lparr>se_replay := win\<rparr>)], AList.update (replicate 16 5) 0 d))"
    using demo_call [where validate = validate, OF assms] by blast
  from decrypt_any_body [OF run] assms(1) run show ?thesis
    by (intro exI [of _ buf] exI [of _ win])
      (auto simp: caller_def demo_services_def demo_moment_def demo_app_def)
qed

theorem admin_needs_scope_witness:
  "\<exists>buf rep st'. admin_dispatch demo_services demo_moment demo_schemas Shutdown
      \<lparr>rq_method = ''GET'', rq_path = ''/'', rq_body = buf\<rparr> (demo_app [demo_caller [''chat'']] [(replicate 16 5, 0)]) = (rep, st') \<and>
    ap_term_at st' = None \<and> \<not> is_sealed 200 rep"
proof -
  let ?st = "demo_app [demo_caller [''chat'']] [(replicate 16 5, 0)]"
  obtain buf win where c: "caller demo_services demo_moment \<lparr>rq_method = ''GET'', rq_path = ''/'', rq_body = buf\<rparr> ?st
      = Some (touch 150 ((demo_caller [''chat''])\<lparr>se_replay := win\<rparr>))"
    using demo_caller_of [where validate = "\<lambda>b. Inr ()" and pt = "[]" and sc = "[''chat'']", OF _ demo_caller_cache [of "[''chat'']"]] by auto
  obtain rep st' where run: "admin_dispatch demo_services demo_moment demo_schemas Shutdown
      \<lparr>rq_method = ''GET'', rq_path = ''/'', rq_body = buf\<rparr> ?st = (rep, st')" by (metis prod.exhaust)
  from admin_needs_scope [OF run] c have "control_state st' = control_state ?st" "\<not> is_sealed 200 rep"
    by (auto simp: may_use_def is_admin_def has_scope_def touch_def demo_caller_simps)
  with run show ?thesis by (auto simp: control_state_def demo_app_def)
qed

section \<open>Other tenants\<close>

lemma mem_lookup_async_found:
  assumes "sm_lookup_async in_memory_store t t' sid (h, d) = (Inr (Some r), w)"
  shows "w = (h, d) \<and> map_of d sid = Some r"
  using assms
  by (auto simp: sm_lookup_async_def sm_find_def in_memory_store_def mem_lookup_def mem_hydrate_def split: option.splits if_splits)

lemma mem_Accepted:
  assumes "decrypt_request N in_memory_store validate s f t t' rq (h, d) = (Accepted r p, w)" and "cache_ok h d"
  shows "\<exists>sid win. map_of d sid = Some r \<and> r < length h \<and> se_session_id (h ! r) = sid \<and>
    w = (h[r := touch t' ((h ! r)\<lparr>se_replay := win\<rparr>)], AList.update sid r d)"
proof -
  obtain env :: envelope and w1 :: "cache world" and win where
    look: "sm_lookup_async in_memory_store t t' (env_session_id env) (h, d) = (Inr (Some r), w1)"
    and w: "w = sm_persist in_memory_store t' r (upd_session r (touch t') (upd_session r (\<lambda>s. s\<lparr>se_replay := win\<rparr>) w1))"
    using decrypt_Accepted [OF assms(1)] by (elim exE conjE) (rule that)
  from mem_lookup_async_found [OF look] have w1: "w1 = (h, d)" and m: "map_of d (env_session_id env) = Some r" by simp_all
  from cache_okD [OF assms(2) m] have "r < length h" "se_session_id (h ! r) = env_session_id env" by simp_all
  with m w w1 show ?thesis
    by (intro exI [of _ "env_session_id env"] exI [of _ win]) (simp add: mem_persist upd_session_def touch_def)
qed

text \<open>The handlers other than the one that ends a session only move the counter of the session they answer.\<close>

definition counts_only :: "ref \<Rightarrow> ('s, 'c) app \<Rightarrow> ('s, 'c) app \<Rightarrow> bool" where
  "counts_only r st st' \<longleftrightarrow> ap_world st' = ap_world st \<or>
     ap_world st' = upd_session r (\<lambda>x. x\<lparr>se_s2c_counter := se_s2c_counter x + 1\<rparr>) (ap_world st)"

lemma counts_only_answer:
  "ap_world st1 = ap_world st \<Longrightarrow> counts_only r st (snd (answer S rq r status payload direction st1))"
  using answer_world [OF prod.collapse [symmetric], of S rq r status payload direction st1]
  by (simp add: counts_only_def)

lemma counts_only_error:
  "ap_world st1 = ap_world st \<Longrightarrow> counts_only r st (snd (answer_error S rq r status code message st1))"
  by (simp add: answer_error_def counts_only_answer)

lemma counts_only_dict: "ap_world st1 = ap_world st \<Longrightarrow> counts_only r st (snd (answer_dict S rq r v st1))"
  by (simp add: answer_dict_def counts_only_answer)

lemma counts_only_model: "ap_world st1 = ap_world st \<Longrightarrow> counts_only r st (snd (answer_model S rq r v st1))"
  by (simp add: answer_model_def counts_only_answer)

lemma counts_only_same: "ap_world st1 = ap_world st \<Longrightarrow> counts_only r st st1"
  by (simp add: counts_only_def)

lemma counts_only_snapshot: "ap_world st1 = ap_world st \<Longrightarrow> counts_only r st (snd (answer_snapshot S rq r st1))"
  by (auto simp: answer_snapshot_def intro: counts_only_model counts_only_same split: sum.splits prod.splits)

lemma counts_only_manager_error:
  "ap_world st1 = ap_world st \<Longrightarrow> counts_only r st (snd (answer_manager_error S rq r e st1))"
  by (auto simp: answer_manager_error_def intro: counts_only_error counts_only_same split: manager_error.splits)

lemma counts_only_upd [simp]:
  "counts_only r st st" "counts_only r st (st\<lparr>ap_keystore := ks\<rparr>)" "counts_only r st (st\<lparr>ap_logging := lg\<rparr>)"
  "counts_only r st (set_lora_registry tenant reg mt fs st)"
  by (simp_all add: counts_only_def set_lora_registry_def)

lemma set_lora_registry_world [simp]: "ap_world (set_lora_registry tenant reg mt fs st) = ap_world st"
  by (simp add: set_lora_registry_def)

lemma on_models_world [simp]: "ap_world (snd (on_models f st)) = ap_world st"
  by (simp add: on_models_def split: prod.splits)

lemma on_models_world': "on_models f st = (res, st') \<Longrightarrow> ap_world st' = ap_world st"
  using on_models_world [of f st] by simp

lemma deny_counts: "counts_only r st (snd (deny S rq r message event st))"
  using deny_effect [OF prod.collapse [symmetric], of S rq r message event st] by (simp add: counts_only_def)

text \<open>A session other than the one the request authenticates as.\<close>

definition untouched :: "ref \<Rightarrow> bytes \<Rightarrow> (cache, 'c) app \<Rightarrow> (cache, 'c) app \<Rightarrow> bool" where
  "untouched q sid st st' \<longleftrightarrow> session_of q st' = session_of q st \<and>
     map_of (snd (ap_world st')) sid = map_of (snd (ap_world st)) sid"

lemma untouched_trans: "untouched q sid a b \<Longrightarrow> untouched q sid b c \<Longrightarrow> untouched q sid a c"
  by (simp add: untouched_def)

lemma counts_only_untouched: "counts_only r st st' \<Longrightarrow> q \<noteq> r \<Longrightarrow> untouched q sid st st'"
  by (auto simp: counts_only_def untouched_def session_of_def upd_session_def)

text \<open>What authentication does to the in-memory sessions when it succeeds, for any schema of the body.\<close>

definition entered :: "float_py \<Rightarrow> ref \<Rightarrow> session \<Rightarrow> (cache, 'c) app \<Rightarrow> (cache, 'c) app \<Rightarrow> bool" where
  "entered now r s st st1 \<longleftrightarrow> (let h = fst (ap_world st); d = snd (ap_world st) in
     r < length h \<and> map_of d (se_session_id (h ! r)) = Some r \<and>
     (\<exists>win. s = touch now ((h ! r)\<lparr>se_replay := win\<rparr>)) \<and>
     st1 = st\<lparr>ap_world := (h[r := s], AList.update (se_session_id (h ! r)) r d)\<rparr>)"

lemma entered_session:
  "entered now r s st st1 \<Longrightarrow> session_of r st1 = s \<and> se_session_id s = se_session_id (session_of r st)"
  by (auto simp: entered_def session_of_def Let_def touch_def)

lemma caller_decrypt:
  assumes "caller S T rq st = Some s" and "sv_ops S = in_memory_store" and "ap_world st = (h, d)" and "cache_ok h d"
    and "decrypt_request (sv_nacl S) in_memory_store validate (mo_started T) (mo_failed T) (mo_lookup T) (mo_now T) rq (h, d)
      = (res, w)"
  shows "\<exists>r win. r < length h \<and> map_of d (se_session_id (h ! r)) = Some r \<and>
    s = touch (mo_now T) ((h ! r)\<lparr>se_replay := win\<rparr>) \<and>
    ((\<exists>p pt. res = Accepted r p \<and> validate pt = Inr p) \<and> w = (h[r := s], AList.update (se_session_id (h ! r)) r d) \<or>
     (\<exists>rj pt m. res = Rejected rj \<and> validate pt = Inl m) \<and> w = (h[r := (h ! r)\<lparr>se_replay := win\<rparr>], d))"
proof -
  from assms(1,2,3) obtain r w' where
    run: "decrypt_request (sv_nacl S) in_memory_store (\<lambda>body. Inr ()) (mo_started T) (mo_failed T) (mo_lookup T) (mo_now T)
      rq (h, d) = (Accepted r (), w')" and s: "s = fst w' ! r"
    by (auto simp: caller_def split: prod.splits outcome.splits)
  obtain env :: envelope and w1 :: "cache world" and win env' pt where
    un: "unpack_envelope (rq_body rq) = Inr env"
    and look: "sm_lookup_async in_memory_store (mo_lookup T) (mo_now T) (env_session_id env) (h, d) = (Inr (Some r), w1)"
    and adv: "check_and_advance (env_counter env) (se_replay (fst w1 ! r)) = Inr win"
    and op: "open_envelope (sv_nacl S) (se_c2s (fst (upd_session r (\<lambda>s. s\<lparr>se_replay := win\<rparr>) w1) ! r))
      (se_session_id (fst (upd_session r (\<lambda>s. s\<lparr>se_replay := win\<rparr>) w1) ! r))
      (rq_method rq) (rq_path rq) (rq_body rq) = Inr (env', pt)"
    and w': "w' = sm_persist in_memory_store (mo_now T) r (upd_session r (touch (mo_now T))
      (upd_session r (\<lambda>s. s\<lparr>se_replay := win\<rparr>) w1))"
    using decrypt_Accepted [OF run] by (elim exE conjE) (rule that)
  from mem_lookup_async_found [OF look] have w1: "w1 = (h, d)" and m: "map_of d (env_session_id env) = Some r" by simp_all
  from cache_okD [OF assms(4) m] have r: "r < length h" "se_session_id (h ! r) = env_session_id env" by simp_all
  have s': "s = touch (mo_now T) ((h ! r)\<lparr>se_replay := win\<rparr>)"
    using s w' w1 r by (simp add: mem_persist upd_session_def)
  have "(res, w) = with_session (sv_nacl S) in_memory_store validate (mo_started T) (mo_failed T) (mo_now T) rq env r (h, d)"
    using assms(5) decrypt_with_session [OF un look] w1 by metis
  then have "(\<exists>p pt. res = Accepted r p \<and> validate pt = Inr p) \<and> w = (h[r := s], AList.update (se_session_id (h ! r)) r d) \<or>
     (\<exists>rj pt m. res = Rejected rj \<and> validate pt = Inl m) \<and> w = (h[r := (h ! r)\<lparr>se_replay := win\<rparr>], d)"
    using adv op w1 r s'
    by (auto simp: with_session_def upd_session_def mem_persist Let_def touch_def split: sum.splits)
  with r m s' show ?thesis by (intro exI [of _ r] exI [of _ win]) simp
qed

lemma guarded_caller:
  assumes "guarded guard S T validate rq body st = (rep, st')" and "caller S T rq st = Some s"
    and "sv_ops S = in_memory_store" and "cache_ok (fst (ap_world st)) (snd (ap_world st))"
  obtains (body) r p pt st1 where "entered (mo_now T) r s st st1" and "guard S rq r st1 = None"
      and "body r p st1 = (rep, st')" and "validate pt = Inr p"
    | (denied) r st1 where "entered (mo_now T) r s st st1" and "guard S rq r st1 = Some (rep, st')"
    | (schema) r win pt m where "se_session_id s = se_session_id (session_of r st)" and "validate pt = Inl m"
        and "st' = st\<lparr>ap_world := upd_session r (\<lambda>x. x\<lparr>se_replay := win\<rparr>) (ap_world st)\<rparr>" and "\<exists>rj. rep = Refused rj"
proof -
  obtain h d where w: "ap_world st = (h, d)" by (metis prod.exhaust)
  obtain res w1 where d: "decrypt_request (sv_nacl S) in_memory_store validate (mo_started T) (mo_failed T) (mo_lookup T)
      (mo_now T) rq (h, d) = (res, w1)" by (metis prod.exhaust)
  have c: "cache_ok h d" using assms(4) w by simp
  from caller_decrypt [OF assms(2,3) w c d] obtain r win where r: "r < length h" "map_of d (se_session_id (h ! r)) = Some r"
    and s: "s = touch (mo_now T) ((h ! r)\<lparr>se_replay := win\<rparr>)"
    and out: "(\<exists>p pt. res = Accepted r p \<and> validate pt = Inr p) \<and> w1 = (h[r := s], AList.update (se_session_id (h ! r)) r d) \<or>
     (\<exists>rj pt m. res = Rejected rj \<and> validate pt = Inl m) \<and> w1 = (h[r := (h ! r)\<lparr>se_replay := win\<rparr>], d)" by blast
  from out show thesis
  proof (elim disjE conjE exE)
    fix p pt assume "res = Accepted r p" and v: "validate pt = Inr p" and w1: "w1 = (h[r := s], AList.update (se_session_id (h ! r)) r d)"
    then have g: "(case guard S rq r (st\<lparr>ap_world := w1\<rparr>) of Some denied \<Rightarrow> denied | None \<Rightarrow> body r p (st\<lparr>ap_world := w1\<rparr>))
        = (rep, st')" using assms(1,3) d w by (simp add: guarded_def with_request_def split: option.splits)
    have e: "entered (mo_now T) r s st (st\<lparr>ap_world := w1\<rparr>)" using r s w1 w by (auto simp: entered_def)
    show thesis
    proof (cases "guard S rq r (st\<lparr>ap_world := w1\<rparr>)")
      case None
      with g v show ?thesis by (intro body [OF e None _ v]) simp
    next
      case (Some x)
      with g show ?thesis by (intro denied [OF e]) simp
    qed
  next
    fix rj pt m assume "res = Rejected rj" and v: "validate pt = Inl m" and "w1 = (h[r := (h ! r)\<lparr>se_replay := win\<rparr>], d)"
    then have "st' = st\<lparr>ap_world := upd_session r (\<lambda>x. x\<lparr>se_replay := win\<rparr>) (ap_world st)\<rparr>" "rep = Refused rj"
      using assms(1,3) d w by (auto simp: guarded_def with_request_def upd_session_def)
    then show thesis by (intro schema [OF _ v]) (simp_all add: s session_of_def w touch_def)
  qed
qed

lemma entered_untouched:
  "entered now r s st st1 \<Longrightarrow> q \<noteq> r \<Longrightarrow> map_of (snd (ap_world st)) sid = Some q \<Longrightarrow> untouched q sid st st1"
  by (auto simp: entered_def untouched_def session_of_def map_of_update Let_def)

lemma require_admin_counts: "counts_only r st (snd (the (require_admin S rq r st))) \<or> require_admin S rq r st = None"
  by (simp add: require_admin_def deny_counts)

lemma require_super_counts:
  "counts_only r st (snd (the (require_super_admin S rq r st))) \<or> require_super_admin S rq r st = None"
  by (simp add: require_super_admin_def deny_counts)

lemma guarded_untouched:
  assumes "guarded guard S T validate rq body st = (rep, st')" and "caller S T rq st = Some s"
    and "sv_ops S = in_memory_store" and "cache_ok (fst (ap_world st)) (snd (ap_world st))"
    and "map_of (snd (ap_world st)) sid = Some q" and "sid \<noteq> se_session_id s"
    and "\<And>r st. counts_only r st (snd (the (guard S rq r st))) \<or> guard S rq r st = None"
    and "\<And>r p st1. guard S rq r st1 = None \<Longrightarrow> session_of r st1 = s \<Longrightarrow> q \<noteq> r \<Longrightarrow> untouched q sid st st1 \<Longrightarrow>
      cache_ok (fst (ap_world st1)) (snd (ap_world st1)) \<Longrightarrow> untouched q sid st1 (snd (body r p st1))"
  shows "untouched q sid st st'"
proof -
  have id: "se_session_id (session_of q st) = sid"
    using cache_okD [OF assms(4,5)] by (simp add: session_of_def)
  from assms(1-4) show ?thesis
  proof (cases rule: guarded_caller)
    case (body r p pt st1)
    note e = entered_session [OF body(1)]
    then have q: "q \<noteq> r" using assms(6) id by auto
    note u = entered_untouched [OF body(1) q assms(5)]
    have "cache_ok (fst (ap_world st1)) (snd (ap_world st1))"
      using body(1) assms(4) cache_ok_put [OF cache_ok_update [OF assms(4)], of s r r]
      by (auto simp: entered_def Let_def touch_def)
    from assms(8) [of r st1 p, OF body(2) _ q u this] e body(3) have "untouched q sid st1 st'" by auto
    with u show ?thesis by (rule untouched_trans)
  next
    case (denied r st1)
    note e = entered_session [OF denied(1)]
    then have q: "q \<noteq> r" using assms(6) id by auto
    from assms(7) [of r st1] denied(2) have "counts_only r st1 st'" by simp
    from untouched_trans [OF entered_untouched [OF denied(1) q assms(5)] counts_only_untouched [OF this q]]
    show ?thesis .
  next
    case (schema r win pt m)
    then have "q \<noteq> r" using assms(6) id by auto
    with schema(3) show ?thesis by (auto simp: untouched_def session_of_def upd_session_def)
  qed
qed

text \<open>Ending a session, by a caller without \<open>super_admin\<close>.\<close>

lemma terminate_body_untouched:
  assumes "sv_ops S = in_memory_store" and "cache_ok (fst (ap_world st)) (snd (ap_world st))"
    and "map_of (snd (ap_world st)) sid = Some q" and "q \<noteq> r" and "\<not> is_super (session_of r st)"
    and "se_tenant (session_of q st) \<noteq> se_tenant (session_of r st)"
  shows "untouched q sid st (snd (terminate_body S T rq r b64 st))"
proof (cases "b64decode False b64")
  case (Inl e)
  then show ?thesis by (simp add: terminate_body_def untouched_def Let_def)
next
  case (Inr t)
  obtain h d where w: "ap_world st = (h, d)" by (metis prod.exhaust)
  have ops: "sv_ops S = in_memory_store" by (rule assms(1))
  have same: "untouched q sid st (snd (answer S rq r status payload dir st1))"
    if "map_of (snd (ap_world st1)) sid = Some q" "fst (ap_world st1) ! q = h ! q" for status payload dir st1
  proof -
    have "untouched q sid st st1" using that assms(3) w by (simp add: untouched_def session_of_def)
    with counts_only_untouched [OF counts_only_answer [OF refl] assms(4)] show ?thesis by (blast intro: untouched_trans)
  qed
  show ?thesis
  proof (cases "\<exists>x. map_of d t = Some x \<and> \<not> is_expired (mo_now T) (h ! x)")
    case False
    then have "sm_lookup_async in_memory_store (mo_now T) (mo_now T) t (h, d) = (Inr None, (h, d))"
      "sm_terminate in_memory_store (mo_now T) t (h, d) = (Inr False, (h, d))"
      by (auto simp: sm_lookup_async_def sm_terminate_def sm_find_def in_memory_store_def mem_lookup_def mem_hydrate_def
          split: option.splits)
    then show ?thesis using same assms(3) w by (simp add: terminate_body_def Inr ops Let_def)
  next
    case True
    then obtain x where x: "map_of d t = Some x" "\<not> is_expired (mo_now T) (h ! x)" by blast
    have look: "sm_lookup_async in_memory_store (mo_now T) (mo_now T) t (h, d) = (Inr (Some x), (h, d))"
      by (rule mem_lookup_live) (use x in simp_all)
    show ?thesis
    proof (cases "se_tenant (h ! x) = se_tenant (session_of r st)")
      case False
      then show ?thesis using same assms(3,5) w look
        by (simp add: terminate_body_def Inr ops answer_error_def session_of_def Let_def)
    next
      case tenant: True
      have xq: "x \<noteq> q" using tenant assms(6) w by (auto simp: session_of_def)
      then have tsid: "t \<noteq> sid" using x assms(3) w by auto
      have dict: "dict_ok d" using assms(2) w by (simp add: cache_ok_def)
      have "sm_terminate in_memory_store (mo_now T) t (h, d) = (Inr True, (h[x := zero_session (h ! x)], AList.delete t d))"
        using x by (simp add: sm_terminate_def sm_find_def in_memory_store_def mem_lookup_def mem_delete_def sm_zeroize_def)
      then show ?thesis using same assms(3) w look tenant xq tsid
        by (simp add: terminate_body_def Inr ops session_of_def map_of_delete Let_def)
    qed
  qed
qed

lemma guarded_counts_untouched:
  assumes "guarded require_admin S T validate rq body st = (rep, st')" and "caller S T rq st = Some s"
    and "sv_ops S = in_memory_store" and "cache_ok (fst (ap_world st)) (snd (ap_world st))"
    and "map_of (snd (ap_world st)) sid = Some q" and "sid \<noteq> se_session_id s"
    and "\<And>r p st1. counts_only r st1 (snd (body r p st1))"
  shows "untouched q sid st st'"
  by (rule guarded_untouched [OF assms(1-6) require_admin_counts]) (rule counts_only_untouched [OF assms(7)])

lemma guarded_counts_cache:
  assumes "guarded require_admin S T validate rq body st = (rep, st')" and "caller S T rq st = Some s"
    and "sv_ops S = in_memory_store" and "cache_ok (fst (ap_world st)) (snd (ap_world st))"
    and "\<And>r p st1. counts_only r st1 (snd (body r p st1))"
  shows "cache_ok (fst (ap_world st')) (snd (ap_world st'))"
proof -
  have keeps: "cache_ok (fst (ap_world b)) (snd (ap_world b))"
    if "counts_only r a b" "cache_ok (fst (ap_world a)) (snd (ap_world a))" for a b :: "(cache, 'a) app" and r
    using that by (auto simp: counts_only_def upd_session_def cache_ok_update)
  have ent: "cache_ok (fst (ap_world st1)) (snd (ap_world st1))" if "entered (mo_now T) r s st st1" for r st1
    using that assms(4) cache_ok_put [OF cache_ok_update [OF assms(4)], of s r r]
    by (auto simp: entered_def Let_def touch_def)
  from assms(1-4) show ?thesis
  proof (cases rule: guarded_caller)
    case (body r p pt st1)
    from keeps [OF assms(5) ent [OF body(1)], of r p] body(3) show ?thesis by simp
  next
    case (denied r st1)
    from require_admin_counts [of r st1 S rq] denied(2) have "counts_only r st1 st'" by simp
    from keeps [OF this ent [OF denied(1)]] show ?thesis .
  next
    case (schema r win pt m)
    with assms(4) show ?thesis by (simp add: upd_session_def cache_ok_update)
  qed
qed

lemma caller_session:
  assumes "caller S T rq st = Some s" and "sv_ops S = in_memory_store" and "cache_ok (fst (ap_world st)) (snd (ap_world st))"
  shows "\<exists>r. map_of (snd (ap_world st)) (se_session_id s) = Some r \<and> se_tenant (session_of r st) = se_tenant s"
proof -
  obtain h d where w: "ap_world st = (h, d)" by (metis prod.exhaust)
  obtain res w1 where d: "decrypt_request (sv_nacl S) in_memory_store (\<lambda>b. Inr ()) (mo_started T) (mo_failed T) (mo_lookup T)
      (mo_now T) rq (h, d) = (res, w1)" by (metis prod.exhaust)
  have "cache_ok h d" using assms(3) w by simp
  from caller_decrypt [OF assms(1,2) w this d] show ?thesis
    by (auto simp: w session_of_def touch_def)
qed

text \<open>Every endpoint but two leaves the sessions of others untouched whoever calls it.\<close>

lemma other_routes_untouched:
  assumes "admin_dispatch S T V route rq st = (rep, st')" and "route \<noteq> SessionsTerminate" and "route \<noteq> TenantsList"
    and "caller S T rq st = Some s" and "sv_ops S = in_memory_store" and "cache_ok (fst (ap_world st)) (snd (ap_world st))"
    and "map_of (snd (ap_world st)) sid = Some q" and "sid \<noteq> se_session_id s"
  shows "untouched q sid st st'"
proof -
  note c = guarded_counts_untouched [OF _ assms(4-8)]
  show ?thesis
  proof (cases route)
    case SessionsList
    then show ?thesis using assms(1)
      by (intro c) (auto simp: list_sessions_def intro: counts_only_dict)
  next
    case ClientsList
    then show ?thesis using assms(1)
      by (intro c) (auto simp: list_clients_def intro: counts_only_dict)
  next
    case ClientsReload
    then show ?thesis using assms(1)
      by (intro c) (auto simp: reload_clients_def intro!: counts_only_dict intro: counts_only_same split: sum.splits prod.splits)
  next
    case ModelsList
    then show ?thesis using assms(1)
      by (intro c) (auto simp: admin_models_list_def intro: counts_only_snapshot)
  next
    case ModelsPreload
    then show ?thesis using assms(1)
      by (intro c) (auto simp: preload_model_def Let_def dest!: on_models_world' intro!: counts_only_dict intro: counts_only_same
        split: sum.splits prod.splits)
  next
    case ModelsUnload
    then show ?thesis using assms(1)
      by (intro c) (auto simp: unload_model_def Let_def dest!: on_models_world' intro!: counts_only_dict split: prod.splits)
  next
    case LogLevel
    then show ?thesis using assms(1)
      by (intro c) (auto simp: set_log_level_def Let_def intro!: counts_only_dict intro: counts_only_same
        split: sum.splits prod.splits option.splits)
  next
    case Gc
    then show ?thesis using assms(1) by (intro c) (auto simp: admin_gc_def intro: counts_only_dict)
  next
    case Shutdown
    then show ?thesis using assms(1) by (intro c) (auto simp: admin_shutdown_def Let_def intro: counts_only_dict)
  next
    case LorasList
    then show ?thesis using assms(1)
      by (intro c) (auto simp: admin_loras_list_def Let_def intro!: counts_only_model intro: counts_only_same
        split: sum.splits prod.splits)
  next
    case LorasPull
    then show ?thesis using assms(1)
      by (intro c) (auto simp: admin_loras_pull_def Let_def
        intro!: counts_only_model counts_only_error intro: counts_only_same split: sum.splits prod.splits download_error.splits)
  next
    case LorasRm
    then show ?thesis using assms(1)
      by (intro c) (auto simp: admin_loras_rm_def Let_def intro!: counts_only_dict intro: counts_only_same
        split: sum.splits prod.splits)
  next
    case LorasApply
    then show ?thesis using assms(1)
      by (intro c) (auto simp: admin_loras_apply_def Let_def dest!: on_models_world'
        intro!: counts_only_dict counts_only_manager_error split: sum.splits prod.splits)
  qed (use assms(2,3) in simp_all)
qed

text \<open>C17. A tenant admin is confined to its tenant: whatever endpoint of the control plane a caller without
  \<open>super_admin\<close> uses, with whatever arguments, a session of another tenant keeps its keys, counters and
  window and stays in the store under its id; naming it to the terminate endpoint changes nothing.\<close>

theorem tenant_admin_confined:
  assumes "admin_dispatch S T V route rq st = (rep, st')" and "caller S T rq st = Some s" and "\<not> is_super s"
    and "sv_ops S = in_memory_store" and "cache_ok (fst (ap_world st)) (snd (ap_world st))"
    and "map_of (snd (ap_world st)) sid = Some q" and "se_tenant (session_of q st) \<noteq> se_tenant s"
  shows "session_of q st' = session_of q st \<and> map_of (snd (ap_world st')) sid = Some q"
proof -
  from caller_session [OF assms(2,4,5)] assms(6,7) have sid: "sid \<noteq> se_session_id s" by auto
  note g = guarded_untouched [OF _ assms(2,4-6) sid require_admin_counts]
  consider "route = SessionsTerminate" | "route = TenantsList" | "route \<noteq> SessionsTerminate" "route \<noteq> TenantsList" by blast
  then have "untouched q sid st st'"
  proof cases
    case 1
    show ?thesis
    proof (rule g)
      show "guarded require_admin S T (as_terminate V) rq (terminate_body S T rq) st = (rep, st')"
        using assms(1) 1 by (simp add: admin_terminate_session_def)
      fix r p st1
      assume a: "session_of r st1 = s" "q \<noteq> r" "untouched q sid st st1" "cache_ok (fst (ap_world st1)) (snd (ap_world st1))"
      show "untouched q sid st1 (snd (terminate_body S T rq r p st1))"
        by (rule terminate_body_untouched [OF assms(4) a(4) _ a(2)]) (use a assms(3,6,7) in \<open>simp_all add: untouched_def\<close>)
    qed
  next
    case 2
    then have d: "admin_tenants_list S T (as_empty V) rq st = (rep, st')" using assms(1) by simp
    show ?thesis
      by (rule guarded_untouched [OF d [unfolded admin_tenants_list_def] assms(2,4-6) sid require_super_counts])
        (use assms(3) in \<open>auto simp: require_super_admin_def split: if_splits\<close>)
  qed (rule other_routes_untouched [OF assms(1) _ _ assms(2,4-6) sid])
  with assms(6) show ?thesis by (simp add: untouched_def)
qed

definition demo_other :: session where
  "demo_other = (demo_caller [])\<lparr>se_session_id := replicate 16 9, se_tenant := ''other''\<rparr>"

lemma demo_two_tenants:
  "cache_ok [demo_caller sc, demo_other] [(replicate 16 5, 0), (replicate 16 9, 1)]"
proof -
  have "replicate 16 5 \<noteq> replicate 16 (9 :: 8 word)" by simp
  then show ?thesis by (auto simp: cache_ok_def dict_ok_def demo_caller_simps demo_other_def split: if_splits)
qed

theorem tenant_admin_confined_witness:
  "\<exists>buf rep st'. admin_dispatch demo_services demo_moment demo_schemas SessionsTerminate
      \<lparr>rq_method = ''GET'', rq_path = ''/'', rq_body = buf\<rparr>
      (demo_app [demo_caller [''admin''], demo_other] [(replicate 16 5, 0), (replicate 16 9, 1)]) = (rep, st') \<and>
    session_of 1 st' = demo_other \<and> map_of (snd (ap_world st')) (replicate 16 9) = Some 1"
proof -
  let ?h = "[demo_caller [''admin''], demo_other]" and ?d = "[(replicate 16 5, 0), (replicate 16 9, 1)]"
  have ne: "replicate 16 5 \<noteq> replicate 16 (9 :: 8 word)" by simp
  obtain buf win where c: "caller demo_services demo_moment \<lparr>rq_method = ''GET'', rq_path = ''/'', rq_body = buf\<rparr> (demo_app ?h ?d)
      = Some (touch 150 ((demo_caller [''admin''])\<lparr>se_replay := win\<rparr>))"
    using demo_caller_of [where validate = "\<lambda>b. Inr ()" and pt = "[]" and sc = "[''admin'']", OF _ demo_two_tenants [of "[''admin'']"]]
    by auto
  obtain rep st' where run: "admin_dispatch demo_services demo_moment demo_schemas SessionsTerminate
      \<lparr>rq_method = ''GET'', rq_path = ''/'', rq_body = buf\<rparr> (demo_app ?h ?d) = (rep, st')" by (metis prod.exhaust)
  have "session_of 1 st' = session_of 1 (demo_app ?h ?d) \<and> map_of (snd (ap_world st')) (replicate 16 9) = Some 1"
    by (rule tenant_admin_confined [OF run c])
      (use demo_two_tenants [of "[''admin'']"] ne in \<open>simp_all add: is_super_def has_scope_def touch_def demo_caller_simps demo_services_def
        demo_app_def session_of_def demo_other_def\<close>)
  with run show ?thesis by (simp add: session_of_def demo_app_def) blast
qed

section \<open>Ending the own session\<close>

lemma mem_terminate_live:
  assumes "map_of d sid = Some r" and "\<not> is_expired t (h ! r)"
  shows "sm_lookup_async in_memory_store t t sid (h, d) = (Inr (Some r), (h, d))"
    and "sm_terminate in_memory_store t sid (h, d) = (Inr True, (h[r := zero_session (h ! r)], AList.delete sid d))"
  using assms
  by (simp_all add: sm_lookup_async_def sm_terminate_def sm_find_def in_memory_store_def mem_lookup_def mem_delete_def
      sm_zeroize_def)

lemma mem_lookup_missing:
  "map_of d sid = None \<Longrightarrow> sm_lookup_async in_memory_store t t' sid (h, d) = (Inr None, (h, d))"
  by (simp add: sm_lookup_async_def sm_find_def in_memory_store_def mem_lookup_def mem_hydrate_def)

text \<open>An admin that ends its own session still learns so: the answer is sealed with the key that was put aside
  before the store zeroed the session, the client decodes it to \<open>terminated: true\<close>, and from then on no
  lookup finds the session and both keys of its object are zeros.\<close>

theorem self_termination_answered:
  assumes "admin_terminate_session S T validate rq st = (rep, st')" and "caller S T rq st = Some s" and "is_admin s"
    and "sv_ops S = in_memory_store" and "cache_ok (fst (ap_world st)) (snd (ap_world st))"
    and "\<And>pt. validate pt = Inr (b64encode (se_session_id s))"
    and "aead_ok (sv_nacl S)" and "cl_nacl L = sv_nacl S" and "same_session cs s" and "\<not> is_expired (mo_now T) s"
    and "counter_ok (se_s2c_counter s + 1)" and "method_ok (str_upper mth)"
    and "se_s2c_counter s + 1 \<notin> set (rc_seen replay)" and "rq_method rq = str_upper mth" and "rq_path rq = path"
    and "\<And>v. json_loads (cl_json L) (json_dumps (sv_json S) v) = Some v \<and> json_dumps (sv_json S) v \<noteq> []"
  shows "\<exists>body r. rep = Sealed 200 body \<and>
    fst (decode_response L \<lparr>hp_status = 200, hp_content_type = ''application/octet-stream'', hp_body = body, hp_lines = []\<rparr>
      cs mth path replay) = Inr (JObj [(''terminated'', JBool True)]) \<and>
    map_of (snd (ap_world st)) (se_session_id s) = Some r \<and>
    dk_key (se_c2s (session_of r st')) = replicate 32 0 \<and> dk_key (se_s2c (session_of r st')) = replicate 32 0 \<and>
    (\<forall>t t'. fst (sm_lookup_async (sv_ops S) t t' (se_session_id s) (ap_world st')) = Inr None)"
  using assms(1) [unfolded admin_terminate_session_def] assms(2,4,5)
proof (cases rule: guarded_caller)
  case (denied r st1)
  with assms(3) entered_session [OF denied(1)] show ?thesis by (simp add: require_admin_def)
next
  case (schema r win pt m)
  with assms(6) show ?thesis by simp
next
  case (body r p pt st1)
  obtain h d where w: "ap_world st1 = (h, d)" by (metis prod.exhaust)
  let ?sid = "se_session_id s"
  have s1: "session_of r st1 = s" using entered_session [OF body(1)] by simp
  then have hr: "h ! r = s" by (simp add: session_of_def w)
  from body(1) w have r: "r < length h" and m: "map_of d ?sid = Some r" and m0: "map_of (snd (ap_world st)) ?sid = Some r"
    by (auto simp: entered_def Let_def map_of_update touch_def)
  have c1: "cache_ok h d"
    using body(1) assms(5) cache_ok_put [OF cache_ok_update [OF assms(5)], of s r r] w
    by (auto simp: entered_def Let_def touch_def)
  note live = mem_terminate_live [OF m, of "mo_now T" h, unfolded hr, OF assms(10)]
  let ?st2 = "audit ''admin.session.terminate'' [(''session_id'', JStr (b64encode ?sid)), (''removed'', JBool True),
      (''tenant'', JStr (se_tenant s))] (st1\<lparr>ap_world := (h[r := zero_session s], AList.delete ?sid d)\<rparr>)"
  have p: "p = b64encode ?sid" using body(4) assms(6) [of pt] by simp
  have run: "answer S rq r 200 (DictPayload (JObj [(''terminated'', JBool True)])) (Some (se_s2c s)) ?st2 = (rep, st')"
    using body(3) assms(4) live s1 hr w
    by (simp add: p terminate_body_def b64_lenient.dec_enc session_of_def Let_def)
  have x: "session_of r ?st2 = zero_session s" using r by (simp add: session_of_def)
  then have z: "se_session_id (session_of r ?st2) = ?sid" "se_s2c_counter (session_of r ?st2) = se_s2c_counter s"
    by (simp_all add: zero_session_def Let_def)
  have "\<exists>body st' replay'. answer S rq r 200 (DictPayload (JObj [(''terminated'', JBool True)])) (Some (se_s2c s)) ?st2
      = (Sealed 200 body, st') \<and>
    decode_response L \<lparr>hp_status = 200, hp_content_type = ''application/octet-stream'', hp_body = body, hp_lines = []\<rparr>
      cs mth path replay = (decode_plaintext 200 (JObj [(''terminated'', JBool True)]), replay') \<and>
    set (rc_seen replay') \<subseteq> insert (se_s2c_counter (session_of r ?st2) + 1) (set (rc_seen replay)) \<and>
    (\<exists>junk. body = ENVELOPE_MAGIC @ junk)"
    by (rule answer_readable_with [OF assms(7,8)])
      (use assms(9,11-16) r z in \<open>simp_all add: same_session_def\<close>)
  then obtain b replay' where b: "rep = Sealed 200 b"
    and dec: "decode_response L \<lparr>hp_status = 200, hp_content_type = ''application/octet-stream'', hp_body = b, hp_lines = []\<rparr>
      cs mth path replay = (decode_plaintext 200 (JObj [(''terminated'', JBool True)]), replay')"
    using run by auto
  have w': "ap_world st' = upd_session r (\<lambda>x. x\<lparr>se_s2c_counter := se_s2c_counter x + 1\<rparr>)
      (h[r := zero_session s], AList.delete ?sid d)"
    using answer_world [OF run] by simp
  then have "dk_key (se_c2s (session_of r st')) = replicate 32 0" "dk_key (se_s2c (session_of r st')) = replicate 32 0"
    using r by (simp_all add: session_of_def upd_session_def zero_session_def Let_def)
  moreover have "map_of (AList.delete ?sid d) ?sid = None" by (simp add: map_of_delete)
  then have "fst (sm_lookup_async in_memory_store t t' ?sid (ap_world st')) = Inr None" for t t'
    unfolding w' upd_session_def fst_conv snd_conv by (simp add: mem_lookup_missing)
  moreover have "fst (decode_response L \<lparr>hp_status = 200, hp_content_type = ''application/octet-stream'', hp_body = b, hp_lines = []\<rparr>
      cs mth path replay) = Inr (JObj [(''terminated'', JBool True)])"
    by (simp add: dec decode_plaintext_def looks_like_error_def)
  ultimately show ?thesis
    using b m0 by (intro exI [of _ b] exI [of _ r] conjI allI) (simp_all add: assms(4))
qed

theorem self_termination_answered_witness:
  "\<exists>buf body st'. admin_terminate_session demo_services demo_moment (\<lambda>b. Inr (b64encode (replicate 16 5)))
      \<lparr>rq_method = ''GET'', rq_path = ''/'', rq_body = buf\<rparr> (demo_app [demo_caller [''admin'']] [(replicate 16 5, 0)])
      = (Sealed 200 body, st') \<and>
    fst (decode_response demo_lib \<lparr>hp_status = 200, hp_content_type = ''application/octet-stream'', hp_body = body, hp_lines = []\<rparr>
      (the (tr_session demo_transport)) ''GET'' ''/'' replay_client_new) = Inr (JObj [(''terminated'', JBool True)])"
proof -
  let ?V = "\<lambda>b :: bytes. Inr (b64encode (replicate 16 5)) :: string + string"
  let ?st = "demo_app [demo_caller [''admin'']] [(replicate 16 5, 0)]" and ?cs = "the (tr_session demo_transport)"
  let ?rq = "\<lambda>buf. \<lparr>rq_method = ''GET'', rq_path = ''/'', rq_body = buf\<rparr>"
  obtain buf win where c: "caller demo_services demo_moment (?rq buf) ?st = Some (touch 150 ((demo_caller [''admin''])\<lparr>se_replay := win\<rparr>))"
    using demo_caller_of [where validate = ?V and pt = "[]" and sc = "[''admin'']", OF _ demo_caller_cache [of "[''admin'']"]] by auto
  obtain rep st' where run: "admin_terminate_session demo_services demo_moment ?V (?rq buf) ?st = (rep, st')"
    by (metis prod.exhaust)
  have up: "str_upper ''GET'' = ''GET''" by code_simp
  have ok: "method_ok ''GET''" by code_simp
  have ld: "json_loads unary_json (json_dumps unary_json v) = Some v" for v
    using unary_json_roundtrips [of v] by (simp only: json_roundtrips_def)
  have ne: "json_dumps unary_json v \<noteq> []" for v by (simp add: unary_json_def)
  let ?s = "touch 150 ((demo_caller [''admin''])\<lparr>se_replay := win\<rparr>)"
  have s: "se_session_id ?s = replicate 16 5" "se_s2c_counter ?s = 0" "is_admin ?s" "\<not> is_expired 150 ?s"
    "se_c2s ?s = demo_keys" "se_s2c ?s = \<lparr>dk_key = replicate 32 6, dk_nonce_prefix = [4, 3, 2, 1]\<rparr>"
    by (simp_all add: touch_def demo_caller_simps is_admin_def has_scope_def)
      (simp add: is_expired_def demo_caller_def demo_session_def session_new_def demo_material_def int_or_def)
  have "dk_ok \<lparr>dk_key = replicate 32 6, dk_nonce_prefix = [4, 3, 2, 1]\<rparr>" by (simp add: dk_ok_def)
  then have same: "same_session ?cs ?s" by (simp add: same_session_def demo_transport_def s demo_keys_ok)
  have "\<exists>body r. rep = Sealed 200 body \<and>
    fst (decode_response demo_lib \<lparr>hp_status = 200, hp_content_type = ''application/octet-stream'', hp_body = body, hp_lines = []\<rparr>
      ?cs ''GET'' ''/'' replay_client_new) = Inr (JObj [(''terminated'', JBool True)]) \<and>
    map_of (snd (ap_world ?st)) (se_session_id ?s) = Some r \<and>
    dk_key (se_c2s (session_of r st')) = replicate 32 0 \<and> dk_key (se_s2c (session_of r st')) = replicate 32 0 \<and>
    (\<forall>t t'. fst (sm_lookup_async (sv_ops demo_services) t t' (se_session_id ?s) (ap_world st')) = Inr None)"
    by (rule self_termination_answered [OF run c s(3)])
      (use same s up ok ld ne demo_caller_cache [of "[''admin'']"] in
        \<open>simp_all add: demo_services_def demo_lib_def demo_moment_def demo_app_def demo_nacl_laws counter_ok_def replay_client_new_def\<close>)
  then show ?thesis using run by blast
qed

section \<open>Revoked clients\<close>

lemma revoked_refused:
  assumes "b64d (hr_client_static_pk req) = Inr pk" and "allowlist pk = Some c" and "ac_revoked c"
  shows "\<exists>e. perform_handshake N J req identity allowlist skew ttl host now att clock esk sid = Inl e"
  using assms by (auto simp: perform_handshake_def check_request_def Let_def and_then_Inr_iff split: sum.splits option.splits)

text \<open>Reloading the allowlist refuses handshakes and keeps sessions: after \<open>clients/reload\<close> a client the new
  allowlist marks as revoked gets no new session, but every session other than the caller's that was
  live goes on being served: what its client seals with a fresh counter is still accepted.\<close>

theorem revocation_spares_sessions:
  assumes "reload_clients S T V rq st = (rep, st')" and "caller S T rq st = Some s"
    and "sv_ops S = in_memory_store" and "cache_ok (fst (ap_world st)) (snd (ap_world st))" and "aead_ok (sv_nacl S)"
    and "map_of (ks_allowlist (ap_keystore st')) pk = Some c" and "ac_revoked c"
    and "map_of (snd (ap_world st)) sid = Some q" and "sid \<noteq> se_session_id s" and "dk_ok (se_c2s (session_of q st))"
    and "\<not> is_expired t (session_of q st)" and "\<not> is_expired t' (session_of q st)"
    and "client_seal (sv_nacl S) (se_c2s (session_of q st)) n sid m path pt = Inr buf"
    and "\<not> rw_blocked (se_replay (session_of q st)) n" and "validate pt = Inr x"
  shows "(\<forall>req. b64d (hr_client_static_pk req) = Inr pk \<longrightarrow>
      (\<exists>e. perform_handshake N J req identity (map_of (ks_allowlist (ap_keystore st'))) skew ttl host now att clock esk nid = Inl e)) \<and>
    (\<exists>w. decrypt_request (sv_nacl S) in_memory_store validate start failed t t'
      \<lparr>rq_method = m, rq_path = path, rq_body = buf\<rparr> (ap_world st') = (Accepted q x, w))"
proof -
  note run = assms(1) [unfolded reload_clients_def]
  have counts: "counts_only r st1 (snd (case reload_allowlist (sv_toml S) (mg_fs (ap_models st1)) (ap_keystore st1) of
         (Inl e, ks) \<Rightarrow> (Crashed e, st1\<lparr>ap_keystore := ks\<rparr>)
       | (Inr n, ks) \<Rightarrow> answer_dict S rq r (JObj [(''clients'', JInt (int n))])
           (audit ''admin.clients.reload'' [(''count'', JInt (int n))] (st1\<lparr>ap_keystore := ks\<rparr>))))" for r st1
    by (auto intro!: counts_only_dict split: sum.splits prod.splits)
  from guarded_counts_untouched [OF run assms(2-4,8,9) counts]
  have x: "session_of q st' = session_of q st" "map_of (snd (ap_world st')) sid = Some q"
    using assms(8) by (simp_all add: untouched_def)
  obtain h d where w: "ap_world st' = (h, d)" by (metis prod.exhaust)
  have hq: "h ! q = session_of q st" using x(1) w by (simp add: session_of_def)
  from guarded_counts_cache [OF run assms(2-4) counts] w have ok: "cache_ok h d" by simp
  from live_request_accepted [of "sv_nacl S" h d sid q t t' n m path pt buf validate x start failed]
  have "\<exists>w. decrypt_request (sv_nacl S) in_memory_store validate start failed t t'
      \<lparr>rq_method = m, rq_path = path, rq_body = buf\<rparr> (ap_world st') = (Accepted q x, w)"
    using assms(5,10-15) ok x(2) hq w by auto
  then show ?thesis using revoked_refused [where allowlist = "map_of (ks_allowlist (ap_keystore st'))", OF _ assms(6,7)] by blast
qed

definition revoked_client :: authorized_client where
  "revoked_client = \<lparr>ac_name = ''c'', ac_x25519_pk = replicate 32 0, ac_ed25519_pk = replicate 32 0,
       ac_scopes = [''chat''], ac_revoked = True, ac_not_before = None, ac_not_after = None, ac_tenant = ''default''\<rparr>"

definition revoking_services :: "(cache, json) services" where
  "revoking_services = demo_services\<lparr>sv_toml := \<lparr>toml_load = (\<lambda>b. Some (JObj [(''clients'', JList [JObj
     [(''name'', JStr ''c''), (''x25519_pk'', JStr demo_pk_text), (''ed25519_pk'', JStr demo_pk_text),
      (''scopes'', JList [JStr ''chat'']), (''revoked'', JBool True)]])])), toml_str = (\<lambda>v. [])\<rparr>\<rparr>"

definition revoking_app :: "(cache, json) app" where
  "revoking_app = (let st = demo_app [demo_caller [''admin''], demo_other] [(replicate 16 5, 0), (replicate 16 9, 1)] in
     st\<lparr>ap_models := (ap_models st)\<lparr>mg_fs := [([''a''], File 420 [])]\<rparr>,
        ap_keystore := (ap_keystore st)\<lparr>ks_allowlist_path := Some [''a'']\<rparr>\<rparr>)"

lemma revoking_reload:
  "load_allowlist (sv_toml revoking_services) [([''a''], File 420 [])] [''a''] = Inr [(replicate 32 0, revoked_client)]"
proof -
  have "list_dir [([''a''], File 420 [])] [''tenants''] = []" by (simp add: list_dir_def path_parent_def)
  then show ?thesis
    by (simp add: load_allowlist_def parse_clients_file_def path_parent_def Let_def)
      (simp add: revoking_services_def exists_path_def read_bytes_def is_dir_def parse_client_def
        json_bytes_def demo_pk entry_tenant_def parse_clients_file_def DEFAULT_TENANT_def revoked_client_def)
qed

theorem revocation_spares_sessions_witness:
  "\<exists>buf rep st' buf' w. reload_clients revoking_services demo_moment (\<lambda>b. Inr ()) \<lparr>rq_method = ''GET'', rq_path = ''/'', rq_body = buf\<rparr>
      revoking_app = (rep, st') \<and>
    map_of (ks_allowlist (ap_keystore st')) (replicate 32 0) = Some revoked_client \<and>
    decrypt_request demo_nacl in_memory_store (\<lambda>b. Inr ()) 0 0 150 150
      \<lparr>rq_method = ''GET'', rq_path = ''/'', rq_body = buf'\<rparr> (ap_world st') = (Accepted 1 (), w)"
proof -
  let ?h = "[demo_caller [''admin''], demo_other]" and ?d = "[(replicate 16 5, 0), (replicate 16 9, 1)] :: cache"
  let ?rq = "\<lambda>buf. \<lparr>rq_method = ''GET'', rq_path = ''/'', rq_body = buf\<rparr>"
  have ne: "replicate 16 5 \<noteq> replicate 16 (9 :: 8 word)" by simp
  obtain buf win where run: "decrypt_request demo_nacl in_memory_store (\<lambda>b. Inr ()) 0 0 150 150 (?rq buf) (?h, ?d)
      = (Accepted 0 (), (?h[0 := touch 150 ((demo_caller [''admin''])\<lparr>se_replay := win\<rparr>)], AList.update (replicate 16 5) 0 ?d))"
    and c0: "caller demo_services demo_moment (?rq buf) (demo_app ?h ?d) = Some (touch 150 ((demo_caller [''admin''])\<lparr>se_replay := win\<rparr>))"
    using demo_caller_of [where validate = "\<lambda>b. Inr ()" and pt = "[]" and sc = "[''admin'']", OF _ demo_two_tenants [of "[''admin'']"]]
    by auto
  have wd: "ap_world revoking_app = ap_world (demo_app ?h ?d)" by (simp add: revoking_app_def Let_def)
  have sv: "sv_nacl revoking_services = demo_nacl" "sv_ops revoking_services = in_memory_store"
    by (simp_all add: revoking_services_def demo_services_def)
  from c0 have c: "caller revoking_services demo_moment (?rq buf) revoking_app
      = Some (touch 150 ((demo_caller [''admin''])\<lparr>se_replay := win\<rparr>))"
    by (simp add: caller_def wd sv) (simp add: demo_services_def)
  obtain rep st' where rel: "reload_clients revoking_services demo_moment (\<lambda>b. Inr ()) (?rq buf) revoking_app = (rep, st')"
    by (metis prod.exhaust)
  obtain st1 where out: "answer_dict revoking_services (?rq buf) 0 (JObj [(''clients'', JInt 1)]) st1 = (rep, st')"
    and al: "ks_allowlist (ap_keystore st1) = [(replicate 32 0, revoked_client)]"
  proof (rule that)
    let ?st = "revoking_app\<lparr>ap_world := (?h[0 := touch 150 ((demo_caller [''admin''])\<lparr>se_replay := win\<rparr>)],
        AList.update (replicate 16 5) 0 ?d)\<rparr>"
    let ?st1 = "audit ''admin.clients.reload'' [(''count'', JInt 1)] (?st\<lparr>ap_keystore := (ap_keystore ?st)\<lparr>ks_allowlist :=
        [(replicate 32 0, revoked_client)]\<rparr>\<rparr>)"
    have run_ok: "is_admin (session_of 0 ?st)"
      by (simp add: session_of_def is_admin_def has_scope_def touch_def demo_caller_simps)
    have "reload_allowlist (sv_toml revoking_services) (mg_fs (ap_models ?st)) (ap_keystore ?st)
        = (Inr 1, (ap_keystore ?st)\<lparr>ks_allowlist := [(replicate 32 0, revoked_client)]\<rparr>)"
      using revoking_reload by (simp add: reload_allowlist_def revoking_app_def Let_def)
    then show "answer_dict revoking_services (?rq buf) 0 (JObj [(''clients'', JInt 1)]) ?st1 = (rep, st')"
      using rel run run_ok wd by (simp add: reload_clients_def guarded_def with_request_def sv require_admin_def demo_moment_def
        demo_app_def)
    show "ks_allowlist (ap_keystore ?st1) = [(replicate 32 0, revoked_client)]" by (simp add: audit_def)
  qed
  from answer_effect [OF out [unfolded answer_dict_def]] al
  have al': "map_of (ks_allowlist (ap_keystore st')) (replicate 32 0) = Some revoked_client" by (simp add: control_state_def)
  have "method_ok ''GET''" by code_simp
  then have "\<exists>buf. seal demo_nacl demo_keys 3 (replicate 16 9) ''GET'' ''/'' [] = Inr buf"
    by (intro seal_total) (simp_all add: demo_keys_ok counter_ok_def)
  then obtain buf' where buf': "client_seal demo_nacl demo_keys 3 (replicate 16 9) ''GET'' ''/'' [] = Inr buf'"
    unfolding client_seal_eq by blast
  have x: "session_of 1 revoking_app = demo_other" by (simp add: session_of_def wd demo_app_def)
  have live: "\<not> is_expired 150 demo_other" "se_c2s demo_other = demo_keys" "se_replay demo_other = replay_window_new"
    by (simp_all add: demo_other_def demo_caller_simps)
      (simp add: is_expired_def demo_caller_def demo_session_def session_new_def demo_material_def int_or_def)
  have nb: "\<not> rw_blocked replay_window_new 3"
    by (simp add: rw_blocked_def replay_window_new_def rw_seen_def WINDOW_BITS_def)
  have "\<exists>w. decrypt_request (sv_nacl revoking_services) in_memory_store (\<lambda>b. Inr ()) 0 0 150 150 (?rq buf') (ap_world st')
      = (Accepted 1 (), w)"
    by (rule conjunct2 [OF revocation_spares_sessions [OF rel c sv(2) _ _ al', where n = 3 and sid = "replicate 16 9" and q = 1 and pt = "[]"]])
      (use demo_two_tenants [of "[''admin'']"] live nb x buf' ne in
        \<open>simp_all add: wd sv demo_app_def demo_nacl_laws revoked_client_def demo_keys_ok touch_def demo_caller_simps\<close>)
  then show ?thesis using rel al' unfolding sv by blast
qed

section \<open>The tenant report\<close>

definition row_int :: "string \<Rightarrow> json \<Rightarrow> int" where
  "row_int k row = (case row of JObj kvs \<Rightarrow> (case map_of kvs k of Some (JInt i) \<Rightarrow> i | _ \<Rightarrow> 0) | _ \<Rightarrow> 0)"

definition row_name :: "json \<Rightarrow> string" where
  "row_name row = (case row of JObj kvs \<Rightarrow> (case map_of kvs ''name'' of Some (JStr s) \<Rightarrow> s | _ \<Rightarrow> []) | _ \<Rightarrow> [])"

lemma sum_indicator:
  "distinct ts \<Longrightarrow> sum_list (map (\<lambda>t. if a = t then 1 else 0 :: int) ts) = (if a \<in> set ts then 1 else 0)"
  by (induction ts) auto

lemma groups_add_up:
  assumes "distinct ts" and "\<forall>x \<in> set xs. f x \<in> set ts"
  shows "sum_list (map (\<lambda>t. int (length (filter (\<lambda>x. f x = t) xs))) ts) = int (length xs)"
  using assms(2)
proof (induction xs)
  case Nil
  then show ?case by (simp add: sum_list_0)
next
  case (Cons x xs)
  have "sum_list (map (\<lambda>t. int (length (filter (\<lambda>y. f y = t) (x # xs)))) ts)
      = sum_list (map (\<lambda>t. (if f x = t then 1 else 0) + int (length (filter (\<lambda>y. f y = t) xs))) ts)"
    by (rule arg_cong [where f = sum_list]) simp
  also have "\<dots> = sum_list (map (\<lambda>t. if f x = t then 1 else 0) ts) + int (length xs)"
    using Cons by (simp add: sum_list_addf)
  also have "sum_list (map (\<lambda>t. if f x = t then 1 else 0 :: int) ts) = 1"
    using sum_indicator [OF assms(1)] Cons(2) by simp
  finally show ?case by simp
qed

lemma tenant_rows_spec:
  "tenant_rows S T ts st = (Inr rows, st') \<Longrightarrow>
    map row_name rows = ts \<and>
    map (row_int ''clients'') rows = map (\<lambda>t. int (length (tenant_clients st t))) ts \<and>
    map (row_int ''active_sessions'') rows = map (\<lambda>t. int (length (tenant_sessions S T st t))) ts \<and>
    ap_world st' = ap_world st"
proof (induction ts arbitrary: st rows)
  case (Cons t ts)
  have same: "tenant_clients (st\<lparr>ap_models := m\<rparr>) = tenant_clients st"
    "tenant_sessions S T (st\<lparr>ap_models := m\<rparr>) = tenant_sessions S T st" for m
    by (simp_all add: tenant_clients_def tenant_sessions_def session_of_def fun_eq_iff)
  from Cons(2) show ?case
    by (auto simp: row_name_def row_int_def same Let_def split: sum.splits prod.splits dest!: Cons(1))
qed simp

text \<open>The tenant report accounts for everything: each tenant has one row, and summed over the rows the clients
  are the whole allowlist and the active sessions are all live sessions of the store.\<close>

theorem tenant_report_complete:
  assumes "tenant_rows S T (all_tenants S T st) st = (Inr rows, st')"
  shows "distinct (map row_name rows) \<and>
    sum_list (map (row_int ''clients'') rows) = int (length (ks_allowlist (ap_keystore st))) \<and>
    sum_list (map (row_int ''active_sessions'') rows) = int (length (sm_all (sv_ops S) (mo_now T) (ap_world st)))"
proof -
  let ?ts = "all_tenants S T st"
  let ?ss = "map (\<lambda>q. session_of q st) (sm_all (sv_ops S) (mo_now T) (ap_world st))"
  have d: "distinct ?ts" by (simp add: all_tenants_def)
  have "sum_list (map (\<lambda>t. int (length (tenant_clients st t))) ?ts) = int (length (map snd (ks_allowlist (ap_keystore st))))"
    unfolding tenant_clients_def by (rule groups_add_up [OF d]) (auto simp: all_tenants_def image_iff)
  moreover have "sum_list (map (\<lambda>t. int (length (tenant_sessions S T st t))) ?ts) = int (length ?ss)"
    unfolding tenant_sessions_def by (rule groups_add_up [OF d]) (auto simp: all_tenants_def)
  ultimately show ?thesis using tenant_rows_spec [OF assms] d by simp
qed

theorem tenant_report_complete_witness:
  "\<exists>rows st'. tenant_rows demo_services demo_moment
      (all_tenants demo_services demo_moment (demo_app [demo_caller []] [(replicate 16 5, 0)]))
      (demo_app [demo_caller []] [(replicate 16 5, 0)]) = (Inr rows, st') \<and>
    sum_list (map (row_int ''active_sessions'') rows) = 1"
proof -
  let ?st = "demo_app [demo_caller []] [(replicate 16 5, 0)]"
  have all: "sm_all in_memory_store 150 ([demo_caller []], [(replicate 16 5, 0)]) = [0]"
    by (simp add: sm_all_def in_memory_store_def mem_all_def demo_caller_simps)
  have "all_tenants demo_services demo_moment ?st = [''acme'']"
    by (simp add: all_tenants_def demo_services_def demo_moment_def demo_app_def all session_of_def demo_caller_simps
        known_tenants_def manager_new_def list_dir_def is_dir_def exists_path_def path_join_def)
  moreover have "for_tenant model_kind unary_json 150 ''acme'' (mg_models (ap_models ?st), mg_fs (ap_models ?st))
      = Inr (\<lparr>rg_dir = [''models''], rg_by_id = []\<rparr>, mg_models (ap_models ?st), mg_fs (ap_models ?st))"
    by (simp add: for_tenant_def demo_app_def manager_new_def)
  ultimately obtain rows st' where run: "tenant_rows demo_services demo_moment (all_tenants demo_services demo_moment ?st) ?st
      = (Inr rows, st')"
    by (simp add: demo_services_def demo_moment_def Let_def)
  from tenant_report_complete [OF this] run all show ?thesis
    by (auto simp: demo_services_def demo_moment_def demo_app_def)
qed

section \<open>Logs\<close>

text \<open>C29. Log entries of others stay hidden: unless a request is refused, what \<open>/v1/debug/logs\<close> answers to a session
  without the \<open>admin\<close> scope is made of entries of the ring that carry that session's client fingerprint,
  whatever filters the request asks for.\<close>

theorem debug_logs_confined:
  assumes "debug_logs S T V rq st = (rep, st')" and "caller S T rq st = Some s" and "\<not> has_scope ''admin'' s"
    and "se_client_fingerprint s \<noteq> []"
    and "sv_ops S = in_memory_store" and "cache_ok (fst (ap_world st)) (snd (ap_world st))"
  shows "(\<exists>pt m. V pt = Inl m) \<and> (\<exists>rj. rep = Refused rj) \<or>
    (\<exists>entries. set entries \<subseteq> set (rg_buf (lg_ring (ap_logging st))) \<and>
      (\<forall>e \<in> set entries. map_of (le_fields e) ''client_fp'' = Some (PyJson (JStr (se_client_fingerprint s)))) \<and>
      (case map_result log_entry_json entries of
         Inl e \<Rightarrow> rep = Crashed e
       | Inr js \<Rightarrow> \<exists>r st1. answer_dict S rq r (JObj [(''entries'', JList js)]) st1 = (rep, st')))"
proof -
  have "guarded (\<lambda>S rq r st. None) S T V rq (\<lambda>r q st.
       case map_result log_entry_json (ring_tail (log_query_for (session_of r st) q) (lg_ring (ap_logging st))) of
         Inl e \<Rightarrow> (Crashed e, st)
       | Inr entries \<Rightarrow> answer_dict S rq r (JObj [(''entries'', JList entries)]) st) st = (rep, st')"
    using assms(1) by (simp add: guarded_def debug_logs_def)
  from this assms(2,5,6) show ?thesis
  proof (cases rule: guarded_caller)
    case (body r p pt st1)
    let ?es = "ring_tail (log_query_for s p) (lg_ring (ap_logging st))"
    have same: "session_of r st1 = s" "ap_logging st1 = ap_logging st"
      using entered_session [OF body(1)] body(1) by (auto simp: entered_def Let_def)
    have "set ?es \<subseteq> set (rg_buf (lg_ring (ap_logging st)))" using ring_tail_subset by blast
    moreover have "\<forall>e \<in> set ?es. map_of (le_fields e) ''client_fp'' = Some (PyJson (JStr (se_client_fingerprint s)))"
      using assms(3,4) ring_tail_subset [of _ "log_query_for s p" "lg_ring (ap_logging st)"]
      by (auto simp: log_query_for_def tail_wants_def tail_skips_def)
    moreover have "case map_result log_entry_json ?es of
         Inl e \<Rightarrow> rep = Crashed e
       | Inr js \<Rightarrow> \<exists>r st1. answer_dict S rq r (JObj [(''entries'', JList js)]) st1 = (rep, st')"
      using body(3) same by (auto split: sum.splits)
    ultimately show ?thesis by blast
  next
    case (denied r st1)
    then show ?thesis by simp
  next
    case (schema r win pt m)
    then show ?thesis by blast
  qed
qed

definition foreign_entry :: log_entry where
  "foreign_entry = \<lparr>le_ts = 1, le_level = ''info'', le_component = ''c'', le_event = ''e'',
     le_fields = [(''client_fp'', PyJson (JStr ''other''))]\<rparr>"

theorem debug_logs_confined_witness:
  "\<exists>buf rep st' r st1. debug_logs demo_services demo_moment
      (\<lambda>b. Inr \<lparr>lq_limit = 5, lq_level = None, lq_component = None, lq_since = None, lq_client_fingerprint = None\<rparr>)
      \<lparr>rq_method = ''GET'', rq_path = ''/'', rq_body = buf\<rparr>
      ((demo_app [demo_caller []] [(replicate 16 5, 0)])\<lparr>ap_logging :=
        \<lparr>lg_min = 20, lg_root = 20, lg_levels = [], lg_ring = \<lparr>rg_max = 10, rg_buf = [foreign_entry]\<rparr>, lg_out = []\<rparr>\<rparr>) = (rep, st') \<and>
    answer_dict demo_services \<lparr>rq_method = ''GET'', rq_path = ''/'', rq_body = buf\<rparr> r (JObj [(''entries'', JList [])]) st1 = (rep, st')"
proof -
  let ?rq = "\<lambda>buf. \<lparr>rq_method = ''GET'', rq_path = ''/'', rq_body = buf\<rparr>"
  let ?V = "\<lambda>b :: bytes. Inr \<lparr>lq_limit = 5, lq_level = None, lq_component = None, lq_since = None,
      lq_client_fingerprint = None\<rparr> :: string + log_query"
  let ?st = "(demo_app [demo_caller []] [(replicate 16 5, 0)])\<lparr>ap_logging :=
      \<lparr>lg_min = 20, lg_root = 20, lg_levels = [], lg_ring = \<lparr>rg_max = 10, rg_buf = [foreign_entry]\<rparr>, lg_out = []\<rparr>\<rparr>"
  obtain buf win where "caller demo_services demo_moment (?rq buf) (demo_app [demo_caller []] [(replicate 16 5, 0)])
      = Some (touch 150 ((demo_caller [])\<lparr>se_replay := win\<rparr>))"
    using demo_caller_of [where validate = ?V and pt = "[]" and sc = "[]", OF _ demo_caller_cache [of "[]"]] by auto
  then have c: "caller demo_services demo_moment (?rq buf) ?st = Some (touch 150 ((demo_caller [])\<lparr>se_replay := win\<rparr>))"
    by (simp add: caller_def)
  obtain rep st' where run: "debug_logs demo_services demo_moment ?V (?rq buf) ?st = (rep, st')" by (metis prod.exhaust)
  let ?s = "touch 150 ((demo_caller [])\<lparr>se_replay := win\<rparr>)"
  have fp: "se_client_fingerprint ?s = ''fp''" by (simp add: touch_def demo_caller_simps)
  have "(\<exists>pt m. ?V pt = Inl m) \<and> (\<exists>rj. rep = Refused rj) \<or>
    (\<exists>entries. set entries \<subseteq> set (rg_buf (lg_ring (ap_logging ?st))) \<and>
      (\<forall>e \<in> set entries. map_of (le_fields e) ''client_fp'' = Some (PyJson (JStr (se_client_fingerprint ?s)))) \<and>
      (case map_result log_entry_json entries of
         Inl e \<Rightarrow> rep = Crashed e
       | Inr js \<Rightarrow> \<exists>r st1. answer_dict demo_services (?rq buf) r (JObj [(''entries'', JList js)]) st1 = (rep, st')))"
    by (rule debug_logs_confined [OF run c])
      (use demo_caller_cache [of "[]"] in \<open>simp_all add: has_scope_def touch_def demo_caller_simps demo_services_def demo_app_def\<close>)
  then obtain entries where e: "set entries \<subseteq> {foreign_entry}"
    "\<forall>e \<in> set entries. map_of (le_fields e) ''client_fp'' = Some (PyJson (JStr ''fp''))"
    and out: "case map_result log_entry_json entries of
         Inl e \<Rightarrow> rep = Crashed e
       | Inr js \<Rightarrow> \<exists>r st1. answer_dict demo_services (?rq buf) r (JObj [(''entries'', JList js)]) st1 = (rep, st')"
    by (auto simp: fp)
  have "entries = []" using e by (cases entries) (auto simp: foreign_entry_def)
  with out have "\<exists>r st1. answer_dict demo_services (?rq buf) r (JObj [(''entries'', JList [])]) st1 = (rep, st')" by simp
  with run show ?thesis by blast
qed

section \<open>Removing a model\<close>

lemma unload_all_models [simp]: "mg_models (unload_all E kvs m) = mg_models m"
  by (induction E kvs m rule: unload_all.induct) simp_all

lemma force_unload_gone:
  assumes "force_unload E ident tenant m = (res, m')"
  shows "(\<forall>k \<in> fst ` set (mg_loaded m'). \<not> has_prefix (tenant @ '':'' @ ident @ '':'') k) \<and> mg_models m' = mg_models m"
proof -
  let ?ts = "filter (\<lambda>(k, v). has_prefix (tenant @ '':'' @ ident @ '':'') k) (mg_loaded m)"
  show ?thesis
  proof (cases "?ts = []")
    case True
    then have "m' = m" using assms by (simp add: force_unload_def)
    with True show ?thesis by (auto simp: filter_empty_conv simp del: split_paired_All)
  next
    case False
    then have m': "m' = unload_all E ?ts m" using assms by (auto simp: force_unload_def Let_def)
    have "\<not> has_prefix (tenant @ '':'' @ ident @ '':'') k" if "(k, r) \<in> set (mg_loaded m')" for k r
    proof -
      from that have "(k, r) \<in> set (mg_loaded m)" "k \<notin> fst ` set ?ts" by (auto simp: m' unload_all_loaded)
      then show ?thesis by force
    qed
    then have "\<forall>k \<in> fst ` set (mg_loaded m'). \<not> has_prefix (tenant @ '':'' @ ident @ '':'') k" by auto
    moreover have "mg_models m' = mg_models m" by (simp only: m' unload_all_models)
    ultimately show ?thesis ..
  qed
qed

text \<open>\<open>remove_model\<close> from the unloading to the snapshot.\<close>

lemma registry_remove_gone:
  "registry_remove K ident (reg, fs) = (Inr b, reg', fs') \<Longrightarrow> map_of (rg_by_id reg') ident = None \<and> rg_dir reg' = rg_dir reg"
  by (auto simp: registry_remove_def Let_def map_of_delete split: option.splits sum.splits)

lemma for_tenant_others:
  "for_tenant K J now tenant (mt, fs) = Inr (reg, mt', fs') \<Longrightarrow> t \<noteq> tenant \<Longrightarrow> map_of (mt_cache mt') t = map_of (mt_cache mt) t"
  by (auto simp: for_tenant_def and_then_Inr_iff map_of_update split: option.splits)

text \<open>A removed model is gone for its tenant: once \<open>/v1/models/remove\<close> answers, no slot of the tenant's model is in
  the table, the tenant's registry no longer knows the id, every later request for it in that tenant fails
  with \<open>MODEL_NOT_FOUND\<close>, and the registries of the other tenants are what they were.\<close>

theorem removed_model_gone:
  assumes "remove_model S T V rq st = (Sealed 200 b, st')" and "caller S T rq st = Some s" and "\<And>pt. V pt = Inr ident"
    and "sv_ops S = in_memory_store" and "cache_ok (fst (ap_world st)) (snd (ap_world st))"
  shows "(\<forall>k \<in> fst ` set (mg_loaded (ap_models st')). \<not> has_prefix (se_tenant s @ '':'' @ ident @ '':'') k) \<and>
    (\<exists>reg. map_of (mt_cache (mg_models (ap_models st'))) (se_tenant s) = Some reg \<and> registry_get reg ident = None) \<and>
    (\<forall>E n_ctx mode loras. fst (ensure_loaded E ident n_ctx mode loras (se_tenant s) (ap_models st'))
      = Inl (manager_error MODEL_NOT_FOUND ident)) \<and>
    (\<forall>t. t \<noteq> se_tenant s \<longrightarrow>
      map_of (mt_cache (mg_models (ap_models st'))) t = map_of (mt_cache (mg_models (ap_models st))) t)"
proof -
  let ?t = "se_tenant s" and ?E = "sv_env S"
  have "guarded (\<lambda>S rq r st. None) S T V rq (\<lambda>r ident st.
       let tenant = se_tenant (session_of r st); E = sv_env S;
           st = snd (on_models (force_unload E ident tenant) st) in
       case for_tenant model_kind (sv_json S) (mo_now T) tenant (mg_models (ap_models st), mg_fs (ap_models st)) of
         Inl e \<Rightarrow> (Crashed e, st)
       | Inr (reg, mt, fs) \<Rightarrow>
           (case model_registry_remove ident (reg, fs) of
              (res, reg, fs) \<Rightarrow>
                let st = set_model_registry tenant reg mt fs st in
                (case res of
                   Inl e \<Rightarrow> (Crashed e, st)
                 | Inr removed \<Rightarrow>
                     answer_snapshot S rq r
                       (audit ''model.remove'' [(''id'', JStr ident), (''tenant'', JStr tenant)] st)))) st = (Sealed 200 b, st')"
    using assms(1) by (simp add: guarded_def remove_model_def)
  from this assms(2,4,5) show ?thesis
  proof (cases rule: guarded_caller)
    case (denied r st1)
    then show ?thesis by simp
  next
    case (schema r win pt m)
    then show ?thesis by simp
  next
    case (body r p pt st1)
    have p: "p = ident" using body(4) assms(3) [of pt] by simp
    have same: "session_of r st1 = s" "ap_models st1 = ap_models st"
      using entered_session [OF body(1)] body(1) by (auto simp: entered_def Let_def)
    obtain res m where fu: "force_unload ?E ident ?t (ap_models st) = (res, m)" by (metis prod.exhaust)
    let ?st2 = "st1\<lparr>ap_models := m\<rparr>"
    have om: "snd (on_models (force_unload ?E ident ?t) st1) = ?st2" by (simp add: on_models_def same fu)
    note g = force_unload_gone [OF fu]
    obtain reg mt fs removed reg' fs' where ft: "for_tenant model_kind (sv_json S) (mo_now T) ?t (mg_models m, mg_fs m) = Inr (reg, mt, fs)"
      and rm: "registry_remove model_kind ident (reg, fs) = (Inr removed, reg', fs')"
      and out: "answer_snapshot S rq r (audit ''model.remove'' [(''id'', JStr ident), (''tenant'', JStr ?t)]
        (set_model_registry ?t reg' mt fs' ?st2)) = (Sealed 200 b, st')"
      using body(3) by (auto simp: p same om Let_def model_registry_remove_def split: sum.splits prod.splits)
    let ?st3 = "audit ''model.remove'' [(''id'', JStr ident), (''tenant'', JStr ?t)] (set_model_registry ?t reg' mt fs' ?st2)"
    have c: "map_of (mt_cache (mg_models (ap_models ?st3))) ?t = Some reg'"
      by (simp add: audit_def set_model_registry_def put_registry_def map_of_update)
    have sn: "snapshot ?E ?t (ap_models ?st3) = Inr (map (model_info_of ?t (ap_models ?st3)) (registry_all reg'), ap_models ?st3)"
      using c by (simp add: snapshot_def for_tenant_def Let_def)
    have se: "session_of r ?st3 = s" using same by (simp add: session_of_def audit_def set_model_registry_def)
    obtain st4 where "answer_model S rq r (model_list_json (map (model_info_of ?t (ap_models ?st3)) (registry_all reg'))) st4 = (Sealed 200 b, st')"
      and "ap_models st4 = ap_models ?st3"
      using out by (simp add: answer_snapshot_def se sn)
    from answer_effect [OF this(1) [unfolded answer_model_def]] this(2)
    have am: "ap_models st' = m\<lparr>mg_models := put_registry ?t reg' mt, mg_fs := fs'\<rparr>"
      by (simp add: control_state_def audit_def set_model_registry_def)
    have gone: "registry_get reg' ident = None" using registry_remove_gone [OF rm] by (simp add: registry_get_def)
    have "fst (ensure_loaded E ident n_ctx mode loras ?t (ap_models st')) = Inl (manager_error MODEL_NOT_FOUND ident)"
      for E n_ctx mode loras
      using gone by (simp add: ensure_loaded_def am for_tenant_def put_registry_def map_of_update)
    moreover have "map_of (mt_cache (mg_models (ap_models st'))) t = map_of (mt_cache (mg_models (ap_models st))) t" if "t \<noteq> ?t" for t
      using for_tenant_others [OF ft that] g that by (simp add: am put_registry_def map_of_update)
    ultimately show ?thesis using g gone by (simp add: am put_registry_def map_of_update)
  qed
qed

definition catalog_app :: "(cache, json) app" where
  "catalog_app = (demo_app [demo_caller []] [(replicate 16 5, 0)])\<lparr>ap_models := manager_new
     \<lparr>mt_base = [''models''], mt_cache = [(''acme'', \<lparr>rg_dir = [''models''], rg_by_id = [(''m'', demo_model)]\<rparr>)]\<rparr>
     \<lparr>mt_base = [''loras''], mt_cache = []\<rparr> [([''models''], Dir), ([''models'', ''ab.gguf.age''], File 420 [7, 1])]\<rparr>"

theorem removed_model_gone_witness:
  "\<exists>buf b st'. remove_model demo_services demo_moment (\<lambda>b. Inr ''m'') \<lparr>rq_method = ''GET'', rq_path = ''/'', rq_body = buf\<rparr>
      catalog_app = (Sealed 200 b, st') \<and>
    fst (ensure_loaded demo_json_env ''m'' None ''chat'' [] ''acme'' (ap_models st')) = Inl (manager_error MODEL_NOT_FOUND ''m'')"
proof -
  let ?rq = "\<lambda>buf. \<lparr>rq_method = ''GET'', rq_path = ''/'', rq_body = buf\<rparr>"
  let ?V = "\<lambda>b :: bytes. Inr ''m'' :: string + string"
  obtain buf win where run: "decrypt_request demo_nacl in_memory_store ?V 0 0 150 150 (?rq buf) ([demo_caller []], [(replicate 16 5, 0)])
      = (Accepted 0 ''m'', ([touch 150 ((demo_caller [])\<lparr>se_replay := win\<rparr>)], [(replicate 16 5, 0)]))"
    and c0: "caller demo_services demo_moment (?rq buf) (demo_app [demo_caller []] [(replicate 16 5, 0)])
      = Some (touch 150 ((demo_caller [])\<lparr>se_replay := win\<rparr>))"
    using demo_caller_of [where validate = ?V and pt = "[]" and sc = "[]", OF _ demo_caller_cache [of "[]"]] by auto
  have wd: "ap_world catalog_app = ([demo_caller []], [(replicate 16 5, 0)])" by (simp add: catalog_app_def demo_app_def)
  let ?s = "touch 150 ((demo_caller [])\<lparr>se_replay := win\<rparr>)"
  have c: "caller demo_services demo_moment (?rq buf) catalog_app = Some ?s"
    using c0 by (simp add: caller_def wd) (simp add: demo_app_def)
  have t: "se_tenant ?s = ''acme''" by (simp add: touch_def demo_caller_simps)
  obtain st3 where w3: "ap_world st3 = ([?s], [(replicate 16 5, 0)])"
    and out: "remove_model demo_services demo_moment ?V (?rq buf) catalog_app
      = answer demo_services (?rq buf) 0 200 (ModelPayload (json_dumps unary_json (model_list_json []))) None st3"
  proof (rule that)
    let ?st1 = "catalog_app\<lparr>ap_world := ([?s], [(replicate 16 5, 0)])\<rparr>"
    let ?st3 = "audit ''model.remove'' [(''id'', JStr ''m''), (''tenant'', JStr ''acme'')]
      (set_model_registry ''acme'' \<lparr>rg_dir = [''models''], rg_by_id = []\<rparr> (mg_models (ap_models catalog_app)) [([''models''], Dir)] ?st1)"
    have rm: "model_registry_remove ''m'' (\<lparr>rg_dir = [''models''], rg_by_id = [(''m'', demo_model)]\<rparr>,
        [([''models''], Dir), ([''models'', ''ab.gguf.age''], File 420 [7, 1])])
      = (Inr True, \<lparr>rg_dir = [''models''], rg_by_id = []\<rparr>, [([''models''], Dir)])"
      by (simp add: model_registry_remove_def registry_remove_def unlink_quiet_def unlink_path_def ciphertext_path_def meta_path_def
          model_kind_def demo_model_def path_join_def path_parts_def)
    have fu: "on_models (force_unload E ''m'' ''acme'') ?st1 = (False, ?st1)" for E
      by (simp add: on_models_def force_unload_def catalog_app_def manager_new_def)
    show "ap_world ?st3 = ([?s], [(replicate 16 5, 0)])" by (simp add: audit_def set_model_registry_def)
    show "remove_model demo_services demo_moment ?V (?rq buf) catalog_app
      = answer demo_services (?rq buf) 0 200 (ModelPayload (json_dumps unary_json (model_list_json []))) None ?st3"
      using run rm
      by (simp add: remove_model_def with_request_def wd demo_services_def demo_moment_def session_of_def t fu)
        (simp add: catalog_app_def manager_new_def for_tenant_def answer_snapshot_def snapshot_def set_model_registry_def put_registry_def
          audit_def session_of_def t registry_all_def answer_model_def Let_def demo_app_def)
  qed
  have up: "str_upper ''GET'' = ''GET''" by code_simp
  have ok: "method_ok ''GET''" by code_simp
  have ld: "json_loads unary_json (json_dumps unary_json v) = Some v" for v
    using unary_json_roundtrips [of v] by (simp only: json_roundtrips_def)
  have ne: "json_dumps unary_json v \<noteq> []" for v by (simp add: unary_json_def)
  have "dk_ok \<lparr>dk_key = replicate 32 6, dk_nonce_prefix = [4, 3, 2, 1]\<rparr>" by (simp add: dk_ok_def)
  then have same: "same_session (the (tr_session demo_transport)) (session_of 0 st3)"
    by (simp add: same_session_def demo_transport_def session_of_def w3 touch_def demo_caller_simps demo_keys_ok)
  have "\<exists>body st' replay'. answer demo_services (?rq buf) 0 200 (ModelPayload (json_dumps unary_json (model_list_json []))) None st3
      = (Sealed 200 body, st') \<and>
    decode_response demo_lib \<lparr>hp_status = 200, hp_content_type = ''application/octet-stream'', hp_body = body, hp_lines = []\<rparr>
      (the (tr_session demo_transport)) ''GET'' ''/'' replay_client_new = (decode_plaintext 200 (model_list_json []), replay') \<and>
    set (rc_seen replay') \<subseteq> insert (se_s2c_counter (session_of 0 st3) + 1) (set (rc_seen replay_client_new)) \<and>
    (\<exists>junk. body = ENVELOPE_MAGIC @ junk)"
    by (rule answer_readable [OF _ _ _ same])
      (simp_all add: demo_services_def demo_lib_def session_of_def w3 touch_def demo_nacl_laws demo_caller_simps
        up ok ld ne counter_ok_def replay_client_new_def)
  then obtain b st' where res: "remove_model demo_services demo_moment ?V (?rq buf) catalog_app = (Sealed 200 b, st')"
    using out by auto
  have "sv_ops demo_services = in_memory_store" by (simp add: demo_services_def)
  from removed_model_gone [OF res c refl this] demo_caller_cache [of "[]"] t
  have "\<forall>E n_ctx mode loras. fst (ensure_loaded E ''m'' n_ctx mode loras ''acme'' (ap_models st'))
      = Inl (manager_error MODEL_NOT_FOUND ''m'')" by (simp add: wd)
  with res show ?thesis by blast
qed

end
