(* ===== verification/KnownHosts.thy ===== *)
theory KnownHosts
  imports Keystore Transport
begin

text \<open>
  The pinned servers of the SDK (\<open>client/.../known_hosts.py\<close>) and the constructor that uses them
  (\<open>client/.../client.py\<close>). \<open>tomllib\<close> is the record the server's keystore uses, \<open>tomli_w.dumps\<close> followed by
  the encoding an argument. The host of an entry is the dictionary key it is in the source, any hashable value;
  that Python takes \<open>1\<close>, \<open>1.0\<close> and \<open>true\<close> for one key is not modelled.
\<close>

section \<open>The file\<close>

record host_entry =
  he_host :: json
  he_x25519_pk :: bytes
  he_measurement :: "json option"
  he_attestation_required :: bool

fun hashable :: "json \<Rightarrow> bool" where
  "hashable (JList xs) = False"
| "hashable (JObj kvs) = False"
| "hashable v = True"

definition load_host :: "json \<Rightarrow> host_entry result" where
  "load_host entry =
     and_then (json_item entry ''host'') (\<lambda>host.
     and_then (json_bytes entry ''x25519_pk'') (\<lambda>pk.
     and_then (json_get entry ''measurement'') (\<lambda>measurement.
     and_then (json_get entry ''attestation_required'') (\<lambda>required.
     if \<not> hashable host then Inl TypeError
     else Inr \<lparr>he_host = host, he_x25519_pk = pk, he_measurement = measurement,
            he_attestation_required = (case required of None \<Rightarrow> False | Some v \<Rightarrow> json_truthy v)\<rparr>))))"

fun load_hosts_from :: "json list \<Rightarrow> (json, host_entry) dict \<Rightarrow> (json, host_entry) dict result" where
  "load_hosts_from [] out = Inr out"
| "load_hosts_from (entry # entries) out =
     and_then (load_host entry) (\<lambda>e. load_hosts_from entries (AList.update (he_host e) e out))"

definition load_hosts :: "toml_lib \<Rightarrow> fs \<Rightarrow> path \<Rightarrow> (json, host_entry) dict result" where
  "load_hosts T fs p =
     (if \<not> exists_path fs p then Inr []
      else and_then (read_bytes fs p) (\<lambda>text.
        case toml_load T text of
          None \<Rightarrow> Inl (ValueError ''TOMLDecodeError'')
        | Some data \<Rightarrow>
            and_then (json_get data ''hosts'') (\<lambda>hosts.
            and_then (json_iter (case hosts of None \<Rightarrow> JList [] | Some v \<Rightarrow> v)) (\<lambda>entries.
              load_hosts_from entries []))))"

definition lookup_host :: "toml_lib \<Rightarrow> fs \<Rightarrow> path \<Rightarrow> string \<Rightarrow> host_entry option result" where
  "lookup_host T fs p host = and_then (load_hosts T fs p) (\<lambda>d. Inr (map_of d (JStr host)))"

definition host_row :: "string \<Rightarrow> string \<Rightarrow> int \<Rightarrow> host_entry \<Rightarrow> json" where
  "host_row host note now e = JObj
     ([(''host'', he_host e), (''x25519_pk'', JStr (b64encode (he_x25519_pk e))), (''added_at'', JInt now),
       (''note'', JStr (if he_host e = JStr host then note else []))]
      @ (case he_measurement e of None \<Rightarrow> [] | Some m \<Rightarrow> [(''measurement'', m)])
      @ (if he_attestation_required e then [(''attestation_required'', JBool True)] else []))"

definition trust ::
  "toml_lib \<Rightarrow> (json \<Rightarrow> bytes) \<Rightarrow> int \<Rightarrow> path \<Rightarrow> string \<Rightarrow> bytes \<Rightarrow> string \<Rightarrow> string option \<Rightarrow> bool \<Rightarrow> fs \<Rightarrow>
   unit result \<times> fs" where
  "trust T dumps now p host pubkey note measurement required fs =
     (case load_hosts T fs p of
        Inl e \<Rightarrow> (Inl e, fs)
      | Inr existing \<Rightarrow>
          let entry = \<lparr>he_host = JStr host, he_x25519_pk = pubkey, he_measurement = map_option JStr measurement,
                he_attestation_required = required\<rparr>;
              existing = AList.update (JStr host) entry existing;
              rows = map (host_row host note now \<circ> snd) existing
          in (case mkdir_p (path_parent p) fs of
                Inl e \<Rightarrow> (Inl e, fs)
              | Inr fs \<Rightarrow>
                  (case write_bytes DEFAULT_MODE p (dumps (JObj [(''hosts'', JList rows)])) fs of
                     Inl e \<Rightarrow> (Inl e, fs)
                   | Inr fs \<Rightarrow> (Inr (), fs))))"

section \<open>The client object\<close>

text \<open>\<open>base_url.split("://", 1)[-1]\<close>.\<close>

fun after_scheme :: "string \<Rightarrow> string option" where
  "after_scheme [] = None"
| "after_scheme (c # cs) = (if has_prefix ''://'' (c # cs) then Some (drop 2 cs) else after_scheme cs)"

definition url_host :: "string \<Rightarrow> string" where
  "url_host url = (case after_scheme url of None \<Rightarrow> url | Some rest \<Rightarrow> rest)"

definition server_key_mismatch :: "string \<Rightarrow> client_exn" where
  "server_key_mismatch message = SdkError (mk_error ServerKeyMismatch message None None)"

text \<open>\<open>shown host path\<close> is the text of the message, with the \<open>repr\<close> of the host.\<close>

definition client_new ::
  "nacl \<Rightarrow> toml_lib \<Rightarrow> (string \<Rightarrow> path \<Rightarrow> string) \<Rightarrow> fs \<Rightarrow> string \<Rightarrow> path \<Rightarrow> bytes option \<Rightarrow> path option \<Rightarrow>
   client_exn + transport" where
  "client_new N T shown fs base_url key_path server_pubkey known_hosts =
     (case client_identity_load N key_path fs of
        Inl e \<Rightarrow> Inl (ClientOther e)
      | Inr identity \<Rightarrow>
          (case (case server_pubkey of
                   Some pk \<Rightarrow> Inr pk
                 | None \<Rightarrow>
                     (case known_hosts of
                        None \<Rightarrow> Inl (server_key_mismatch (''no pinned server_pubkey and no known_hosts_path; ''
                          @ ''use `sllm trust <host> <pubkey>` first''))
                      | Some p \<Rightarrow>
                          (case lookup_host T fs p (url_host base_url) of
                             Inl e \<Rightarrow> Inl (ClientOther e)
                           | Inr None \<Rightarrow> Inl (server_key_mismatch (shown (url_host base_url) p))
                           | Inr (Some entry) \<Rightarrow> Inr (he_x25519_pk entry)))) of
             Inl e \<Rightarrow> Inl e
           | Inr pinned \<Rightarrow> Inr (transport_new base_url identity pinned None None False)))"

section \<open>What a reload sees\<close>

definition hosts_ok :: "(json, host_entry) dict \<Rightarrow> bool" where
  "hosts_ok d \<longleftrightarrow> dict_ok d \<and> (\<forall>(k, e) \<in> set d. k = he_host e \<and> hashable k)"

lemma load_host_hashable: "load_host entry = Inr e \<Longrightarrow> hashable (he_host e)"
  by (auto simp: load_host_def and_then_Inr_iff split: if_splits)

lemma hosts_ok_update:
  assumes "hosts_ok d" and "hashable (he_host e)"
  shows "hosts_ok (AList.update (he_host e) e d)"
proof -
  have "dict_ok (AList.update (he_host e) e d)" using assms(1) by (auto simp: hosts_ok_def)
  moreover have "k = he_host e' \<and> hashable k" if "(k, e') \<in> set (AList.update (he_host e) e d)" for k e'
    using that assms update_Some_unfold by (induction d) (auto simp: hosts_ok_def dict_ok_def split: if_splits)
  ultimately show ?thesis by (auto simp: hosts_ok_def)
qed

lemma load_hosts_from_ok: "load_hosts_from entries d = Inr d' \<Longrightarrow> hosts_ok d \<Longrightarrow> hosts_ok d'"
proof (induction entries arbitrary: d)
  case (Cons entry entries)
  from Cons.prems(1) obtain e where "load_host entry = Inr e" "load_hosts_from entries (AList.update (he_host e) e d) = Inr d'"
    by (auto simp: and_then_Inr_iff)
  then show ?case using Cons.IH hosts_ok_update [OF Cons.prems(2)] load_host_hashable by blast
qed simp

lemma hosts_ok_Nil: "hosts_ok []"
  by (simp add: hosts_ok_def)

lemma load_hosts_ok: "load_hosts T fs p = Inr d \<Longrightarrow> hosts_ok d"
  using load_hosts_from_ok [OF _ hosts_ok_Nil] hosts_ok_Nil
  by (auto simp: load_hosts_def and_then_Inr_iff split: if_splits option.splits)

lemma load_host_row: "hashable (he_host e) \<Longrightarrow> load_host (host_row host note now e) = Inr e"
  by (simp add: load_host_def host_row_def json_bytes_def b64_lenient.dec_enc split: option.splits)

lemma load_hosts_rows:
  assumes "hosts_ok (d @ d')"
  shows "load_hosts_from (map (host_row host note now \<circ> snd) d') d = Inr (d @ d')"
  using assms
proof (induction d' arbitrary: d)
  case (Cons x d')
  obtain k e where x: "x = (k, e)" by (cases x)
  from Cons.prems have k: "k = he_host e" "hashable (he_host e)" and new: "k \<notin> fst ` set d"
    by (auto simp: hosts_ok_def dict_ok_def x)
  have "AList.update (he_host e) e d = d @ [(k, e)]"
    using new k(1) by (induction d) auto
  then show ?case using Cons.IH [of "d @ [(k, e)]"] Cons.prems k(2) by (simp add: x load_host_row)
qed simp

lemma lookup_after_trust:
  assumes "trust T dumps now p host pubkey note measurement required fs = (Inr (), fs')"
    and "\<And>rows. toml_load T (dumps (JObj [(''hosts'', JList rows)])) = Some (JObj [(''hosts'', JList rows)])"
  shows "lookup_host T fs' p host = Inr (Some \<lparr>he_host = JStr host, he_x25519_pk = pubkey,
      he_measurement = map_option JStr measurement, he_attestation_required = required\<rparr>) \<and>
    (\<forall>h. h \<noteq> host \<longrightarrow> lookup_host T fs' p h = lookup_host T fs p h)"
proof -
  let ?e = "\<lparr>he_host = JStr host, he_x25519_pk = pubkey, he_measurement = map_option JStr measurement,
      he_attestation_required = required\<rparr>"
  from assms(1) obtain d fs1 where d: "load_hosts T fs p = Inr d"
    and w: "write_bytes DEFAULT_MODE p (dumps (JObj [(''hosts'', JList (map (host_row host note now \<circ> snd)
      (AList.update (JStr host) ?e d)))])) fs1 = Inr fs'"
    by (auto simp: trust_def Let_def split: sum.splits)
  let ?d = "AList.update (JStr host) ?e d"
  have ok: "hosts_ok ([] @ ?d)" using hosts_ok_update [OF load_hosts_ok [OF d], of ?e] by simp
  from file_at_write [OF w] obtain m where f: "file_at fs' p = Some (m, dumps (JObj [(''hosts'', JList (map (host_row host note now \<circ> snd) ?d))]))"
    by simp
  then have "read_bytes fs' p = Inr (dumps (JObj [(''hosts'', JList (map (host_row host note now \<circ> snd) ?d))]))"
    by (auto simp: file_at_read)
  moreover have "exists_path fs' p" using f by (intro file_at_exists) simp
  ultimately have "load_hosts T fs' p = Inr ?d"
    using load_hosts_rows [OF ok, of host "note" now] by (simp add: load_hosts_def assms(2))
  then show ?thesis by (simp add: lookup_host_def d map_of_update)
qed

text \<open>Trusting a server changes one pin: after \<open>trust\<close> the host has the key, the measurement and the
  attestation flag it was given, and every other host looks up as before, whatever the file held; the
  only law used is that \<open>tomllib\<close> reads back what \<open>tomli_w\<close> wrote.\<close>

theorem trust_changes_one_pin:
  assumes "trust T dumps now p host pubkey note measurement required fs = (Inr (), fs')"
    and "\<And>rows. toml_load T (dumps (JObj [(''hosts'', JList rows)])) = Some (JObj [(''hosts'', JList rows)])"
  shows "lookup_host T fs' p host = Inr (Some \<lparr>he_host = JStr host, he_x25519_pk = pubkey,
      he_measurement = map_option JStr measurement, he_attestation_required = required\<rparr>) \<and>
    (\<forall>h. h \<noteq> host \<longrightarrow> lookup_host T fs' p h = lookup_host T fs p h)"
  by (rule lookup_after_trust [OF assms])

definition demo_pins :: toml_lib where
  "demo_pins = \<lparr>toml_load = json_loads unary_json, toml_str = (\<lambda>v. [])\<rparr>"

theorem trust_changes_one_pin_witness:
  "\<exists>fs'. trust demo_pins (json_dumps unary_json) 7 [''k'', ''known''] ''h:1'' [1, 2] ''n'' (Some ''m'') True [([''k''], Dir)] = (Inr (), fs') \<and>
     lookup_host demo_pins fs' [''k'', ''known''] ''h:1'' = Inr (Some \<lparr>he_host = JStr ''h:1'', he_x25519_pk = [1, 2],
       he_measurement = Some (JStr ''m''), he_attestation_required = True\<rparr>) \<and>
     lookup_host demo_pins fs' [''k'', ''known''] ''other'' = Inr None"
proof -
  have no: "load_hosts demo_pins [([''k''], Dir)] [''k'', ''known''] = Inr []" by (simp add: load_hosts_def exists_path_def)
  have "\<exists>fs'. trust demo_pins (json_dumps unary_json) 7 [''k'', ''known''] ''h:1'' [1, 2] ''n'' (Some ''m'') True [([''k''], Dir)] = (Inr (), fs')"
    by (simp add: trust_def no mkdir_p_def prefixes_of_def path_parent_def write_bytes_def is_dir_def)
  then obtain fs' where run: "trust demo_pins (json_dumps unary_json) 7 [''k'', ''known''] ''h:1'' [1, 2] ''n'' (Some ''m'') True [([''k''], Dir)] = (Inr (), fs')"
    by blast
  have "json_loads unary_json (json_dumps unary_json v) = Some v" for v
    using unary_json_roundtrips [of v] by (simp only: json_roundtrips_def)
  then have "toml_load demo_pins (json_dumps unary_json (JObj [(''hosts'', JList rows)])) = Some (JObj [(''hosts'', JList rows)])"
    for rows
    by (simp add: demo_pins_def)
  from trust_changes_one_pin [OF run this] run no show ?thesis by (auto simp: lookup_host_def)
qed

text \<open>Pinned attestation is not enforced by the client object but inverted: however the known hosts file pins a
  measurement for the server and demands attestation, the transport of a client has no verifier, no
  measurement and no requirement; a response that carries a report is then always refused, and one without a
  report is treated as if attestation had not been demanded.\<close>

theorem pinned_attestation_not_enforced:
  assumes "client_new N T shown fs base_url key_path None (Some p) = Inr t"
    and "lookup_host T fs p (url_host base_url) = Inr (Some entry)" and "he_attestation_required entry"
  shows "tr_pinned t = he_x25519_pk entry \<and> tr_verifier t = None \<and> tr_measurement t = None \<and> \<not> tr_attestation_required t \<and>
    (\<forall>N J eph host ts resp. hs_attestation_report resp \<noteq> None \<longrightarrow>
      (\<forall>out. derive_session N J (tr_identity t) eph host ts resp (tr_pinned t) (tr_verifier t) (tr_measurement t)
        (tr_attestation_required t) \<noteq> Inr out)) \<and>
    (\<forall>N J eph host ts resp verifier measurement. hs_attestation_report resp = None \<longrightarrow>
      derive_session N J (tr_identity t) eph host ts resp (tr_pinned t) (tr_verifier t) (tr_measurement t)
        (tr_attestation_required t) =
      derive_session N J (tr_identity t) eph host ts resp (tr_pinned t) verifier measurement False)"
proof -
  obtain identity where "t = transport_new base_url identity (he_x25519_pk entry) None None False"
    using assms(1,2) by (auto simp: client_new_def split: sum.splits)
  then show ?thesis
    by (auto simp: transport_new_def derive_session_def check_attestation_def Let_def split: sum.splits option.splits)
qed

definition demo_home :: fs where
  "demo_home = [([''k''], Dir), ([''k'', ''client.x25519.key''], File 384 (replicate 32 1)),
     ([''k'', ''client.ed25519.key''], File 384 (replicate 32 2)), ([''k'', ''known''], File 420 [])]"

definition attested_pins :: toml_lib where
  "attested_pins = \<lparr>toml_load = (\<lambda>b. Some (JObj [(''hosts'', JList [JObj [(''host'', JStr ''h:1''),
     (''x25519_pk'', JStr demo_pk_text), (''measurement'', JStr ''m''), (''attestation_required'', JBool True)]])])),
     toml_str = (\<lambda>v. [])\<rparr>"

theorem pinned_attestation_not_enforced_witness:
  "\<exists>entry t. lookup_host attested_pins demo_home [''k'', ''known''] ''h:1'' = Inr (Some entry) \<and> he_attestation_required entry \<and>
     client_new demo_nacl attested_pins (\<lambda>h p. []) demo_home ''https://h:1'' [''k'', ''client''] None (Some [''k'', ''known'']) = Inr t \<and>
     \<not> tr_attestation_required t \<and> tr_verifier t = None"
proof -
  have host: "url_host ''https://h:1'' = ''h:1''" by code_simp
  have stem: "path_stem [''k'', ''client''] = ''client''" by code_simp
  have look: "lookup_host attested_pins demo_home [''k'', ''known''] ''h:1'' = Inr (Some \<lparr>he_host = JStr ''h:1'',
      he_x25519_pk = replicate 32 0, he_measurement = Some (JStr ''m''), he_attestation_required = True\<rparr>)"
    by (simp add: lookup_host_def load_hosts_def exists_path_def read_bytes_def demo_home_def attested_pins_def load_host_def
        json_bytes_def demo_pk)
  obtain identity where ident: "client_identity_load demo_nacl [''k'', ''client''] demo_home = Inr identity"
    by (simp add: client_identity_load_def path_name_def with_suffix_def path_parent_def stem)
      (simp add: demo_home_def read_bytes_def nacl_key_def)
  obtain t where new: "client_new demo_nacl attested_pins (\<lambda>h p. []) demo_home ''https://h:1'' [''k'', ''client''] None (Some [''k'', ''known'']) = Inr t"
    by (simp add: client_new_def ident host look)
  from pinned_attestation_not_enforced [OF this] new look host show ?thesis by auto
qed

end
