(* ===== verification/Client.thy ===== *)
theory Client
  imports Catalog Introspection Delivery KnownHosts Middleware
begin

text \<open>
  What the SDK offers on top of the transport (\<open>client/.../resources/*.py\<close>): one function per method, each a
  request with its payload and the reading of the answer, and the conversation object. pydantic's
  \<open>model_validate\<close> is an argument for each schema; status objects and log entries stay JSON.
\<close>

section \<open>Requests and answers\<close>

record lora_info =
  li_id :: string
  li_repo_id :: string
  li_filename :: string
  li_sha256 :: string
  li_bytes_on_disk :: int
  li_base_model_id :: "string option"

record client_schemas =
  sc_chat_request :: "json \<Rightarrow> client_exn + chat_request"
  sc_chat_response :: "json \<Rightarrow> client_exn + chat_response"
  sc_chunk :: "json \<Rightarrow> client_exn + chat_chunk"
  sc_completion_request :: "json \<Rightarrow> client_exn + completion_request"
  sc_completion_response :: "json \<Rightarrow> client_exn + completion_response"
  sc_embeddings_request :: "json \<Rightarrow> client_exn + embeddings_request"
  sc_embeddings_response :: "json \<Rightarrow> client_exn + embeddings_response"
  sc_models :: "json \<Rightarrow> client_exn + model_info list"
  sc_loras :: "json \<Rightarrow> client_exn + lora_info list"
  sc_lora :: "json \<Rightarrow> client_exn + lora_info"
  sc_system :: "json \<Rightarrow> client_exn + json"
  sc_debug :: "json \<Rightarrow> client_exn + json"
  sc_doctor :: "json \<Rightarrow> client_exn + json"

text \<open>A library, its network and its schemas: what every method of the SDK is given.\<close>

type_synonym sdk = "client_lib \<times> network \<times> client_schemas"

text \<open>\<open>self._t.request("POST", path, payload=...)\<close>, and the reading of its value.\<close>

definition post :: "sdk \<Rightarrow> string \<Rightarrow> json \<Rightarrow> transport \<Rightarrow> (client_exn + json) \<times> transport" where
  "post K path payload t = (case K of (L, net, V) \<Rightarrow> request L net ''POST'' path (Some payload) True t)"

definition reading :: "('a \<Rightarrow> client_exn + 'b) \<Rightarrow> (client_exn + 'a) \<times> 't \<Rightarrow> (client_exn + 'b) \<times> 't" where
  "reading f r = (case r of (Inl e, t) \<Rightarrow> (Inl e, t) | (Inr v, t) \<Rightarrow> (f v, t))"

definition schema :: "sdk \<Rightarrow> client_schemas" where
  "schema K = snd (snd K)"

text \<open>A Python exception of the reading.\<close>

definition raising :: "'a result \<Rightarrow> client_exn + 'a" where
  "raising r = (case r of Inl e \<Rightarrow> Inl (ClientOther e) | Inr v \<Rightarrow> Inr v)"

section \<open>Models, system, debug\<close>

definition models_list :: "sdk \<Rightarrow> transport \<Rightarrow> (client_exn + model_info list) \<times> transport" where
  "models_list K t = reading (sc_models (schema K)) (post K ''/v1/models/list'' (JObj []) t)"

definition models_download ::
  "sdk \<Rightarrow> string \<Rightarrow> string \<Rightarrow> string option \<Rightarrow> transport \<Rightarrow> (client_exn + model_info list) \<times> transport" where
  "models_download K repo_id filename sha t = reading (sc_models (schema K)) (post K ''/v1/models/download''
     (JObj [(''repo_id'', JStr repo_id), (''filename'', JStr filename), (''sha256'', json_opt_str sha)]) t)"

definition models_remove :: "sdk \<Rightarrow> string \<Rightarrow> transport \<Rightarrow> (client_exn + model_info list) \<times> transport" where
  "models_remove K model_id t =
     reading (sc_models (schema K)) (post K ''/v1/models/remove'' (JObj [(''id'', JStr model_id)]) t)"

definition models_status :: "sdk \<Rightarrow> string \<Rightarrow> transport \<Rightarrow> (client_exn + model_info option) \<times> transport" where
  "models_status K model_id t = reading (\<lambda>ms. Inr (find (\<lambda>m. mi_id m = model_id) ms)) (models_list K t)"

definition client_system_status :: "sdk \<Rightarrow> transport \<Rightarrow> (client_exn + json) \<times> transport" where
  "client_system_status K t = reading (sc_system (schema K)) (post K ''/v1/system'' (JObj []) t)"

definition client_debug_status :: "sdk \<Rightarrow> transport \<Rightarrow> (client_exn + json) \<times> transport" where
  "client_debug_status K t = reading (sc_debug (schema K)) (post K ''/v1/debug/status'' (JObj []) t)"

definition client_doctor :: "sdk \<Rightarrow> transport \<Rightarrow> (client_exn + json) \<times> transport" where
  "client_doctor K t = reading (sc_doctor (schema K)) (post K ''/v1/debug/doctor'' (JObj []) t)"

definition client_version :: "sdk \<Rightarrow> transport \<Rightarrow> (client_exn + json) \<times> transport" where
  "client_version K t = post K ''/v1/debug/version'' (JObj []) t"

definition client_logs ::
  "sdk \<Rightarrow> int \<Rightarrow> string option \<Rightarrow> string option \<Rightarrow> float_py option \<Rightarrow> transport \<Rightarrow> (client_exn + json) \<times> transport" where
  "client_logs K limit level component since t =
     reading (\<lambda>d. raising (get_default d ''entries'' (JList [])))
       (post K ''/v1/debug/logs'' (JObj [(''limit'', JInt limit), (''level'', json_opt_str level),
          (''component'', json_opt_str component), (''since'', case since of None \<Rightarrow> JNull | Some x \<Rightarrow> JFloat x)]) t)"

definition client_errors :: "sdk \<Rightarrow> int \<Rightarrow> transport \<Rightarrow> (client_exn + json) \<times> transport" where
  "client_errors K limit t =
     reading (\<lambda>d. raising (get_default d ''errors'' (JList []))) (post K ''/v1/debug/errors'' (JObj [(''limit'', JInt limit)]) t)"

section \<open>Inference\<close>

definition embeddings_request_json :: "embeddings_request \<Rightarrow> json" where
  "embeddings_request_json q = JObj [(''model'', JStr (eq_model q)),
     (''input'', case eq_input q of Inl s \<Rightarrow> JStr s | Inr ss \<Rightarrow> JList (map JStr ss))]"

definition embeddings_create ::
  "sdk \<Rightarrow> string \<Rightarrow> json \<Rightarrow> transport \<Rightarrow> (client_exn + embeddings_response) \<times> transport" where
  "embeddings_create K model input t =
     (case sc_embeddings_request (schema K) (JObj [(''model'', JStr model), (''input'', input)]) of
        Inl e \<Rightarrow> (Inl e, t)
      | Inr req \<Rightarrow> reading (sc_embeddings_response (schema K))
          (post K ''/v1/embeddings'' (exclude_none (embeddings_request_json req)) t))"

definition completions_create ::
  "sdk \<Rightarrow> string \<Rightarrow> string \<Rightarrow> bool \<Rightarrow> (string \<times> json) list \<Rightarrow> transport \<Rightarrow> (client_exn + completion_response) \<times> transport" where
  "completions_create K model prompt stream sampling t =
     (case sc_completion_request (schema K)
        (JObj ([(''model'', JStr model), (''prompt'', JStr prompt), (''stream'', JBool stream)] @ sampling)) of
        Inl e \<Rightarrow> (Inl e, t)
      | Inr req \<Rightarrow> reading (sc_completion_response (schema K))
          (post K ''/v1/completions'' (exclude_none (completion_request_json req)) t))"

text \<open>\<open>{"model": ..., "messages": ..., "stream": ..., **sampling}\<close>: later keys replace earlier ones.\<close>

definition chat_args :: "string \<Rightarrow> (string \<times> string) list \<Rightarrow> bool \<Rightarrow> (string \<times> json) list \<Rightarrow> json" where
  "chat_args model messages stream sampling = JObj (fold (\<lambda>(k, v). AList.update k v) sampling
     [(''model'', JStr model),
      (''messages'', JList (map (\<lambda>(role, content). JObj [(''role'', JStr role), (''content'', JStr content)]) messages)),
      (''stream'', JBool stream)])"

definition chat_create ::
  "sdk \<Rightarrow> string \<Rightarrow> (string \<times> string) list \<Rightarrow> (string \<times> json) list \<Rightarrow> transport \<Rightarrow>
   (client_exn + chat_response) \<times> transport" where
  "chat_create K model messages sampling t =
     (case sc_chat_request (schema K) (chat_args model messages False sampling) of
        Inl e \<Rightarrow> (Inl e, t)
      | Inr req \<Rightarrow> reading (sc_chat_response (schema K))
          (post K ''/v1/chat/completions'' (exclude_none (chat_request_json req)) t))"

text \<open>\<open>"keepalive" not in chunk\<close>: membership in a dictionary, a list or a string.\<close>

fun is_keepalive :: "json \<Rightarrow> bool result" where
  "is_keepalive (JObj kvs) = Inr (map_of kvs ''keepalive'' \<noteq> None)"
| "is_keepalive (JList xs) = Inr (JStr ''keepalive'' \<in> set xs)"
| "is_keepalive (JStr s) = Inr (\<exists>n \<le> length s. has_prefix ''keepalive'' (drop n s))"
| "is_keepalive v = Inl TypeError"

text \<open>What the generator yields over the payloads, and the exception that ends it.\<close>

fun chat_chunks :: "client_schemas \<Rightarrow> json list \<Rightarrow> client_exn option \<Rightarrow> chat_chunk list \<times> client_exn option" where
  "chat_chunks V [] err = ([], err)"
| "chat_chunks V (v # vs) err =
     (case is_keepalive v of
        Inl e \<Rightarrow> ([], Some (ClientOther e))
      | Inr True \<Rightarrow> chat_chunks V vs err
      | Inr False \<Rightarrow>
          (case sc_chunk V v of
             Inl e \<Rightarrow> ([], Some e)
           | Inr c \<Rightarrow> (case chat_chunks V vs err of (cs, err) \<Rightarrow> (c # cs, err))))"

text \<open>The streaming form, read to its end.\<close>

definition chat_create_stream ::
  "sdk \<Rightarrow> string \<Rightarrow> (string \<times> string) list \<Rightarrow> (string \<times> json) list \<Rightarrow> transport \<Rightarrow>
   (client_exn + chat_chunk list \<times> client_exn option) \<times> transport" where
  "chat_create_stream K model messages sampling t =
     (case sc_chat_request (schema K) (chat_args model messages True sampling) of
        Inl e \<Rightarrow> (Inl e, t)
      | Inr req \<Rightarrow>
          (case K of (L, net, V) \<Rightarrow>
             (case stream_request L net ''POST'' ''/v1/chat/completions'' (Some (exclude_none (chat_request_json req))) t of
                ((vs, err), t) \<Rightarrow> (Inr (chat_chunks V vs err), t))))"

section \<open>Conversations\<close>

record conversation =
  cv_model :: string
  cv_messages :: "(string \<times> string) list"

definition conversation_new :: "string \<Rightarrow> string option \<Rightarrow> conversation" where
  "conversation_new model system =
     \<lparr>cv_model = model, cv_messages = (case system of None \<Rightarrow> [] | Some s \<Rightarrow> if s = [] then [] else [(''system'', s)])\<rparr>"

text \<open>\<open>resp.choices[0].message.content\<close>; the index may be out of range.\<close>

definition first_content :: "chat_response \<Rightarrow> client_exn + string" where
  "first_content r = (case ans_choices r of [] \<Rightarrow> Inl (ClientOther IndexError) | c # cs \<Rightarrow> Inr (hc_content c))"

definition conversation_send ::
  "sdk \<Rightarrow> string \<Rightarrow> (string \<times> json) list \<Rightarrow> conversation \<Rightarrow> transport \<Rightarrow>
   (client_exn + string) \<times> conversation \<times> transport" where
  "conversation_send K content sampling cv t =
     (let cv = cv\<lparr>cv_messages := cv_messages cv @ [(''user'', content)]\<rparr> in
      case reading first_content (chat_create K (cv_model cv) (cv_messages cv) sampling t) of
        (Inl e, t) \<Rightarrow> (Inl e, cv, t)
      | (Inr reply, t) \<Rightarrow> (Inr reply, cv\<lparr>cv_messages := cv_messages cv @ [(''assistant'', reply)]\<rparr>, t))"

definition conversation_clear :: "conversation \<Rightarrow> conversation" where
  "conversation_clear cv = cv\<lparr>cv_messages := filter (\<lambda>(role, content). role = ''system'') (cv_messages cv)\<rparr>"

section \<open>The admin resource\<close>

text \<open>\<open>int(...)\<close> of a JSON value: a float is truncated, a string is read as a decimal.\<close>

fun int_of_json :: "json \<Rightarrow> int result" where
  "int_of_json (JInt i) = Inr i"
| "int_of_json (JBool b) = Inr (if b then 1 else 0)"
| "int_of_json (JFloat q) = Inr (py_trunc q)"
| "int_of_json (JStr s) = (case py_int s of None \<Rightarrow> Inl (ValueError ''invalid literal for int()'') | Some i \<Rightarrow> Inr i)"
| "int_of_json v = Inl TypeError"

definition item_of :: "string \<Rightarrow> json \<Rightarrow> client_exn + json" where
  "item_of k v = raising (json_item v k)"

definition bool_item :: "string \<Rightarrow> json \<Rightarrow> client_exn + bool" where
  "bool_item k v = and_then (item_of k v) (\<lambda>x. Inr (json_truthy x))"

definition int_item :: "string \<Rightarrow> json \<Rightarrow> client_exn + int" where
  "int_item k v = and_then (item_of k v) (\<lambda>x. raising (int_of_json x))"

definition sessions_list :: "sdk \<Rightarrow> transport \<Rightarrow> (client_exn + json) \<times> transport" where
  "sessions_list K t = reading (item_of ''sessions'') (post K ''/v1/admin/sessions/list'' (JObj []) t)"

definition sessions_terminate :: "sdk \<Rightarrow> string \<Rightarrow> transport \<Rightarrow> (client_exn + bool) \<times> transport" where
  "sessions_terminate K ident_b64 t = reading (bool_item ''terminated'')
     (post K ''/v1/admin/sessions/terminate'' (JObj [(''session_id'', JStr ident_b64)]) t)"

definition clients_list :: "sdk \<Rightarrow> transport \<Rightarrow> (client_exn + json) \<times> transport" where
  "clients_list K t = reading (item_of ''clients'') (post K ''/v1/admin/clients/list'' (JObj []) t)"

definition clients_reload :: "sdk \<Rightarrow> transport \<Rightarrow> (client_exn + int) \<times> transport" where
  "clients_reload K t = reading (int_item ''clients'') (post K ''/v1/admin/clients/reload'' (JObj []) t)"

definition client_admin_models_list :: "sdk \<Rightarrow> transport \<Rightarrow> (client_exn + model_info list) \<times> transport" where
  "client_admin_models_list K t = reading (sc_models (schema K)) (post K ''/v1/admin/models/list'' (JObj []) t)"

definition models_preload :: "sdk \<Rightarrow> string \<Rightarrow> transport \<Rightarrow> (client_exn + unit) \<times> transport" where
  "models_preload K model_id t =
     reading (\<lambda>v. Inr ()) (post K ''/v1/admin/models/preload'' (JObj [(''id'', JStr model_id)]) t)"

definition models_unload :: "sdk \<Rightarrow> string \<Rightarrow> transport \<Rightarrow> (client_exn + bool) \<times> transport" where
  "models_unload K model_id t =
     reading (bool_item ''unloaded'') (post K ''/v1/admin/models/unload'' (JObj [(''id'', JStr model_id)]) t)"

definition log_level_set :: "sdk \<Rightarrow> string \<Rightarrow> string \<Rightarrow> int option \<Rightarrow> transport \<Rightarrow> (client_exn + unit) \<times> transport" where
  "log_level_set K component level ttl t = reading (\<lambda>v. Inr ()) (post K ''/v1/admin/log-level''
     (JObj [(''component'', JStr component), (''level'', JStr level), (''ttl_seconds'', json_opt_int ttl)]) t)"

definition loras_list :: "sdk \<Rightarrow> transport \<Rightarrow> (client_exn + lora_info list) \<times> transport" where
  "loras_list K t = reading (sc_loras (schema K)) (post K ''/v1/admin/loras/list'' (JObj []) t)"

definition loras_pull ::
  "sdk \<Rightarrow> string \<Rightarrow> string \<Rightarrow> string option \<Rightarrow> string option \<Rightarrow> transport \<Rightarrow> (client_exn + lora_info) \<times> transport" where
  "loras_pull K repo_id filename sha base_model_id t = reading (sc_lora (schema K)) (post K ''/v1/admin/loras/pull''
     (JObj [(''repo_id'', JStr repo_id), (''filename'', JStr filename), (''sha256'', json_opt_str sha),
       (''base_model_id'', json_opt_str base_model_id)]) t)"

definition loras_rm :: "sdk \<Rightarrow> string \<Rightarrow> transport \<Rightarrow> (client_exn + bool) \<times> transport" where
  "loras_rm K lora_id t = reading (bool_item ''removed'') (post K ''/v1/admin/loras/rm'' (JObj [(''id'', JStr lora_id)]) t)"

text \<open>An adapter is given as a \<open>LoraRef\<close> or as a pair.\<close>

definition lora_pin_json :: "lora_ref + string \<times> float_py \<Rightarrow> json" where
  "lora_pin_json item = (case item of
     Inl l \<Rightarrow> lora_ref_json l
   | Inr (lid, scale) \<Rightarrow> JObj [(''id'', JStr lid), (''scale'', JFloat scale)])"

definition loras_apply ::
  "sdk \<Rightarrow> string \<Rightarrow> (lora_ref + string \<times> float_py) list \<Rightarrow> int option \<Rightarrow> transport \<Rightarrow> (client_exn + json) \<times> transport" where
  "loras_apply K base_model_id loras n_ctx t = post K ''/v1/admin/loras/apply''
     (JObj [(''base_model_id'', JStr base_model_id), (''loras'', JList (map lora_pin_json loras)),
       (''n_ctx'', json_opt_int n_ctx)]) t"

definition client_gc :: "sdk \<Rightarrow> transport \<Rightarrow> (client_exn + int) \<times> transport" where
  "client_gc K t = reading (int_item ''collected'') (post K ''/v1/admin/gc'' (JObj []) t)"

definition client_shutdown :: "sdk \<Rightarrow> int \<Rightarrow> transport \<Rightarrow> (client_exn + unit) \<times> transport" where
  "client_shutdown K grace_seconds t =
     reading (\<lambda>v. Inr ()) (post K ''/v1/admin/shutdown'' (JObj [(''grace_seconds'', JInt grace_seconds)]) t)"

section \<open>What a stream delivers\<close>

text \<open>What a stream is meant to carry to the caller: the normalised chunks up to its end.\<close>

fun normalised_chunks :: "string \<Rightarrow> string \<Rightarrow> int \<Rightarrow> stream_event list \<Rightarrow> chat_chunk list" where
  "normalised_chunks model msg_id created [] = []"
| "normalised_chunks model msg_id created (KeepaliveTimeout # evs) = normalised_chunks model msg_id created evs"
| "normalised_chunks model msg_id created (NextChunk raw # evs) =
     (case llama_chunk_to_pydantic model msg_id created raw of
        Inl e \<Rightarrow> []
      | Inr chunk \<Rightarrow> chunk # normalised_chunks model msg_id created evs)"
| "normalised_chunks model msg_id created (ev # evs) = []"

lemma chat_chunks_payloads:
  assumes "\<And>c. sc_chunk V (chunk_json c) = Inr c"
  shows "chat_chunks V (stream_payloads model msg_id created evs) None = (normalised_chunks model msg_id created evs, None)"
proof (induction evs)
  case (Cons ev evs)
  have "is_keepalive keepalive_json = Inr True" by (simp add: keepalive_json_def)
  moreover have "is_keepalive (chunk_json c) = Inr False" for c by (simp add: chunk_json_def)
  ultimately show ?case using Cons assms by (cases ev) (auto split: sum.splits)
qed simp

lemma stream_request_reads:
  assumes "tr_session t = Some s"
    and "client_seal (cl_nacl L) (ho_c2s (ss_outcome s)) (ss_c2s_counter s + 1) (ho_session_id (ss_outcome s))
      (str_upper mth) path (request_body (cl_json L) payload) = Inr envelope"
    and "\<And>sent. net sent = Some r" and "hp_status r = 200"
    and "stream_lines L (s\<lparr>ss_c2s_counter := ss_c2s_counter s + 1\<rparr>) mth path (hp_lines r) (tr_replay t) = (vs, err, replay')"
  shows "\<exists>t'. stream_request L net mth path payload t = ((vs, err), t')"
  using assms by (simp add: stream_request_def seal_next_def get_session_def send_def Let_def)


text \<open>A reader of the chunk schema.\<close>

fun read_opt_text :: "json \<Rightarrow> string option" where
  "read_opt_text (JStr s) = Some s"
| "read_opt_text v = None"

definition read_choice :: "json \<Rightarrow> chunk_choice" where
  "read_choice v = (case v of
     JObj [(k1, JInt i), (k2, JObj [(k3, role), (k4, content)]), (k5, reason)] \<Rightarrow>
       \<lparr>cc_index = i, cc_role = read_opt_text role, cc_content = read_opt_text content, cc_finish_reason = read_opt_text reason\<rparr>
   | _ \<Rightarrow> \<lparr>cc_index = 0, cc_role = None, cc_content = None, cc_finish_reason = None\<rparr>)"

definition read_chunk :: "json \<Rightarrow> client_exn + chat_chunk" where
  "read_chunk v = (case v of
     JObj [(k1, JStr ident), (k2, JStr mdl), (k3, JInt created), (k4, JList cs)] \<Rightarrow>
       Inr \<lparr>ch_id = ident, ch_model = mdl, ch_created = created, ch_choices = map read_choice cs\<rparr>
   | _ \<Rightarrow> Inl (ClientOther (ValueError ''ValidationError'')))"

lemma read_opt_text: "read_opt_text (json_opt_str x) = x"
  by (cases x) simp_all

lemma read_choice_json: "read_choice (choice_json c) = c"
  by (simp add: read_choice_def choice_json_def read_opt_text)

lemma read_chunk_json: "read_chunk (chunk_json c) = Inr c"
  by (simp add: read_chunk_def chunk_json_def comp_def read_choice_json)

definition demo_schemas :: client_schemas where
  "demo_schemas = \<lparr>sc_chat_request = (\<lambda>v. Inr demo_chat), sc_chat_response = (\<lambda>v. Inl (ClientOther TypeError)),
     sc_chunk = read_chunk, sc_completion_request = (\<lambda>v. Inl (ClientOther TypeError)),
     sc_completion_response = (\<lambda>v. Inl (ClientOther TypeError)), sc_embeddings_request = (\<lambda>v. Inl (ClientOther TypeError)),
     sc_embeddings_response = (\<lambda>v. Inl (ClientOther TypeError)), sc_models = (\<lambda>v. Inr []), sc_loras = (\<lambda>v. Inr []),
     sc_lora = (\<lambda>v. Inl (ClientOther TypeError)), sc_system = Inr, sc_debug = Inr, sc_doctor = Inr\<rparr>"

definition stream_transport :: transport where
  "stream_transport = demo_transport\<lparr>tr_session := Some demo_session_state\<rparr>"


end
