(* ===== verification/Cli.thy ===== *)
theory Cli
  imports Client
begin

text \<open>
  The \<open>sllm\<close> command line (\<open>client/secure_llm_client/cli/__main__.py\<close>): where the home directory is, how a
  command gets its client, what the commands make of their arguments, the chat loop and the exit status of
  \<open>main\<close>. A command is a function of the shell it runs in; option parsing (typer) and the layout of what is
  printed (rich) are outside the model, so a command returns the values it prints. \<open>float(text)\<close> is an argument.
\<close>

section \<open>The shell and the client of a command\<close>

record shell =
  sh_home :: path \<comment> \<open>\<open>Path.home()\<close>\<close>
  sh_variable :: "string option" \<comment> \<open>\<open>SECURE_LLM_HOME\<close>\<close>
  sh_toml :: toml_lib
  sh_dumps :: "json \<Rightarrow> bytes" \<comment> \<open>\<open>tomli_w.dumps\<close>\<close>
  sh_shown :: "string \<Rightarrow> path \<Rightarrow> string"
  sh_now :: int
  sh_files :: fs

text \<open>How a command stops early: \<open>typer.Exit\<close>, or an exception.\<close>

datatype stop = Exit nat | Raised client_exn

type_synonym 'a outcome = "stop + 'a"

fun outcome_of :: "client_exn + 'a \<Rightarrow> 'a outcome" where
  "outcome_of (Inl e) = Inl (Raised e)"
| "outcome_of (Inr v) = Inr v"

definition config_dir :: "shell \<Rightarrow> path" where
  "config_dir H = (case sh_variable H of None \<Rightarrow> sh_home H @ [''.secure-llm''] | Some s \<Rightarrow> path_parts s)"

definition cli_client :: "shell \<Rightarrow> sdk \<Rightarrow> string \<Rightarrow> transport outcome" where
  "cli_client H K base_url =
     (let key_base = config_dir H @ [''client''] in
      if \<not> exists_path (sh_files H) (with_suffix key_base ''.x25519.key'') then Inl (Exit 2)
      else outcome_of (client_new (cl_nacl (fst K)) (sh_toml H) (sh_shown H) (sh_files H) base_url key_base None
        (Some (config_dir H @ [''known_servers.toml'']))))"

text \<open>A command that makes one call and prints what it returned.\<close>

definition one_call ::
  "shell \<Rightarrow> sdk \<Rightarrow> string \<Rightarrow> (transport \<Rightarrow> (client_exn + 'a) \<times> transport) \<Rightarrow> 'a outcome \<times> transport option" where
  "one_call H K base_url call =
     (case cli_client H K base_url of
        Inl e \<Rightarrow> (Inl e, None)
      | Inr t \<Rightarrow> (case call t of (r, t) \<Rightarrow> (outcome_of r, Some t)))"

section \<open>Keys and pins\<close>

definition keygen ::
  "shell \<Rightarrow> nacl \<Rightarrow> bytes \<Rightarrow> bytes \<Rightarrow> path option \<Rightarrow> (string \<times> string) outcome \<times> fs" where
  "keygen H N x_sk e_sk out =
     (let base = (case out of Some p \<Rightarrow> p | None \<Rightarrow> config_dir H @ [''client'']) in
      case client_generate_and_save N x_sk e_sk base (sh_files H) of
        (Inl e, fs) \<Rightarrow> (Inl (Raised (ClientOther e)), fs)
      | (Inr ident, fs) \<Rightarrow> (Inr (b64encode (ci_x25519_pk ident), b64encode (ci_ed25519_pk ident)), fs))"

definition trust_cmd :: "shell \<Rightarrow> string \<Rightarrow> string \<Rightarrow> unit outcome \<times> fs" where
  "trust_cmd H host pubkey_b64 =
     (case b64decode False pubkey_b64 of
        Inl e \<Rightarrow> (Inl (Raised (ClientOther e)), sh_files H)
      | Inr pk \<Rightarrow>
          if length pk \<noteq> 32 then (Inl (Exit 2), sh_files H)
          else (case trust (sh_toml H) (sh_dumps H) (sh_now H) (config_dir H @ [''known_servers.toml'']) host pk [] None
              False (sh_files H) of
            (r, fs) \<Rightarrow> (outcome_of (raising r), fs)))"

section \<open>The chat loop\<close>

text \<open>What \<open>typer.prompt\<close> does: a line, the interrupt or end of file that the loop handles, another exception.\<close>

datatype prompt = Line string | Interrupt | PromptRaises exn

datatype shown = Reply string | Failed client_error | HistoryCleared

fun chat_loop ::
  "sdk \<Rightarrow> prompt list \<Rightarrow> conversation \<Rightarrow> transport \<Rightarrow> shown list \<times> client_exn option \<times> conversation \<times> transport" where
  "chat_loop K [] cv t = ([], None, cv, t)"
| "chat_loop K (Interrupt # ps) cv t = ([], None, cv, t)"
| "chat_loop K (PromptRaises e # ps) cv t = ([], Some (ClientOther e), cv, t)"
| "chat_loop K (Line line # ps) cv t =
     (if line = [] then chat_loop K ps cv t
      else if strip line \<in> {''/exit'', ''/quit''} then ([], None, cv, t)
      else if strip line = ''/clear'' then
        (case chat_loop K ps (conversation_clear cv) t of (out, rest) \<Rightarrow> (HistoryCleared # out, rest))
      else (case conversation_send K line [] cv t of
          (Inl (SdkError e), cv, t) \<Rightarrow> (case chat_loop K ps cv t of (out, rest) \<Rightarrow> (Failed e # out, rest))
        | (Inl (ClientOther e), cv, t) \<Rightarrow> ([], Some (ClientOther e), cv, t)
        | (Inr reply, cv, t) \<Rightarrow> (case chat_loop K ps cv t of (out, rest) \<Rightarrow> (Reply reply # out, rest))))"

definition chat_cmd ::
  "shell \<Rightarrow> sdk \<Rightarrow> string \<Rightarrow> string \<Rightarrow> string option \<Rightarrow> prompt list \<Rightarrow>
   (shown list \<times> client_exn option \<times> conversation \<times> transport) outcome" where
  "chat_cmd H K model base_url system prompts =
     (case cli_client H K base_url of
        Inl e \<Rightarrow> Inl e
      | Inr t \<Rightarrow> Inr (chat_loop K prompts (conversation_new model system) t))"

section \<open>Single calls\<close>

definition complete_cmd ::
  "shell \<Rightarrow> sdk \<Rightarrow> string \<Rightarrow> string \<Rightarrow> int \<Rightarrow> string \<Rightarrow> completion_response outcome \<times> transport option" where
  "complete_cmd H K model prompt_text max_tokens base_url =
     one_call H K base_url (completions_create K model prompt_text False [(''max_tokens'', JInt max_tokens)])"

definition embed_cmd ::
  "shell \<Rightarrow> sdk \<Rightarrow> string list \<Rightarrow> string \<Rightarrow> string \<Rightarrow> embeddings_response outcome \<times> transport option" where
  "embed_cmd H K texts model base_url = one_call H K base_url (embeddings_create K model (JList (map JStr texts)))"

definition system_cmd :: "shell \<Rightarrow> sdk \<Rightarrow> string \<Rightarrow> json outcome \<times> transport option" where
  "system_cmd H K base_url = one_call H K base_url (client_system_status K)"

definition models_list_cmd :: "shell \<Rightarrow> sdk \<Rightarrow> string \<Rightarrow> model_info list outcome \<times> transport option" where
  "models_list_cmd H K base_url = one_call H K base_url (models_list K)"

text \<open>\<open>spec.split(":", 1)\<close>, where the separator occurs.\<close>

fun split_first :: "char \<Rightarrow> string \<Rightarrow> (string \<times> string) option" where
  "split_first c [] = None"
| "split_first c (x # xs) =
     (if x = c then Some ([], xs) else map_option (\<lambda>(a, b). (x # a, b)) (split_first c xs))"

definition models_pull_cmd ::
  "shell \<Rightarrow> sdk \<Rightarrow> string \<Rightarrow> string option \<Rightarrow> string \<Rightarrow> model_info list outcome \<times> transport option" where
  "models_pull_cmd H K spec sha base_url =
     (case split_first (CHR '':'') spec of
        None \<Rightarrow> (Inl (Exit 2), None)
      | Some (repo, filename) \<Rightarrow> one_call H K base_url (models_download K repo filename sha))"

definition models_rm_cmd :: "shell \<Rightarrow> sdk \<Rightarrow> string \<Rightarrow> string \<Rightarrow> model_info list outcome \<times> transport option" where
  "models_rm_cmd H K model_id base_url = one_call H K base_url (models_remove K model_id)"

definition debug_status_cmd :: "shell \<Rightarrow> sdk \<Rightarrow> string \<Rightarrow> json outcome \<times> transport option" where
  "debug_status_cmd H K base_url = one_call H K base_url (client_debug_status K)"

definition debug_doctor_cmd :: "shell \<Rightarrow> sdk \<Rightarrow> string \<Rightarrow> json outcome \<times> transport option" where
  "debug_doctor_cmd H K base_url = one_call H K base_url (client_doctor K)"

text \<open>The fields that are printed of every entry; \<open>e["..."]\<close> may raise.\<close>

fun items_of :: "string list \<Rightarrow> json \<Rightarrow> json list result" where
  "items_of [] v = Inr []"
| "items_of (k # ks) v = and_then (json_item v k) (\<lambda>x. and_then (items_of ks v) (\<lambda>xs. Inr (x # xs)))"

fun rows_of :: "string list \<Rightarrow> json list \<Rightarrow> json list list result" where
  "rows_of ks [] = Inr []"
| "rows_of ks (v # vs) = and_then (items_of ks v) (\<lambda>r. and_then (rows_of ks vs) (\<lambda>rs. Inr (r # rs)))"

definition printed_rows :: "string list \<Rightarrow> json \<Rightarrow> client_exn + json list list" where
  "printed_rows ks v = raising (and_then (json_iter v) (rows_of ks))"

definition debug_logs_cmd ::
  "shell \<Rightarrow> sdk \<Rightarrow> string option \<Rightarrow> int \<Rightarrow> string \<Rightarrow> json list list outcome \<times> transport option" where
  "debug_logs_cmd H K level limit base_url = one_call H K base_url (\<lambda>t.
     reading (printed_rows [''ts'', ''level'', ''component'', ''event'']) (client_logs K limit level None None t))"

definition debug_errors_cmd :: "shell \<Rightarrow> sdk \<Rightarrow> int \<Rightarrow> string \<Rightarrow> json list list outcome \<times> transport option" where
  "debug_errors_cmd H K limit base_url = one_call H K base_url (\<lambda>t.
     reading (printed_rows [''error_id'', ''code'', ''message'']) (client_errors K limit t))"

section \<open>Administration\<close>

definition admin_sessions_cmd :: "shell \<Rightarrow> sdk \<Rightarrow> string \<Rightarrow> json list outcome \<times> transport option" where
  "admin_sessions_cmd H K base_url =
     one_call H K base_url (\<lambda>t. reading (\<lambda>v. raising (json_iter v)) (sessions_list K t))"

definition admin_preload_cmd :: "shell \<Rightarrow> sdk \<Rightarrow> string \<Rightarrow> string \<Rightarrow> unit outcome \<times> transport option" where
  "admin_preload_cmd H K model_id base_url = one_call H K base_url (models_preload K model_id)"

definition admin_unload_cmd :: "shell \<Rightarrow> sdk \<Rightarrow> string \<Rightarrow> string \<Rightarrow> bool outcome \<times> transport option" where
  "admin_unload_cmd H K model_id base_url = one_call H K base_url (models_unload K model_id)"

definition admin_log_set_cmd ::
  "shell \<Rightarrow> sdk \<Rightarrow> string \<Rightarrow> string \<Rightarrow> int option \<Rightarrow> string \<Rightarrow> unit outcome \<times> transport option" where
  "admin_log_set_cmd H K component level ttl base_url = one_call H K base_url (log_level_set K component level ttl)"

definition admin_shutdown_cmd :: "shell \<Rightarrow> sdk \<Rightarrow> int \<Rightarrow> string \<Rightarrow> unit outcome \<times> transport option" where
  "admin_shutdown_cmd H K grace base_url = one_call H K base_url (client_shutdown K grace)"

definition loras_list_cmd :: "shell \<Rightarrow> sdk \<Rightarrow> string \<Rightarrow> lora_info list outcome \<times> transport option" where
  "loras_list_cmd H K base_url = one_call H K base_url (loras_list K)"

definition loras_pull_cmd ::
  "shell \<Rightarrow> sdk \<Rightarrow> string \<Rightarrow> string option \<Rightarrow> string option \<Rightarrow> string \<Rightarrow> lora_info outcome \<times> transport option" where
  "loras_pull_cmd H K spec sha base_model base_url =
     (case split_first (CHR '':'') spec of
        None \<Rightarrow> (Inl (Exit 2), None)
      | Some (repo, filename) \<Rightarrow> one_call H K base_url (loras_pull K repo filename sha base_model))"

definition loras_rm_cmd :: "shell \<Rightarrow> sdk \<Rightarrow> string \<Rightarrow> string \<Rightarrow> bool outcome \<times> transport option" where
  "loras_rm_cmd H K lora_id base_url = one_call H K base_url (loras_rm K lora_id)"

text \<open>\<open><id>\<close> or \<open><id>@<scale>\<close>.\<close>

fun parse_pins :: "(string \<Rightarrow> float_py result) \<Rightarrow> string list \<Rightarrow> (string \<times> float_py) list result" where
  "parse_pins float_of [] = Inr []"
| "parse_pins float_of (raw # raws) =
     (case split_first (CHR ''@'') raw of
        None \<Rightarrow> and_then (parse_pins float_of raws) (\<lambda>ps. Inr ((strip raw, 1) # ps))
      | Some (lid, scale_s) \<Rightarrow>
          and_then (float_of scale_s) (\<lambda>scale. and_then (parse_pins float_of raws) (\<lambda>ps. Inr ((strip lid, scale) # ps))))"

definition applied_of :: "json \<Rightarrow> client_exn + json list list \<times> json" where
  "applied_of out = raising (and_then (json_item out ''loras'') (\<lambda>l. and_then (json_iter l) (\<lambda>ls.
     and_then (rows_of [''id'', ''scale''] ls) (\<lambda>applied.
     and_then (json_item out ''base_model_id'') (\<lambda>b. Inr (applied, b))))))"

definition loras_apply_cmd ::
  "shell \<Rightarrow> sdk \<Rightarrow> (string \<Rightarrow> float_py result) \<Rightarrow> string \<Rightarrow> string list \<Rightarrow> int option \<Rightarrow> string \<Rightarrow>
   (json list list \<times> json) outcome \<times> transport option" where
  "loras_apply_cmd H K float_of base_model lora_spec n_ctx base_url =
     (case parse_pins float_of lora_spec of
        Inl e \<Rightarrow> (Inl (Raised (ClientOther e)), None)
      | Inr parsed \<Rightarrow> one_call H K base_url (\<lambda>t.
          reading applied_of (loras_apply K base_model (map Inr parsed) n_ctx t)))"

text \<open>\<open>main\<close>: the exit status, or the exception that leaves it.\<close>

fun cli_main :: "'a outcome \<Rightarrow> client_exn + nat" where
  "cli_main (Inr v) = Inr 0"
| "cli_main (Inl (Exit n)) = Inr n"
| "cli_main (Inl (Raised (SdkError e))) = Inr 1"
| "cli_main (Inl (Raised (ClientOther e))) = Inl (ClientOther e)"

section \<open>What the chat loop remembers\<close>

text \<open>What was said to the model: the lines of the session that are no commands, since the last \<open>/clear\<close>.\<close>

fun spoken :: "string list \<Rightarrow> prompt list \<Rightarrow> string list" where
  "spoken acc [] = acc"
| "spoken acc (Interrupt # ps) = acc"
| "spoken acc (PromptRaises e # ps) = acc"
| "spoken acc (Line line # ps) =
     (if line = [] then spoken acc ps
      else if strip line \<in> {''/exit'', ''/quit''} then acc
      else if strip line = ''/clear'' then spoken [] ps
      else spoken (acc @ [line]) ps)"

definition turns_of :: "string \<Rightarrow> conversation \<Rightarrow> string list" where
  "turns_of role cv = map snd (filter (\<lambda>m. fst m = role) (cv_messages cv))"

text \<open>Whatever the outcome, the user's message is appended; the answer too where there is one.\<close>

lemma conversation_send_messages:
  assumes "conversation_send K content sampling cv t = (r, cv', t')"
  shows "cv_messages cv' = cv_messages cv @ (''user'', content) #
      (case r of Inl e \<Rightarrow> [] | Inr reply \<Rightarrow> [(''assistant'', reply)]) \<and> cv_model cv' = cv_model cv"
  using assms by (auto simp: conversation_send_def Let_def split: prod.splits sum.splits)

lemma turns_of_send:
  assumes "conversation_send K content sampling cv t = (r, cv', t')"
  shows "turns_of ''user'' cv' = turns_of ''user'' cv @ [content]" "turns_of ''system'' cv' = turns_of ''system'' cv"
    "turns_of ''assistant'' cv' = turns_of ''assistant'' cv @ (case r of Inl e \<Rightarrow> [] | Inr reply \<Rightarrow> [reply])"
  using conversation_send_messages [OF assms] by (auto simp: turns_of_def split: sum.splits)

lemma turns_of_clear:
  "turns_of role (conversation_clear cv) = (if role = ''system'' then turns_of role cv else [])"
  by (auto simp: turns_of_def conversation_clear_def case_prod_beta filter_empty_conv intro!: arg_cong [of _ _ "map snd"] filter_cong)

fun answered :: "string list \<Rightarrow> shown list \<Rightarrow> string list" where
  "answered acc [] = acc"
| "answered acc (Reply r # out) = answered (acc @ [r]) out"
| "answered acc (Failed e # out) = answered acc out"
| "answered acc (HistoryCleared # out) = answered [] out"


text \<open>A server that refuses every handshake: each line fails with an SDK error.\<close>

definition refusing_network :: network where
  "refusing_network = (\<lambda>sent. Some \<lparr>hp_status = 503, hp_content_type = [], hp_body = [], hp_lines = []\<rparr>)"

lemma send_refused:
  assumes "sc_chat_request V = (\<lambda>v. Inr q)" and "tr_session t = None"
  shows "\<exists>e t'. conversation_send (L, refusing_network, V) content sampling cv t =
    (Inl (SdkError e), cv\<lparr>cv_messages := cv_messages cv @ [(''user'', content)]\<rparr>, t') \<and> tr_session t' = None"
  using assms
  by (simp add: conversation_send_def chat_create_def schema_def post_def reading_def request.simps [of L] seal_next_def
      get_session_def do_handshake_def send_def refusing_network_def Let_def)


section \<open>From trusting a server to talking to it\<close>

lemma trust_files:
  assumes "trust T dumps now p host pubkey text measurement required fs = (Inr (), fs')" and "q \<noteq> p"
  shows "file_at fs' q = file_at fs q"
proof -
  from assms(1) obtain fs1 data where "mkdir_p (path_parent p) fs = Inr fs1" "write_bytes DEFAULT_MODE p data fs1 = Inr fs'"
    by (auto simp: trust_def Let_def split: sum.splits)
  then have "file_at fs' = (file_at fs)(p \<mapsto> ((case file_at fs1 p of Some (m, d) \<Rightarrow> m | None \<Rightarrow> DEFAULT_MODE), data))"
    using file_at_mkdirs [of "prefixes_of (path_parent p)" fs fs1] by (simp add: file_at_write mkdir_p_def)
  with assms(2) show ?thesis by simp
qed

lemma client_key_path: "with_suffix (d @ [''client'']) suffix = d @ [''client'' @ suffix]"
proof -
  have "path_stem (d @ [''client'']) = path_stem [''client'']" by (simp add: path_stem_def path_name_def)
  also have "path_stem [''client''] = ''client''" by code_simp
  finally show ?thesis by (simp add: with_suffix_def path_parent_def)
qed

lemma client_identity_trust:
  assumes "client_identity_load N (d @ [''client'']) fs = Inr ident"
    and "\<And>q. q \<noteq> d @ [''known_servers.toml''] \<Longrightarrow> file_at fs' q = file_at fs q"
  shows "client_identity_load N (d @ [''client'']) fs' = Inr ident" "exists_path fs' (d @ [''client.x25519.key''])"
proof -
  have same: "read_bytes fs (d @ [''client.x25519.key'']) = Inr b \<Longrightarrow> read_bytes fs' (d @ [''client.x25519.key'']) = Inr b"
    "read_bytes fs (d @ [''client.ed25519.key'']) = Inr b \<Longrightarrow> read_bytes fs' (d @ [''client.ed25519.key'']) = Inr b" for b
    using assms(2) by (simp_all add: file_at_read)
  show "client_identity_load N (d @ [''client'']) fs' = Inr ident"
    using assms(1) same by (auto simp: client_identity_load_def client_key_path and_then_Inr_iff split: if_splits)
  from assms(1) obtain b where "read_bytes fs (d @ [''client.x25519.key'']) = Inr b"
    by (auto simp: client_identity_load_def client_key_path and_then_Inr_iff split: if_splits)
  then have "read_bytes fs' (d @ [''client.x25519.key'']) = Inr b" by (rule same)
  then show "exists_path fs' (d @ [''client.x25519.key''])" by (intro file_at_exists) (auto simp: file_at_read)
qed

text \<open>A trusted server can be talked to: after \<open>sllm trust host key\<close> every command that connects to a URL
  of exactly that host finds the client's identity as it was and pins the decoded key, which has 32 bytes; no
  attestation is asked of the server.\<close>

theorem trusted_server_connects:
  assumes "trust_cmd H host key = (Inr (), fs')"
    and "\<And>rows. toml_load (sh_toml H) (sh_dumps H (JObj [(''hosts'', JList rows)])) = Some (JObj [(''hosts'', JList rows)])"
    and "client_identity_load (cl_nacl (fst K)) (config_dir H @ [''client'']) (sh_files H) = Inr ident"
    and "url_host base_url = host"
  shows "\<exists>pk. b64decode False key = Inr pk \<and> length pk = 32 \<and>
    cli_client (H\<lparr>sh_files := fs'\<rparr>) K base_url = Inr (transport_new base_url ident pk None None False)"
proof -
  let ?p = "config_dir H @ [''known_servers.toml'']"
  from assms(1) obtain pk where pk: "b64decode False key = Inr pk" "length pk = 32"
    and tr: "trust (sh_toml H) (sh_dumps H) (sh_now H) ?p host pk [] None False (sh_files H) = (Inr (), fs')"
    by (auto simp: trust_cmd_def raising_def split: sum.splits if_splits prod.splits)
  have cfg: "config_dir (H\<lparr>sh_files := fs'\<rparr>) = config_dir H" by (simp add: config_dir_def split: option.split)
  note found = client_identity_trust [OF assms(3) trust_files [OF tr]]
  have "lookup_host (sh_toml H) fs' ?p host =
      Inr (Some \<lparr>he_host = JStr host, he_x25519_pk = pk, he_measurement = None, he_attestation_required = False\<rparr>)"
    using lookup_after_trust [OF tr assms(2)] by simp
  then have "cli_client (H\<lparr>sh_files := fs'\<rparr>) K base_url = Inr (transport_new base_url ident pk None None False)"
    using found by (simp add: cli_client_def Let_def cfg client_key_path client_new_def assms(4))
  with pk show ?thesis by blast
qed

definition demo_shell :: shell where
  "demo_shell = \<lparr>sh_home = [''k''], sh_variable = Some ''/k'', sh_toml = demo_pins, sh_dumps = json_dumps unary_json,
     sh_shown = (\<lambda>h p. []), sh_now = 7, sh_files = demo_home\<rparr>"

theorem trusted_server_connects_witness:
  "\<exists>fs' ident. trust_cmd demo_shell ''h:1'' demo_pk_text = (Inr (), fs') \<and>
     client_identity_load demo_nacl [''k'', ''client''] demo_home = Inr ident \<and>
     cli_client (demo_shell\<lparr>sh_files := fs'\<rparr>) (demo_lib, refusing_network, demo_schemas) ''https://h:1'' =
       Inr (transport_new ''https://h:1'' ident (replicate 32 0) None None False)"
proof -
  have host: "url_host ''https://h:1'' = ''h:1''" and stem: "path_stem [''k'', ''client''] = ''client''"
    and dir: "config_dir demo_shell = [''k'']"
    by (code_simp, code_simp, simp add: config_dir_def demo_shell_def path_parts_def)
  obtain ident where ident: "client_identity_load demo_nacl [''k'', ''client''] demo_home = Inr ident"
    by (simp add: client_identity_load_def path_name_def with_suffix_def path_parent_def stem)
      (simp add: demo_home_def read_bytes_def nacl_key_def)
  have no: "load_hosts demo_pins demo_home [''k'', ''known_servers.toml''] = Inr []"
    by (simp add: load_hosts_def exists_path_def demo_home_def)
  obtain fs' where run: "trust_cmd demo_shell ''h:1'' demo_pk_text = (Inr (), fs')"
    by (simp add: trust_cmd_def demo_pk dir)
      (simp add: demo_shell_def trust_def no mkdir_p_def prefixes_of_def path_parent_def write_bytes_def is_dir_def demo_home_def
        raising_def no [unfolded demo_home_def])
  have "json_loads unary_json (json_dumps unary_json v) = Some v" for v
    using unary_json_roundtrips [of v] by (simp only: json_roundtrips_def)
  then have law: "toml_load (sh_toml demo_shell) (sh_dumps demo_shell (JObj [(''hosts'', JList rows)]))
      = Some (JObj [(''hosts'', JList rows)])" for rows
    by (simp add: demo_shell_def demo_pins_def)
  have "client_identity_load (cl_nacl (fst (demo_lib, refusing_network, demo_schemas))) (config_dir demo_shell @ [''client''])
      (sh_files demo_shell) = Inr ident"
    using ident by (simp add: dir) (simp add: demo_shell_def demo_lib_def)
  from trusted_server_connects [OF run law this host] run ident show ?thesis by (auto simp: demo_pk)
qed

end
