(* ===== verification/Boot.thy ===== *)
theory Boot
  imports Endpoints Introspection
begin

text \<open>
  Configuration and start-up of the server (\<open>server/.../config.py\<close>, \<open>lifespan.py\<close>, \<open>main.py:run\<close>): the TOML file
  with its relative paths resolved, the settings, the steps of \<open>lifespan\<close> in their order with the disk each one
  leaves, the background task that reaps sessions, and the shutdown. pydantic's validation of the settings is an
  argument; a symbolic link is not modelled, so \<open>resolve\<close> only removes \<open>..\<close>. Log lines are left out.
\<close>

section \<open>The configuration file\<close>

text \<open>A value of a section: what TOML gave, or a \<open>Path\<close>.\<close>

datatype setting = Plain json | PathValue path

datatype section_value = Section "(string \<times> setting) list" | NoSection json

fun resolve_path :: "path \<Rightarrow> path \<Rightarrow> path" where
  "resolve_path acc [] = acc"
| "resolve_path acc (w # ws) = resolve_path (if w = ''..'' then butlast acc else acc @ [w]) ws"

definition is_path_key :: "string \<Rightarrow> bool" where
  "is_path_key k \<longleftrightarrow> ends_with ''_file'' k \<or> ends_with ''_dir'' k \<or> k = ''authorized_clients''"

definition resolve_value :: "path \<Rightarrow> string \<Rightarrow> json \<Rightarrow> setting" where
  "resolve_value base k v = (case v of
     JStr s \<Rightarrow> if is_path_key k
       then PathValue (if take 1 s = ''/'' then path_parts s else resolve_path [] (base @ path_parts s))
       else Plain v
   | _ \<Rightarrow> Plain v)"

definition resolve_section :: "path \<Rightarrow> json \<Rightarrow> section_value" where
  "resolve_section base body = (case body of
     JObj kvs \<Rightarrow> Section (map (\<lambda>(k, v). (k, resolve_value base k v)) kvs)
   | _ \<Rightarrow> NoSection body)"

record settings =
  cf_host :: string
  cf_port :: int
  cf_shutdown_grace :: int
  cf_cert_file :: path
  cf_key_file :: path
  cf_key_dir :: path
  cf_authorized_clients :: path
  cf_session_ttl :: int
  cf_session_max_lifetime :: int
  cf_skew_seconds :: int
  cf_storage_dir :: path
  cf_tmpfs_dir :: path
  cf_max_loaded :: int
  cf_idle_timeout :: int
  cf_disk_quota_gb :: int
  cf_allow_download :: bool
  cf_allowed_repo_prefixes :: "string list"
  cf_n_ctx_default :: int
  cf_queue_depth :: int
  cf_session_store :: string
  cf_session_store_url :: "string option"
  cf_log_level :: string
  cf_log_dir :: "path option"
  cf_error_buffer_size :: int

type_synonym settings_lib = "(string \<times> section_value) list \<Rightarrow> settings result"

text \<open>\<open>Settings(**raw)\<close>; the level goes through its validator. The configuration path is resolved.\<close>

definition load_settings :: "toml_lib \<Rightarrow> settings_lib \<Rightarrow> path \<Rightarrow> fs \<Rightarrow> settings result" where
  "load_settings T validate p fs =
     and_then (read_bytes fs p) (\<lambda>text.
       case toml_load T text of
         Some (JObj raw) \<Rightarrow>
           and_then (validate (map (\<lambda>(section, body). (section, resolve_section (resolve_path [] (path_parent p)) body)) raw))
             (\<lambda>s. Inr (s\<lparr>cf_log_level := str_upper (cf_log_level s)\<rparr>))
       | _ \<Rightarrow> Inl (ValueError ''TOMLDecodeError''))"

section \<open>Start-up\<close>

text \<open>\<open>configure\<close>: the directory and the file of the log, then the level.\<close>

definition open_log_file :: "path option \<Rightarrow> fs \<Rightarrow> unit result \<times> fs" where
  "open_log_file log_dir fs =
     (case log_dir of
        None \<Rightarrow> (Inr (), fs)
      | Some d \<Rightarrow>
          (case mkdir_p d fs of
             Inl e \<Rightarrow> (Inl e, fs)
           | Inr fs \<Rightarrow>
               (case map_of fs (d @ [''server.log'']) of
                  Some (File m old) \<Rightarrow> (Inr (), fs)
                | _ \<Rightarrow> write_file (d @ [''server.log'']) [] fs)))"

datatype store_choice = MemoryStore | RedisStore string

definition choose_store :: "settings \<Rightarrow> store_choice result" where
  "choose_store s =
     (if cf_session_store s = ''redis''
      then (case cf_session_store_url s of
          None \<Rightarrow> Inl (RuntimeError ''[federation].session_store=redis requires session_store_url'')
        | Some url \<Rightarrow> if url = [] then Inl (RuntimeError ''[federation].session_store=redis requires session_store_url'')
            else Inr (RedisStore url))
      else Inr MemoryStore)"

definition manager_config_of :: "settings \<Rightarrow> at_rest_key \<Rightarrow> manager_config" where
  "manager_config_of s key = \<lparr>mc_max_loaded = cf_max_loaded s, mc_idle_timeout = cf_idle_timeout s,
     mc_n_ctx_default = cf_n_ctx_default s, mc_queue_depth = cf_queue_depth s, mc_tmpfs_dir = cf_tmpfs_dir s,
     mc_at_rest = key\<rparr>"

definition lora_dir :: "settings \<Rightarrow> path" where
  "lora_dir s = path_parent (cf_storage_dir s) @ [''loras'']"

record 'c booted =
  bt_settings :: settings
  bt_logging :: logging
  bt_readiness :: readiness
  bt_keystore :: keystore
  bt_attestation :: attestation_backend
  bt_config :: manager_config
  bt_models :: "'c manager"
  bt_store :: store_choice
  bt_errors :: error_tracker

text \<open>Third-party code and randomness of one start.\<close>

record boot_lib =
  bl_nacl :: nacl
  bl_toml :: toml_lib
  bl_age :: age
  bl_validate :: settings_lib
  bl_x_sk :: bytes
  bl_e_sk :: bytes
  bl_age_text :: "string option"

definition boot :: "boot_lib \<Rightarrow> path \<Rightarrow> fs \<Rightarrow> 'c booted result \<times> fs" where
  "boot B config_path fs =
     (case load_settings (bl_toml B) (bl_validate B) config_path fs of
        Inl e \<Rightarrow> (Inl e, fs)
      | Inr s \<Rightarrow>
          (case open_log_file (cf_log_dir s) fs of
             (Inl e, fs) \<Rightarrow> (Inl e, fs)
           | (Inr u, fs) \<Rightarrow>
               (case logging_configure (cf_log_level s) None of
                  Inl e \<Rightarrow> (Inl e, fs)
                | Inr lg \<Rightarrow>
                    (case check_storage (cf_storage_dir s) fs (readiness_new\<lparr>rd_config_loaded := True\<rparr>) of
                       (rd, fs) \<Rightarrow>
                         (case load_or_init_keystore (bl_nacl B) (bl_toml B) (bl_x_sk B) (bl_e_sk B) (bl_age_text B)
                             (cf_key_dir s) (Some (cf_authorized_clients s)) fs of
                            (Inl e, fs) \<Rightarrow> (Inl e, fs)
                          | (Inr ks, fs) \<Rightarrow>
                              (case at_rest_key_load (bl_age B) (si_age_secret_path (ks_server ks)) fs of
                                 Inl e \<Rightarrow> (Inl e, fs)
                               | Inr key \<Rightarrow>
                                   (case choose_store s of
                                      Inl e \<Rightarrow> (Inl e, fs)
                                    | Inr store \<Rightarrow>
                                        (Inr \<lparr>bt_settings = s, bt_logging = lg,
                                           bt_readiness = rd\<lparr>rd_keystore_loaded := True\<rparr>, bt_keystore = ks,
                                           bt_attestation = NoneBackend, bt_config = manager_config_of s key,
                                           bt_models = manager_new \<lparr>mt_base = cf_storage_dir s, mt_cache = []\<rparr>
                                             \<lparr>mt_base = lora_dir s, mt_cache = []\<rparr> fs,
                                           bt_store = store, bt_errors = tracker_new (cf_error_buffer_size s)\<rparr>, fs))))))))"

section \<open>Running and stopping\<close>

text \<open>The state a booted server serves its first request from, with the store it has picked.\<close>

definition first_state :: "'s \<Rightarrow> 'c booted \<Rightarrow> ('s, 'c) app" where
  "first_state store b = \<lparr>ap_world = ([], store), ap_models = bt_models b, ap_keystore = bt_keystore b,
     ap_logging = bt_logging b, ap_errors = bt_errors b, ap_audit = [], ap_reverts = [], ap_term_at = None\<rparr>"

text \<open>\<open>_reap_sessions\<close>: after each sleep of 60 seconds, at the time the clock then shows, until it is cancelled.\<close>

fun reap_sessions :: "'s store_ops \<Rightarrow> float_py list \<Rightarrow> 's world \<Rightarrow> 's world" where
  "reap_sessions ops [] w = w"
| "reap_sessions ops (now # nows) w = reap_sessions ops nows (snd (sm_reap_expired ops now w))"

text \<open>The \<open>finally\<close> of \<open>lifespan\<close>: every model is unloaded; sessions are left as they are.\<close>

definition lifespan_end :: "('s, 'c) services \<Rightarrow> ('s, 'c) app \<Rightarrow> ('s, 'c) app" where
  "lifespan_end S st = st\<lparr>ap_models := shutdown (sv_env S) (ap_models st)\<rparr>"

record server_options =
  so_host :: string
  so_port :: int
  so_log_level :: string
  so_grace :: int
  so_tls :: "(path \<times> path) option"

text \<open>\<open>run\<close> after argument parsing: the exit status, or what uvicorn is started with.\<close>

definition run_server ::
  "boot_lib \<Rightarrow> path \<Rightarrow> bool \<Rightarrow> string option \<Rightarrow> int option \<Rightarrow> fs \<Rightarrow> exn + (int + server_options)" where
  "run_server B config no_tls host port fs =
     (let config_path = resolve_path [] config in
      if \<not> exists_path fs config_path then Inr (Inl 2)
      else and_then (load_settings (bl_toml B) (bl_validate B) config_path fs) (\<lambda>s. Inr (Inr
        \<lparr>so_host = (case host of Some h \<Rightarrow> if h = [] then cf_host s else h | None \<Rightarrow> cf_host s),
         so_port = (case port of Some p \<Rightarrow> if p = 0 then cf_port s else p | None \<Rightarrow> cf_port s),
         so_log_level = str_lower (cf_log_level s), so_grace = cf_shutdown_grace s,
         so_tls = (if no_tls then None else Some (cf_cert_file s, cf_key_file s))\<rparr>)))"

section \<open>What every start leaves\<close>

lemma boot_Inr:
  assumes "boot B p fs = (Inr b, fs')"
  obtains s lg rd fs1 fs2 ks key where "load_settings (bl_toml B) (bl_validate B) p fs = Inr s"
    and "open_log_file (cf_log_dir s) fs = (Inr (), fs1)"
    and "check_storage (cf_storage_dir s) fs1 (readiness_new\<lparr>rd_config_loaded := True\<rparr>) = (rd, fs2)"
    and "load_or_init_keystore (bl_nacl B) (bl_toml B) (bl_x_sk B) (bl_e_sk B) (bl_age_text B) (cf_key_dir s)
      (Some (cf_authorized_clients s)) fs2 = (Inr ks, fs')"
    and "at_rest_key_load (bl_age B) (si_age_secret_path (ks_server ks)) fs' = Inr key"
    and "bt_settings b = s" "bt_readiness b = rd\<lparr>rd_keystore_loaded := True\<rparr>" "bt_keystore b = ks"
    and "mc_at_rest (bt_config b) = key"
  using assms
  by (auto simp: boot_def manager_config_of_def split: sum.splits prod.splits)

text \<open>What the steps before the keystore leave of other files.\<close>

lemma open_log_file_files:
  assumes "open_log_file log_dir fs = (Inr (), fs')" and "\<And>d. log_dir = Some d \<Longrightarrow> q \<noteq> d @ [''server.log'']"
  shows "file_at fs' q = file_at fs q"
  using assms
  by (auto simp: open_log_file_def mkdir_p_def dest!: file_at_mkdirs write_file_files
      split: option.splits sum.splits node.splits)

lemma file_at_unlink: "unlink_path p fs = Inr fs' \<Longrightarrow> file_at fs' = (file_at fs)(p := None)"
  by (simp add: file_at_def unlink_Inr(1) fun_eq_iff)

lemma file_at_mkdir_p: "mkdir_p d fs = Inr fs' \<Longrightarrow> file_at fs' = file_at fs"
  by (simp add: mkdir_p_def file_at_mkdirs)

lemma check_storage_files:
  assumes "q \<noteq> dir @ [''.rw_check'']"
  shows "file_at (snd (check_storage dir fs rd)) q = file_at fs q"
  using assms
  by (simp add: check_storage_def Let_def file_at_unlink file_at_write file_at_mkdir_p split: sum.split)

section \<open>Restarts\<close>

definition key_files :: "path \<Rightarrow> path list" where
  "key_files d = [x25519_path d, x25519_pub_path d, ed25519_path d, ed25519_pub_path d]"

lemma require_secret_perms_same:
  assumes "file_at fs p = Some x" and "file_at fs' p = file_at fs p"
  shows "require_secret_perms fs' p = require_secret_perms fs p"
  using assms by (cases x) (simp add: require_secret_perms_def file_at_mode)

lemma load_identity_same:
  assumes "load_server_identity d fs = Inr i" and "\<And>q. q \<in> set (key_files d) \<Longrightarrow> file_at fs' q = file_at fs q"
  shows "load_server_identity d fs' = Inr i"
proof -
  have files: "file_at fs q \<noteq> None \<and> read_bytes fs' q = read_bytes fs q" if "q \<in> set (key_files d)" for q
  proof -
    from assms(1) that obtain b where b: "read_bytes fs q = Inr b"
      by (auto simp: load_server_identity_def and_then_Inr_iff key_files_def)
    then have "read_bytes fs' q = Inr b" unfolding file_at_read assms(2) [OF that] .
    then have "read_bytes fs' q = read_bytes fs q" using b by simp
    with b show ?thesis by (auto simp: file_at_read)
  qed
  have perms: "require_secret_perms fs' q = require_secret_perms fs q" if "q \<in> set (key_files d)" for q
    using files [OF that] require_secret_perms_same assms(2) [OF that] by blast
  show ?thesis using assms(1) perms files by (simp add: load_server_identity_def key_files_def)
qed

lemma keystore_identity_on_disk:
  assumes "load_or_init_keystore N T x_sk e_sk age_text d al fs = (Inr ks, fs')"
    and "length x_sk = 32" and "length e_sk = 32"
  shows "load_server_identity d fs' = Inr (ks_server ks)"
proof (cases "exists_path fs (x25519_path d)")
  case True
  then show ?thesis using assms(1) by (auto simp: load_or_init_keystore_def and_then_Inr_iff split: sum.splits)
next
  case False
  then have init: "init_server_identity N x_sk e_sk age_text d fs = (Inr (ks_server ks), fs')"
    using assms(1) by (auto simp: load_or_init_keystore_def and_then_Inr_iff split: sum.splits prod.splits)
  note f = init_files [OF init]
  obtain m m' where pub: "file_at fs' (x25519_pub_path d) = Some (m, x25519_base N x_sk)"
    "file_at fs' (ed25519_pub_path d) = Some (m', ed25519_pub N e_sk)" using f(4,5) by blast
  show ?thesis using load_server_identity_files [OF f(2,3) pub assms(2,3)] f(1) by simp
qed

text \<open>A restart keeps the server's identity: whatever happens between two starts, as long as the four key files
  are left alone (and whatever the second start does before it reads them), the second start serves under the
  identity the first one had, also where the first one had just generated it; new keys are drawn but not used.\<close>

theorem restart_keeps_identity:
  assumes "boot B p fs = (Inr b, fs1)" and "length (bl_x_sk B) = 32" and "length (bl_e_sk B) = 32"
    and "boot B' p' fs2 = (Inr b', fs3)" and "cf_key_dir (bt_settings b') = cf_key_dir (bt_settings b)"
    and "\<And>q. q \<in> set (key_files (cf_key_dir (bt_settings b))) \<Longrightarrow> file_at fs2 q = file_at fs1 q"
  shows "ks_server (bt_keystore b') = ks_server (bt_keystore b)"
proof -
  let ?d = "cf_key_dir (bt_settings b)"
  from assms(1) have first: "load_server_identity ?d fs1 = Inr (ks_server (bt_keystore b))"
    by (rule boot_Inr) (use keystore_identity_on_disk [OF _ assms(2,3)] in blast)
  from assms(4) obtain rd lg fs4 fs5 where log: "open_log_file (cf_log_dir (bt_settings b')) fs2 = (Inr (), fs4)"
    and store: "check_storage (cf_storage_dir (bt_settings b')) fs4 (readiness_new\<lparr>rd_config_loaded := True\<rparr>) = (rd, fs5)"
    and ks: "load_or_init_keystore (bl_nacl B') (bl_toml B') (bl_x_sk B') (bl_e_sk B') (bl_age_text B') ?d
      (Some (cf_authorized_clients (bt_settings b'))) fs5 = (Inr (bt_keystore b'), fs3)"
    by (rule boot_Inr) (use assms(5) in simp)
  have same: "file_at fs5 q = file_at fs1 q" if "q \<in> set (key_files ?d)" for q
  proof -
    from that have ne: "q \<noteq> dir @ [''.rw_check'']" "q \<noteq> dir @ [''server.log'']" for dir
      by (auto simp: key_files_def x25519_path_def x25519_pub_path_def ed25519_path_def ed25519_pub_path_def)
    have "file_at fs5 q = file_at fs4 q" using check_storage_files [OF ne(1)] store by (metis snd_conv)
    also have "\<dots> = file_at fs2 q" by (rule open_log_file_files [OF log ne(2)])
    finally show ?thesis using assms(6) [OF that] by simp
  qed
  have loaded: "load_server_identity ?d fs5 = Inr (ks_server (bt_keystore b))" by (rule load_identity_same [OF first same])
  then have "exists_path fs5 (x25519_path ?d)"
    by (auto simp: load_server_identity_def and_then_Inr_iff file_at_read intro!: file_at_exists)
  then obtain al where "bt_keystore b' = \<lparr>ks_server = ks_server (bt_keystore b), ks_allowlist = al,
      ks_allowlist_path = Some (cf_authorized_clients (bt_settings b'))\<rparr>"
    using ks loaded by (auto simp: load_or_init_keystore_def and_then_Inr_iff dest!: sym [of _ "bt_keystore b'"])
  then show ?thesis by simp
qed

text \<open>An empty age key is final: where the age key file of an existing identity is empty (what initialization
  leaves when pyrage is missing or fails) no start succeeds, and running \<open>keystore init\<close> again, which the error
  asks for, reports success and changes nothing.\<close>

theorem empty_age_key_is_final:
  assumes "file_at fs (age_key_path d) = Some (m, [])" and "file_at fs (x25519_path d) = Some x"
    and "load_settings (bl_toml B) (bl_validate B) p fs = Inr s" and "cf_key_dir s = d"
  shows "(\<exists>e. fst (boot B p fs) = Inl e) \<and>
    cli_init (bl_nacl B) (bl_x_sk B) (bl_e_sk B) (bl_age_text B) d shown fs =
      (Inr (0, [''keystore: '' @ shown @ '' already initialized'']), fs)"
proof -
  have no: "boot B p fs \<noteq> (Inr b, fs')" for b :: "'c booted" and fs'
  proof
    assume boot: "boot B p fs = (Inr b, fs')"
    then obtain fs1 fs2 rd ks key where log: "open_log_file (cf_log_dir s) fs = (Inr (), fs1)"
      and store: "check_storage (cf_storage_dir s) fs1 (readiness_new\<lparr>rd_config_loaded := True\<rparr>) = (rd, fs2)"
      and ks: "load_or_init_keystore (bl_nacl B) (bl_toml B) (bl_x_sk B) (bl_e_sk B) (bl_age_text B) d
        (Some (cf_authorized_clients s)) fs2 = (Inr ks, fs')"
      and key: "at_rest_key_load (bl_age B) (si_age_secret_path (ks_server ks)) fs' = Inr key"
      by (rule boot_Inr) (use assms(3,4) in simp)
    have same: "file_at fs2 q = file_at fs q" if "q \<noteq> cf_storage_dir s @ [''.rw_check'']" "\<And>d. q \<noteq> d @ [''server.log'']" for q
      using check_storage_files [OF that(1)] store open_log_file_files [OF log that(2)] by (metis snd_conv)
    have "file_at fs2 (x25519_path d) = Some x" "file_at fs2 (age_key_path d) = Some (m, [])"
      using same assms(1,2) by (simp_all add: x25519_path_def age_key_path_def)
    moreover from this(1) have "exists_path fs2 (x25519_path d)" by (intro file_at_exists) simp
    ultimately have "fs' = fs2" "si_age_secret_path (ks_server ks) = age_key_path d"
      using ks by (auto simp: load_or_init_keystore_def load_server_identity_def and_then_Inr_iff split: sum.splits)
    moreover have "read_bytes fs2 (age_key_path d) = Inr []"
      using \<open>file_at fs2 (age_key_path d) = Some (m, [])\<close> by (auto simp: file_at_read)
    ultimately show False using key by (simp add: at_rest_key_load_def strip_def)
  qed
  then have "\<exists>e. fst (boot B p fs :: 'c booted result \<times> fs) = Inl e"
    by (metis prod.exhaust_sel sum.exhaust)
  moreover have "exists_path fs (x25519_path d)" using assms(2) by (intro file_at_exists) simp
  ultimately show ?thesis by (simp add: cli_init_def)
qed

section \<open>Concrete starts\<close>

definition demo_settings :: settings where
  "demo_settings = \<lparr>cf_host = ''h'', cf_port = 1, cf_shutdown_grace = 30, cf_cert_file = [''c''], cf_key_file = [''t''],
     cf_key_dir = [''k''], cf_authorized_clients = [''k'', ''clients.toml''], cf_session_ttl = 60,
     cf_session_max_lifetime = 600, cf_skew_seconds = 30, cf_storage_dir = [''s''], cf_tmpfs_dir = [''r''],
     cf_max_loaded = 1, cf_idle_timeout = 300, cf_disk_quota_gb = 1, cf_allow_download = True,
     cf_allowed_repo_prefixes = [], cf_n_ctx_default = 2048, cf_queue_depth = 8, cf_session_store = ''memory'',
     cf_session_store_url = None, cf_log_level = ''info'', cf_log_dir = None, cf_error_buffer_size = 10\<rparr>"

definition demo_boot :: "bytes \<Rightarrow> string option \<Rightarrow> boot_lib" where
  "demo_boot x_sk age_text = \<lparr>bl_nacl = demo_nacl, bl_toml = \<lparr>toml_load = (\<lambda>b. Some (JObj [])), toml_str = (\<lambda>v. [])\<rparr>,
     bl_age = demo_age, bl_validate = (\<lambda>kvs. Inr demo_settings), bl_x_sk = x_sk, bl_e_sk = replicate 32 2,
     bl_age_text = age_text\<rparr>"

definition demo_disk :: fs where
  "demo_disk = [([''c.toml''], File 420 [])]"

text \<open>The directory after the identity was generated.\<close>

definition demo_key_nodes :: "bytes \<Rightarrow> bytes \<Rightarrow> fs" where
  "demo_key_nodes x_sk age_text = [([''k''], Dir), ([''k'', ''server.x25519.key''], File 384 x_sk),
     ([''k'', ''server.x25519.key.pub''], File 420 (x25519_base demo_nacl x_sk)),
     ([''k'', ''server.ed25519.key''], File 384 (replicate 32 2)),
     ([''k'', ''server.ed25519.key.pub''], File 420 (ed25519_pub demo_nacl (replicate 32 2))),
     ([''k'', ''server.age.key''], File 384 age_text)]"

lemma demo_load_settings:
  "map_of fs [''c.toml''] = Some (File 420 []) \<Longrightarrow> load_settings (bl_toml (demo_boot x a)) (bl_validate (demo_boot x a)) [''c.toml''] fs =
     Inr (demo_settings\<lparr>cf_log_level := ''INFO''\<rparr>)"
proof -
  have "str_upper ''info'' = ''INFO''" by code_simp
  then show "map_of fs [''c.toml''] = Some (File 420 []) \<Longrightarrow> ?thesis"
    by (simp add: load_settings_def read_bytes_def demo_boot_def demo_settings_def)
qed

lemma demo_first_start:
  "\<exists>b. boot (demo_boot (replicate 32 1) (Some ''AGE'')) [''c.toml''] demo_disk =
    (Inr b, demo_disk @ [([''s''], Dir)] @ demo_key_nodes (replicate 32 1) (raw_bytes ''AGE'')) \<and> cf_key_dir (bt_settings b) = [''k'']"
proof -
  have level: "logging_configure ''INFO'' None = Inr \<lparr>lg_min = 20, lg_root = 20, lg_levels = [], lg_ring = ring_new 10000, lg_out = []\<rparr>"
    by code_simp
  have set: "load_settings (bl_toml (demo_boot x a)) (bl_validate (demo_boot x a)) [''c.toml''] demo_disk =
     Inr (demo_settings\<lparr>cf_log_level := ''INFO''\<rparr>)" for x a
    by (rule demo_load_settings) (simp add: demo_disk_def)
  have store: "check_storage [''s''] demo_disk (readiness_new\<lparr>rd_config_loaded := True\<rparr>) =
      (\<lparr>rd_config_loaded = True, rd_keystore_loaded = False, rd_storage_dir_writable = True\<rparr>, demo_disk @ [([''s''], Dir)])"
    by (simp add: check_storage_def demo_disk_def readiness_new_def mkdir_p_def prefixes_of_def is_dir_def exists_path_def
        write_bytes_def path_parent_def unlink_path_def Let_def)
  have ascii: "ascii_encode ''AGE'' = Inr (raw_bytes ''AGE'')" by code_simp
  have keys: "\<exists>ks. load_or_init_keystore demo_nacl \<lparr>toml_load = (\<lambda>b. Some (JObj [])), toml_str = (\<lambda>v. [])\<rparr> (replicate 32 1)
      (replicate 32 2) (Some ''AGE'') [''k''] (Some [''k'', ''clients.toml'']) (demo_disk @ [([''s''], Dir)]) =
    (Inr ks, demo_disk @ [([''s''], Dir)] @ demo_key_nodes (replicate 32 1) (raw_bytes ''AGE'')) \<and>
    si_age_secret_path (ks_server ks) = [''k'', ''server.age.key'']"
    by (simp add: load_or_init_keystore_def init_server_identity_def write_secret_def write_file_def write_age_key_def
        write_bytes_def mkdir_p_def prefixes_of_def is_dir_def exists_path_def path_parent_def x25519_path_def
        ed25519_path_def x25519_pub_path_def ed25519_pub_path_def age_key_path_def Let_def demo_disk_def demo_key_nodes_def
        ascii load_allowlist_def parse_clients_file_def list_dir_def DEFAULT_MODE_def dict_update_def)
  then obtain ks where ks: "load_or_init_keystore demo_nacl \<lparr>toml_load = (\<lambda>b. Some (JObj [])), toml_str = (\<lambda>v. [])\<rparr> (replicate 32 1)
      (replicate 32 2) (Some ''AGE'') [''k''] (Some [''k'', ''clients.toml'']) (demo_disk @ [([''s''], Dir)]) =
    (Inr ks, demo_disk @ [([''s''], Dir)] @ demo_key_nodes (replicate 32 1) (raw_bytes ''AGE''))"
    "si_age_secret_path (ks_server ks) = [''k'', ''server.age.key'']" by blast
  have chars: "map char_of_byte (raw_bytes ''AGE'') = ''AGE''" "strip ''AGE'' = ''AGE''" "is_ascii (CHR ''A'')" "is_ascii (CHR ''G'')" "is_ascii (CHR ''E'')"
    by code_simp+
  have age: "\<exists>key. at_rest_key_load demo_age [''k'', ''server.age.key'']
      (demo_disk @ [([''s''], Dir)] @ demo_key_nodes (replicate 32 1) (raw_bytes ''AGE'')) = Inr key"
    by (simp add: at_rest_key_load_def read_bytes_def demo_disk_def demo_key_nodes_def chars demo_age_def Let_def)
  have "choose_store (demo_settings\<lparr>cf_log_level := ''INFO''\<rparr>) = Inr MemoryStore" by (simp add: choose_store_def demo_settings_def)
  then show ?thesis using age
    by (auto simp: boot_def set) (simp add: demo_settings_def demo_boot_def open_log_file_def level store ks)
qed

lemma demo_second_start:
  "\<exists>b fs'. boot (demo_boot (replicate 32 9) None) [''c.toml'']
      (demo_disk @ [([''s''], Dir)] @ demo_key_nodes (replicate 32 1) (raw_bytes ''AGE'')) = (Inr b, fs') \<and>
    cf_key_dir (bt_settings b) = [''k'']"
proof -
  define fs where "fs = demo_disk @ [([''s''], Dir)] @ demo_key_nodes (replicate 32 1) (raw_bytes ''AGE'')"
  have level: "logging_configure ''INFO'' None = Inr \<lparr>lg_min = 20, lg_root = 20, lg_levels = [], lg_ring = ring_new 10000, lg_out = []\<rparr>"
    by code_simp
  have set: "load_settings (bl_toml (demo_boot x a)) (bl_validate (demo_boot x a)) [''c.toml''] fs =
     Inr (demo_settings\<lparr>cf_log_level := ''INFO''\<rparr>)" for x a
    by (rule demo_load_settings) (simp add: fs_def demo_disk_def)
  have store: "check_storage [''s''] fs (readiness_new\<lparr>rd_config_loaded := True\<rparr>) =
      (\<lparr>rd_config_loaded = True, rd_keystore_loaded = False, rd_storage_dir_writable = True\<rparr>, fs)"
    by (simp add: check_storage_def fs_def demo_disk_def demo_key_nodes_def readiness_new_def mkdir_p_def prefixes_of_def is_dir_def
        exists_path_def write_bytes_def path_parent_def unlink_path_def Let_def)
  have perms: "(384::nat) AND 63 = 0" by code_simp
  have keys: "\<exists>ks. load_or_init_keystore demo_nacl \<lparr>toml_load = (\<lambda>b. Some (JObj [])), toml_str = (\<lambda>v. [])\<rparr> (replicate 32 9)
      (replicate 32 2) None [''k''] (Some [''k'', ''clients.toml'']) fs = (Inr ks, fs) \<and>
    si_age_secret_path (ks_server ks) = [''k'', ''server.age.key'']"
    by (simp add: load_or_init_keystore_def load_server_identity_def require_secret_perms_def file_mode_def read_bytes_def
        nacl_key_def SECRET_MASK_def perms exists_path_def x25519_path_def is_dir_def
        ed25519_path_def x25519_pub_path_def ed25519_pub_path_def age_key_path_def fs_def demo_disk_def demo_key_nodes_def
        load_allowlist_def parse_clients_file_def list_dir_def path_parent_def dict_update_def)
  then obtain ks where ks: "load_or_init_keystore demo_nacl \<lparr>toml_load = (\<lambda>b. Some (JObj [])), toml_str = (\<lambda>v. [])\<rparr> (replicate 32 9)
      (replicate 32 2) None [''k''] (Some [''k'', ''clients.toml'']) fs = (Inr ks, fs)"
    "si_age_secret_path (ks_server ks) = [''k'', ''server.age.key'']" by blast
  have chars: "map char_of_byte (raw_bytes ''AGE'') = ''AGE''" "strip ''AGE'' = ''AGE''" "is_ascii (CHR ''A'')"
    "is_ascii (CHR ''G'')" "is_ascii (CHR ''E'')" by code_simp+
  have age: "\<exists>key. at_rest_key_load demo_age [''k'', ''server.age.key''] fs = Inr key"
    by (simp add: at_rest_key_load_def read_bytes_def fs_def demo_disk_def demo_key_nodes_def chars demo_age_def Let_def)
  have "choose_store (demo_settings\<lparr>cf_log_level := ''INFO''\<rparr>) = Inr MemoryStore" by (simp add: choose_store_def demo_settings_def)
  then show ?thesis using age unfolding fs_def [symmetric]
    by (auto simp: boot_def set) (simp add: demo_settings_def demo_boot_def open_log_file_def level store ks)
qed

theorem restart_keeps_identity_witness:
  "\<exists>b fs1 b' fs3. boot (demo_boot (replicate 32 1) (Some ''AGE'')) [''c.toml''] demo_disk = (Inr (b :: nat booted), fs1) \<and>
     boot (demo_boot (replicate 32 9) None) [''c.toml''] fs1 = (Inr (b' :: nat booted), fs3) \<and>
     ks_server (bt_keystore b') = ks_server (bt_keystore b)"
proof -
  let ?fs1 = "demo_disk @ [([''s''], Dir)] @ demo_key_nodes (replicate 32 1) (raw_bytes ''AGE'')"
  obtain b :: "nat booted" where b: "boot (demo_boot (replicate 32 1) (Some ''AGE'')) [''c.toml''] demo_disk = (Inr b, ?fs1)"
    "cf_key_dir (bt_settings b) = [''k'']" using demo_first_start by blast
  obtain b' :: "nat booted" and fs3 where b': "boot (demo_boot (replicate 32 9) None) [''c.toml''] ?fs1 = (Inr b', fs3)"
    "cf_key_dir (bt_settings b') = [''k'']" using demo_second_start by blast
  have "length (bl_x_sk (demo_boot (replicate 32 1) (Some ''AGE''))) = 32" "length (bl_e_sk (demo_boot (replicate 32 1) (Some ''AGE''))) = 32"
    by (simp_all add: demo_boot_def)
  from restart_keeps_identity [OF b(1) this b'(1)] b b' show ?thesis by auto
qed

theorem empty_age_key_is_final_witness:
  "snd (init_server_identity demo_nacl (replicate 32 1) (replicate 32 2) None [''k''] demo_disk) =
     demo_disk @ demo_key_nodes (replicate 32 1) [] \<and>
   (\<exists>e. fst (boot (demo_boot (replicate 32 9) (Some ''AGE'')) [''c.toml''] (demo_disk @ demo_key_nodes (replicate 32 1) [])
     :: nat booted result \<times> fs) = Inl e) \<and>
   snd (cli_init demo_nacl (replicate 32 9) (replicate 32 2) (Some ''AGE'') [''k''] ''k'' (demo_disk @ demo_key_nodes (replicate 32 1) [])) =
     demo_disk @ demo_key_nodes (replicate 32 1) []"
proof -
  let ?fs = "demo_disk @ demo_key_nodes (replicate 32 1) []" and ?B = "demo_boot (replicate 32 9) (Some ''AGE'')"
  have init: "\<exists>ident. init_server_identity demo_nacl (replicate 32 1) (replicate 32 2) None [''k''] demo_disk = (Inr ident, ?fs)"
    by (simp add: init_server_identity_def write_secret_def write_file_def write_age_key_def
        write_bytes_def mkdir_p_def prefixes_of_def is_dir_def exists_path_def path_parent_def x25519_path_def
        ed25519_path_def x25519_pub_path_def ed25519_pub_path_def age_key_path_def Let_def demo_disk_def demo_key_nodes_def
        DEFAULT_MODE_def)
  have files: "file_at ?fs (age_key_path [''k'']) = Some (384, [])" "file_at ?fs (x25519_path [''k'']) = Some (384, replicate 32 1)"
    by (simp_all add: file_at_def demo_disk_def demo_key_nodes_def age_key_path_def x25519_path_def)
  have set: "load_settings (bl_toml ?B) (bl_validate ?B) [''c.toml''] ?fs = Inr (demo_settings\<lparr>cf_log_level := ''INFO''\<rparr>)"
    by (rule demo_load_settings) (simp add: demo_disk_def)
  have dir: "cf_key_dir (demo_settings\<lparr>cf_log_level := ''INFO''\<rparr>) = [''k'']" by (simp add: demo_settings_def)
  from empty_age_key_is_final [OF files set dir, of "''k''"] init show ?thesis by (auto simp: demo_boot_def)
qed

end
