(* ===== verification/Readings.thy ===== *)
theory Readings
  imports Introspection
begin

text \<open>
  What the status pages read of the machine (\<open>sysinfo.py\<close>), and the viewer of the server's log lines
  (\<open>scripts_pretty_log.py\<close>). psutil, \<open>shutil.disk_usage\<close>, pynvml, and Python's formatting of values are parameters.
\<close>

section \<open>Readings of the machine\<close>

text \<open>\<open>nv_init\<close>: importing pynvml and \<open>nvmlInit\<close> succeeded. Every other call may raise.\<close>

record 'h sysinfo_lib =
  ps_cpu_percent :: float_py
  ps_virtual_memory :: "int \<times> int" \<comment> \<open>\<open>total\<close>, \<open>available\<close>\<close>
  sh_disk_usage :: "path \<Rightarrow> (int \<times> int) result" \<comment> \<open>\<open>total\<close>, \<open>free\<close>\<close>
  nv_init :: bool
  nv_count :: "int result"
  nv_handle :: "int \<Rightarrow> 'h result"
  nv_memory :: "'h \<Rightarrow> (int \<times> int) result" \<comment> \<open>\<open>total\<close>, \<open>used\<close>\<close>
  nv_utilization :: "'h \<Rightarrow> (int \<times> int) result" \<comment> \<open>\<open>gpu\<close>, \<open>memory\<close>\<close>
  nv_name :: "'h \<Rightarrow> json result"

definition cpu_percent :: "'h sysinfo_lib \<Rightarrow> float_py" where
  "cpu_percent P = ps_cpu_percent P"

definition ram :: "'h sysinfo_lib \<Rightarrow> int \<times> int" where
  "ram P = ps_virtual_memory P"

definition disk :: "'h sysinfo_lib \<Rightarrow> path \<Rightarrow> (int \<times> int) result" where
  "disk P path = sh_disk_usage P path"

definition gpu_reading :: "'h sysinfo_lib \<Rightarrow> int \<Rightarrow> json result" where
  "gpu_reading P i =
     and_then (nv_handle P i) (\<lambda>h.
     and_then (nv_memory P h) (\<lambda>(total, used).
     and_then (nv_utilization P h) (\<lambda>(gpu, memory).
     and_then (nv_name P h) (\<lambda>name.
       Inr (JObj [(''index'', JInt i), (''name'', name), (''mem_total'', JInt total), (''mem_used'', JInt used),
         (''util_gpu'', JInt gpu), (''util_mem'', JInt memory)])))))"

text \<open>The loop, with \<open>out\<close> kept in reverse; an exception ends it with what there is.\<close>

fun gpu_loop :: "'h sysinfo_lib \<Rightarrow> int list \<Rightarrow> json list \<Rightarrow> json list" where
  "gpu_loop P [] out = rev out"
| "gpu_loop P (i # is) out = (case gpu_reading P i of Inl e \<Rightarrow> rev out | Inr g \<Rightarrow> gpu_loop P is (g # out))"

definition gpus :: "'h sysinfo_lib \<Rightarrow> json list" where
  "gpus P =
     (if \<not> nv_init P then []
      else case nv_count P of Inl e \<Rightarrow> [] | Inr n \<Rightarrow> gpu_loop P [0..n - 1] [])"

text \<open>The devices are listed in order up to the first that cannot be read.\<close>

lemma gpu_loop_prefix:
  "gpu_loop P is out = rev out @ map projr (takeWhile is_ok (map (gpu_reading P) is))"
  by (induction P "is" out rule: gpu_loop.induct) (auto split: sum.split)

theorem gpus_in_order:
  assumes "i < length (gpus P)"
  shows "nv_init P \<and> gpu_reading P (int i) = Inr (gpus P ! i)"
proof -
  have init: "nv_init P" using assms by (cases "nv_init P") (simp_all add: gpus_def)
  obtain n where n: "nv_count P = Inr n" using assms init by (cases "nv_count P") (simp_all add: gpus_def)
  have g: "gpus P = map projr (takeWhile is_ok (map (gpu_reading P) [0..n - 1]))"
    by (simp add: gpus_def init n gpu_loop_prefix)
  let ?xs = "map (gpu_reading P) [0..n - 1]"
  have len: "i < length (takeWhile is_ok ?xs)" using assms g by simp
  then have "is_ok (takeWhile is_ok ?xs ! i)" by (meson nth_mem set_takeWhileD)
  moreover have nth: "takeWhile is_ok ?xs ! i = ?xs ! i" by (rule takeWhile_nth [OF len])
  moreover have "i < nat n" using len length_takeWhile_le [of is_ok ?xs] by simp
  then have "?xs ! i = gpu_reading P (int i)" by simp
  ultimately have "is_ok (gpu_reading P (int i))" by simp
  then have "gpu_reading P (int i) = Inr (projr (gpu_reading P (int i)))" by (cases "gpu_reading P (int i)") simp_all
  moreover have "gpus P ! i = projr (gpu_reading P (int i))" using len nth \<open>?xs ! i = gpu_reading P (int i)\<close> by (simp add: g)
  ultimately show ?thesis using init by simp
qed

section \<open>The log viewer\<close>

text \<open>\<open>vw_rich\<close>: rich could be imported. \<open>vw_format\<close> is \<open>format(value, spec)\<close>, which may raise.\<close>

record log_view =
  vw_json :: json_lib
  vw_rich :: bool
  vw_format :: "string \<Rightarrow> json \<Rightarrow> string result"

datatype printed = Printed string | Styled string string

definition ljust :: "nat \<Rightarrow> string \<Rightarrow> string" where
  "ljust n s = s @ replicate (n - length s) (CHR '' '')"

definition LOG_COLORS :: "(string \<times> string) list" where
  "LOG_COLORS = [(''INFO'', ''cyan''), (''WARNI'', ''yellow''), (''WARNING'', ''yellow''), (''ERROR'', ''red''), (''DEBUG'', ''dim'')]"

definition obj_get :: "(string \<times> json) list \<Rightarrow> string \<Rightarrow> json \<Rightarrow> json" where
  "obj_get kvs k d = (case map_of kvs k of None \<Rightarrow> d | Some v \<Rightarrow> v)"

definition pretty_entry :: "log_view \<Rightarrow> (string \<times> json) list \<Rightarrow> printed result" where
  "pretty_entry V kvs =
     and_then (vw_format V [] (obj_get kvs ''level'' (JStr ''info''))) (\<lambda>level.
       let lvl = ljust 5 (str_upper level);
           extra = filter (\<lambda>(k, v). k \<notin> set [''timestamp'', ''level'', ''logger'', ''event'']) kvs in
     and_then (vw_format V ''>17'' (obj_get kvs ''timestamp'' (JStr []))) (\<lambda>ts.
     and_then (vw_format V [] (obj_get kvs ''logger'' (JStr []))) (\<lambda>comp.
     and_then (vw_format V [] (obj_get kvs ''event'' (JStr []))) (\<lambda>ev.
     and_then (vw_format V [] (JObj extra)) (\<lambda>extra.
       let msg = ts @ ''  '' @ lvl @ ''  '' @ comp @ ''  '' @ ev @ ''  '' @ extra in
       Inr (if vw_rich V then Styled (case map_of LOG_COLORS (strip lvl) of None \<Rightarrow> ''white'' | Some c \<Rightarrow> c) msg
            else Printed msg))))))"

text \<open>One line of the input: a blank one is skipped, what is no JSON is shown as it is.\<close>

definition pretty_line :: "log_view \<Rightarrow> string \<Rightarrow> printed list result" where
  "pretty_line V line =
     (let line = strip line in
      if line = [] then Inr []
      else case json_loads (vw_json V) (utf8_encode line) of
        None \<Rightarrow> Inr [Printed line]
      | Some (JObj kvs) \<Rightarrow> and_then (pretty_entry V kvs) (\<lambda>p. Inr [p])
      | Some v \<Rightarrow> Inl AttributeError)"

fun pretty_log :: "log_view \<Rightarrow> string list \<Rightarrow> printed list \<times> exn option" where
  "pretty_log V [] = ([], None)"
| "pretty_log V (line # lines) =
     (case pretty_line V line of
        Inl e \<Rightarrow> ([], Some e)
      | Inr out \<Rightarrow> (case pretty_log V lines of (rest, e) \<Rightarrow> (out @ rest, e)))"

text \<open>The viewer shows every line up to one that is JSON but no object (or a value that cannot be formatted): it ends it.\<close>

lemma pretty_log_append:
  "pretty_log V (xs @ ys) = (case pretty_log V xs of
     (out, None) \<Rightarrow> (case pretty_log V ys of (rest, e) \<Rightarrow> (out @ rest, e)) | (out, Some e) \<Rightarrow> (out, Some e))"
  by (induction xs) (auto split: sum.split prod.split option.split)

theorem one_scalar_ends_viewer:
  assumes "strip line \<noteq> []" and "json_loads (vw_json V) (utf8_encode (strip line)) = Some (JInt n)"
    and "pretty_log V before = (out, None)"
  shows "pretty_log V (before @ line # after) = (out, Some AttributeError)"
  using assms by (simp add: pretty_log_append pretty_line_def Let_def)

end
