(* ===== verification/Runs.thy ===== *)
theory Runs
  imports Prelude "HOL-Library.Sublist"
begin

text \<open>
  Runs of a labelled step relation, and the locale \<open>stamping\<close>: a step that uses something up never uses it twice.
  The relations themselves are those of theories \<open>Traffic\<close> and \<open>Server\<close>.
\<close>

section \<open>Labelled runs\<close>

inductive steps :: "('w \<Rightarrow> 'd \<Rightarrow> 'w \<Rightarrow> bool) \<Rightarrow> 'w \<Rightarrow> 'd list \<Rightarrow> 'w \<Rightarrow> bool" for step where
  steps_none: "steps step w [] w"
| steps_more: "step w d w1 \<Longrightarrow> steps step w1 ds w' \<Longrightarrow> steps step w (d # ds) w'"

inductive_simps steps_Nil [simp]: "steps step w [] w'"
inductive_simps steps_Cons: "steps step w (d # ds) w'"

lemma steps_one: "step w d w' \<Longrightarrow> steps step w [d] w'"
  by (blast intro: steps.intros)

lemma steps_append: "steps step w (ds @ ds') w' \<longleftrightarrow> (\<exists>w1. steps step w ds w1 \<and> steps step w1 ds' w')"
  by (induction ds arbitrary: w) (auto simp: steps_Cons)

lemma steps_invariant:
  assumes "steps step w ds w'" and "P w" and "\<And>w d w'. step w d w' \<Longrightarrow> P w \<Longrightarrow> P w'"
  shows "P w'"
  using assms by (induction rule: steps.induct) auto

lemma map_filter_append: "List.map_filter f (xs @ ys) = List.map_filter f xs @ List.map_filter f ys"
  by (simp add: List.map_filter_def)

lemma subseq_distinct: "subseq xs ys \<Longrightarrow> distinct ys \<Longrightarrow> distinct xs"
  unfolding subseq_conv_nths by (auto intro: distinct_nthsI)

section \<open>What is used up is used up for good\<close>

text \<open>
  \<open>stamp\<close> is what a step consumes, if anything. In a good state a step consumes only what is unused, leaves it
  used, and nothing that is used becomes unused.
\<close>

locale stamping =
  fixes step :: "'w \<Rightarrow> 'd \<Rightarrow> 'w \<Rightarrow> bool" and good :: "'w \<Rightarrow> bool"
    and stamp :: "'d \<Rightarrow> 'k option" and used :: "'w \<Rightarrow> 'k \<Rightarrow> bool"
  assumes good_step: "good w \<Longrightarrow> step w d w' \<Longrightarrow> good w'"
    and used_step: "good w \<Longrightarrow> step w d w' \<Longrightarrow> used w k \<Longrightarrow> used w' k"
    and stamp_fresh: "good w \<Longrightarrow> step w d w' \<Longrightarrow> stamp d = Some k \<Longrightarrow> \<not> used w k \<and> used w' k"
begin

lemma run_good: "steps step w ds w' \<Longrightarrow> good w \<Longrightarrow> good w'"
  by (erule steps_invariant) (auto intro: good_step)

lemma run_used: "steps step w ds w' \<Longrightarrow> good w \<Longrightarrow> used w k \<Longrightarrow> used w' k"
  by (induction rule: steps.induct) (auto dest: good_step used_step)

lemma run_stamps:
  "steps step w ds w' \<Longrightarrow> good w \<Longrightarrow>
    distinct (List.map_filter stamp ds) \<and> (\<forall>k \<in> set (List.map_filter stamp ds). \<not> used w k \<and> used w' k)"
proof (induction rule: steps.induct)
  case (steps_none w)
  then show ?case by (simp add: List.map_filter_def)
next
  case (steps_more w d w1 ds w')
  have good: "good w1" by (rule good_step [OF steps_more.prems steps_more.hyps(1)])
  note IH = steps_more.IH [OF good] and used = used_step [OF steps_more.prems steps_more.hyps(1)]
  show ?case
  proof (cases "stamp d")
    case None
    with IH used show ?thesis by (auto simp: map_filter_simps)
  next
    case (Some k)
    note fresh = stamp_fresh [OF steps_more.prems steps_more.hyps(1) Some]
    have "used w' k" by (rule run_used [OF steps_more.hyps(2) good]) (use fresh in simp)
    with Some fresh IH used show ?thesis by (auto simp: map_filter_simps)
  qed
qed

end

section \<open>What every run of the program is a run of\<close>

text \<open>A specification \<open>spec\<close> over the abstraction \<open>abs\<close> admits every step.\<close>

locale simulation =
  fixes step :: "'w \<Rightarrow> 'd \<Rightarrow> 'w \<Rightarrow> bool" and good :: "'w \<Rightarrow> bool"
    and spec :: "'a \<Rightarrow> 'd \<Rightarrow> 'a \<Rightarrow> bool" and abs :: "'w \<Rightarrow> 'a"
  assumes good_kept: "good w \<Longrightarrow> step w d w' \<Longrightarrow> good w'"
    and simulates: "good w \<Longrightarrow> step w d w' \<Longrightarrow> spec (abs w) d (abs w')"
begin

lemma run_simulates: "steps step w ds w' \<Longrightarrow> good w \<Longrightarrow> steps spec (abs w) ds (abs w') \<and> good w'"
  by (induction rule: steps.induct) (auto intro: steps.intros dest: good_kept simulates)

end

end
