(* ===== verification/Traffic.thy ===== *)
theory Traffic
  imports Runs Authority
begin

text \<open>
  What can happen to the sessions of a single-instance server, as a step relation on the world of theory
  \<open>Session\<close>. The steps are the places where \<open>session/manager.py\<close>, \<open>store.py\<close>, \<open>_envelope_dep.py\<close> and
  \<open>llm/streaming.py\<close> write to a session or to the table; their labels say what was done to which session.
  The locale \<open>stamping\<close> is the argument that a step that uses something up never does so twice; it has three
  instances, for counters sent, counters taken and session ids. Theory \<open>Server\<close> shows that every endpoint is
  a run of these steps.
\<close>

section \<open>What can be done to sessions\<close>

text \<open>What a session stands for: who its client is and what it may do.\<close>

record login =
  lo_tenant :: string
  lo_scopes :: "string fset"
  lo_fingerprint :: string

definition login_of :: "session \<Rightarrow> login" where
  "login_of s = \<lparr>lo_tenant = se_tenant s, lo_scopes = se_scopes s, lo_fingerprint = se_client_fingerprint s\<rparr>"

datatype deed =
    Took bytes int \<comment> \<open>a counter of a client\<close>
  | Touched bytes
  | Sent bytes int \<comment> \<open>a counter of the server\<close>
  | Ended bytes
  | Expired bytes
  | Reaped "bytes list"
  | Opened bytes login

abbreviation sid_at :: "heap \<Rightarrow> ref \<Rightarrow> bytes" where
  "sid_at h r \<equiv> se_session_id (h ! r)"

definition bump :: "session \<Rightarrow> session" where
  "bump s = s\<lparr>se_s2c_counter := se_s2c_counter s + 1\<rparr>"

text \<open>The session ids that reaping takes out of the table.\<close>

definition reaped :: "float_py \<Rightarrow> heap \<Rightarrow> cache \<Rightarrow> bytes list" where
  "reaped now h d = map fst (filter (\<lambda>(sid, r). is_expired now (h ! r)) d)"

inductive world_step :: "cache world \<Rightarrow> deed \<Rightarrow> cache world \<Rightarrow> bool" where
  ws_take: "r < length h \<Longrightarrow> check_and_advance c (se_replay (h ! r)) = Inr win \<Longrightarrow>
    world_step (h, d) (Took (sid_at h r) c) (h[r := (h ! r)\<lparr>se_replay := win\<rparr>], d)"
| ws_touch: "map_of d (sid_at h r) = Some r \<Longrightarrow>
    world_step (h, d) (Touched (sid_at h r)) (h[r := touch t (h ! r)], AList.update (sid_at h r) r d)"
| ws_send: "r < length h \<Longrightarrow>
    world_step (h, d) (Sent (sid_at h r) (se_s2c_counter (h ! r) + 1)) (h[r := bump (h ! r)], d)"
| ws_end: "map_of d sid = Some r \<Longrightarrow>
    world_step (h, d) (Ended sid) (h[r := zero_session (h ! r)], AList.delete sid d)"
| ws_expire: "map_of d sid = Some r \<Longrightarrow> is_expired t (h ! r) \<Longrightarrow>
    world_step (h, d) (Expired sid) (h[r := zero_session (h ! r)], AList.delete sid d)"
| ws_reap: "world_step (h, d) (Reaped (reaped now h d)) (h, snd (reap_cache now h d))"
| ws_open: "s = session_new now ttl life m \<Longrightarrow> session_ok s \<Longrightarrow> se_session_id s \<notin> se_session_id ` set h \<Longrightarrow>
    world_step (h, d) (Opened (se_session_id s) (login_of s)) (h @ [s], AList.update (se_session_id s) (length h) d)"

inductive_cases world_stepE: "world_step w d w'"

section \<open>Good worlds\<close>

definition world_ok :: "cache world \<Rightarrow> bool" where
  "world_ok w \<longleftrightarrow> cache_ok (fst w) (snd w) \<and> windows_ok (fst w) \<and> (\<forall>s \<in> set (fst w). session_ok s) \<and>
     distinct (map se_session_id (fst w))"

lemma world_okD:
  assumes "world_ok (h, d)"
  shows "cache_ok h d" and "windows_ok h" and "r < length h \<Longrightarrow> session_ok (h ! r)"
    and "distinct (map se_session_id h)"
  using assms by (auto simp: world_ok_def)

lemma sid_at_inj:
  "world_ok (h, d) \<Longrightarrow> r < length h \<Longrightarrow> q < length h \<Longrightarrow> sid_at h r = sid_at h q \<Longrightarrow> r = q"
  by (auto simp: world_ok_def distinct_conv_nth)

lemma map_sid_update: "se_session_id x = sid_at h r \<Longrightarrow> map se_session_id (h[r := x]) = map se_session_id h"
  by (cases "r < length h") (auto simp: nth_list_update intro!: nth_equalityI)

lemma world_ok_update:
  assumes "world_ok (h, d)" and "se_session_id x = sid_at h r" and "session_ok x" and "rw_ok (se_replay x)"
  shows "world_ok (h[r := x], d)"
  using assms
  by (auto simp: world_ok_def cache_ok_update windows_ok_update map_sid_update dest!: set_update_subset_insert [THEN subsetD])

lemma world_ok_table: "world_ok (h, d) \<Longrightarrow> cache_ok h d' \<Longrightarrow> world_ok (h, d')"
  by (simp add: world_ok_def)

lemma world_ok_put: "world_ok (h, d) \<Longrightarrow> r < length h \<Longrightarrow> sid = sid_at h r \<Longrightarrow> world_ok (h, AList.update sid r d)"
  using cache_ok_put [of h d r] by (simp add: world_ok_def)

lemma world_ok_delete: "world_ok (h, d) \<Longrightarrow> world_ok (h, AList.delete sid d)"
  using cache_ok_delete [of h d sid] by (simp add: world_ok_def)

lemma zero_session_simps [simp]:
  "se_session_id (zero_session s) = se_session_id s" "se_replay (zero_session s) = se_replay s"
  "se_s2c_counter (zero_session s) = se_s2c_counter s" "login_of (zero_session s) = login_of s"
  "session_ok s \<Longrightarrow> session_ok (zero_session s)"
  by (simp_all add: zero_session_def Let_def login_of_def session_ok_def dk_ok_def)

lemma touch_simps [simp]:
  "se_session_id (touch t s) = se_session_id s" "se_replay (touch t s) = se_replay s"
  "se_s2c_counter (touch t s) = se_s2c_counter s" "login_of (touch t s) = login_of s"
  "session_ok (touch t s) = session_ok s"
  by (simp_all add: touch_def login_of_def session_ok_def)

lemma bump_simps [simp]:
  "se_session_id (bump s) = se_session_id s" "se_replay (bump s) = se_replay s"
  "se_s2c_counter (bump s) = se_s2c_counter s + 1" "login_of (bump s) = login_of s"
  "session_ok (bump s) = session_ok s" "se_s2c (bump s) = se_s2c s"
  by (simp_all add: bump_def login_of_def session_ok_def)

lemma world_ok_open:
  assumes "world_ok (h, d)" and "session_ok s" and "se_session_id s \<notin> se_session_id ` set h" and "rw_ok (se_replay s)"
  shows "world_ok (h @ [s], AList.update (se_session_id s) (length h) d)"
  using assms cache_ok_put [OF cache_ok_alloc [OF world_okD(1) [OF assms(1)], of "[s]"], of "length h"]
  by (auto simp: world_ok_def windows_ok_def)

lemma world_step_ok: "world_step w x w' \<Longrightarrow> world_ok w \<Longrightarrow> world_ok w'"
proof (induction rule: world_step.induct)
  case (ws_take r h c win d)
  have "rw_ok win" by (rule rw.inv_check [OF windows_ok_nth [OF world_okD(2) [OF ws_take(3)] ws_take(1)] ws_take(2)])
  then show ?case
    using world_okD(3) [OF ws_take(3) ws_take(1)] by (intro world_ok_update [OF ws_take(3)]) (simp_all add: session_ok_def)
next
  case (ws_touch d h r t)
  note w = world_okD [OF ws_touch(2)]
  have r: "r < length h" using cache_okD [OF w(1) ws_touch(1)] by simp
  have "world_ok (h[r := touch t (h ! r)], d)"
    using w(3) [OF r] windows_ok_nth [OF w(2) r] by (intro world_ok_update [OF ws_touch(2)]) simp_all
  then show ?case by (rule world_ok_put) (use r in simp_all)
next
  case (ws_send r h d)
  note w = world_okD [OF ws_send(2)]
  show ?case using w(3) [OF ws_send(1)] windows_ok_nth [OF w(2) ws_send(1)]
    by (intro world_ok_update [OF ws_send(2)]) simp_all
next
  case (ws_end d sid r h)
  note w = world_okD [OF ws_end(2)]
  have r: "r < length h" using cache_okD [OF w(1) ws_end(1)] by simp
  have "world_ok (h[r := zero_session (h ! r)], d)"
    using w(3) [OF r] windows_ok_nth [OF w(2) r] by (intro world_ok_update [OF ws_end(2)]) simp_all
  then show ?case by (rule world_ok_delete)
next
  case (ws_expire d sid r t h)
  note w = world_okD [OF ws_expire(3)]
  have r: "r < length h" using cache_okD [OF w(1) ws_expire(1)] by simp
  have "world_ok (h[r := zero_session (h ! r)], d)"
    using w(3) [OF r] windows_ok_nth [OF w(2) r] by (intro world_ok_update [OF ws_expire(3)]) simp_all
  then show ?case by (rule world_ok_delete)
next
  case (ws_reap h d now)
  note w = world_okD [OF ws_reap(1)]
  have "dict_ok d" using w(1) by (simp add: cache_ok_def)
  from reap_cache_filter [OF this] show ?case
    by (intro world_ok_table [OF ws_reap(1)]) (simp add: cache_ok_filter [OF w(1)])
next
  case (ws_open s now ttl life m h d)
  then show ?case by (intro world_ok_open) (simp_all add: session_new_def rw_ok_new)
qed

section \<open>Three kinds of stamps\<close>

definition sent_stamp :: "deed \<Rightarrow> (bytes \<times> int) option" where
  "sent_stamp x = (case x of Sent sid c \<Rightarrow> Some (sid, c) | _ \<Rightarrow> None)"

definition took_stamp :: "deed \<Rightarrow> (bytes \<times> int) option" where
  "took_stamp x = (case x of Took sid c \<Rightarrow> Some (sid, c) | _ \<Rightarrow> None)"

definition opened_stamp :: "deed \<Rightarrow> bytes option" where
  "opened_stamp x = (case x of Opened sid l \<Rightarrow> Some sid | _ \<Rightarrow> None)"

lemmas stamp_defs = sent_stamp_def took_stamp_def opened_stamp_def

text \<open>Objects stay where they are on the heap, and only ever advance.\<close>

definition session_le :: "session \<Rightarrow> session \<Rightarrow> bool" where
  "session_le s s' \<longleftrightarrow> se_session_id s' = se_session_id s \<and> login_of s' = login_of s \<and>
     se_s2c_counter s \<le> se_s2c_counter s' \<and> (\<forall>c. rw_blocked (se_replay s) c \<longrightarrow> rw_blocked (se_replay s') c) \<and>
     (se_closed s \<longrightarrow> se_closed s')"

definition heap_le :: "heap \<Rightarrow> heap \<Rightarrow> bool" where
  "heap_le h h' \<longleftrightarrow> length h \<le> length h' \<and> (\<forall>r < length h. session_le (h ! r) (h' ! r))"

lemma session_le_refl [simp]: "session_le s s"
  by (simp add: session_le_def)

lemma session_le_trans: "session_le s s1 \<Longrightarrow> session_le s1 s' \<Longrightarrow> session_le s s'"
  unfolding session_le_def by (auto intro: order_trans)

lemma heap_le_refl [simp]: "heap_le h h"
  by (simp add: heap_le_def)

lemma heap_le_trans: "heap_le h h1 \<Longrightarrow> heap_le h1 h' \<Longrightarrow> heap_le h h'"
  unfolding heap_le_def by (auto intro: session_le_trans)

lemma heap_le_update: "session_le (h ! r) x \<Longrightarrow> heap_le h (h[r := x])"
  by (cases "r < length h") (auto simp: heap_le_def nth_list_update)

lemma heap_le_append [simp]: "heap_le h (h @ ext)"
  by (simp add: heap_le_def nth_append)

lemma session_le_same:
  "session_le s (touch t s)" "session_le s (bump s)" "session_le s (zero_session s)"
  by (simp_all add: session_le_def) (simp_all add: touch_def bump_def zero_session_def Let_def)

lemma world_step_le: "world_step w x w' \<Longrightarrow> world_ok w \<Longrightarrow> heap_le (fst w) (fst w')"
proof (induction rule: world_step.induct)
  case (ws_take r h c win d)
  have ok: "rw_ok (se_replay (h ! r))" by (rule windows_ok_nth [OF world_okD(2) [OF ws_take(3)] ws_take(1)])
  have "session_le (h ! r) ((h ! r)\<lparr>se_replay := win\<rparr>)"
    using rw.blocked_mono [OF ok ws_take(2)] by (simp add: session_le_def login_of_def)
  then show ?case by (simp add: heap_le_update)
qed (simp_all add: heap_le_update session_le_same)

lemma world_steps_le:
  "steps world_step w ds w' \<Longrightarrow> world_ok w \<Longrightarrow> heap_le (fst w) (fst w')"
proof (induction rule: steps.induct)
  case (steps_more w d w1 ds w')
  then show ?case using world_step_ok [OF steps_more(1)] world_step_le [OF steps_more(1)] by (blast intro: heap_le_trans)
qed simp

lemma heap_leD:
  assumes "heap_le h h'" and "r < length h"
  shows "r < length h'" and "sid_at h' r = sid_at h r" and "se_s2c_counter (h ! r) \<le> se_s2c_counter (h' ! r)"
    and "blocked h r c \<Longrightarrow> blocked h' r c" and "login_of (h' ! r) = login_of (h ! r)"
  using assms by (auto simp: heap_le_def session_le_def blocked_def)

text \<open>A counter of the server is used once the session has reached it.\<close>

definition sent_used :: "cache world \<Rightarrow> bytes \<times> int \<Rightarrow> bool" where
  "sent_used w k \<longleftrightarrow> (\<exists>r < length (fst w). sid_at (fst w) r = fst k \<and> snd k \<le> se_s2c_counter (fst w ! r))"

definition took_used :: "cache world \<Rightarrow> bytes \<times> int \<Rightarrow> bool" where
  "took_used w k \<longleftrightarrow> (\<exists>r < length (fst w). sid_at (fst w) r = fst k \<and> blocked (fst w) r (snd k))"

definition opened_used :: "cache world \<Rightarrow> bytes \<Rightarrow> bool" where
  "opened_used w sid \<longleftrightarrow> sid \<in> se_session_id ` set (fst w)"

interpretation sends: stamping world_step world_ok sent_stamp sent_used
proof unfold_locales
  fix w x w' k
  assume ok: "world_ok w" and step: "world_step w x w'"
  show "world_ok w'" by (rule world_step_ok [OF step ok])
  show "sent_used w' k" if "sent_used w k"
  proof -
    from that obtain r where "r < length (fst w)" "sid_at (fst w) r = fst k" "snd k \<le> se_s2c_counter (fst w ! r)"
      by (auto simp: sent_used_def)
    with heap_leD [OF world_step_le [OF step ok], of r] show ?thesis by (auto simp: sent_used_def intro!: exI [of _ r])
  qed
  show "\<not> sent_used w k \<and> sent_used w' k" if "sent_stamp x = Some k"
    using step
  proof cases
    case (ws_send r h d)
    then have k: "k = (sid_at h r, se_s2c_counter (h ! r) + 1)" using that by (simp add: sent_stamp_def)
    have "q = r" if "q < length h" "sid_at h q = sid_at h r" for q
      using sid_at_inj [of h d q r] ok ws_send that by simp
    then have "\<not> sent_used w k" using ws_send by (fastforce simp: sent_used_def k)
    moreover have "sent_used w' k" using ws_send by (auto simp: sent_used_def k intro!: exI [of _ r])
    ultimately show ?thesis ..
  qed (use that in \<open>simp_all add: sent_stamp_def\<close>)
qed

interpretation takes: stamping world_step world_ok took_stamp took_used
proof unfold_locales
  fix w x w' k
  assume ok: "world_ok w" and step: "world_step w x w'"
  show "world_ok w'" by (rule world_step_ok [OF step ok])
  show "took_used w' k" if "took_used w k"
  proof -
    from that obtain r where "r < length (fst w)" "sid_at (fst w) r = fst k" "blocked (fst w) r (snd k)"
      by (auto simp: took_used_def)
    with heap_leD [OF world_step_le [OF step ok], of r] show ?thesis by (auto simp: took_used_def intro!: exI [of _ r])
  qed
  show "\<not> took_used w k \<and> took_used w' k" if "took_stamp x = Some k"
    using step
  proof cases
    case (ws_take r h c win d)
    then have k: "k = (sid_at h r, c)" using that by (simp add: took_stamp_def)
    have ok': "windows_ok h" using ok ws_take by (simp add: world_ok_def)
    have "q = r" if "q < length h" "sid_at h q = sid_at h r" for q
      using sid_at_inj [of h d q r] ok ws_take that by simp
    with windows_kept_advance(2) [OF ok' ws_take(4,5)] have "\<not> took_used w k"
      using ws_take(1) by (fastforce simp: took_used_def k)
    moreover have "took_used w' k"
      using windows_kept_advance(3) [OF ok' ws_take(4,5)] ws_take by (auto simp: took_used_def k intro!: exI [of _ r])
    ultimately show ?thesis ..
  qed (use that in \<open>simp_all add: took_stamp_def\<close>)
qed

interpretation opens: stamping world_step world_ok opened_stamp opened_used
proof unfold_locales
  fix w x w' k
  assume ok: "world_ok w" and step: "world_step w x w'"
  show "world_ok w'" by (rule world_step_ok [OF step ok])
  show "opened_used w' k" if "opened_used w k"
  proof -
    from that obtain r where "r < length (fst w)" "sid_at (fst w) r = k"
      by (auto simp: opened_used_def in_set_conv_nth)
    with heap_leD [OF world_step_le [OF step ok], of r] show ?thesis by (auto simp: opened_used_def)
  qed
  show "\<not> opened_used w k \<and> opened_used w' k" if "opened_stamp x = Some k"
    using step that by cases (auto simp: opened_stamp_def opened_used_def)
qed

section \<open>The table as a map of logins\<close>

definition logins :: "cache world \<Rightarrow> bytes \<rightharpoonup> login" where
  "logins w sid = map_option (\<lambda>r. login_of (fst w ! r)) (map_of (snd w) sid)"

fun login_after :: "deed \<Rightarrow> (bytes \<rightharpoonup> login) \<Rightarrow> (bytes \<rightharpoonup> login)" where
  "login_after (Opened sid l) m = m(sid \<mapsto> l)"
| "login_after (Ended sid) m = m(sid := None)"
| "login_after (Expired sid) m = m(sid := None)"
| "login_after (Reaped sids) m = m |` (- set sids)"
| "login_after _ m = m"

lemma logins_update:
  assumes "login_of x = login_of (h ! r)"
  shows "logins (h[r := x], d) = logins (h, d)"
proof -
  have "login_of (h[r := x] ! q) = login_of (h ! q)" for q
    using assms by (cases "q = r"; cases "r < length h") (simp_all add: list_update_beyond not_less)
  then show ?thesis by (simp add: logins_def fun_eq_iff)
qed

lemma world_step_logins: "world_step w x w' \<Longrightarrow> world_ok w \<Longrightarrow> logins w' = login_after x (logins w)"
proof (induction rule: world_step.induct)
  case (ws_take r h c win d)
  then show ?case by (simp add: logins_update login_of_def)
next
  case (ws_touch d h r t)
  have "logins (h[r := touch t (h ! r)], AList.update (sid_at h r) r d) = logins (h[r := touch t (h ! r)], d)"
    using ws_touch(1) by (auto simp: logins_def map_of_update fun_eq_iff)
  then show ?case by (simp add: logins_update)
next
  case (ws_send r h d)
  then show ?case by (simp add: logins_update)
next
  case (ws_end d sid r h)
  have "logins (h[r := zero_session (h ! r)], AList.delete sid d) = (logins (h[r := zero_session (h ! r)], d))(sid := None)"
    by (auto simp: logins_def map_of_delete fun_eq_iff)
  then show ?case by (simp add: logins_update)
next
  case (ws_expire d sid r t h)
  have "logins (h[r := zero_session (h ! r)], AList.delete sid d) = (logins (h[r := zero_session (h ! r)], d))(sid := None)"
    by (auto simp: logins_def map_of_delete fun_eq_iff)
  then show ?case by (simp add: logins_update)
next
  case (ws_reap h d now)
  have d: "dict_ok d" using world_okD(1) [OF ws_reap] by (simp add: cache_ok_def)
  have mem: "sid \<in> set (reaped now h d) \<longleftrightarrow> (\<exists>r. map_of d sid = Some r \<and> is_expired now (h ! r))" for sid
    using dict_values_in [OF d] by (force simp: reaped_def)
  show ?case by (auto simp: logins_def reap_lookup [OF d] restrict_map_def mem fun_eq_iff split: option.splits)
next
  case (ws_open s now ttl life m h d)
  have "r < length h" if "map_of d sid = Some r" for sid r
    using cache_okD [OF world_okD(1) [OF ws_open(4)] that] by simp
  then have "map_option (\<lambda>r. login_of ((h @ [s]) ! r)) (map_of d sid) = map_option (\<lambda>r. login_of (h ! r)) (map_of d sid)" for sid
    by (cases "map_of d sid") (simp_all add: nth_append)
  then show ?case by (auto simp: logins_def map_of_update fun_eq_iff)
qed

lemma world_steps_logins:
  "steps world_step w ds w' \<Longrightarrow> world_ok w \<Longrightarrow> logins w' = fold login_after ds (logins w)"
proof (induction rule: steps.induct)
  case (steps_more w d w1 ds w')
  then show ?case using world_step_ok [OF steps_more(1)] world_step_logins [OF steps_more(1)] by simp
qed simp

section \<open>Traffic\<close>

text \<open>
  A run whose deeds are all of a kind, that takes at least the client counters \<open>ins\<close> and whose messages have the
  stamps \<open>outs\<close>: a counter may be sent without a message (when sealing fails), never a message without a counter.
\<close>

definition traffic ::
  "(deed \<Rightarrow> bool) \<Rightarrow> cache world \<Rightarrow> (bytes \<times> int) list \<Rightarrow> (bytes \<times> int) list \<Rightarrow> cache world \<Rightarrow> bool" where
  "traffic A w ins outs w' \<longleftrightarrow> (\<exists>ds. steps world_step w ds w' \<and> list_all A ds \<and>
     subseq ins (List.map_filter took_stamp ds) \<and> subseq outs (List.map_filter sent_stamp ds))"

lemma traffic_none [simp, intro]: "traffic A w [] [] w"
  unfolding traffic_def by (rule exI [of _ "[]"]) (simp add: map_filter_simps)

lemma traffic_trans:
  assumes "traffic A w ins outs w1" and "traffic A w1 ins' outs' w'"
  shows "traffic A w (ins @ ins') (outs @ outs') w'"
proof -
  obtain ds where ds: "steps world_step w ds w1" "list_all A ds"
    "subseq ins (List.map_filter took_stamp ds)" "subseq outs (List.map_filter sent_stamp ds)"
    using assms(1) by (auto simp: traffic_def)
  obtain ds' where ds': "steps world_step w1 ds' w'" "list_all A ds'"
    "subseq ins' (List.map_filter took_stamp ds')" "subseq outs' (List.map_filter sent_stamp ds')"
    using assms(2) by (auto simp: traffic_def)
  have "steps world_step w (ds @ ds') w'" unfolding steps_append using ds(1) ds'(1) by blast
  with ds ds' show ?thesis unfolding traffic_def
    by (intro exI [of _ "ds @ ds'"]) (simp add: map_filter_append list_emb_append_mono)
qed

lemma traffic_quiet: "traffic A w [] outs w1 \<Longrightarrow> traffic A w1 [] [] w' \<Longrightarrow> traffic A w [] outs w'"
  using traffic_trans [of A w "[]" outs w1 "[]" "[]" w'] by simp

lemma traffic_mono: "traffic A w ins outs w' \<Longrightarrow> (\<And>x. A x \<Longrightarrow> B x) \<Longrightarrow> traffic B w ins outs w'"
  unfolding traffic_def by (auto simp: list_all_iff)

lemma traffic_one:
  assumes "world_step w x w'" and "A x"
  shows "traffic A w (case took_stamp x of None \<Rightarrow> [] | Some k \<Rightarrow> [k]) (case sent_stamp x of None \<Rightarrow> [] | Some k \<Rightarrow> [k]) w'"
    and "traffic A w [] (case sent_stamp x of None \<Rightarrow> [] | Some k \<Rightarrow> [k]) w'" and "traffic A w [] [] w'"
  unfolding traffic_def
  by (rule exI [of _ "[x]"], insert assms, simp add: steps_one map_filter_simps split: option.split)+

lemma traffic_less:
  "traffic A w ins outs w' \<Longrightarrow> subseq ins' ins \<Longrightarrow> subseq outs' outs \<Longrightarrow> traffic A w ins' outs' w'"
  unfolding traffic_def by (auto intro: subseq_order.trans)

lemma traffic_ok: "traffic A w ins outs w' \<Longrightarrow> world_ok w \<Longrightarrow> world_ok w'"
  unfolding traffic_def by (auto intro: sends.run_good)

lemma traffic_le: "traffic A w ins outs w' \<Longrightarrow> world_ok w \<Longrightarrow> heap_le (fst w) (fst w')"
  unfolding traffic_def by (auto intro: world_steps_le)

section \<open>The operations as runs\<close>

definition names_session :: "request \<Rightarrow> bytes \<Rightarrow> bool" where
  "names_session rq sid \<longleftrightarrow> (\<exists>env. unpack_envelope (rq_body rq) = Inr env \<and> env_session_id env = sid)"

text \<open>What authenticating a request may do: to the session the envelope names, and nothing else; it goes only if its time is over.\<close>

definition lapsed :: "float_py \<Rightarrow> cache world \<Rightarrow> bytes \<Rightarrow> bool" where
  "lapsed now w sid \<longleftrightarrow> (\<exists>r. map_of (snd w) sid = Some r \<and> is_expired now (fst w ! r))"

fun entry_deed :: "cache world \<Rightarrow> float_py \<Rightarrow> request \<Rightarrow> deed \<Rightarrow> bool" where
  "entry_deed w now rq (Took sid c) = (names_session rq sid \<and> c = request_counter rq)"
| "entry_deed w now rq (Touched sid) = names_session rq sid"
| "entry_deed w now rq (Expired sid) = (names_session rq sid \<and> lapsed now w sid)"
| "entry_deed w now rq _ = False"

lemma mem_expire:
  assumes "cache_ok h d" and "map_of d sid = Some r" and "is_expired t (h ! r)"
  shows "world_step (h, d) (Expired sid) (snd (st_delete in_memory_store t sid (sm_zeroize r (h, d))))"
  using ws_expire [OF assms(2,3)] by (simp add: in_memory_store_def mem_delete_def sm_zeroize_def)

lemma lookup_async_traffic:
  assumes "cache_ok h d" and "sm_lookup_async in_memory_store t t' sid (h, d) = (res, w)"
    and "lapsed t' (h, d) sid \<Longrightarrow> A (Expired sid)"
  shows "traffic A (h, d) [] [] w"
proof (cases "\<exists>r. map_of d sid = Some r \<and> \<not> is_expired t (h ! r) \<and> is_expired t' (h ! r)")
  case True
  then obtain r where r: "map_of d sid = Some r" "\<not> is_expired t (h ! r)" "is_expired t' (h ! r)" by blast
  then have "w = snd (st_delete in_memory_store t' sid (sm_zeroize r (h, d)))"
    using assms(2) by (auto simp: sm_lookup_async_def sm_find_def in_memory_store_def mem_lookup_def)
  then show ?thesis using traffic_one(3) [OF mem_expire [OF assms(1) r(1,3)], of A] assms(3) r by (auto simp: lapsed_def)
next
  case False
  then have "w = (h, d)" using assms(2)
    by (auto simp: sm_lookup_async_def sm_find_def in_memory_store_def mem_lookup_def mem_hydrate_def
        split: option.splits if_splits)
  then show ?thesis by simp
qed

lemma decrypt_traffic:
  assumes ok: "world_ok (h, d)"
    and run: "decrypt_request N in_memory_store validate st f t t' rq (h, d) = (res, w)"
  shows "\<exists>ins. traffic (entry_deed (h, d) t' rq) (h, d) ins [] w \<and>
    (\<forall>r w'. decrypt_request N in_memory_store (\<lambda>b. Inr ()) st f t t' rq (h, d) = (Accepted r (), w') \<longrightarrow>
      ins = [(sid_at h r, request_counter rq)]) \<and>
    (\<forall>r p. res = Accepted r p \<longrightarrow> names_session rq (sid_at h r) \<and> r < length (fst w) \<and>
      logins w (sid_at h r) = Some (login_of (fst w ! r)) \<and> sid_at (fst w) r = sid_at h r)"
proof (cases "unpack_envelope (rq_body rq)")
  case (Inl e)
  with run have "w = (h, d) \<and> (\<forall>r p. res \<noteq> Accepted r p)"
    by (auto simp: decrypt_request_def Let_def split: if_splits)
  moreover have "decrypt_request N in_memory_store (\<lambda>b. Inr ()) st f t t' rq (h, d) \<noteq> (Accepted r (), w')" for r w'
    using Inl decrypt_Accepted [of N in_memory_store "\<lambda>b. Inr ()"] by fastforce
  ultimately show ?thesis by auto
next
  case env: (Inr env)
  let ?sid = "env_session_id env"
  have names: "names_session rq ?sid" by (simp add: names_session_def env)
  have ctr: "request_counter rq = env_counter env" by (simp add: request_counter_def env)
  note c = world_okD(1) [OF ok]
  obtain look w1 where l: "sm_lookup_async in_memory_store t t' ?sid (h, d) = (look, w1)" by (metis prod.exhaust)
  have t1: "traffic (entry_deed (h, d) t' rq) (h, d) [] [] w1"
    by (rule lookup_async_traffic [OF c l]) (simp add: names)
  have got: "look = Inr (Some r) \<and> (\<exists>win. check_and_advance (env_counter env) (se_replay (fst w1 ! r)) = Inr win)"
    if "decrypt_request N in_memory_store (\<lambda>b. Inr ()) st f t t' rq (h, d) = (Accepted r (), w')" for r w'
    using decrypt_Accepted [OF that] env l by auto
  show ?thesis
  proof (cases "\<exists>r. look = Inr (Some r)")
    case False
    then have "w = w1 \<and> (\<forall>r p. res \<noteq> Accepted r p)" using l run env unpack_length [OF env]
      by (cases look) (auto simp: decrypt_request_def Let_def split: option.splits)
    moreover have "\<not> decrypt_request N in_memory_store (\<lambda>b. Inr ()) st f t t' rq (h, d) = (Accepted r (), w')" for r w'
      using got [of r w'] False by blast
    ultimately show ?thesis using t1 by (intro exI [of _ "[]"]) simp
  next
    case True
    then obtain r where r: "look = Inr (Some r)" by blast
    from mem_lookup_async_found [OF l [unfolded r]] have w1: "w1 = (h, d)" and m: "map_of d ?sid = Some r" by simp_all
    have rl: "r < length h" and id: "sid_at h r = ?sid" using cache_okD [OF c m] by simp_all
    have ws: "with_session N in_memory_store validate st f t' rq env r (h, d) = (res, w)"
      using decrypt_with_session [OF env l [unfolded r], of N validate st f] run by (simp add: w1)
    show ?thesis
    proof (cases "check_and_advance (env_counter env) (se_replay (h ! r))")
      case (Inl e)
      with ws have "w = (h, d) \<and> (\<forall>r p. res \<noteq> Accepted r p)" by (auto simp: with_session_def)
      moreover have "\<not> decrypt_request N in_memory_store (\<lambda>b. Inr ()) st f t t' rq (h, d) = (Accepted q (), w')" for q w'
        using got [of q w'] Inl r w1 by auto
      ultimately show ?thesis by (intro exI [of _ "[]"]) simp
    next
      case (Inr win)
      let ?h1 = "h[r := (h ! r)\<lparr>se_replay := win\<rparr>]"
      let ?h2 = "?h1[r := touch t' (?h1 ! r)]"
      have took: "traffic (entry_deed (h, d) t' rq) (h, d) [(?sid, request_counter rq)] [] (?h1, d)"
        using traffic_one(1) [OF ws_take [OF rl Inr, of d], of "entry_deed (h, d) t' rq"] names id ctr
        by (simp add: stamp_defs)
      have id1: "sid_at ?h1 r = ?sid" using rl id by simp
      have "world_step (?h1, d) (Touched ?sid) (?h2, AList.update ?sid r d)"
        using ws_touch [of d ?h1 r t'] m id1 by simp
      from traffic_one(3) [OF this, of "entry_deed (h, d) t' rq"] traffic_trans [OF took]
      have both: "traffic (entry_deed (h, d) t' rq) (h, d) [(?sid, request_counter rq)] [] (?h2, AList.update ?sid r d)"
        using names by fastforce
      have id2: "sid_at ?h2 r = ?sid" using rl id by (simp add: touch_def)
      have ins: "[(?sid, request_counter rq)] = [(sid_at h q, request_counter rq)]"
        if "decrypt_request N in_memory_store (\<lambda>b. Inr ()) st f t t' rq (h, d) = (Accepted q (), w')" for q w'
        using got [OF that] r id by simp
      have "w = (?h1, d) \<and> (\<forall>r p. res \<noteq> Accepted r p) \<or>
          w = (?h2, AList.update ?sid r d) \<and> (\<forall>q p. res = Accepted q p \<longrightarrow> q = r)"
        using ws id1 id2 unfolding with_session_def Inr
        by (auto simp: Inr Let_def upd_session_def mem_persist split: sum.splits prod.splits open_error.splits)
      then show ?thesis
      proof
        assume "w = (?h1, d) \<and> (\<forall>r p. res \<noteq> Accepted r p)"
        then show ?thesis using took ins by blast
      next
        assume w: "w = (?h2, AList.update ?sid r d) \<and> (\<forall>q p. res = Accepted q p \<longrightarrow> q = r)"
        have "names_session rq (sid_at h q) \<and> q < length (fst w) \<and>
            logins w (sid_at h q) = Some (login_of (fst w ! q)) \<and> sid_at (fst w) q = sid_at h q" if "res = Accepted q p" for q p
          using that w names id id2 rl by (auto simp: logins_def map_of_update)
        then show ?thesis using both ins w by blast
      qed
    qed
  qed
qed

section \<open>Messages\<close>

definition stamp_of :: "envelope \<Rightarrow> bytes \<times> int" where
  "stamp_of env = (env_session_id env, env_counter env)"

text \<open>The envelope in a server-sent event, as a client finds it.\<close>

definition event_envelope :: "string \<Rightarrow> envelope option" where
  "event_envelope line =
     (case and_then (b64decode False (strip (drop 5 (takeWhile (\<lambda>c. c \<noteq> CHR 0x0A) line))))
             (\<lambda>body. case unpack_envelope body of Inl e \<Rightarrow> Inl TypeError | Inr env \<Rightarrow> Inr env) of
        Inl e \<Rightarrow> None
      | Inr env \<Rightarrow> Some env)"

fun emitted :: "reply \<Rightarrow> envelope list" where
  "emitted (Sealed status body) = (case unpack_envelope body of Inl e \<Rightarrow> [] | Inr env \<Rightarrow> [env])"
| "emitted (EventStream out err) = List.map_filter event_envelope out"
| "emitted _ = []"

lemma sealed_stamp:
  assumes "dk_ok k" and "seal N k c sid m p pt = Inr buf" and "unpack_envelope buf = Inr env"
  shows "stamp_of env = (sid, c)"
proof -
  obtain aad where buf: "buf = frame sid c (dk_nonce_prefix k @ be_enc 8 c)
      (aead_encrypt N pt aad (dk_nonce_prefix k @ be_enc 8 c) (dk_key k))" and sid: "length sid = 16" and c: "counter_ok c"
    using assms(1,2) by (auto simp: seal_Inr_iff)
  have n: "length (dk_nonce_prefix k @ be_enc 8 c) = 12" using assms(1) by (simp add: dk_ok_def)
  have "16 \<le> length (aead_encrypt N pt aad (dk_nonce_prefix k @ be_enc 8 c) (dk_key k))"
    using unpack_length [OF assms(3)] length_frame [OF sid n] by (simp add: buf)
  from unpack_frame [OF sid n c this] assms(3) show ?thesis by (auto simp: buf stamp_of_def)
qed

lemma sealed_stamps:
  assumes "dk_ok k" and "seal N k c sid m p pt = Inr buf"
  shows "subseq (map stamp_of (emitted (Sealed status buf))) [(sid, c)]"
  using sealed_stamp [OF assms] by (cases "unpack_envelope buf") auto

lemma event_envelope_frame: "event_envelope (sse_frame e) = (case unpack_envelope e of Inl x \<Rightarrow> None | Inr env \<Rightarrow> Some env)"
proof -
  have "takeWhile (\<lambda>c. c \<noteq> CHR 0x0A) (''data: '' @ b64encode e @ [CHR 0x0A, CHR 0x0A]) = ''data: '' @ b64encode e"
    using b64encode_plain [of _ e] by (auto simp: takeWhile_append)
  then show ?thesis by (simp add: event_envelope_def sse_frame_def strip_b64 b64_lenient.dec_enc split: sum.split)
qed

lemma event_envelope_end: "event_envelope SSE_END_MARKER = None"
  by code_simp

text \<open>A message of a session: whatever keys it is sealed with, its counter is the session's next.\<close>

definition sends_for :: "(deed \<Rightarrow> bool) \<Rightarrow> bytes \<Rightarrow> bool" where
  "sends_for A sid \<longleftrightarrow> (\<forall>c. A (Sent sid c))"

lemma send_traffic:
  assumes "r < length h" and "sends_for A (sid_at h r)" and "subseq outs [(sid_at h r, se_s2c_counter (h ! r) + 1)]"
  shows "traffic A (h, d) [] outs (h[r := bump (h ! r)], d)"
  unfolding traffic_def using assms
  by (intro exI [of _ "[Sent (sid_at h r) (se_s2c_counter (h ! r) + 1)]"])
    (simp add: steps_one ws_send map_filter_simps stamp_defs sends_for_def)

end
