(* ===== verification/Exchange.thy ===== *)
theory Exchange
  imports Traffic
begin

text \<open>
  Every endpoint as a run of the steps of theory \<open>Traffic\<close>: what a handler does to the sessions, and that each
  envelope of its answer carries a counter the run has sent. The handlers are those of theories \<open>Endpoints\<close>,
  \<open>Catalog\<close>, \<open>Introspection\<close> and \<open>Admin\<close>, over the in-memory store.
\<close>

section \<open>Answers\<close>

text \<open>\<open>E\<close> reads the envelopes off a result.\<close>

definition handled ::
  "('r \<Rightarrow> envelope list) \<Rightarrow> (deed \<Rightarrow> bool) \<Rightarrow> ref \<Rightarrow> (cache, 'c) app \<Rightarrow> 'r \<times> (cache, 'c) app \<Rightarrow> bool" where
  "handled E A r st res \<longleftrightarrow>
     (world_ok (ap_world st) \<longrightarrow> r < length (fst (ap_world st)) \<longrightarrow> sends_for A (sid_at (fst (ap_world st)) r) \<longrightarrow>
      traffic A (ap_world st) [] (map stamp_of (E (fst res))) (ap_world (snd res)))"

abbreviation answered :: "(deed \<Rightarrow> bool) \<Rightarrow> ref \<Rightarrow> (cache, 'c) app \<Rightarrow> reply \<times> (cache, 'c) app \<Rightarrow> bool" where
  "answered \<equiv> handled emitted"

lemma answered_same: "ap_world st1 = ap_world st \<Longrightarrow> emitted rep = [] \<Longrightarrow> answered A r st (rep, st1)"
  by (simp add: handled_def)

lemma answered_answer:
  assumes "ap_world st1 = ap_world st" and "\<forall>k \<in> set_option direction. dk_ok k"
  shows "answered A r st (answer S rq r status payload direction st1)"
  unfolding handled_def
proof (intro impI)
  assume ok: "world_ok (ap_world st)" and r: "r < length (fst (ap_world st))"
    and A: "sends_for A (sid_at (fst (ap_world st)) r)"
  obtain h d where w: "ap_world st = (h, d)" by (cases "ap_world st")
  let ?k = "case direction of Some k \<Rightarrow> k | None \<Rightarrow> se_s2c (h ! r)"
  have k: "dk_ok ?k" using world_okD(3) [of h d r] ok r w assms(2) by (auto simp: session_ok_def split: option.split)
  have eq: "encrypt_response (sv_nacl S) (sv_json S) r payload (rq_method rq) (rq_path rq) direction (ap_world st1)
      = (seal (sv_nacl S) ?k (se_s2c_counter (h ! r) + 1) (sid_at h r) (rq_method rq) (rq_path rq)
          (payload_body (sv_json S) payload), h[r := bump (h ! r)], d)"
    using r w by (simp add: assms(1) encrypt_response_def upd_session_def bump_def Let_def split: option.split)
  show "traffic A (ap_world st) [] (map stamp_of (emitted (fst (answer S rq r status payload direction st1))))
      (ap_world (snd (answer S rq r status payload direction st1)))"
  proof (cases "seal (sv_nacl S) ?k (se_s2c_counter (h ! r) + 1) (sid_at h r) (rq_method rq) (rq_path rq)
      (payload_body (sv_json S) payload)")
    case (Inl e)
    then show ?thesis using r w A by (simp add: answer_def eq send_traffic)
  next
    case (Inr buf)
    from send_traffic [OF _ _ sealed_stamps [OF k Inr, of status], of A d] r w A show ?thesis
      unfolding answer_def eq Inr by simp
  qed
qed

lemma answered_error: "ap_world st1 = ap_world st \<Longrightarrow> answered A r st (answer_error S rq r status code message st1)"
  by (simp add: answer_error_def answered_answer)

lemma answered_dict: "ap_world st1 = ap_world st \<Longrightarrow> answered A r st (answer_dict S rq r v st1)"
  by (simp add: answer_dict_def answered_answer)

lemma answered_model: "ap_world st1 = ap_world st \<Longrightarrow> answered A r st (answer_model S rq r v st1)"
  by (simp add: answer_model_def answered_answer)

lemma answered_snapshot: "ap_world st1 = ap_world st \<Longrightarrow> answered A r st (answer_snapshot S rq r st1)"
  by (auto simp: answer_snapshot_def intro: answered_model answered_same split: sum.splits prod.splits)

lemma answered_manager_error: "ap_world st1 = ap_world st \<Longrightarrow> answered A r st (answer_manager_error S rq r e st1)"
  by (auto simp: answer_manager_error_def intro: answered_error answered_same split: manager_error.splits)

lemma answered_deny: "ap_world st1 = ap_world st \<Longrightarrow> answered A r st (deny S rq r message event st1)"
  using answered_error [of st1 st A r S rq 403 ADMIN_REQUIRED message]
  by (cases "answer_error S rq r 403 ADMIN_REQUIRED message st1") (auto simp: deny_def handled_def split: reply.splits)

lemma answered_guard:
  "require_admin S rq r st = Some res \<Longrightarrow> answered A r st res"
  "require_super_admin S rq r st = Some res \<Longrightarrow> answered A r st res"
  by (auto simp: require_admin_def require_super_admin_def intro: answered_deny split: if_splits)

section \<open>A request and its answer\<close>

text \<open>Who may end a session: an administrator those of its tenant, \<open>super_admin\<close> all.\<close>

definition may_end :: "(bytes \<rightharpoonup> login) \<Rightarrow> bytes \<Rightarrow> bytes \<Rightarrow> bool" where
  "may_end m by_sid sid \<longleftrightarrow> (\<exists>l l'. m by_sid = Some l \<and> m sid = Some l' \<and>
     (''super_admin'' |\<in>| lo_scopes l \<or> ''admin'' |\<in>| lo_scopes l \<and> lo_tenant l' = lo_tenant l))"

text \<open>What a request may do in the end, if it arrives in the world \<open>w\<close>, and if it authenticates as \<open>who\<close>.\<close>

fun request_deed :: "cache world \<Rightarrow> float_py \<Rightarrow> request \<Rightarrow> deed \<Rightarrow> bool" where
  "request_deed w now rq (Sent sid c) = names_session rq sid"
| "request_deed w now rq (Ended sid) = (\<exists>by_sid. names_session rq by_sid \<and> may_end (logins w) by_sid sid)"
| "request_deed w now rq x = entry_deed w now rq x"

definition asked_deed :: "cache world \<Rightarrow> float_py \<Rightarrow> request \<Rightarrow> session option \<Rightarrow> deed \<Rightarrow> bool" where
  "asked_deed w now rq who = (case who of None \<Rightarrow> entry_deed w now rq | Some s \<Rightarrow> request_deed w now rq)"

lemma entry_request: "entry_deed w now rq x \<Longrightarrow> request_deed w now rq x"
  by (cases x) simp_all

lemma names_sends: "names_session rq sid \<Longrightarrow> sends_for (request_deed w now rq) sid"
  by (simp add: sends_for_def)

lemma accepted_logins:
  assumes "decrypt_request N in_memory_store validate s f t t' rq (h, d) = (Accepted r p, w)" and "cache_ok h d"
  shows "logins w = logins (h, d)"
proof -
  from mem_Accepted [OF assms] obtain sid win where m: "map_of d sid = Some r"
    and w: "w = (h[r := touch t' ((h ! r)\<lparr>se_replay := win\<rparr>)], AList.update sid r d)" by blast
  let ?x = "touch t' ((h ! r)\<lparr>se_replay := win\<rparr>)"
  have "logins w = logins (h[r := ?x], d)" using m by (auto simp: w logins_def map_of_update fun_eq_iff)
  also have "\<dots> = logins (h, d)" by (rule logins_update) (simp add: login_of_def touch_def)
  finally show ?thesis .
qed

text \<open>A request was served: \<open>envs\<close> went back, and the counter of a request that authenticates was taken.\<close>

definition exchange :: "(cache, 'c) services \<Rightarrow> moment \<Rightarrow> request \<Rightarrow> (cache, 'c) app \<Rightarrow> envelope list \<Rightarrow> (cache, 'c) app \<Rightarrow> bool" where
  "exchange S T rq st envs st' \<longleftrightarrow> (\<exists>ins.
     traffic (asked_deed (ap_world st) (mo_now T) rq (caller S T rq st)) (ap_world st) ins (map stamp_of envs) (ap_world st') \<and>
     (case caller S T rq st of
        None \<Rightarrow> envs = []
      | Some s \<Rightarrow> ins = [(se_session_id s, request_counter rq)] \<and> names_session rq (se_session_id s)))"

lemma with_request_exchange:
  assumes run: "with_request S T validate rq handler fail st = (res, st')"
    and ops: "sv_ops S = in_memory_store" and ok: "world_ok (ap_world st)"
    and fail: "\<And>rj. E (fail (Refused rj)) = []" "\<And>e. E (fail (Crashed e)) = []"
    and handler: "\<And>r q st1. ap_models st1 = ap_models st \<Longrightarrow> logins (ap_world st1) = logins (ap_world st) \<Longrightarrow>
      names_session rq (sid_at (fst (ap_world st1)) r) \<Longrightarrow>
      logins (ap_world st1) (sid_at (fst (ap_world st1)) r) = Some (login_of (session_of r st1)) \<Longrightarrow>
      handled E (request_deed (ap_world st) (mo_now T) rq) r st1 (handler r q st1)"
  shows "exchange S T rq st (E res) st'"
proof -
  let ?A = "request_deed (ap_world st) (mo_now T) rq"
  obtain h d where w: "ap_world st = (h, d)" by (cases "ap_world st")
  obtain out w1 where d: "decrypt_request (sv_nacl S) in_memory_store validate (mo_started T) (mo_failed T) (mo_lookup T)
      (mo_now T) rq (h, d) = (out, w1)" by (metis prod.exhaust)
  have okw: "world_ok (h, d)" using ok w by simp
  obtain ins where t: "traffic (entry_deed (h, d) (mo_now T) rq) (h, d) ins [] w1"
    and ins: "\<And>r w'. decrypt_request (sv_nacl S) in_memory_store (\<lambda>b. Inr ()) (mo_started T) (mo_failed T) (mo_lookup T)
        (mo_now T) rq (h, d) = (Accepted r (), w') \<Longrightarrow> ins = [(sid_at h r, request_counter rq)]"
    and acc: "\<And>r p. out = Accepted r p \<Longrightarrow> names_session rq (sid_at h r) \<and> r < length (fst w1) \<and>
      logins w1 (sid_at h r) = Some (login_of (fst w1 ! r)) \<and> sid_at (fst w1) r = sid_at h r"
    using decrypt_traffic [OF okw d] by blast
  have t': "traffic ?A (h, d) ins [] w1" unfolding w by (rule traffic_mono [OF t entry_request])
  have who: "ins = [(se_session_id s, request_counter rq)] \<and> names_session rq (se_session_id s)" if c: "caller S T rq st = Some s" for s
  proof -
    from c obtain r w' where run: "decrypt_request (sv_nacl S) in_memory_store (\<lambda>b. Inr ()) (mo_started T) (mo_failed T)
        (mo_lookup T) (mo_now T) rq (h, d) = (Accepted r (), w')" and s: "s = fst w' ! r"
      by (auto simp: caller_def ops w split: prod.splits outcome.splits)
    from mem_Accepted [OF run world_okD(1) [OF okw]] s have "se_session_id s = sid_at h r" by auto
    with ins [OF run] decrypt_traffic [OF okw run] show ?thesis by auto
  qed
  have all: "traffic ?A (h, d) ins (map stamp_of (E res)) (ap_world st')"
  proof (cases out)
    case (Accepted r q)
    let ?st1 = "st\<lparr>ap_world := w1\<rparr>"
    note a = acc [OF Accepted]
    have "handled E ?A r ?st1 (handler r q ?st1)"
      by (rule handler) (use a accepted_logins [OF d [unfolded Accepted] world_okD(1) [OF okw]] w in \<open>simp_all add: session_of_def\<close>)
    moreover have "handler r q ?st1 = (res, st')" using run d ops by (simp add: with_request_def w Accepted)
    ultimately have "traffic ?A w1 [] (map stamp_of (E res)) (ap_world st')"
      using traffic_ok [OF t' okw] a by (simp add: handled_def names_sends)
    from traffic_trans [OF t' this] show ?thesis by simp
  next
    case (Rejected rj)
    then show ?thesis using run d ops t' fail by (auto simp: with_request_def w)
  next
    case (Raised e)
    then show ?thesis using run d ops t' fail by (auto simp: with_request_def w)
  qed
  show ?thesis
  proof (cases "caller S T rq st")
    case None
    have "E res = [] \<and> ap_world st' = w1"
    proof (cases out)
      case (Accepted r q)
      from decrypt_any_body [OF d [unfolded Accepted]] None show ?thesis by (simp add: caller_def ops w)
    qed (use run d ops fail in \<open>auto simp: with_request_def w\<close>)
    with t None show ?thesis by (auto simp: exchange_def asked_deed_def w)
  next
    case (Some s)
    with who all show ?thesis by (auto simp: exchange_def asked_deed_def w)
  qed
qed

section \<open>The control plane\<close>

lemma guarded_exchange:
  assumes run: "guarded guard S T validate rq body st = (rep, st')"
    and ops: "sv_ops S = in_memory_store" and ok: "world_ok (ap_world st)"
    and guard: "\<And>r st1 A res. guard S rq r st1 = Some res \<Longrightarrow> answered A r st1 res"
    and body: "\<And>r q st1. guard S rq r st1 = None \<Longrightarrow> logins (ap_world st1) = logins (ap_world st) \<Longrightarrow>
      names_session rq (sid_at (fst (ap_world st1)) r) \<Longrightarrow>
      logins (ap_world st1) (sid_at (fst (ap_world st1)) r) = Some (login_of (session_of r st1)) \<Longrightarrow>
      answered (request_deed (ap_world st) (mo_now T) rq) r st1 (body r q st1)"
  shows "exchange S T rq st (emitted rep) st'"
  by (rule with_request_exchange [OF run [unfolded guarded_def] ops ok])
    (auto intro: guard body split: option.splits)

lemma mem_terminate_cases:
  assumes "sm_terminate in_memory_store t sid (h, d) = (res, w)"
  shows "w = (h, d) \<or> (\<exists>r. map_of d sid = Some r \<and> \<not> is_expired t (h ! r) \<and>
    w = (h[r := zero_session (h ! r)], AList.delete sid d))"
  using assms
  by (auto simp: sm_terminate_def sm_find_def in_memory_store_def mem_lookup_def mem_hydrate_def mem_delete_def sm_zeroize_def
      split: option.splits if_splits)

lemma mem_lookup_now:
  assumes "sm_lookup_async in_memory_store t t sid (h, d) = (res, w)"
  shows "w = (h, d)" and "map_of d sid = Some r \<Longrightarrow> \<not> is_expired t (h ! r) \<Longrightarrow> res = Inr (Some r)"
  using assms
  by (auto simp: sm_lookup_async_def sm_find_def in_memory_store_def mem_lookup_def mem_hydrate_def
      split: option.splits if_splits)

lemma handled_after:
  assumes "traffic A (ap_world st) [] [] (ap_world st1)" and "answered A r st1 res"
  shows "answered A r st res"
  unfolding handled_def
proof (intro impI)
  assume ok: "world_ok (ap_world st)" and r: "r < length (fst (ap_world st))"
    and A: "sends_for A (sid_at (fst (ap_world st)) r)"
  note le = heap_leD [OF traffic_le [OF assms(1) ok] r]
  have "traffic A (ap_world st1) [] (map stamp_of (emitted (fst res))) (ap_world (snd res))"
    using assms(2) traffic_ok [OF assms(1) ok] le A by (simp add: handled_def)
  from traffic_trans [OF assms(1) this] show "traffic A (ap_world st) [] (map stamp_of (emitted (fst res))) (ap_world (snd res))"
    by simp
qed

lemma answered_terminate:
  assumes ops: "sv_ops S = in_memory_store" and m: "logins (ap_world st) = logins w0"
    and names: "names_session rq (sid_at (fst (ap_world st)) r)"
    and login: "logins w0 (sid_at (fst (ap_world st)) r) = Some (login_of (session_of r st))"
    and admin: "is_admin (session_of r st)"
  shows "answered (request_deed w0 now rq) r st (terminate_body S T rq r b64 st)"
proof (cases "world_ok (ap_world st) \<and> r < length (fst (ap_world st))")
  case False
  then show ?thesis by (auto simp: handled_def)
next
  case True
  obtain h d where w: "ap_world st = (h, d)" by (cases "ap_world st")
  have ok: "world_ok (h, d)" and r: "r < length h" using True w by simp_all
  have dk: "dk_ok (se_s2c (session_of r st))" using world_okD(3) [OF ok r] by (simp add: session_of_def w session_ok_def)
  show ?thesis
  proof (cases "b64decode False b64")
    case (Inl e)
    then show ?thesis by (simp add: terminate_body_def answered_same Let_def)
  next
    case (Inr sid)
    obtain look w1 where l: "sm_lookup_async in_memory_store (mo_now T) (mo_now T) sid (h, d) = (look, w1)" by (metis prod.exhaust)
    have w1: "w1 = (h, d)" by (rule mem_lookup_now(1) [OF l])
    have st1: "st\<lparr>ap_world := (h, d)\<rparr> = st" using w by (cases st) simp
    obtain res w2 where t: "sm_terminate in_memory_store (mo_now T) sid (h, d) = (res, w2)" by (metis prod.exhaust)
    show ?thesis
    proof (cases "\<exists>q \<in> set_option (case look of Inl e \<Rightarrow> None | Inr q \<Rightarrow> q).
        \<not> is_super (session_of r st) \<and> se_tenant (session_of q st) \<noteq> se_tenant (session_of r st)")
      case True
      then show ?thesis
        by (auto simp: terminate_body_def Inr ops w l w1 st1 Let_def intro: answered_same answered_error split: sum.splits)
    next
      case False
      have "traffic (request_deed w0 now rq) (h, d) [] [] w2"
        using mem_terminate_cases [OF t]
      proof
        assume "\<exists>q. map_of d sid = Some q \<and> \<not> is_expired (mo_now T) (h ! q) \<and>
          w2 = (h[q := zero_session (h ! q)], AList.delete sid d)"
        then obtain q where q: "map_of d sid = Some q" "\<not> is_expired (mo_now T) (h ! q)"
          and w2: "w2 = (h[q := zero_session (h ! q)], AList.delete sid d)" by blast
        have "look = Inr (Some q)" by (rule mem_lookup_now(2) [OF l q])
        with False have "is_super (session_of r st) \<or> se_tenant (session_of q st) = se_tenant (session_of r st)" by auto
        moreover have "logins w0 sid = Some (login_of (h ! q))" unfolding m [symmetric] by (simp add: w logins_def q)
        ultimately have "may_end (logins w0) (sid_at h r) sid" using login admin
          by (auto simp: may_end_def w login_of_def session_of_def is_admin_def is_super_def has_scope_def)
        then have "request_deed w0 now rq (Ended sid)" using names w by auto
        with traffic_one(3) [OF ws_end [OF q(1)], where A = "request_deed w0 now rq"] show ?thesis by (simp only: w2)
      qed simp
      then have tr: "traffic (request_deed w0 now rq) (ap_world st) [] [] (ap_world (st\<lparr>ap_world := w2\<rparr>))" by (simp add: w)
      show ?thesis
      proof (cases look)
        case (Inl e)
        then show ?thesis by (simp add: terminate_body_def Inr ops w l w1 st1 answered_same Let_def)
      next
        case look: (Inr target)
        have gate: "\<not> (\<exists>q \<in> set_option target. \<not> is_super (session_of r st) \<and> se_tenant (session_of q st) \<noteq> se_tenant (session_of r st))"
          using False look by simp
        let ?dir = "if sid = se_session_id (session_of r st) then Some (se_s2c (session_of r st)) else None"
        have dir: "\<forall>k \<in> set_option ?dir. dk_ok k" using dk by simp
        show ?thesis
        proof (cases res)
          case failed: (Inl e)
          show ?thesis
            unfolding terminate_body_def Let_def Inr sum.case ops w l prod.case look w1 st1 t failed if_not_P [OF gate]
            by (rule handled_after [OF tr], rule answered_same) simp_all
        next
          case removed: (Inr removed)
          show ?thesis
            unfolding terminate_body_def Let_def Inr sum.case ops w l prod.case look w1 st1 t removed if_not_P [OF gate]
            by (rule handled_after [OF tr], rule answered_answer [OF _ dir]) simp
        qed
      qed
    qed
  qed
qed

lemma tenant_rows_world [simp]: "ap_world (snd (tenant_rows S T ts st)) = ap_world st"
  by (induction S T ts st rule: tenant_rows.induct) (auto simp: Let_def split: sum.splits prod.splits)

lemma tenant_rows_world': "tenant_rows S T ts st = (res, st') \<Longrightarrow> ap_world st' = ap_world st"
  using tenant_rows_world [of S T ts st] by simp

lemma manager_crash_silent [simp]: "emitted (manager_crash e) = []"
  by (cases e) simp_all

lemmas answered_rules = answered_same answered_answer answered_error answered_dict answered_model answered_snapshot
  answered_manager_error

lemmas world_same = on_models_world' tenant_rows_world'

lemma admin_exchange:
  assumes run: "admin_dispatch S T V route rq st = (rep, st')"
    and ops: "sv_ops S = in_memory_store" and ok: "world_ok (ap_world st)"
  shows "exchange S T rq st (emitted rep) st'"
proof -
  note g = guarded_exchange [OF _ ops ok answered_guard(1)]
  note simps = set_lora_registry_def audit_def revert_one_def
  show ?thesis
  proof (cases route)
    case SessionsTerminate
    show ?thesis
    proof (rule g)
      show "guarded require_admin S T (as_terminate V) rq (terminate_body S T rq) st = (rep, st')"
        using run SessionsTerminate by (simp add: admin_terminate_session_def)
    qed (use ops in \<open>auto intro!: answered_terminate simp: require_admin_def split: if_splits\<close>)
  next
    case SessionsList
    then show ?thesis using run by (intro g) (auto simp: list_sessions_def intro!: answered_rules)
  next
    case ClientsList
    then show ?thesis using run by (intro g) (auto simp: list_clients_def intro!: answered_rules)
  next
    case ClientsReload
    then show ?thesis using run
      by (intro g) (auto simp: reload_clients_def simps intro!: answered_rules split: sum.splits prod.splits)
  next
    case ModelsList
    then show ?thesis using run by (intro g) (auto simp: admin_models_list_def intro!: answered_rules)
  next
    case ModelsPreload
    show ?thesis
      by (rule g [OF run [unfolded ModelsPreload admin_dispatch.simps preload_model_def]])
        (auto simp: simps Let_def dest!: world_same intro!: answered_rules split: sum.splits prod.splits)
  next
    case ModelsUnload
    show ?thesis
      by (rule g [OF run [unfolded ModelsUnload admin_dispatch.simps unload_model_def]])
        (auto simp: simps Let_def dest!: world_same intro!: answered_rules split: sum.splits prod.splits)
  next
    case LogLevel
    show ?thesis
      by (rule g [OF run [unfolded LogLevel admin_dispatch.simps set_log_level_def]])
        (auto simp: simps Let_def intro!: answered_rules split: sum.splits prod.splits option.splits)
  next
    case Gc
    show ?thesis
      by (rule g [OF run [unfolded Gc admin_dispatch.simps admin_gc_def]]) (auto simp: simps intro!: answered_rules)
  next
    case Shutdown
    show ?thesis
      by (rule g [OF run [unfolded Shutdown admin_dispatch.simps admin_shutdown_def]])
        (auto simp: simps Let_def intro!: answered_rules)
  next
    case LorasList
    show ?thesis
      by (rule g [OF run [unfolded LorasList admin_dispatch.simps admin_loras_list_def]])
        (auto simp: simps Let_def intro!: answered_rules split: sum.splits prod.splits)
  next
    case LorasPull
    show ?thesis
      by (rule g [OF run [unfolded LorasPull admin_dispatch.simps admin_loras_pull_def]])
        (auto simp: simps Let_def intro!: answered_rules split: sum.splits prod.splits download_error.splits)
  next
    case LorasRm
    show ?thesis
      by (rule g [OF run [unfolded LorasRm admin_dispatch.simps admin_loras_rm_def]])
        (auto simp: simps Let_def intro!: answered_rules split: sum.splits prod.splits)
  next
    case LorasApply
    show ?thesis
      by (rule g [OF run [unfolded LorasApply admin_dispatch.simps admin_loras_apply_def]])
        (auto simp: simps Let_def dest!: world_same intro!: answered_rules split: sum.splits prod.splits)
  next
    case TenantsList
    show ?thesis
      by (rule guarded_exchange [OF run [unfolded TenantsList admin_dispatch.simps admin_tenants_list_def] ops ok answered_guard(2)])
        (auto simp: simps Let_def dest!: world_same intro!: answered_rules split: sum.splits prod.splits)
  qed
qed

section \<open>Models, status and debugging\<close>

lemma with_request_reply:
  assumes "with_request S T validate rq handler (\<lambda>x. x) st = (rep, st')"
    and "sv_ops S = in_memory_store" and "world_ok (ap_world st)"
    and "\<And>r q st1 A. answered A r st1 (handler r q st1)"
  shows "exchange S T rq st (emitted rep) st'"
  by (rule with_request_exchange [OF assms(1-3)]) (simp_all add: assms(4))

lemma answered_model_registry: "set_model_registry tenant reg mt fs st = st1 \<Longrightarrow> ap_world st1 = ap_world st"
  by (auto simp: set_model_registry_def)

lemma catalog_exchange:
  assumes ops: "sv_ops S = in_memory_store" and ok: "world_ok (ap_world st)"
  shows "list_models S T V0 rq st = (rep, st') \<Longrightarrow> exchange S T rq st (emitted rep) st'"
    and "download_model S T V1 rq st = (rep, st') \<Longrightarrow> exchange S T rq st (emitted rep) st'"
    and "remove_model S T V2 rq st = (rep, st') \<Longrightarrow> exchange S T rq st (emitted rep) st'"
proof -
  note x = with_request_reply [OF _ ops ok] and simps = audit_def set_model_registry_def
  show "exchange S T rq st (emitted rep) st'" if "list_models S T V0 rq st = (rep, st')"
    by (rule x [OF that [unfolded list_models_def]]) (auto intro!: answered_rules)
  show "exchange S T rq st (emitted rep) st'" if "download_model S T V1 rq st = (rep, st')"
    by (rule x [OF that [unfolded download_model_def]])
      (auto simp: simps Let_def intro!: answered_rules split: sum.splits prod.splits download_error.splits)
  show "exchange S T rq st (emitted rep) st'" if "remove_model S T V2 rq st = (rep, st')"
    by (rule x [OF that [unfolded remove_model_def]])
      (auto simp: simps Let_def intro!: answered_rules split: sum.splits prod.splits)
qed

lemma status_world:
  "status_system S T st = Inr (v, st1) \<Longrightarrow> ap_world st1 = ap_world st"
  "status_debug S T st = Inr (v, st1) \<Longrightarrow> ap_world st1 = ap_world st"
  by (auto simp: status_system_def status_debug_def and_then_Inr_iff)

lemma introspection_exchange:
  assumes ops: "sv_ops S = in_memory_store" and ok: "world_ok (ap_world st)"
  shows "system_status S T V0 rq st = (rep, st') \<Longrightarrow> exchange S T rq st (emitted rep) st'"
    and "debug_status S T V0 rq st = (rep, st') \<Longrightarrow> exchange S T rq st (emitted rep) st'"
    and "debug_version S T V0 rq st = (rep, st') \<Longrightarrow> exchange S T rq st (emitted rep) st'"
    and "debug_logs S T V1 rq st = (rep, st') \<Longrightarrow> exchange S T rq st (emitted rep) st'"
    and "debug_errors S T V2 rq st = (rep, st') \<Longrightarrow> exchange S T rq st (emitted rep) st'"
    and "debug_doctor S M dirs T V0 rq st = (rep, st') \<Longrightarrow> exchange S T rq st (emitted rep) st'"
proof -
  note x = with_request_reply [OF _ ops ok]
  show "exchange S T rq st (emitted rep) st'" if "system_status S T V0 rq st = (rep, st')"
    by (rule x [OF that [unfolded system_status_def]])
      (auto dest: status_world intro!: answered_rules split: sum.splits prod.splits)
  show "exchange S T rq st (emitted rep) st'" if "debug_status S T V0 rq st = (rep, st')"
    by (rule x [OF that [unfolded debug_status_def]])
      (auto dest: status_world intro!: answered_rules split: sum.splits prod.splits)
  show "exchange S T rq st (emitted rep) st'" if "debug_version S T V0 rq st = (rep, st')"
    by (rule x [OF that [unfolded debug_version_def]]) (auto intro!: answered_rules)
  show "exchange S T rq st (emitted rep) st'" if "debug_logs S T V1 rq st = (rep, st')"
    by (rule x [OF that [unfolded debug_logs_def]]) (auto intro!: answered_rules split: sum.splits)
  show "exchange S T rq st (emitted rep) st'" if "debug_errors S T V2 rq st = (rep, st')"
    by (rule x [OF that [unfolded debug_errors_def]]) (auto intro!: answered_rules)
  show "exchange S T rq st (emitted rep) st'" if "debug_doctor S M dirs T V0 rq st = (rep, st')"
    by (rule x [OF that [unfolded debug_doctor_def]]) (auto intro!: answered_rules split: prod.splits)
qed

section \<open>Inference\<close>

fun pending_emitted :: "'q pending \<Rightarrow> envelope list" where
  "pending_emitted (Done rep) = emitted rep"
| "pending_emitted (Waiting r q fut) = []"

lemma answered_done: "answered A r st res \<Longrightarrow> handled pending_emitted A r st (apfst Done res)"
  by (cases res) (simp add: handled_def)

lemma waiting_same: "ap_world st1 = ap_world st \<Longrightarrow> handled pending_emitted A r st (Waiting q x fut, st1)"
  by (simp add: handled_def)

lemma inference_exchange:
  assumes ops: "sv_ops S = in_memory_store" and ok: "world_ok (ap_world st)"
  shows "chat_completions S T V0 rq st = (res0, st') \<Longrightarrow> exchange S T rq st (pending_emitted res0) st'"
    and "completions S T V1 rq st = (res1, st') \<Longrightarrow> exchange S T rq st (pending_emitted res1) st'"
    and "embeddings S T V2 rq st = (res2, st') \<Longrightarrow> exchange S T rq st (pending_emitted res2) st'"
proof -
  note rules = answered_done waiting_same answered_rules
  show "exchange S T rq st (pending_emitted res0) st'" if "chat_completions S T V0 rq st = (res0, st')"
    by (rule with_request_exchange [OF that [unfolded chat_completions_def] ops ok])
      (auto dest!: world_same intro!: rules split: sum.splits prod.splits)
  show "exchange S T rq st (pending_emitted res1) st'" if "completions S T V1 rq st = (res1, st')"
    by (rule with_request_exchange [OF that [unfolded completions_def] ops ok])
      (auto dest!: world_same intro!: rules split: sum.splits prod.splits)
  show "exchange S T rq st (pending_emitted res2) st'" if "embeddings S T V2 rq st = (res2, st')"
    by (rule with_request_exchange [OF that [unfolded embeddings_def] ops ok])
      (auto dest!: world_same intro!: rules split: sum.splits prod.splits)
qed

text \<open>A handler that waits holds the session its request named.\<close>

definition holds_session :: "request \<Rightarrow> ref \<Rightarrow> cache world \<Rightarrow> bool" where
  "holds_session rq r w \<longleftrightarrow> r < length (fst w) \<and> names_session rq (sid_at (fst w) r)"

lemma with_request_waiting:
  assumes "with_request S T validate rq handler Done st = (Waiting r q fut, st')"
    and "sv_ops S = in_memory_store" and "world_ok (ap_world st)"
    and "\<And>r1 q1 st1. handler r1 q1 st1 = (Waiting r q fut, st') \<Longrightarrow> r = r1 \<and> ap_world st' = ap_world st1"
  shows "holds_session rq r (ap_world st')"
proof -
  obtain h d where w: "ap_world st = (h, d)" by (cases "ap_world st")
  obtain out w1 where d: "decrypt_request (sv_nacl S) in_memory_store validate (mo_started T) (mo_failed T) (mo_lookup T)
      (mo_now T) rq (h, d) = (out, w1)" by (metis prod.exhaust)
  have okw: "world_ok (h, d)" using assms(3) w by simp
  obtain r1 q1 where out: "out = Accepted r1 q1" using assms(1,2) d by (cases out) (auto simp: with_request_def w)
  have "handler r1 q1 (st\<lparr>ap_world := w1\<rparr>) = (Waiting r q fut, st')"
    using assms(1,2) d by (simp add: with_request_def w out)
  from assms(4) [OF this] have "r = r1" "ap_world st' = w1" by simp_all
  with decrypt_traffic [OF okw d] out show ?thesis by (auto simp: holds_session_def)
qed

lemma inference_waiting:
  assumes ops: "sv_ops S = in_memory_store" and ok: "world_ok (ap_world st)"
  shows "chat_completions S T V0 rq st = (Waiting r q0 fut, st') \<Longrightarrow> holds_session rq r (ap_world st')"
    and "completions S T V1 rq st = (Waiting r q1 fut, st') \<Longrightarrow> holds_session rq r (ap_world st')"
    and "embeddings S T V2 rq st = (Waiting r q2 fut, st') \<Longrightarrow> holds_session rq r (ap_world st')"
proof -
  have no: "apfst Done x \<noteq> (Waiting r q fut, y)" for x :: "reply \<times> (cache, 'b) app" and q :: 'q and y by (cases x) simp
  show "holds_session rq r (ap_world st')" if "chat_completions S T V0 rq st = (Waiting r q0 fut, st')"
    by (rule with_request_waiting [OF that [unfolded chat_completions_def] ops ok])
      (auto simp: no dest!: world_same split: sum.splits prod.splits)
  show "holds_session rq r (ap_world st')" if "completions S T V1 rq st = (Waiting r q1 fut, st')"
    by (rule with_request_waiting [OF that [unfolded completions_def] ops ok])
      (auto simp: no dest!: world_same split: sum.splits prod.splits if_splits)
  show "holds_session rq r (ap_world st')" if "embeddings S T V2 rq st = (Waiting r q2 fut, st')"
    by (rule with_request_waiting [OF that [unfolded embeddings_def] ops ok])
      (auto simp: no dest!: world_same split: sum.splits prod.splits)
qed

text \<open>The answer when the future is there; a stream is answered chunk by chunk, below.\<close>

fun is_stream :: "'c future \<Rightarrow> bool" where
  "is_stream (FutStream chunks err) = True"
| "is_stream _ = False"

lemma answered_chat: "\<not> (gp_stream q \<and> is_stream fut) \<Longrightarrow> answered A r st (chat_finish S T rq r q fut evs st)"
  by (cases fut) (auto simp: chat_finish_def intro!: answered_rules split: sum.split)

lemma answered_completions: "answered A r st (completions_finish S T rq r q fut st)"
  by (cases fut) (auto simp: completions_finish_def intro!: answered_rules split: sum.split)

lemma answered_embeddings: "answered A r st (embeddings_finish S T rq r q fut st)"
  by (cases fut) (auto simp: embeddings_finish_def intro!: answered_rules split: sum.split)

section \<open>Streams, one turn at a time\<close>

text \<open>
  One turn of the loop of \<open>stream_chat_envelopes\<close>: what it yields, and whether it goes on. Between two turns other
  requests of the same session may be answered.
\<close>

datatype turn = GoesOn | StreamOver "stream_exn option"

definition seal_turn ::
  "nacl \<Rightarrow> json_lib \<Rightarrow> string \<Rightarrow> string \<Rightarrow> json \<Rightarrow> session \<Rightarrow> string list \<times> turn \<times> session" where
  "seal_turn N J mth path v s =
     (case seal_chunk N J mth path v s of
        (Inl e, s) \<Rightarrow> ([], StreamOver (Some (StreamSeal e)), s)
      | (Inr sse, s) \<Rightarrow> ([sse], GoesOn, s))"

definition stream_turn ::
  "nacl \<Rightarrow> json_lib \<Rightarrow> string \<Rightarrow> string \<Rightarrow> string \<Rightarrow> string \<Rightarrow> int \<Rightarrow> stream_event \<Rightarrow> session \<Rightarrow>
   string list \<times> turn \<times> session" where
  "stream_turn N J mth path model msg_id created ev s =
     (case ev of
        Exhausted \<Rightarrow> ([SSE_END_MARKER], StreamOver None, s)
      | CancelSeen \<Rightarrow> ([SSE_END_MARKER], StreamOver None, s)
      | SourceRaises e \<Rightarrow> ([], StreamOver (Some (StreamExn e)), s)
      | KeepaliveTimeout \<Rightarrow> seal_turn N J mth path keepalive_json s
      | NextChunk raw \<Rightarrow>
          (case llama_chunk_to_pydantic model msg_id created raw of
             Inl e \<Rightarrow> ([], StreamOver (Some (StreamExn e)), s)
           | Inr chunk \<Rightarrow> seal_turn N J mth path (chunk_json chunk) s))"

text \<open>The turns of a stream that nothing interrupts are the stream.\<close>

lemma stream_turns:
  "stream_chat_envelopes N J mth path model msg_id created (ev # evs) s =
     (case stream_turn N J mth path model msg_id created ev s of
        (out, StreamOver err, s) \<Rightarrow> (out, err, s)
      | (out, GoesOn, s) \<Rightarrow>
          (case stream_chat_envelopes N J mth path model msg_id created evs s of (out', err, s) \<Rightarrow> (out @ out', err, s)))"
  by (cases ev) (simp_all add: stream_turn_def seal_turn_def split: sum.split prod.split)

lemma seal_turn_traffic:
  assumes "seal_turn N J mth path v (h ! r) = (out, t, s)" and "r < length h" and "session_ok (h ! r)"
    and "sends_for A (sid_at h r)"
  shows "traffic A (h, d) [] (map stamp_of (List.map_filter event_envelope out)) (h[r := s], d)"
proof -
  let ?b = "bump (h ! r)"
  have k: "dk_ok (se_s2c ?b)" using assms(3) by (simp add: session_ok_def)
  show ?thesis
  proof (cases "seal N (se_s2c ?b) (se_s2c_counter ?b) (se_session_id ?b) mth path (json_dumps J v)")
    case (Inl e)
    then have "out = []" "s = ?b" using assms(1) by (simp_all add: seal_turn_def seal_chunk_def bump_def Let_def)
    then show ?thesis using send_traffic [OF assms(2,4), of "[]" d] by (simp add: map_filter_simps)
  next
    case (Inr e)
    then have out: "out = [sse_frame e]" and s: "s = ?b"
      using assms(1) by (simp_all add: seal_turn_def seal_chunk_def bump_def Let_def)
    have "subseq (map stamp_of (List.map_filter event_envelope out)) [(sid_at h r, se_s2c_counter (h ! r) + 1)]"
      using sealed_stamp [OF k Inr] by (cases "unpack_envelope e") (auto simp: out map_filter_simps event_envelope_frame)
    from send_traffic [OF assms(2,4) this] show ?thesis by (simp add: s)
  qed
qed

lemma turn_traffic:
  assumes "stream_turn N J mth path model msg_id created ev (h ! r) = (out, t, s)" and "r < length h"
    and "session_ok (h ! r)" and "sends_for A (sid_at h r)"
  shows "traffic A (h, d) [] (map stamp_of (List.map_filter event_envelope out)) (h[r := s], d)"
  using assms(1) seal_turn_traffic [OF _ assms(2-4)]
  by (auto simp: stream_turn_def map_filter_simps event_envelope_end split: stream_event.splits sum.splits)

section \<open>Opening and ending a session\<close>

text \<open>The login that a handshake earns: that of an entry of the allowlist that is valid now.\<close>

definition earns :: "nacl \<Rightarrow> (bytes \<rightharpoonup> authorized_client) \<Rightarrow> int \<Rightarrow> int \<Rightarrow> handshake_request \<Rightarrow> login \<Rightarrow> bool" where
  "earns N allowlist skew clock req l \<longleftrightarrow> (\<exists>entry pk eph t.
     check_request N req allowlist skew (hr_server_host req) clock = Inr (entry, pk, eph, t) \<and>
     l = \<lparr>lo_tenant = ac_tenant entry, lo_scopes = fset_of_list (ac_scopes entry),
          lo_fingerprint = fingerprint (ac_x25519_pk entry)\<rparr>)"

fun opening_deed :: "nacl \<Rightarrow> (bytes \<rightharpoonup> authorized_client) \<Rightarrow> int \<Rightarrow> int \<Rightarrow> handshake_request \<Rightarrow> bytes \<Rightarrow> deed \<Rightarrow> bool" where
  "opening_deed N allowlist skew clock req session_id (Opened sid l) =
     (sid = session_id \<and> earns N allowlist skew clock req l)"
| "opening_deed N allowlist skew clock req session_id _ = False"

lemma split_keystream_ok: "split_keystream ks = Inr (c2s, s2c) \<Longrightarrow> dk_ok c2s \<and> dk_ok s2c"
  by (auto simp: split_keystream_def and_then_Inr_iff dest: mk_direction_keys_ok split: if_splits sum.splits)

lemma perform_handshake_keys:
  "perform_handshake N J req identity allowlist skew ttl eh now att clock esk sid = Inr (resp, mat) \<Longrightarrow>
    dk_ok (sm_c2s mat) \<and> dk_ok (sm_s2c mat)"
  unfolding perform_handshake_def Let_def
  by (auto simp: and_then_Inr_iff dest!: split_keystream_ok split: sum.splits prod.splits option.splits)

lemma create_session_traffic:
  assumes run: "create_session N J in_memory_store identity allowlist skew ttl life att clock esk sid now req (h, d) = (res, aud, w)"
    and fresh: "sid \<notin> se_session_id ` set h"
  shows "traffic (opening_deed N allowlist skew clock req sid) (h, d) [] [] w"
proof (cases "perform_handshake N J req identity allowlist skew ttl (hr_server_host req) None att clock esk sid")
  case (Inl e)
  then have "w = (h, d)" using run by (cases e) (auto simp: create_session_def)
  then show ?thesis by simp
next
  case (Inr rm)
  obtain resp mat where rm: "rm = (resp, mat)" by (cases rm)
  note hs = Inr [unfolded rm]
  let ?s = "session_new now ttl life mat"
  from perform_handshake_Inr [OF hs] obtain entry pk eph t where
    chk: "check_request N req allowlist skew (hr_server_host req) clock = Inr (entry, pk, eph, t)"
    and mat: "sm_session_id mat = sid" "sm_scopes mat = ac_scopes entry" "sm_tenant mat = ac_tenant entry"
      "sm_client_fingerprint mat = fingerprint (ac_x25519_pk entry)" by auto
  have id: "se_session_id ?s = sid" by (simp add: session_new_def mat)
  have ok: "session_ok ?s" using perform_handshake_keys [OF hs] by (simp add: session_ok_def session_new_def)
  have l: "earns N allowlist skew clock req (login_of ?s)"
    unfolding earns_def using chk by (intro exI conjI) (assumption, simp add: login_of_def session_new_def mat)
  have w: "w = (h @ [?s], AList.update sid (length h) d)"
    using run Inr rm id
    by (auto simp: create_session_def sm_create_def in_memory_store_def mem_put_def Let_def)
  have "world_step (h, d) (Opened sid (login_of ?s)) w"
    unfolding w using ws_open [OF refl ok, of h d] fresh id by simp
  then show ?thesis by (rule traffic_one(3)) (simp add: l)
qed

lemma create_session_refused:
  assumes "create_session N J ops identity allowlist skew ttl life att clock esk sid now req w = (res, aud, w')"
    and "\<forall>resp. res \<noteq> HttpHandshake resp"
  shows "w' = w"
  using assms by (auto simp: create_session_def Let_def split: sum.splits prod.splits handshake_error.splits)

text \<open>A \<open>DELETE\<close> ends the session whose id is in the path, whoever sends it.\<close>

fun goodbye_deed :: "string \<Rightarrow> deed \<Rightarrow> bool" where
  "goodbye_deed sid_b64 (Ended sid) = (path_session_id sid_b64 = Inr sid)"
| "goodbye_deed sid_b64 _ = False"

lemma terminate_session_traffic:
  assumes "terminate_session in_memory_store now sid_b64 (h, d) = (res, aud, w)"
  shows "traffic (goodbye_deed sid_b64) (h, d) [] [] w"
proof (cases "path_session_id sid_b64")
  case (Inl e)
  then show ?thesis using assms by (auto simp: terminate_session_def)
next
  case (Inr sid)
  obtain out w1 where t: "sm_terminate in_memory_store now sid (h, d) = (out, w1)" by (metis prod.exhaust)
  have "w = w1" using assms t by (auto simp: terminate_session_def Inr split: sum.splits)
  with mem_terminate_cases [OF t] show ?thesis
    using traffic_one(3) [OF ws_end, where A = "goodbye_deed sid_b64"] Inr by auto
qed

fun reaping_deed :: "float_py \<Rightarrow> heap \<Rightarrow> cache \<Rightarrow> deed \<Rightarrow> bool" where
  "reaping_deed now h d (Reaped sids) = (sids = reaped now h d)"
| "reaping_deed now h d _ = False"

lemma reap_traffic: "traffic (reaping_deed now h d) (h, d) [] [] (snd (sm_reap_expired in_memory_store now (h, d)))"
  using traffic_one(3) [OF ws_reap [of h d now], of "reaping_deed now h d"]
  by (simp add: sm_reap_expired_def in_memory_store_def mem_reap_expired_def case_prod_unfold Let_def)

end
