(* ===== verification/Server.thy ===== *)
theory Server
  imports Exchange Boot
begin

text \<open>
  The whole server as a state machine: \<open>main.py\<close> includes the routers, and a request is dispatched by its method
  and path to a handler that answers at once, or waits for a model and is resumed, or turns into a stream. Between
  any two steps other requests, handshakes, terminations, worker turns and timers may run. Theory \<open>Middleware\<close>
  is what a request passes before it arrives here.
\<close>

section \<open>Routes\<close>

datatype route =
    ChatCompletions | Completions | Embeddings | ListModels | DownloadModel | RemoveModel | SystemStatus
  | DebugStatus | DebugDoctor | DebugVersion | DebugLogs | DebugErrors | AdminRoute admin_route

definition ROUTES :: "(string \<times> route) list" where
  "ROUTES =
     [(''/v1/models/list'', ListModels), (''/v1/models/download'', DownloadModel), (''/v1/models/remove'', RemoveModel),
      (''/v1/chat/completions'', ChatCompletions), (''/v1/completions'', Completions), (''/v1/embeddings'', Embeddings),
      (''/v1/system'', SystemStatus), (''/v1/debug/status'', DebugStatus), (''/v1/debug/doctor'', DebugDoctor),
      (''/v1/debug/version'', DebugVersion), (''/v1/debug/logs'', DebugLogs), (''/v1/debug/errors'', DebugErrors),
      (''/v1/admin/sessions/list'', AdminRoute SessionsList), (''/v1/admin/sessions/terminate'', AdminRoute SessionsTerminate),
      (''/v1/admin/clients/list'', AdminRoute ClientsList), (''/v1/admin/clients/reload'', AdminRoute ClientsReload),
      (''/v1/admin/models/list'', AdminRoute ModelsList), (''/v1/admin/models/preload'', AdminRoute ModelsPreload),
      (''/v1/admin/models/unload'', AdminRoute ModelsUnload), (''/v1/admin/log-level'', AdminRoute LogLevel),
      (''/v1/admin/gc'', AdminRoute Gc), (''/v1/admin/shutdown'', AdminRoute Shutdown),
      (''/v1/admin/loras/list'', AdminRoute LorasList), (''/v1/admin/loras/pull'', AdminRoute LorasPull),
      (''/v1/admin/loras/rm'', AdminRoute LorasRm), (''/v1/admin/loras/apply'', AdminRoute LorasApply),
      (''/v1/admin/tenants/list'', AdminRoute TenantsList)]"

text \<open>Every encrypted endpoint is a \<open>POST\<close>.\<close>

definition route_of :: "request \<Rightarrow> route option" where
  "route_of rq = (if rq_method rq = ''POST'' then map_of ROUTES (rq_path rq) else None)"

text \<open>The validators of the request bodies.\<close>

record schemas = admin_schemas +
  sc_chat :: "bytes \<Rightarrow> string + chat_request"
  sc_completion :: "bytes \<Rightarrow> string + completion_request"
  sc_embeddings :: "bytes \<Rightarrow> string + embeddings_request"
  sc_download :: "bytes \<Rightarrow> string + download_request"
  sc_logs :: "bytes \<Rightarrow> string + log_query"
  sc_errors :: "bytes \<Rightarrow> string + int"

text \<open>What a server process is started with. The environment of the models is a new one at every step.\<close>

record deployment =
  dp_services :: "(cache, json) services"
  dp_schemas :: schemas
  dp_machine :: machine
  dp_dirs :: "path \<times> path"
  dp_identity :: server_identity
  dp_attestation :: "attestation_backend option"
  dp_skew_seconds :: int
  dp_ttl_seconds :: int
  dp_max_lifetime :: int

definition services_at :: "deployment \<Rightarrow> json env \<Rightarrow> (cache, json) services" where
  "services_at D E = (dp_services D)\<lparr>sv_env := E\<rparr>"

definition config_of :: "deployment \<Rightarrow> manager_config" where
  "config_of D = en_config (sv_env (dp_services D))"

section \<open>Handlers that wait\<close>

datatype waiting =
    ChatWait request ref chat_request nat
  | CompletionWait request ref completion_request nat
  | EmbeddingWait request ref embeddings_request nat

fun waiting_request :: "waiting \<Rightarrow> request" where
  "waiting_request (ChatWait rq r q fut) = rq"
| "waiting_request (CompletionWait rq r q fut) = rq"
| "waiting_request (EmbeddingWait rq r q fut) = rq"

fun waiting_ref :: "waiting \<Rightarrow> ref" where
  "waiting_ref (ChatWait rq r q fut) = r"
| "waiting_ref (CompletionWait rq r q fut) = r"
| "waiting_ref (EmbeddingWait rq r q fut) = r"

fun waiting_future :: "waiting \<Rightarrow> nat" where
  "waiting_future (ChatWait rq r q fut) = fut"
| "waiting_future (CompletionWait rq r q fut) = fut"
| "waiting_future (EmbeddingWait rq r q fut) = fut"

record open_stream =
  os_request :: request
  os_ref :: ref
  os_model :: string
  os_id :: string
  os_created :: int

text \<open>What a handler does first: it replies or waits.\<close>

datatype response = Replied reply | Parked waiting

fun park :: "(ref \<Rightarrow> 'q \<Rightarrow> nat \<Rightarrow> waiting) \<Rightarrow> 'q pending \<times> 'st \<Rightarrow> response \<times> 'st" where
  "park W (Done rep, st) = (Replied rep, st)"
| "park W (Waiting r q fut, st) = (Parked (W r q fut), st)"

fun dispatch ::
  "deployment \<Rightarrow> (cache, json) services \<Rightarrow> moment \<Rightarrow> route \<Rightarrow> request \<Rightarrow> (cache, json) app \<Rightarrow>
   response \<times> (cache, json) app" where
  "dispatch D S T ChatCompletions rq st = park (ChatWait rq) (chat_completions S T (sc_chat (dp_schemas D)) rq st)"
| "dispatch D S T Completions rq st = park (CompletionWait rq) (completions S T (sc_completion (dp_schemas D)) rq st)"
| "dispatch D S T Embeddings rq st = park (EmbeddingWait rq) (embeddings S T (sc_embeddings (dp_schemas D)) rq st)"
| "dispatch D S T ListModels rq st = apfst Replied (list_models S T (as_empty (dp_schemas D)) rq st)"
| "dispatch D S T DownloadModel rq st = apfst Replied (download_model S T (sc_download (dp_schemas D)) rq st)"
| "dispatch D S T RemoveModel rq st = apfst Replied (remove_model S T (as_model_id (dp_schemas D)) rq st)"
| "dispatch D S T SystemStatus rq st = apfst Replied (system_status S T (as_empty (dp_schemas D)) rq st)"
| "dispatch D S T DebugStatus rq st = apfst Replied (debug_status S T (as_empty (dp_schemas D)) rq st)"
| "dispatch D S T DebugDoctor rq st =
     apfst Replied (debug_doctor S (dp_machine D) (dp_dirs D) T (as_empty (dp_schemas D)) rq st)"
| "dispatch D S T DebugVersion rq st = apfst Replied (debug_version S T (as_empty (dp_schemas D)) rq st)"
| "dispatch D S T DebugLogs rq st = apfst Replied (debug_logs S T (sc_logs (dp_schemas D)) rq st)"
| "dispatch D S T DebugErrors rq st = apfst Replied (debug_errors S T (sc_errors (dp_schemas D)) rq st)"
| "dispatch D S T (AdminRoute route) rq st =
     apfst Replied (admin_dispatch S T (admin_schemas.truncate (dp_schemas D)) route rq st)"

text \<open>The handler is resumed with the value of its future. \<open>chat_finish\<close> does the rest unless it is a stream.\<close>

fun resume ::
  "(cache, json) services \<Rightarrow> moment \<Rightarrow> waiting \<Rightarrow> json future \<Rightarrow> (cache, json) app \<Rightarrow> reply \<times> (cache, json) app" where
  "resume S T (ChatWait rq r q fut) f st = chat_finish S T rq r q f [] st"
| "resume S T (CompletionWait rq r q fut) f st = completions_finish S T rq r q f st"
| "resume S T (EmbeddingWait rq r q fut) f st = embeddings_finish S T rq r q f st"

fun opens_stream :: "moment \<Rightarrow> waiting \<Rightarrow> json future \<Rightarrow> open_stream option" where
  "opens_stream T (ChatWait rq r q fut) f =
     (if gp_stream q \<and> is_stream f
      then Some \<lparr>os_request = rq, os_ref = r, os_model = gp_model q, os_id = ''chatcmpl-'' @ mo_token T,
        os_created = py_trunc (mo_now T)\<rparr> else None)"
| "opens_stream T w f = None"

section \<open>Steps of the server\<close>

text \<open>The audit events of the session endpoints, in the trail the other handlers write to.\<close>

definition audit_json :: "string \<times> string \<Rightarrow> string \<times> json" where
  "audit_json = (\<lambda>(k, v). (k, if k = ''removed'' then JBool (v = ''True'') else JStr v))"

definition after_session_call :: "audit_event list \<Rightarrow> cache world \<Rightarrow> (cache, json) app \<Rightarrow> (cache, json) app" where
  "after_session_call evs w st =
     st\<lparr>ap_world := w, ap_audit := ap_audit st @ map (\<lambda>e. (ae_event e, map audit_json (ae_fields e))) evs\<rparr>"

record server =
  srv_app :: "(cache, json) app"
  srv_waiting :: "waiting list"
  srv_streams :: "open_stream list"

definition server_start :: "json booted \<Rightarrow> server" where
  "server_start b = \<lparr>srv_app = first_state [] b, srv_waiting = [], srv_streams = []\<rparr>"

abbreviation sessions_of :: "server \<Rightarrow> cache world" where
  "sessions_of sv \<equiv> ap_world (srv_app sv)"

text \<open>What an observer of a step sees: for a request, who it authenticates as and the reply, if there is one yet.\<close>

datatype happening =
    Asked moment request "session option" "reply option"
  | Resumed waiting reply
  | Streaming open_stream "string list"
  | Greeted "bytes \<rightharpoonup> authorized_client" int handshake_request bytes http_result
  | Parted string http_result
  | Reaping float_py
  | Background

inductive server_step :: "deployment \<Rightarrow> server \<Rightarrow> happening \<Rightarrow> server \<Rightarrow> bool" for D where
  srv_ask: "S = services_at D E \<Longrightarrow> en_config E = config_of D \<Longrightarrow> route_of rq = Some route \<Longrightarrow>
    dispatch D S T route rq (srv_app sv) = (Replied rep, st') \<Longrightarrow>
    server_step D sv (Asked T rq (caller S T rq (srv_app sv)) (Some rep)) (sv\<lparr>srv_app := st'\<rparr>)"
| srv_park: "S = services_at D E \<Longrightarrow> en_config E = config_of D \<Longrightarrow> route_of rq = Some route \<Longrightarrow>
    dispatch D S T route rq (srv_app sv) = (Parked w, st') \<Longrightarrow>
    server_step D sv (Asked T rq (caller S T rq (srv_app sv)) None)
      (sv\<lparr>srv_app := st', srv_waiting := srv_waiting sv @ [w]\<rparr>)"
| srv_resume: "S = services_at D E \<Longrightarrow> en_config E = config_of D \<Longrightarrow> w \<in> set (srv_waiting sv) \<Longrightarrow>
    (waiting_future w, f) \<in> set (mg_done (ap_models (srv_app sv))) \<Longrightarrow> opens_stream T w f = None \<Longrightarrow>
    resume S T w f (srv_app sv) = (rep, st') \<Longrightarrow>
    server_step D sv (Resumed w rep) (sv\<lparr>srv_app := st', srv_waiting := remove1 w (srv_waiting sv)\<rparr>)"
| srv_stream: "w \<in> set (srv_waiting sv) \<Longrightarrow> (waiting_future w, f) \<in> set (mg_done (ap_models (srv_app sv))) \<Longrightarrow>
    opens_stream T w f = Some os \<Longrightarrow>
    server_step D sv (Streaming os [])
      (sv\<lparr>srv_waiting := remove1 w (srv_waiting sv), srv_streams := srv_streams sv @ [os]\<rparr>)"
| srv_turn: "os \<in> set (srv_streams sv) \<Longrightarrow>
    stream_turn (sv_nacl (dp_services D)) (sv_json (dp_services D)) (rq_method (os_request os)) (rq_path (os_request os))
      (os_model os) (os_id os) (os_created os) ev (session_of (os_ref os) (srv_app sv)) = (out, t, s) \<Longrightarrow>
    server_step D sv (Streaming os out)
      (sv\<lparr>srv_app := (srv_app sv)\<lparr>ap_world := upd_session (os_ref os) (\<lambda>_. s) (sessions_of sv)\<rparr>,
         srv_streams := (if t = GoesOn then srv_streams sv else remove1 os (srv_streams sv))\<rparr>)"
| srv_greet: "length sid = 16 \<Longrightarrow> sid \<notin> se_session_id ` set (fst (sessions_of sv)) \<Longrightarrow>
    allowlist = map_of (ks_allowlist (ap_keystore (srv_app sv))) \<Longrightarrow>
    create_session (sv_nacl (dp_services D)) (sv_json (dp_services D)) in_memory_store (dp_identity D) allowlist
      (dp_skew_seconds D) (dp_ttl_seconds D) (dp_max_lifetime D) (dp_attestation D) clock esk sid now req (sessions_of sv)
      = (res, aud, w) \<Longrightarrow>
    server_step D sv (Greeted allowlist clock req sid res) (sv\<lparr>srv_app := after_session_call aud w (srv_app sv)\<rparr>)"
| srv_part: "terminate_session in_memory_store now sid_b64 (sessions_of sv) = (res, aud, w) \<Longrightarrow>
    server_step D sv (Parted sid_b64 res) (sv\<lparr>srv_app := after_session_call aud w (srv_app sv)\<rparr>)"
| srv_reap: "server_step D sv (Reaping now)
    (sv\<lparr>srv_app := (srv_app sv)\<lparr>ap_world := reap_sessions in_memory_store [now] (sessions_of sv)\<rparr>\<rparr>)"
| srv_worker: "en_config E = config_of D \<Longrightarrow> r < length (mg_slots (ap_models (srv_app sv))) \<Longrightarrow>
    server_step D sv Background (sv\<lparr>srv_app := (srv_app sv)\<lparr>ap_models := worker_step E r (ap_models (srv_app sv))\<rparr>\<rparr>)"
| srv_idle: "en_config E = config_of D \<Longrightarrow> r < length (mg_slots (ap_models (srv_app sv))) \<Longrightarrow>
    sl_idle_timer (mg_slots (ap_models (srv_app sv)) ! r) \<noteq> None \<Longrightarrow>
    server_step D sv Background (sv\<lparr>srv_app := (srv_app sv)\<lparr>ap_models := idle_offload E r (ap_models (srv_app sv))\<rparr>\<rparr>)"
| srv_revert: "server_step D sv Background (sv\<lparr>srv_app := run_reverts (dp_services D) now (srv_app sv)\<rparr>)"
| srv_log: "server_step D sv Background (sv\<lparr>srv_app := (srv_app sv)\<lparr>ap_logging :=
    log_event L now ctx component level level_name event kw (ap_logging (srv_app sv))\<rparr>\<rparr>)"
| srv_error: "tracker_record eid now txt stack code rid fp extra (ap_errors (srv_app sv)) = (err, t) \<Longrightarrow>
    server_step D sv Background (sv\<lparr>srv_app := (srv_app sv)\<lparr>ap_errors := t\<rparr>\<rparr>)"

inductive_cases server_stepE: "server_step D sv x sv'"

lemma after_session_call_world [simp]: "ap_world (after_session_call evs w st) = w"
  by (simp add: after_session_call_def)

section \<open>What the steps do to the sessions\<close>

fun response_emitted :: "response \<Rightarrow> envelope list" where
  "response_emitted (Replied rep) = emitted rep"
| "response_emitted (Parked w) = []"

fun emits :: "happening \<Rightarrow> envelope list" where
  "emits (Asked T rq who (Some rep)) = emitted rep"
| "emits (Resumed w rep) = emitted rep"
| "emits (Streaming os out) = List.map_filter event_envelope out"
| "emits _ = []"

fun taken :: "happening \<Rightarrow> (bytes \<times> int) option" where
  "taken (Asked T rq (Some s) rep) = Some (se_session_id s, request_counter rq)"
| "taken _ = None"

fun answer_deed :: "request \<Rightarrow> deed \<Rightarrow> bool" where
  "answer_deed rq (Sent sid c) = names_session rq sid"
| "answer_deed rq _ = False"

fun step_deed :: "deployment \<Rightarrow> cache world \<Rightarrow> happening \<Rightarrow> deed \<Rightarrow> bool" where
  "step_deed D w0 (Asked T rq who rep) = asked_deed w0 (mo_now T) rq who"
| "step_deed D w0 (Resumed w rep) = answer_deed (waiting_request w)"
| "step_deed D w0 (Streaming os out) = answer_deed (os_request os)"
| "step_deed D w0 (Greeted allowlist clock req sid res) =
     opening_deed (sv_nacl (dp_services D)) allowlist (dp_skew_seconds D) clock req sid"
| "step_deed D w0 (Parted sid_b64 res) = goodbye_deed sid_b64"
| "step_deed D w0 (Reaping now) = reaping_deed now (fst w0) (snd w0)"
| "step_deed D w0 Background = (\<lambda>x. False)"

definition in_memory :: "deployment \<Rightarrow> bool" where
  "in_memory D \<longleftrightarrow> sv_ops (dp_services D) = in_memory_store"

lemma in_memory_at: "in_memory D \<Longrightarrow> sv_ops (services_at D E) = in_memory_store"
  by (simp add: in_memory_def services_at_def)

lemma park_emitted: "park W res = (out, st') \<Longrightarrow> response_emitted out = pending_emitted (fst res) \<and> st' = snd res"
  by (cases res; cases "fst res") auto

lemma dispatch_exchange:
  assumes "dispatch D S T route rq st = (out, st')" and "sv_ops S = in_memory_store" and "world_ok (ap_world st)"
  shows "exchange S T rq st (response_emitted out) st'"
proof -
  note x = inference_exchange [OF assms(2,3) prod.collapse [symmetric]]
  note y = catalog_exchange [OF assms(2,3)] introspection_exchange [OF assms(2,3)] admin_exchange [OF _ assms(2,3)]
  show ?thesis using assms(1)
    by (cases route) (auto dest!: park_emitted intro: x y simp: apfst_def map_prod_def split: prod.splits)
qed

lemma dispatch_parked:
  assumes "dispatch D S T route rq st = (Parked w, st')" and "sv_ops S = in_memory_store" and "world_ok (ap_world st)"
  shows "waiting_request w = rq \<and> holds_session rq (waiting_ref w) (ap_world st')"
proof -
  have p: "\<exists>r q fut. w = W r q fut \<and> res = (Waiting r q fut, st')" if "park W res = (Parked w, st')"
    for W :: "ref \<Rightarrow> 'q \<Rightarrow> nat \<Rightarrow> waiting" and res
    using that by (cases res; cases "fst res") auto
  have no: "apfst Replied x \<noteq> (Parked w, st')" for x :: "reply \<times> (cache, json) app" by (cases x) simp
  note x = inference_waiting [OF assms(2,3)]
  show ?thesis using assms(1) by (cases route) (auto simp: no dest!: p x)
qed

lemma resume_answered: "opens_stream T w f = None \<Longrightarrow> answered A (waiting_ref w) st (resume S T w f st)"
  by (cases w) (auto intro: answered_chat answered_completions answered_embeddings split: if_splits)

text \<open>The sessions are in order, and who waits or streams holds the session its request named.\<close>

definition sessions_ok :: "server \<Rightarrow> bool" where
  "sessions_ok sv \<longleftrightarrow> world_ok (sessions_of sv) \<and>
     (\<forall>w \<in> set (srv_waiting sv). holds_session (waiting_request w) (waiting_ref w) (sessions_of sv)) \<and>
     (\<forall>os \<in> set (srv_streams sv). holds_session (os_request os) (os_ref os) (sessions_of sv))"

lemma sessions_ok_start: "sessions_ok (server_start b)"
  by (simp add: sessions_ok_def server_start_def first_state_def world_ok_def cache_ok_def windows_ok_def)

lemma holds_session_le: "holds_session rq r w \<Longrightarrow> heap_le (fst w) (fst w') \<Longrightarrow> holds_session rq r w'"
  using heap_leD [of "fst w" "fst w'" r] by (auto simp: holds_session_def)

lemma sends_for_answer: "names_session rq sid \<Longrightarrow> sends_for (answer_deed rq) sid"
  by (simp add: sends_for_def)

lemma run_reverts_world [simp]: "ap_world (run_reverts S now st) = ap_world st"
proof -
  have "ap_world (revert_one S c st) = ap_world st" for c st
    by (auto simp: revert_one_def audit_def split: prod.splits sum.splits)
  then have "ap_world (fold (\<lambda>(due, c). revert_one S c) xs st) = ap_world st"
    for xs :: "(float_py \<times> string) list" and st by (induction xs arbitrary: st) (auto simp: case_prod_unfold)
  then show ?thesis by (simp add: run_reverts_def)
qed

lemma server_step_traffic:
  assumes "server_step D sv x sv'" and "in_memory D" and "sessions_ok sv"
  shows "\<exists>ins. traffic (step_deed D (sessions_of sv) x) (sessions_of sv) ins (map stamp_of (emits x)) (sessions_of sv') \<and>
    (\<forall>k. taken x = Some k \<longrightarrow> ins = [k])"
proof -
  have ok: "world_ok (sessions_of sv)" using assms(3) by (simp add: sessions_ok_def)
  obtain h d where w: "sessions_of sv = (h, d)" by (cases "sessions_of sv")
  from assms(1) show ?thesis
  proof cases
    case (srv_ask S E rq route T rep st')
    have "exchange S T rq (srv_app sv) (emitted rep) st'"
      using dispatch_exchange [OF srv_ask(6) _ ok] srv_ask(3) in_memory_at [OF assms(2)] by simp
    then show ?thesis using srv_ask(1,2) by (cases "caller S T rq (srv_app sv)") (auto simp: exchange_def)
  next
    case (srv_park S E rq route T w st')
    have "exchange S T rq (srv_app sv) [] st'"
      using dispatch_exchange [OF srv_park(6) _ ok] srv_park(3) in_memory_at [OF assms(2)] by simp
    then show ?thesis using srv_park(1,2) by (cases "caller S T rq (srv_app sv)") (auto simp: exchange_def)
  next
    case (srv_resume S E w f T rep st')
    have hold: "holds_session (waiting_request w) (waiting_ref w) (sessions_of sv)"
      using assms(3) srv_resume(5) by (simp add: sessions_ok_def)
    have "answered (answer_deed (waiting_request w)) (waiting_ref w) (srv_app sv) (rep, st')"
      using resume_answered [OF srv_resume(7), of "answer_deed (waiting_request w)" "srv_app sv" S] srv_resume(8) by simp
    with hold ok srv_resume show ?thesis by (auto simp: handled_def holds_session_def sends_for_answer)
  next
    case (srv_stream w f T os)
    then show ?thesis by (auto simp: map_filter_simps)
  next
    case (srv_turn os ev out t s)
    have hold: "holds_session (os_request os) (os_ref os) (sessions_of sv)"
      using assms(3) srv_turn(3) by (simp add: sessions_ok_def)
    have r: "os_ref os < length h" and A: "sends_for (answer_deed (os_request os)) (sid_at h (os_ref os))"
      using hold by (simp_all add: holds_session_def w sends_for_answer)
    have s: "session_ok (h ! os_ref os)" using world_okD(3) [OF _ r] ok w by simp
    from srv_turn(4) have turn: "stream_turn (sv_nacl (dp_services D)) (sv_json (dp_services D)) (rq_method (os_request os))
        (rq_path (os_request os)) (os_model os) (os_id os) (os_created os) ev (h ! os_ref os) = (out, t, s)"
      by (simp add: session_of_def w)
    from turn_traffic [OF turn r s A, of d] srv_turn(1,2) w show ?thesis
      by (auto simp: upd_session_def)
  next
    case (srv_greet sid allowlist clock esk now req res aud w')
    from create_session_traffic [OF srv_greet(6) [unfolded w]] srv_greet(4) w srv_greet(1,2) show ?thesis
      by (auto simp: after_session_call_def)
  next
    case (srv_part now sid_b64 res aud w')
    from terminate_session_traffic [OF srv_part(3) [unfolded w]] srv_part(1,2) w show ?thesis
      by (auto simp: after_session_call_def)
  next
    case (srv_reap now)
    with reap_traffic [of now h d] w show ?thesis by auto
  qed (auto intro: traffic_none)
qed

lemma sessions_ok_step:
  assumes "server_step D sv x sv'" and "in_memory D" and "sessions_ok sv"
  shows "sessions_ok sv'"
proof -
  have ok: "world_ok (sessions_of sv)" using assms(3) by (simp add: sessions_ok_def)
  from server_step_traffic [OF assms] have ok': "world_ok (sessions_of sv')"
    and le: "heap_le (fst (sessions_of sv)) (fst (sessions_of sv'))"
    using traffic_ok [OF _ ok] traffic_le [OF _ ok] by blast+
  have old: "holds_session (waiting_request w) (waiting_ref w) (sessions_of sv')" if "w \<in> set (srv_waiting sv)" for w
    using holds_session_le [OF _ le] that assms(3) by (simp add: sessions_ok_def)
  have olds: "holds_session (os_request os) (os_ref os) (sessions_of sv')" if "os \<in> set (srv_streams sv)" for os
    using holds_session_le [OF _ le] that assms(3) by (simp add: sessions_ok_def)
  from assms(1) have "(\<forall>w \<in> set (srv_waiting sv'). holds_session (waiting_request w) (waiting_ref w) (sessions_of sv')) \<and>
     (\<forall>os \<in> set (srv_streams sv'). holds_session (os_request os) (os_ref os) (sessions_of sv'))"
  proof cases
    case (srv_park S E rq route T w st')
    have "waiting_request w = rq \<and> holds_session rq (waiting_ref w) (ap_world st')"
      using dispatch_parked [OF srv_park(6) _ ok] srv_park(3) in_memory_at [OF assms(2)] by simp
    with old olds srv_park show ?thesis by auto
  next
    case (srv_stream w f T os)
    have "os_request os = waiting_request w \<and> os_ref os = waiting_ref w"
      using srv_stream(5) by (cases w) (auto split: if_splits)
    with old olds srv_stream show ?thesis by (auto dest: in_set_remove1 notin_set_remove1 set_remove1_subset [THEN subsetD])
  qed (use old olds in \<open>auto dest: set_remove1_subset [THEN subsetD] split: if_splits\<close>)
  with ok' show ?thesis by (simp add: sessions_ok_def)
qed

section \<open>The specification: who is logged in\<close>

text \<open>
  The abstract server is a map from session ids to logins, and a predicate that says whose time is over at a given
  clock reading, which may change freely. A login appears when a handshake has earned it; it disappears when a
  \<open>DELETE\<close> names it, when its time is over and a request names it or the reaper comes, or when a request that
  authenticates as an administrator of its tenant, or as \<open>super_admin\<close>, ends it. Nothing else changes.
\<close>

type_synonym auth = "(bytes \<rightharpoonup> login) \<times> (float_py \<Rightarrow> bytes \<Rightarrow> bool)"

inductive auth_step :: "deployment \<Rightarrow> auth \<Rightarrow> happening \<Rightarrow> auth \<Rightarrow> bool" for D where
  auth_same: "auth_step D (m, p) x (m, p')"
| auth_open: "sid \<notin> dom m \<Longrightarrow> earns (sv_nacl (dp_services D)) allowlist (dp_skew_seconds D) clock req l \<Longrightarrow>
    auth_step D (m, p) (Greeted allowlist clock req sid (HttpHandshake resp)) (m(sid \<mapsto> l), p')"
| auth_close: "path_session_id sid_b64 = Inr sid \<Longrightarrow> auth_step D (m, p) (Parted sid_b64 res) (m(sid := None), p')"
| auth_ask: "(\<And>sid. sid \<in> gone \<Longrightarrow> names_session rq sid \<and> p (mo_now T) sid \<or>
      (\<exists>s. who = Some s \<and> names_session rq (se_session_id s) \<and> may_end m (se_session_id s) sid)) \<Longrightarrow>
    auth_step D (m, p) (Asked T rq who rep) (m |` (- gone), p')"
| auth_reap: "(\<And>sid. sid \<in> gone \<Longrightarrow> p now sid) \<Longrightarrow> auth_step D (m, p) (Reaping now) (m |` (- gone), p')"

definition auth_of :: "server \<Rightarrow> auth" where
  "auth_of sv = (logins (sessions_of sv), \<lambda>now sid. lapsed now (sessions_of sv) sid)"

fun removed :: "deed \<Rightarrow> bytes set" where
  "removed (Ended sid) = {sid}"
| "removed (Expired sid) = {sid}"
| "removed (Reaped sids) = set sids"
| "removed _ = {}"

fun is_opened :: "deed \<Rightarrow> bool" where
  "is_opened (Opened sid l) = True"
| "is_opened _ = False"

lemma login_after_removed: "\<not> is_opened x \<Longrightarrow> login_after x m = m |` (- removed x)"
  by (cases x) (auto simp: restrict_map_def fun_eq_iff)

lemma fold_removed:
  "\<forall>x \<in> set ds. \<not> is_opened x \<Longrightarrow> fold login_after ds m = m |` (- (\<Union>x \<in> set ds. removed x))"
  by (induction ds arbitrary: m) (auto simp: login_after_removed restrict_map_def fun_eq_iff)

lemma fold_opened:
  "list_all (opening_deed N allowlist skew clock req sid) ds \<Longrightarrow>
    fold login_after ds m = m \<or> (\<exists>l. earns N allowlist skew clock req l \<and> fold login_after ds m = m(sid \<mapsto> l))"
proof (induction ds arbitrary: m)
  case (Cons x ds)
  then obtain l where x: "x = Opened sid l" "earns N allowlist skew clock req l" by (cases x) auto
  have "fold login_after (x # ds) m = fold login_after ds (m(sid \<mapsto> l))" by (simp add: x)
  moreover have "list_all (opening_deed N allowlist skew clock req sid) ds" using Cons.prems by simp
  note Cons.IH [OF this, of "m(sid \<mapsto> l)"]
  ultimately show ?case using x(2) by (metis fun_upd_upd)
qed simp

lemma removed_asked:
  assumes "asked_deed w now rq who x"
  shows "\<not> is_opened x \<and> (\<forall>sid \<in> removed x. names_session rq sid \<and> lapsed now w sid \<or>
    who \<noteq> None \<and> (\<exists>by_sid. names_session rq by_sid \<and> may_end (logins w) by_sid sid))"
  using assms by (cases x) (auto simp: asked_deed_def split: option.splits)

lemma names_session_unique: "names_session rq a \<Longrightarrow> names_session rq b \<Longrightarrow> a = b"
  by (auto simp: names_session_def)

lemma asked_names:
  assumes "server_step D sv (Asked T rq (Some s) rep) sv'" and "in_memory D" and "sessions_ok sv"
  shows "names_session rq (se_session_id s)"
proof -
  have ok: "world_ok (sessions_of sv)" using assms(3) by (simp add: sessions_ok_def)
  from assms(1) show ?thesis
  proof cases
    case (srv_ask S E route rep' st')
    have "exchange S T rq (srv_app sv) (response_emitted (Replied rep')) st'"
      by (rule dispatch_exchange [where D = D and route = route, OF _ _ ok]) (use srv_ask in_memory_at [OF assms(2)] in simp_all)
    then show ?thesis using srv_ask by (auto simp: exchange_def split: option.splits)
  next
    case (srv_park S E route w st')
    have "exchange S T rq (srv_app sv) (response_emitted (Parked w)) st'"
      by (rule dispatch_exchange [where D = D and route = route, OF _ _ ok]) (use srv_park in_memory_at [OF assms(2)] in simp_all)
    then show ?thesis using srv_park by (auto simp: exchange_def split: option.splits)
  qed
qed

lemma server_step_auth:
  assumes "server_step D sv x sv'" and "in_memory D" and "sessions_ok sv"
  shows "auth_step D (auth_of sv) x (auth_of sv')"
proof -
  have ok: "world_ok (sessions_of sv)" using assms(3) by (simp add: sessions_ok_def)
  obtain ds where run: "steps world_step (sessions_of sv) ds (sessions_of sv')" and A: "list_all (step_deed D (sessions_of sv) x) ds"
    using server_step_traffic [OF assms] by (auto simp: traffic_def)
  have m: "logins (sessions_of sv') = fold login_after ds (logins (sessions_of sv))" by (rule world_steps_logins [OF run ok])
  let ?m = "logins (sessions_of sv)"
  have gone: "logins (sessions_of sv') = ?m |` (- (\<Union>x \<in> set ds. removed x))" if "\<forall>x \<in> set ds. \<not> is_opened x"
    unfolding m by (rule fold_removed [OF that])
  have quiet: "logins (sessions_of sv') = ?m" if "\<forall>y \<in> set ds. \<not> is_opened y \<and> removed y = {}"
  proof -
    have "(\<Union>x \<in> set ds. removed x) = {}" using that by simp
    with gone that show ?thesis by (simp add: restrict_map_def)
  qed
  have answer: "\<not> is_opened y \<and> removed y = {}" if "answer_deed rq y" for rq y using that by (cases y) simp_all
  show ?thesis
  proof (cases x)
    case (Asked T rq who rep)
    have del: "\<not> is_opened y \<and> (\<forall>sid \<in> removed y. names_session rq sid \<and> lapsed (mo_now T) (sessions_of sv) sid \<or>
        who \<noteq> None \<and> (\<exists>by_sid. names_session rq by_sid \<and> may_end ?m by_sid sid))" if "y \<in> set ds" for y
      using A that removed_asked [of "sessions_of sv" "mo_now T" rq who y] by (simp add: Asked list_all_iff)
    have "auth_step D (?m, \<lambda>now sid. lapsed now (sessions_of sv) sid) (Asked T rq who rep)
        (?m |` (- (\<Union>x \<in> set ds. removed x)), \<lambda>now sid. lapsed now (sessions_of sv') sid)"
    proof (rule auth_ask)
      fix sid assume "sid \<in> (\<Union>x \<in> set ds. removed x)"
      then obtain y where "y \<in> set ds" "sid \<in> removed y" by blast
      with del [of y] have "names_session rq sid \<and> lapsed (mo_now T) (sessions_of sv) sid \<or>
        (\<exists>s by_sid. who = Some s \<and> names_session rq by_sid \<and> may_end ?m by_sid sid)" by auto
      then show "names_session rq sid \<and> lapsed (mo_now T) (sessions_of sv) sid \<or>
        (\<exists>s. who = Some s \<and> names_session rq (se_session_id s) \<and> may_end ?m (se_session_id s) sid)"
        using asked_names [OF _ assms(2,3)] assms(1) names_session_unique unfolding Asked by blast
    qed
    then show ?thesis using gone del by (auto simp: auth_of_def Asked)
  next
    case (Resumed w rep)
    have "logins (sessions_of sv') = ?m" using A answer [of "waiting_request w"] by (intro quiet) (auto simp: Resumed list_all_iff)
    then show ?thesis by (simp add: auth_of_def auth_same)
  next
    case (Streaming os out)
    have "logins (sessions_of sv') = ?m" using A answer [of "os_request os"] by (intro quiet) (auto simp: Streaming list_all_iff)
    then show ?thesis by (simp add: auth_of_def auth_same)
  next
    case Background
    have "logins (sessions_of sv') = ?m" using A by (intro quiet) (auto simp: Background list_all_iff)
    then show ?thesis by (simp add: auth_of_def auth_same)
  next
    case (Parted b64 res)
    have y: "\<not> is_opened y \<and> (\<forall>sid \<in> removed y. path_session_id b64 = Inr sid)" if "y \<in> set ds" for y
      using A that by (cases y) (auto simp: Parted list_all_iff)
    have g: "logins (sessions_of sv') = ?m |` (- (\<Union>x \<in> set ds. removed x))" using y by (intro gone) simp
    show ?thesis
    proof (cases "(\<Union>x \<in> set ds. removed x) = {}")
      case True
      then have "logins (sessions_of sv') = ?m" unfolding g by (simp only: Compl_empty_eq restrict_map_def) simp
      then show ?thesis by (simp add: auth_of_def auth_same)
    next
      case False
      then obtain sid where sid: "sid \<in> (\<Union>x \<in> set ds. removed x)" by blast
      with y have p: "path_session_id b64 = Inr sid" by blast
      have "a = sid" if "a \<in> (\<Union>x \<in> set ds. removed x)" for a
      proof -
        from that y have "path_session_id b64 = Inr a" by blast
        with p show ?thesis by simp
      qed
      with sid have "(\<Union>x \<in> set ds. removed x) = {sid}" by blast
      then have "logins (sessions_of sv') = ?m(sid := None)" unfolding g by (simp add: restrict_map_def fun_eq_iff)
      then show ?thesis using auth_close [OF p] by (simp add: auth_of_def Parted)
    qed
  next
    case (Reaping now)
    have y: "\<not> is_opened y \<and> (\<forall>sid \<in> removed y. lapsed now (sessions_of sv) sid)" if "y \<in> set ds" for y
    proof -
      have "dict_ok (snd (sessions_of sv))" using ok by (simp add: world_ok_def cache_ok_def)
      then have "lapsed now (sessions_of sv) sid" if "sid \<in> set (reaped now (fst (sessions_of sv)) (snd (sessions_of sv)))" for sid
        using that dict_values_in by (fastforce simp: reaped_def lapsed_def)
      then show ?thesis using A that by (cases y) (auto simp: Reaping list_all_iff)
    qed
    have g: "logins (sessions_of sv') = ?m |` (- (\<Union>x \<in> set ds. removed x))" using y by (intro gone) simp
    show ?thesis unfolding auth_of_def Reaping g by (rule auth_reap) (use y in blast)
  next
    case (Greeted allowlist clock req sid res)
    show ?thesis
    proof (cases "\<exists>resp. res = HttpHandshake resp")
      case True
      have "sid \<notin> dom ?m"
      proof -
        have "sid \<notin> se_session_id ` set (fst (sessions_of sv))" using assms(1) unfolding Greeted by cases simp
        then show ?thesis using ok by (force simp: logins_def world_ok_def dest: cache_okD)
      qed
      moreover have "fold login_after ds ?m = ?m \<or>
          (\<exists>l. earns (sv_nacl (dp_services D)) allowlist (dp_skew_seconds D) clock req l \<and> fold login_after ds ?m = ?m(sid \<mapsto> l))"
        using A by (intro fold_opened) (simp add: Greeted)
      ultimately show ?thesis using True m by (auto simp: auth_of_def Greeted intro: auth_same auth_open)
    next
      case False
      from assms(1) have "sessions_of sv' = sessions_of sv" unfolding Greeted
        by cases (use False in \<open>auto simp: after_session_call_def dest: create_session_refused\<close>)
      then show ?thesis by (simp add: auth_of_def auth_same)
    qed
  qed
qed

definition server_good :: "deployment \<Rightarrow> server \<Rightarrow> bool" where
  "server_good D sv \<longleftrightarrow> in_memory D \<and> sessions_ok sv"

interpretation auth: simulation "server_step D" "server_good D" "auth_step D" auth_of
proof unfold_locales
  fix sv x sv'
  assume "server_good D sv" and step: "server_step D sv x sv'"
  then have g: "in_memory D" "sessions_ok sv" by (simp_all add: server_good_def)
  show "server_good D sv'" using sessions_ok_step [OF step g] g by (simp add: server_good_def)
  show "auth_step D (auth_of sv) x (auth_of sv')" by (rule server_step_auth [OF step g])
qed

interpretation logins: simulation world_step world_ok "\<lambda>m x m'. m' = login_after x m" logins
  by unfold_locales (auto dest: world_step_ok world_step_logins)

lemma server_good_step: "server_step D sv x sv' \<Longrightarrow> server_good D sv \<Longrightarrow> server_good D sv'"
  using auth.good_kept by blast

lemma server_run_traffic:
  "steps (server_step D) sv hs sv' \<Longrightarrow> server_good D sv \<Longrightarrow>
    traffic (\<lambda>x. True) (sessions_of sv) (List.map_filter taken hs) (map stamp_of (concat (map emits hs))) (sessions_of sv')"
proof (induction rule: steps.induct)
  case (steps_none sv)
  then show ?case by (simp add: map_filter_simps)
next
  case (steps_more sv x sv1 hs sv')
  then have g: "in_memory D" "sessions_ok sv" by (simp_all add: server_good_def)
  obtain ins where t: "traffic (step_deed D (sessions_of sv) x) (sessions_of sv) ins (map stamp_of (emits x)) (sessions_of sv1)"
    and ins: "\<And>k. taken x = Some k \<Longrightarrow> ins = [k]"
    using server_step_traffic [OF steps_more.hyps(1) g] by blast
  have "traffic (\<lambda>x. True) (sessions_of sv) (case taken x of None \<Rightarrow> [] | Some k \<Rightarrow> [k]) (map stamp_of (emits x)) (sessions_of sv1)"
    by (rule traffic_less [OF traffic_mono [OF t]]) (auto simp: ins split: option.split)
  from traffic_trans [OF this steps_more.IH [OF server_good_step [OF steps_more.hyps(1) steps_more.prems]]]
  show ?case by (cases "taken x") (auto simp: map_filter_simps)
qed

lemma server_good_start: "in_memory D \<Longrightarrow> server_good D (server_start b)"
  by (simp add: server_good_def sessions_ok_start)

end
