(* ===== verification/Jobs.thy ===== *)
theory Jobs
  imports Manager
begin

text \<open>
  Who waits for a model is not forgotten: an order on the manager's states in which every job that was queued is
  still queued at a running worker, or its future is resolved. Every operation of the manager goes up in it.
\<close>

section \<open>Jobs that are accounted for\<close>

definition slot_jobs :: "slot \<Rightarrow> queue_item list \<times> bool \<times> bool" where
  "slot_jobs s = (sl_queue s, sl_worker s, sl_unloading s)"

text \<open>An unloaded slot has an empty queue; any other has a running worker and nothing but jobs in its queue.\<close>

fun jobs_ok :: "queue_item list \<times> bool \<times> bool \<Rightarrow> bool" where
  "jobs_ok (q, worker, unloading) = (if unloading then q = [] else worker \<and> (\<exists>js. q = map Job js))"

definition slots_ok :: "'c manager \<Rightarrow> bool" where
  "slots_ok m \<longleftrightarrow> (\<forall>x \<in> set (map slot_jobs (mg_slots m)). jobs_ok x)"

definition queued :: "nat \<Rightarrow> queue_item list \<times> bool \<times> bool \<Rightarrow> bool" where
  "queued fut = (\<lambda>(q, worker, unloading). \<exists>j. Job j \<in> set q \<and> jb_id j = fut)"

definition accounted :: "'c manager \<Rightarrow> nat \<Rightarrow> bool" where
  "accounted m fut \<longleftrightarrow> fut \<in> set (map fst (mg_done m)) \<or> (\<exists>x \<in> set (map slot_jobs (mg_slots m)). queued fut x)"

definition jobs_le :: "'c manager \<Rightarrow> 'c manager \<Rightarrow> bool" where
  "jobs_le m m' \<longleftrightarrow> (slots_ok m \<longrightarrow> slots_ok m' \<and> (\<forall>fut. accounted m fut \<longrightarrow> accounted m' fut))"

lemma jobs_le_refl [simp, intro]: "jobs_le m m"
  by (simp add: jobs_le_def)

lemma jobs_le_trans [trans]: "jobs_le m m1 \<Longrightarrow> jobs_le m1 m2 \<Longrightarrow> jobs_le m m2"
  by (simp add: jobs_le_def)

lemma jobs_le_frame:
  "map slot_jobs (mg_slots m') = map slot_jobs (mg_slots m) \<Longrightarrow> mg_done m' = mg_done m \<Longrightarrow> jobs_le m m'"
  by (simp add: jobs_le_def slots_ok_def accounted_def del: set_map)

text \<open>One slot changes; what it had queued is accounted for afterwards.\<close>

lemma jobs_le_slot:
  assumes "map slot_jobs (mg_slots m') = (map slot_jobs (mg_slots m))[r := x]"
    and "slots_ok m \<Longrightarrow> jobs_ok x"
    and "set (map fst (mg_done m)) \<subseteq> set (map fst (mg_done m'))"
    and "\<And>fut. slots_ok m \<Longrightarrow> r < length (mg_slots m) \<Longrightarrow> queued fut (slot_jobs (mg_slots m ! r)) \<Longrightarrow>
      queued fut x \<or> fut \<in> set (map fst (mg_done m'))"
  shows "jobs_le m m'"
proof (unfold jobs_le_def, intro impI conjI allI)
  assume ok: "slots_ok m"
  then show "slots_ok m'"
    using assms(2) set_update_subset_insert [of "map slot_jobs (mg_slots m)" r x] unfolding slots_ok_def assms(1) by blast
  fix fut assume acc: "accounted m fut"
  show "accounted m' fut"
  proof (cases "fut \<in> set (map fst (mg_done m'))")
    case False
    with acc assms(3) have "\<exists>s \<in> set (mg_slots m). queued fut (slot_jobs s)" by (auto simp: accounted_def)
    then obtain q where q: "q < length (mg_slots m)" "queued fut (slot_jobs (mg_slots m ! q))" by (auto simp: in_set_conv_nth)
    then have "queued fut ((map slot_jobs (mg_slots m))[r := x] ! q)"
      using assms(4) [OF ok, of fut] False by (cases "q = r") auto
    moreover have "(map slot_jobs (mg_slots m))[r := x] ! q \<in> set ((map slot_jobs (mg_slots m))[r := x])"
      using q by (intro nth_mem) simp
    ultimately show ?thesis unfolding accounted_def assms(1) by blast
  qed (simp add: accounted_def)
qed

lemma map_upd_slot: "map slot_jobs (mg_slots (upd_slot r f m)) = (map slot_jobs (mg_slots m))[r := slot_jobs (f (mg_slots m ! r))]"
  by (simp add: upd_slot_def map_update)

lemma slots_okD: "slots_ok m \<Longrightarrow> r < length (mg_slots m) \<Longrightarrow> jobs_ok (slot_jobs (mg_slots m ! r))"
  by (simp add: slots_ok_def)

lemma slot_queue:
  assumes "slots_ok m" and "r < length (mg_slots m)" and "\<not> sl_unloading (mg_slots m ! r)"
  obtains js where "sl_queue (mg_slots m ! r) = map Job js" and "sl_worker (mg_slots m ! r)"
  using slots_okD [OF assms(1,2)] assms(3) by (auto simp: slot_jobs_def)

lemma jobs_le_same_slot: "(\<And>s. slot_jobs (f s) = slot_jobs s) \<Longrightarrow> jobs_le m (upd_slot r f m)"
  by (rule jobs_le_frame; cases "r < length (mg_slots m)") (simp_all add: upd_slot_def map_update list_update_same_conv list_update_beyond)

lemma jobs_le_reset: "jobs_le m (reset_idle E r m)"
  unfolding reset_idle_def by (rule jobs_le_same_slot) (simp add: slot_jobs_def)

lemma jobs_le_files: "jobs_le m (m\<lparr>mg_models := x, mg_fs := fs\<rparr>)" "jobs_le m (m\<lparr>mg_loras := y, mg_fs := fs\<rparr>)"
    "jobs_le m (m\<lparr>mg_fs := fs\<rparr>)" "jobs_le m (m\<lparr>mg_loaded := d\<rparr>)" "jobs_le m (m\<lparr>mg_models := x\<rparr>)" "jobs_le m (m\<lparr>mg_loras := y\<rparr>)"
  by (auto intro: jobs_le_frame)

section \<open>The manager's operations\<close>

lemma worker_step_slots:
  "map slot_jobs (mg_slots (worker_step E r m)) =
     (let s = mg_slots m ! r in
      if \<not> sl_worker s then map slot_jobs (mg_slots m)
      else case sl_queue s of
        [] \<Rightarrow> map slot_jobs (mg_slots m)
      | StopSentinel # q \<Rightarrow> (map slot_jobs (mg_slots m))[r := (q, False, sl_unloading s)]
      | Job j # q \<Rightarrow> (map slot_jobs (mg_slots m))[r := (q, True, sl_unloading s)])"
  by (cases "r < length (mg_slots m)")
    (auto simp: worker_step_def Let_def reset_idle_def map_upd_slot slot_jobs_def list_update_beyond upd_slot_def map_update
      split: list.split queue_item.split response.split option.split)

lemma worker_step_done_mono: "set (map fst (mg_done m)) \<subseteq> set (map fst (mg_done (worker_step E r m)))"
  by (auto simp: worker_step_def Let_def reset_idle_def split: list.split queue_item.split response.split option.split)

lemma jobs_le_worker: "r < length (mg_slots m) \<Longrightarrow> jobs_le m (worker_step E r m)"
proof (cases "slots_ok m")
  case True
  assume r: "r < length (mg_slots m)"
  let ?s = "mg_slots m ! r"
  show ?thesis
  proof (cases "sl_worker ?s \<and> sl_queue ?s \<noteq> []")
    case False
    then have "worker_step E r m = m" by (auto simp: worker_step_def Let_def)
    then show ?thesis by simp
  next
    case busy: True
    then have "\<not> sl_unloading ?s" using slots_okD [OF True r] by (auto simp: slot_jobs_def)
    with slot_queue [OF True r] busy obtain j js where q: "sl_queue ?s = Job j # map Job js" "sl_worker ?s"
      by (metis list.exhaust list.simps(8,9))
    show ?thesis
    proof (rule jobs_le_slot [where r = r])
      show "map slot_jobs (mg_slots (worker_step E r m)) = (map slot_jobs (mg_slots m))[r := (map Job js, True, False)]"
        using q \<open>\<not> sl_unloading ?s\<close> by (simp add: worker_step_slots)
      show "queued fut (map Job js, True, False) \<or> fut \<in> set (map fst (mg_done (worker_step E r m)))"
        if "queued fut (slot_jobs ?s)" for fut
        using that worker_step_job(3) [OF r q(2,1), of E] by (auto simp: queued_def slot_jobs_def q)
    qed (auto, rule worker_step_done_mono [unfolded set_map, THEN subsetD], force)
  qed
qed (simp add: jobs_le_def)

lemma jobs_le_unload:
  assumes r: "r < length (mg_slots m)" and live: "\<not> sl_unloading (mg_slots m ! r)"
  shows "jobs_le m (unload E key r m)"
proof (cases "slots_ok m")
  case True
  obtain js where q: "sl_queue (mg_slots m ! r) = map Job js" and w: "sl_worker (mg_slots m ! r)"
    by (rule slot_queue [OF True r live])
  define m1 where "m1 = unload_begin r m"
  define m2 where "m2 = worker_run E r (length (sl_queue (mg_slots m1 ! r))) m1"
  have m1: "r < length (mg_slots m1)" "sl_worker (mg_slots m1 ! r)" "sl_queue (mg_slots m1 ! r) = map Job js @ StopSentinel # []"
    "sl_unloading (mg_slots m1 ! r)" "mg_done m1 = mg_done m" "length (mg_slots m1) = length (mg_slots m)"
    using r q w by (simp_all add: m1_def unload_begin_def)
  have run: "map fst (mg_done m2) = map fst (mg_done m) @ map jb_id js" "sl_queue (mg_slots m2 ! r) = []"
      "\<not> sl_worker (mg_slots m2 ! r)"
    using worker_run_jobs [OF m1(1-3), of "length (sl_queue (mg_slots m1 ! r))" E] m1(3,5) by (simp_all add: m2_def)
  have un: "sl_unloading (mg_slots m2 ! r)"
    using worker_run_core [OF m1(1), of E r "length (sl_queue (mg_slots m1 ! r))"] m1(4) by (simp add: m2_def slot_core_def)
  have u: "unload E key r m = unload_end key r m2" by (simp add: unload_def Let_def m1_def m2_def)
  show ?thesis
  proof (rule jobs_le_slot [where r = r])
    show "map slot_jobs (mg_slots (unload E key r m)) = (map slot_jobs (mg_slots m))[r := ([], False, True)]"
    proof (rule nth_equalityI)
      fix i assume "i < length (map slot_jobs (mg_slots (unload E key r m)))"
      then have i: "i < length (mg_slots m)" by simp
      show "map slot_jobs (mg_slots (unload E key r m)) ! i = (map slot_jobs (mg_slots m))[r := ([], False, True)] ! i"
      proof (cases "i = r")
        case True
        have "r < length (mg_slots m2)" using r by (simp add: m2_def m1_def)
        then have "slot_jobs (mg_slots (unload E key r m) ! r) = ([], False, True)"
          using run un by (simp add: u unload_end_def Let_def slot_jobs_def)
        then show ?thesis using True i by simp
      qed (use i in simp)
    qed simp
    have "mg_done (unload E key r m) = mg_done m2" by (simp add: u unload_end_def Let_def)
    then have ids: "map fst (mg_done (unload E key r m)) = map fst (mg_done m) @ map jb_id js" using run by simp
    then show "set (map fst (mg_done m)) \<subseteq> set (map fst (mg_done (unload E key r m)))" by simp
    show "queued fut ([], False, True) \<or> fut \<in> set (map fst (mg_done (unload E key r m)))"
      if "queued fut (slot_jobs (mg_slots m ! r))" for fut
      using ids that by (auto simp: queued_def slot_jobs_def q)
  qed simp
qed (simp add: jobs_le_def)

lemma jobs_le_unload_all: "names_slots m kvs \<Longrightarrow> distinct (map snd kvs) \<Longrightarrow>
    (\<And>k r. (k, r) \<in> set kvs \<Longrightarrow> \<not> sl_unloading (mg_slots m ! r)) \<Longrightarrow> jobs_le m (unload_all E kvs m)"
proof (induction E kvs m rule: unload_all.induct)
  case (2 E key r kvs m)
  then have r: "r < length (mg_slots m)" "names_slots m kvs" by (auto simp: names_slots_def)
  have "jobs_le m (unload E key r m)" using 2(4) r(1) by (intro jobs_le_unload) auto
  moreover have "jobs_le (unload E key r m) (unload_all E kvs (unload E key r m))"
  proof (rule 2(1) [OF names_slots_unload [OF r(2,1)]])
    fix k q assume k: "(k, q) \<in> set kvs"
    then have "q \<noteq> r" "q < length (mg_slots m)" using 2(3) r(2) by (force simp: names_slots_def)+
    then show "\<not> sl_unloading (mg_slots (unload E key r m) ! q)" using 2(4) k by simp
  qed (use 2(3) in simp)
  ultimately show ?case by (simp add: jobs_le_trans)
qed simp

lemma jobs_le_evict:
  "table_ok (en_config E) m \<Longrightarrow> evict E m = (res, m') \<Longrightarrow> jobs_le m m'"
proof (induction E m arbitrary: res m' rule: evict.induct)
  case (1 E m)
  show ?case
  proof (cases "int (length (mg_loaded m)) < mc_max_loaded (en_config E) \<or> mg_loaded m = []")
    case True
    then show ?thesis using 1(3) by (auto simp: evict.simps [of E m] split: if_splits)
  next
    case False
    then obtain key r rest where l: "mg_loaded m = (key, r) # rest" by (metis neq_Nil_conv surj_pair)
    have r: "r < length (mg_slots m)" "sl_cache_key (mg_slots m ! r) = key" "\<not> sl_unloading (mg_slots m ! r)"
      using table_okD [OF 1(2), of key r] by (simp_all add: l)
    have ev: "evict E (unload E key r m) = (res, m')" using 1(3) False by (simp add: evict.simps [of E m] l)
    have "jobs_le (unload E key r m) m'"
      using False l ev table_ok_unload [OF 1(2) r(1,2)] by (intro 1(1)) auto
    with jobs_le_unload [OF r(1,3)] show ?thesis by (rule jobs_le_trans)
  qed
qed

text \<open>A loaded slot is new, with a running worker and an empty queue.\<close>

lemma load_jobs:
  "load E R LR entry n_ctx key mode loras m = (res, m') \<Longrightarrow>
    map slot_jobs (mg_slots m') \<in> {map slot_jobs (mg_slots m), map slot_jobs (mg_slots m) @ [([], True, False)]} \<and>
    mg_done m' = mg_done m"
  by (auto simp: load_def Let_def reset_idle_def upd_slot_def slot_jobs_def list_update_append map_update nth_append
      split: sum.splits prod.splits)

lemma jobs_le_load: "load E R LR entry n_ctx key mode loras m = (res, m') \<Longrightarrow> jobs_le m m'"
  by (drule load_jobs) (auto simp: jobs_le_def slots_ok_def accounted_def simp del: set_map)

lemma jobs_le_ensure_locked:
  assumes "table_ok (en_config E) m" and "ensure_locked E R LR entry n_ctx key mode loras m = (res, m')"
  shows "jobs_le m m'"
proof -
  obtain ev m1 where ev: "evict E m = (ev, m1)" by (cases "evict E m")
  have le: "jobs_le m m1" by (rule jobs_le_evict [OF assms(1) ev])
  then show ?thesis using assms(2) ev
    by (auto simp: ensure_locked_def jobs_le_reset intro: jobs_le_load jobs_le_trans jobs_le_files(4)
        dest!: jobs_le_load split: option.splits sum.splits prod.splits)
qed

lemma jobs_le_ensure_loaded:
  assumes "table_ok (en_config E) m" and "ensure_loaded E model_id n_ctx mode loras tenant m = (res, m')"
  shows "jobs_le m m'"
proof -
  have ok: "table_ok (en_config E) (m\<lparr>mg_models := x, mg_fs := fs, mg_loras := y, mg_fs := fs'\<rparr>)"
    for x y fs fs' using assms(1) by (simp add: table_ok_def)
  have files: "jobs_le m (m\<lparr>mg_models := x, mg_fs := fs, mg_loras := y, mg_fs := fs'\<rparr>)"
    and moved: "jobs_le m (reset_idle E r (m\<lparr>mg_models := x, mg_fs := fs, mg_loaded := d\<rparr>))" for x y fs fs' r d
    by (auto intro: jobs_le_frame) (rule jobs_le_trans [OF jobs_le_frame jobs_le_reset]; simp)
  have locked: "jobs_le m m'" if "ensure_locked E R LR entry n_ctx key mode loras (m\<lparr>mg_models := x, mg_fs := fs, mg_loras := y, mg_fs := fs'\<rparr>)
      = (res, m')" for R LR entry n_ctx key mode loras x fs y fs' res
    by (rule jobs_le_trans [OF files jobs_le_ensure_locked [OF ok that]])
  show ?thesis using assms(2) jobs_le_files(1) files moved
    by (auto dest: locked [simplified] simp: ensure_loaded_def Let_def split: sum.splits prod.splits option.splits)
qed

lemma submit_accounts:
  assumes "submit E fut r kind payload stream m = (res, m')" and "r < length (mg_slots m)" and "\<not> sl_unloading (mg_slots m ! r)"
  shows "jobs_le m m'" and "res = Inr f \<Longrightarrow> f = fut \<and> accounted m' fut"
proof -
  let ?j = "Job \<lparr>jb_id = fut, jb_kind = kind, jb_payload = payload, jb_stream = stream\<rparr>"
  let ?m1 = "upd_slot r (\<lambda>s. s\<lparr>sl_queue := sl_queue s @ [?j]\<rparr>) m"
  have "jobs_le m ?m1"
  proof (rule jobs_le_slot [OF map_upd_slot])
    show "jobs_ok (slot_jobs ((mg_slots m ! r)\<lparr>sl_queue := sl_queue (mg_slots m ! r) @ [?j]\<rparr>))" if ok: "slots_ok m"
    proof -
      obtain js where "sl_queue (mg_slots m ! r) = map Job js" "sl_worker (mg_slots m ! r)" by (rule slot_queue [OF ok assms(2,3)])
      moreover have "map Job js @ [?j] = map Job (js @ [the_elem {j. ?j = Job j}])" by simp
      ultimately show ?thesis using assms(3) by (auto simp: slot_jobs_def simp del: map_append)
    qed
  qed (auto simp: queued_def slot_jobs_def)
  then show "jobs_le m m'" using assms(1) by (auto simp: submit_def split: if_splits)
  show "f = fut \<and> accounted m' fut" if "res = Inr f"
  proof -
    have m': "m' = ?m1" "f = fut" using assms(1) that by (auto simp: submit_def split: if_splits)
    have "queued fut (slot_jobs (mg_slots m' ! r))" using assms(2) by (simp add: m' queued_def slot_jobs_def) force
    moreover have "mg_slots m' ! r \<in> set (mg_slots m')" using assms(2) by (intro nth_mem) (simp add: m')
    ultimately show ?thesis using m' by (auto simp: accounted_def)
  qed
qed

definition manager_le :: "manager_config \<Rightarrow> 'c manager \<Rightarrow> 'c manager \<Rightarrow> bool" where
  "manager_le C m m' \<longleftrightarrow> (table_ok C m \<longrightarrow> table_ok C m' \<and> jobs_le m m')"

lemma manager_le_refl [simp, intro]: "manager_le C m m"
  by (simp add: manager_le_def)

lemma manager_le_trans [trans]: "manager_le C m m1 \<Longrightarrow> manager_le C m1 m2 \<Longrightarrow> manager_le C m m2"
  by (auto simp: manager_le_def intro: jobs_le_trans)

lemma manager_le_files:
  "manager_le C m (m\<lparr>mg_fs := fs\<rparr>)" "manager_le C m (m\<lparr>mg_models := mt\<rparr>)" "manager_le C m (m\<lparr>mg_loras := mt'\<rparr>)"
  by (simp_all add: manager_le_def table_ok_def jobs_le_files)

lemma manager_le_ensure_loaded:
  "ensure_loaded E model_id n_ctx mode loras tenant m = (res, m') \<Longrightarrow> en_config E = C \<Longrightarrow> manager_le C m m'"
  by (auto simp: manager_le_def dest: ensure_loaded_table_ok jobs_le_ensure_loaded)

lemma manager_le_ensure_and_submit:
  assumes "ensure_and_submit E fut model_id n_ctx mode loras tenant kind payload stream m = (res, m')" and "en_config E = C"
  shows "manager_le C m m'" and "table_ok C m \<Longrightarrow> res = Inr f \<Longrightarrow> f = fut \<and> accounted m' fut"
proof -
  obtain ens m1 where ens: "ensure_loaded E model_id n_ctx mode loras tenant m = (ens, m1)" by (metis prod.exhaust)
  have le: "manager_le C m m1" by (rule manager_le_ensure_loaded [OF ens assms(2)])
  have slot: "r < length (mg_slots m1) \<and> \<not> sl_unloading (mg_slots m1 ! r)" if "ens = Inr r" "table_ok C m" for r
  proof -
    from ensure_loaded_table_ok [OF _ ens] that assms(2) obtain key where "table_ok C m1" "map_of (mg_loaded m1) key = Some r" by blast
    from table_okD [OF this] show ?thesis by simp
  qed
  have "manager_le C m m' \<and> (table_ok C m \<longrightarrow> res = Inr f \<longrightarrow> f = fut \<and> accounted m' fut)"
  proof (cases ens)
    case (Inl e)
    then show ?thesis using assms(1) ens le by (auto simp: ensure_and_submit_def)
  next
    case (Inr r)
    then have sub: "submit E fut r kind payload stream m1 = (res, m')" using assms(1) ens by (simp add: ensure_and_submit_def)
    have "table_ok C m'" if "table_ok C m" using sub le slot [OF Inr that] that
      by (auto simp: manager_le_def submit_def slot_core_def split: if_splits intro: table_ok_frame [of C m1])
    then show ?thesis using le slot [OF Inr] submit_accounts(1) [OF sub] submit_accounts(2) [OF sub, where f = f] by (auto simp: manager_le_def intro: jobs_le_trans)
  qed
  then show "manager_le C m m'" and "table_ok C m \<Longrightarrow> res = Inr f \<Longrightarrow> f = fut \<and> accounted m' fut" by blast+
qed

lemma manager_le_worker: "en_config E = C \<Longrightarrow> r < length (mg_slots m) \<Longrightarrow> manager_le C m (worker_step E r m)"
  using manager_step_table_ok [OF step_worker] by (auto simp: manager_le_def jobs_le_worker)

lemma manager_le_idle:
  assumes "en_config E = C" and "r < length (mg_slots m)" and "sl_idle_timer (mg_slots m ! r) \<noteq> None"
  shows "manager_le C m (idle_offload E r m)"
  using manager_step_table_ok [OF step_idle [OF assms]] assms(2)
  by (auto simp: manager_le_def idle_offload_def Let_def intro: jobs_le_unload)

text \<open>No slot is filed under two keys.\<close>

lemma table_slots_distinct: "table_ok C m \<Longrightarrow> distinct (map snd (mg_loaded m))"
proof -
  assume ok: "table_ok C m"
  then have d: "distinct (map fst (mg_loaded m))" by (simp add: table_ok_def dict_ok_def)
  have "k = k'" if "(k, r) \<in> set (mg_loaded m)" "(k', r) \<in> set (mg_loaded m)" for k k' r
    using that table_okD [OF ok] map_of_is_SomeI [OF d] by metis
  then have "inj_on snd (set (mg_loaded m))" by (force intro: inj_onI)
  with d show "distinct (map snd (mg_loaded m))" by (simp add: distinct_map)
qed

lemma manager_le_force_unload:
  assumes "force_unload E model_id tenant m = (b, m')" and "en_config E = C"
  shows "manager_le C m m'"
proof -
  have ok': "table_ok C m'" if "table_ok C m" by (rule manager_step_table_ok [OF step_force_unload [OF assms(2,1)] that])
  have "jobs_le m (unload_all E (filter P (mg_loaded m)) m)" if ok: "table_ok C m" for P
  proof (rule jobs_le_unload_all)
    show "names_slots m (filter P (mg_loaded m))" by (rule names_table [OF ok]) auto
    show "distinct (map snd (filter P (mg_loaded m)))" by (rule distinct_map_filter [OF table_slots_distinct [OF ok]])
    have "distinct (map fst (mg_loaded m))" using ok by (simp add: table_ok_def dict_ok_def)
    then show "\<not> sl_unloading (mg_slots m ! r)" if "(k, r) \<in> set (filter P (mg_loaded m))" for k r
      using table_okD [OF ok map_of_is_SomeI] that by auto
  qed
  then show ?thesis using assms(1) ok' by (auto simp: manager_le_def force_unload_def Let_def split: if_splits)
qed

end
