(* ===== verification/Loading.thy ===== *)
theory Loading
  imports Server Jobs
begin

text \<open>
  The models under the whole server: every endpoint, not only the operations of theory \<open>Manager\<close>'s step relation, and
  everything that runs beside the handlers keeps the table of loaded models in order and forgets no waiting job.
\<close>

section \<open>Handlers and the table\<close>

definition tabled :: "manager_config \<Rightarrow> ('s, 'c) app \<Rightarrow> 'r \<times> ('s, 'c) app \<Rightarrow> bool" where
  "tabled C st res \<longleftrightarrow> manager_le C (ap_models st) (ap_models (snd res))"

lemma jobs_files [simp]:
  "slots_ok (m\<lparr>mg_fs := fs\<rparr>) = slots_ok m" "slots_ok (m\<lparr>mg_models := mt\<rparr>) = slots_ok m" "slots_ok (m\<lparr>mg_loras := mt'\<rparr>) = slots_ok m"
  "accounted (m\<lparr>mg_fs := fs\<rparr>) fut = accounted m fut" "accounted (m\<lparr>mg_models := mt\<rparr>) fut = accounted m fut"
  "accounted (m\<lparr>mg_loras := mt'\<rparr>) fut = accounted m fut"
  by (simp_all add: slots_ok_def accounted_def)

lemma manager_le_registries [simp]:
  "manager_le C m1 (m\<lparr>mg_fs := fs\<rparr>) = manager_le C m1 m" "manager_le C m1 (m\<lparr>mg_models := mt\<rparr>) = manager_le C m1 m"
  "manager_le C m1 (m\<lparr>mg_loras := mt'\<rparr>) = manager_le C m1 m"
  by (simp_all add: manager_le_def jobs_le_def table_ok_def)

lemma answer_models: "ap_models (snd (answer S rq r status payload direction st)) = ap_models st"
  using answer_effect [OF prod.collapse [symmetric], of S rq r status payload direction st] by (simp add: control_state_def)

lemma tabled_same: "manager_le C (ap_models st) (ap_models st1) \<Longrightarrow> tabled C st (rep, st1)"
  by (simp add: tabled_def)

lemma tabled_answer:
  "manager_le C (ap_models st) (ap_models st1) \<Longrightarrow> tabled C st (answer S rq r status payload direction st1)"
  by (simp add: tabled_def answer_models)

lemma tabled_error:
  "manager_le C (ap_models st) (ap_models st1) \<Longrightarrow> tabled C st (answer_error S rq r status code message st1)"
  by (simp add: answer_error_def tabled_answer)

lemma tabled_dict:
  "manager_le C (ap_models st) (ap_models st1) \<Longrightarrow> tabled C st (answer_dict S rq r v st1)"
  by (simp add: answer_dict_def tabled_answer)

lemma tabled_model:
  "manager_le C (ap_models st) (ap_models st1) \<Longrightarrow> tabled C st (answer_model S rq r v st1)"
  by (simp add: answer_model_def tabled_answer)

lemma tabled_manager_error:
  "manager_le C (ap_models st) (ap_models st1) \<Longrightarrow> tabled C st (answer_manager_error S rq r e st1)"
  by (cases e) (simp_all add: answer_manager_error_def tabled_error tabled_same)

lemma tabled_deny: "tabled C st (deny S rq r message event st)"
  using tabled_error [of C st st S rq r 403 ADMIN_REQUIRED message]
  by (cases "answer_error S rq r 403 ADMIN_REQUIRED message st")
    (auto simp: deny_def tabled_def audit_def split: reply.splits)

lemma snapshot_table: "snapshot E tenant m = Inr (infos, m') \<Longrightarrow> manager_le C m1 m' = manager_le C m1 m"
  by (auto simp: snapshot_def and_then_Inr_iff Let_def)

lemma tabled_snapshot:
  "manager_le C (ap_models st) (ap_models st1) \<Longrightarrow> tabled C st (answer_snapshot S rq r st1)"
  by (auto simp: answer_snapshot_def snapshot_table intro!: tabled_model tabled_same split: sum.splits prod.splits)

lemmas tabled_rules = tabled_same tabled_answer tabled_error tabled_dict tabled_model tabled_snapshot tabled_manager_error

lemma with_request_tabled:
  assumes "with_request S T validate rq handler fail st = (res, st')"
    and "\<And>r q st1. ap_models st1 = ap_models st \<Longrightarrow> tabled C st1 (handler r q st1)"
  shows "tabled C st (res, st')"
proof -
  obtain out w where d: "decrypt_request (sv_nacl S) (sv_ops S) validate (mo_started T) (mo_failed T) (mo_lookup T) (mo_now T) rq
      (ap_world st) = (out, w)" by (metis prod.exhaust)
  show ?thesis
  proof (cases out)
    case (Accepted r q)
    then show ?thesis using assms(1) assms(2) [of "st\<lparr>ap_world := w\<rparr>" r q] d by (simp add: with_request_def tabled_def)
  qed (use assms(1) d in \<open>auto simp: with_request_def tabled_def\<close>)
qed

lemma guarded_tabled:
  assumes "guarded guard S T validate rq body st = (rep, st')"
    and "\<And>r st1 res. guard S rq r st1 = Some res \<Longrightarrow> tabled C st1 res"
    and "\<And>r q st1. tabled C st1 (body r q st1)"
  shows "tabled C st (rep, st')"
  by (rule with_request_tabled [OF assms(1) [unfolded guarded_def]]) (auto intro: assms(2,3) split: option.splits)

lemma tabled_guard:
  "require_admin S rq r st = Some res \<Longrightarrow> tabled C st res"
  "require_super_admin S rq r st = Some res \<Longrightarrow> tabled C st res"
  by (auto simp: require_admin_def require_super_admin_def intro: tabled_deny split: if_splits)

section \<open>The manager's operations\<close>

lemma on_models_le:
  "on_models f st = (res, st') \<Longrightarrow> (\<And>res m'. f (ap_models st) = (res, m') \<Longrightarrow> manager_le C (ap_models st) m') \<Longrightarrow>
    manager_le C (ap_models st) (ap_models st')"
  by (auto simp: on_models_def split: prod.splits)

lemma manager_ops_le:
  assumes "en_config E = C"
  shows "chat E fut model_id n_ctx messages stream loras tenant sampling m = (res, m') \<Longrightarrow> manager_le C m m'"
    and "complete E fut model_id n_ctx prompt stream loras tenant sampling m = (res, m') \<Longrightarrow> manager_le C m m'"
    and "embed E fut model_id inputs tenant m = (res, m') \<Longrightarrow> manager_le C m m'"
    and "preload E model_id tenant m = (res1, m') \<Longrightarrow> manager_le C m m'"
  using manager_le_ensure_and_submit(1) [OF _ assms] manager_le_ensure_loaded [OF _ assms]
  by (auto simp: chat_def complete_def embed_def preload_def split: prod.splits sum.splits)

lemma loading_table:
  assumes "en_config (sv_env S) = C"
  shows "on_models (chat (sv_env S) fut i n msgs stream ls t sampling) st = (res, st') \<Longrightarrow>
      manager_le C (ap_models st) (ap_models st')"
    and "on_models (complete (sv_env S) fut i n prompt stream ls t sampling) st = (res, st') \<Longrightarrow>
      manager_le C (ap_models st) (ap_models st')"
    and "on_models (embed (sv_env S) fut i inputs t) st = (res, st') \<Longrightarrow> manager_le C (ap_models st) (ap_models st')"
    and "on_models (preload (sv_env S) i t) st = (res1, st') \<Longrightarrow> manager_le C (ap_models st) (ap_models st')"
    and "on_models (ensure_loaded (sv_env S) i n md ls t) st = (res, st') \<Longrightarrow> manager_le C (ap_models st) (ap_models st')"
    and "on_models (force_unload (sv_env S) i t) st = (b, st') \<Longrightarrow> manager_le C (ap_models st) (ap_models st')"
  by (erule on_models_le, erule manager_ops_le [OF assms])+
    (erule on_models_le, erule manager_le_ensure_loaded [OF _ assms], erule on_models_le, erule manager_le_force_unload [OF _ assms])

section \<open>The endpoints\<close>

lemma tenant_rows_table: "tenant_rows S T ts st = (res, st') \<Longrightarrow>
    manager_le C m (ap_models st') = manager_le C m (ap_models st)"
  by (induction S T ts st arbitrary: res st' rule: tenant_rows.induct) (auto simp: Let_def split: sum.splits prod.splits)

lemma set_registry_table [simp]:
  "manager_le C m (ap_models (set_lora_registry tenant reg mt fs st)) = manager_le C m (ap_models st)"
  "manager_le C m (ap_models (set_model_registry tenant reg' mt' fs st)) = manager_le C m (ap_models st)"
  "ap_models (audit ev kw st) = ap_models st"
  by (simp_all add: set_lora_registry_def set_model_registry_def audit_def)

lemma lookup_terminate_tabled: "tabled C st (terminate_body S T rq r b64 st)"
  by (auto simp: terminate_body_def Let_def intro!: tabled_rules split: sum.splits prod.splits)

lemma admin_tabled:
  assumes run: "admin_dispatch S T V route rq st = (rep, st')" and C: "en_config (sv_env S) = C"
  shows "tabled C st (rep, st')"
proof -
  note g = guarded_tabled [OF _ tabled_guard(1)] and load = loading_table [OF C]
  show ?thesis
  proof (cases route)
    case SessionsTerminate
    show ?thesis
      by (rule g [OF run [unfolded SessionsTerminate admin_dispatch.simps admin_terminate_session_def]])
        (assumption, rule lookup_terminate_tabled)
  next
    case TenantsList
    show ?thesis
      by (rule guarded_tabled [OF run [unfolded TenantsList admin_dispatch.simps admin_tenants_list_def] tabled_guard(2)])
        (auto simp: Let_def tenant_rows_table intro!: tabled_rules split: sum.splits prod.splits)
  next
    case ModelsPreload
    show ?thesis
      by (rule g [OF run [unfolded ModelsPreload admin_dispatch.simps preload_model_def]])
        (auto simp: Let_def dest: load intro!: tabled_rules split: sum.splits prod.splits)
  next
    case ModelsUnload
    show ?thesis
      by (rule g [OF run [unfolded ModelsUnload admin_dispatch.simps unload_model_def]])
        (auto simp: Let_def dest: load intro!: tabled_rules split: sum.splits prod.splits)
  next
    case LorasApply
    show ?thesis
      by (rule g [OF run [unfolded LorasApply admin_dispatch.simps admin_loras_apply_def]])
        (auto simp: Let_def dest: load intro!: tabled_rules split: sum.splits prod.splits)
  next
    case LorasPull
    show ?thesis
      by (rule g [OF run [unfolded LorasPull admin_dispatch.simps admin_loras_pull_def]])
        (auto simp: Let_def intro!: tabled_rules split: sum.splits prod.splits download_error.splits)
  next
    case LogLevel
    show ?thesis
      by (rule g [OF run [unfolded LogLevel admin_dispatch.simps set_log_level_def]])
        (auto simp: Let_def intro!: tabled_rules split: sum.splits prod.splits option.splits)
  next
    case SessionsList
    show ?thesis
      by (rule g [OF run [unfolded SessionsList admin_dispatch.simps list_sessions_def]])
        (auto simp: Let_def intro!: tabled_rules split: sum.splits prod.splits)
  next
    case ClientsList
    show ?thesis
      by (rule g [OF run [unfolded ClientsList admin_dispatch.simps list_clients_def]])
        (auto simp: Let_def intro!: tabled_rules split: sum.splits prod.splits)
  next
    case ClientsReload
    show ?thesis
      by (rule g [OF run [unfolded ClientsReload admin_dispatch.simps reload_clients_def]])
        (auto simp: Let_def intro!: tabled_rules split: sum.splits prod.splits)
  next
    case ModelsList
    show ?thesis
      by (rule g [OF run [unfolded ModelsList admin_dispatch.simps admin_models_list_def]])
        (auto simp: Let_def intro!: tabled_rules split: sum.splits prod.splits)
  next
    case Gc
    show ?thesis
      by (rule g [OF run [unfolded Gc admin_dispatch.simps admin_gc_def]])
        (auto simp: Let_def intro!: tabled_rules split: sum.splits prod.splits)
  next
    case Shutdown
    show ?thesis
      by (rule g [OF run [unfolded Shutdown admin_dispatch.simps admin_shutdown_def]])
        (auto simp: Let_def intro!: tabled_rules split: sum.splits prod.splits)
  next
    case LorasList
    show ?thesis
      by (rule g [OF run [unfolded LorasList admin_dispatch.simps admin_loras_list_def]])
        (auto simp: Let_def intro!: tabled_rules split: sum.splits prod.splits)
  next
    case LorasRm
    show ?thesis
      by (rule g [OF run [unfolded LorasRm admin_dispatch.simps admin_loras_rm_def]])
        (auto simp: Let_def intro!: tabled_rules split: sum.splits prod.splits)
  qed
qed

lemma status_table:
  "status_system S T st = Inr (v, st1) \<Longrightarrow> manager_le C m (ap_models st1) = manager_le C m (ap_models st)"
  "status_debug S T st = Inr (v, st1) \<Longrightarrow> manager_le C m (ap_models st1) = manager_le C m (ap_models st)"
  by (auto simp: status_system_def status_debug_def and_then_Inr_iff snapshot_table)

lemma tabled_done: "tabled C st res \<Longrightarrow> tabled C st (apfst Done res)"
  by (cases res) (simp add: tabled_def)

lemma tabled_le: "tabled C st (res, st') \<Longrightarrow> manager_le C (ap_models st) (ap_models st')"
  by (simp add: tabled_def)

lemma dispatch_table:
  assumes run: "dispatch D S T route rq st = (out, st')" and C: "en_config (sv_env S) = C"
  shows "manager_le C (ap_models st) (ap_models st')"
proof -
  note load = loading_table [OF C]
  have pk: "\<exists>res1. res = (res1, st')" if "park W res = (out, st')" for W :: "ref \<Rightarrow> 'q \<Rightarrow> nat \<Rightarrow> waiting" and res
    using that by (cases res; cases "fst res") auto
  have ap: "\<exists>rep. res = (rep, st')" if "apfst Replied res = (out, st')" for res :: "reply \<times> (cache, json) app"
    using that by (cases res) auto
  note keeps = with_request_tabled [THEN tabled_le]
  show ?thesis
  proof (cases route)
    case ChatCompletions
    with run pk obtain res where "chat_completions S T (sc_chat (dp_schemas D)) rq st = (res, st')" by fastforce
    then show ?thesis unfolding chat_completions_def
      by (rule keeps) (auto dest: load intro!: tabled_done tabled_rules split: sum.splits prod.splits)
  next
    case Completions
    with run pk obtain res where "completions S T (sc_completion (dp_schemas D)) rq st = (res, st')" by fastforce
    then show ?thesis unfolding completions_def
      by (rule keeps) (auto dest: load intro!: tabled_done tabled_rules split: sum.splits prod.splits)
  next
    case Embeddings
    with run pk obtain res where "embeddings S T (sc_embeddings (dp_schemas D)) rq st = (res, st')" by fastforce
    then show ?thesis unfolding embeddings_def
      by (rule keeps) (auto dest: load intro!: tabled_done tabled_rules split: sum.splits prod.splits)
  next
    case ListModels
    with run ap obtain rep where "list_models S T (as_empty (dp_schemas D)) rq st = (rep, st')" by fastforce
    then show ?thesis unfolding list_models_def by (rule keeps) (auto intro!: tabled_rules)
  next
    case DownloadModel
    with run ap obtain rep where "download_model S T (sc_download (dp_schemas D)) rq st = (rep, st')" by fastforce
    then show ?thesis unfolding download_model_def
      by (rule keeps)
        (auto simp: Let_def intro!: tabled_rules split: sum.splits prod.splits download_error.splits)
  next
    case RemoveModel
    have unload: "manager_le C (ap_models st) (ap_models (snd (on_models (force_unload (sv_env S) i t) st2)))"
      if "ap_models st2 = ap_models st" for i t st2 using load(6) [OF prod.collapse [symmetric]] that by metis
    from RemoveModel run ap obtain rep where "remove_model S T (as_model_id (dp_schemas D)) rq st = (rep, st')" by fastforce
    then show ?thesis unfolding remove_model_def
      by (rule keeps) (auto simp: Let_def unload intro!: tabled_rules split: sum.splits prod.splits)
  next
    case SystemStatus
    with run ap obtain rep where "system_status S T (as_empty (dp_schemas D)) rq st = (rep, st')" by fastforce
    then show ?thesis unfolding system_status_def
      by (rule keeps) (auto simp: status_table intro!: tabled_rules split: sum.splits prod.splits)
  next
    case DebugStatus
    with run ap obtain rep where "debug_status S T (as_empty (dp_schemas D)) rq st = (rep, st')" by fastforce
    then show ?thesis unfolding debug_status_def
      by (rule keeps) (auto simp: status_table intro!: tabled_rules split: sum.splits prod.splits)
  next
    case DebugDoctor
    with run ap obtain rep where "debug_doctor S (dp_machine D) (dp_dirs D) T (as_empty (dp_schemas D)) rq st = (rep, st')" by fastforce
    then show ?thesis unfolding debug_doctor_def
      by (rule keeps) (auto intro!: tabled_rules split: prod.splits)
  next
    case DebugVersion
    with run ap obtain rep where "debug_version S T (as_empty (dp_schemas D)) rq st = (rep, st')" by fastforce
    then show ?thesis unfolding debug_version_def by (rule keeps) (auto intro!: tabled_rules)
  next
    case DebugLogs
    with run ap obtain rep where "debug_logs S T (sc_logs (dp_schemas D)) rq st = (rep, st')" by fastforce
    then show ?thesis unfolding debug_logs_def
      by (rule keeps) (auto intro!: tabled_rules split: sum.splits)
  next
    case DebugErrors
    with run ap obtain rep where "debug_errors S T (sc_errors (dp_schemas D)) rq st = (rep, st')" by fastforce
    then show ?thesis unfolding debug_errors_def by (rule keeps) (auto intro!: tabled_rules)
  next
    case (AdminRoute admin)
    with run ap obtain rep where "admin_dispatch S T (admin_schemas.truncate (dp_schemas D)) admin rq st = (rep, st')" by fastforce
    from admin_tabled [OF this C] show ?thesis by (simp add: tabled_def)
  qed
qed

lemma resume_tabled: "tabled C st (resume S T w f st)"
  by (cases w; cases f)
    (auto simp: chat_finish_def completions_finish_def embeddings_finish_def intro!: tabled_rules split: sum.split prod.split)

section \<open>Every step of the server\<close>

lemma run_reverts_models [simp]: "ap_models (run_reverts S now st) = ap_models st"
proof -
  have "ap_models (revert_one S c st) = ap_models st" for c st
    by (auto simp: revert_one_def audit_def split: prod.splits sum.splits)
  then have "ap_models (fold (\<lambda>(due, c). revert_one S c) xs st) = ap_models st"
    for xs :: "(float_py \<times> string) list" and st by (induction xs arbitrary: st) (auto simp: case_prod_unfold)
  then show ?thesis by (simp add: run_reverts_def)
qed

lemma after_session_call_models [simp]: "ap_models (after_session_call evs w st) = ap_models st"
  by (simp add: after_session_call_def)

abbreviation models_of :: "server \<Rightarrow> json manager" where
  "models_of sv \<equiv> ap_models (srv_app sv)"

lemma server_step_models:
  assumes "server_step D sv x sv'"
  shows "manager_le (config_of D) (models_of sv) (models_of sv')"
  using assms
proof cases
  case (srv_ask S E rq route T rep st')
  have "en_config (sv_env S) = config_of D" using srv_ask by (simp add: services_at_def)
  from dispatch_table [OF _ this] srv_ask show ?thesis by auto
next
  case (srv_park S E rq route T w st')
  have "en_config (sv_env S) = config_of D" using srv_park by (simp add: services_at_def)
  from dispatch_table [OF _ this] srv_park show ?thesis by auto
next
  case (srv_resume S E w f T rep st')
  from resume_tabled [of "config_of D" "srv_app sv" S T w f] srv_resume show ?thesis by (simp add: tabled_def)
qed (simp_all add: manager_le_worker manager_le_idle)

section \<open>Whoever waits\<close>

text \<open>A handler that waits has queued its job.\<close>

lemma dispatch_accounted:
  assumes "dispatch D S T route rq st = (Parked w, st')" and C: "en_config (sv_env S) = C" and ok: "table_ok C (ap_models st)"
  shows "accounted (ap_models st') (waiting_future w)"
proof -
  have p: "\<exists>r q fut. w = W r q fut \<and> res = (Waiting r q fut, st')" if "park W res = (Parked w, st')"
    for W :: "ref \<Rightarrow> 'q \<Rightarrow> nat \<Rightarrow> waiting" and res
    using that by (cases res; cases "fst res") auto
  have no: "apfst Replied x \<noteq> (Parked w, st')" for x :: "reply \<times> (cache, json) app" by (cases x) simp
  have fin: "apfst Done x \<noteq> (Waiting r q fut, st')" for x :: "reply \<times> (cache, json) app" and r fut and q :: 'q by (cases x) simp
  have sub: "accounted m' f" if "ensure_and_submit (sv_env S) fut i n md ls t k pl str m1 = (Inr f, m')" "m1 = ap_models st"
    for fut i n md ls t k pl str m1 f m'
    using manager_le_ensure_and_submit(2) [OF that(1) C, of f] ok that(2) by simp
  have models: "ap_models (st\<lparr>ap_world := x\<rparr>) = ap_models st" for x by simp
  show ?thesis using assms(1)
    by (cases route)
      (auto simp: no fin chat_completions_def completions_def embeddings_def with_request_def on_models_def chat_def complete_def embed_def
        dest!: p split: outcome.splits prod.splits sum.splits if_splits dest: sub)
qed

definition waiting_ok :: "deployment \<Rightarrow> server \<Rightarrow> bool" where
  "waiting_ok D sv \<longleftrightarrow> table_ok (config_of D) (models_of sv) \<and> slots_ok (models_of sv) \<and>
     (\<forall>w \<in> set (srv_waiting sv). accounted (models_of sv) (waiting_future w))"

lemma waiting_ok_start: "bt_models b = manager_new models loras fs \<Longrightarrow> waiting_ok D (server_start b)"
  by (simp add: waiting_ok_def server_start_def first_state_def manager_new_def table_ok_def slots_ok_def)

lemma waiting_ok_step:
  assumes "server_step D sv x sv'" and "waiting_ok D sv"
  shows "waiting_ok D sv'"
proof -
  have le: "table_ok (config_of D) (models_of sv')" "slots_ok (models_of sv')"
    "\<And>fut. accounted (models_of sv) fut \<Longrightarrow> accounted (models_of sv') fut"
    using server_step_models [OF assms(1)] assms(2) by (simp_all add: waiting_ok_def manager_le_def jobs_le_def)
  have old: "accounted (models_of sv') (waiting_future w)" if "w \<in> set (srv_waiting sv)" for w
    using le(3) assms(2) that by (simp add: waiting_ok_def)
  have "accounted (models_of sv') (waiting_future w)" if "w \<in> set (srv_waiting sv')" for w
    using assms(1)
  proof cases
    case (srv_park S E rq route T w' st')
    have "en_config (sv_env S) = config_of D" using srv_park by (simp add: services_at_def)
    from dispatch_accounted [OF srv_park(6) this] assms(2) have "accounted (ap_models st') (waiting_future w')"
      by (simp add: waiting_ok_def)
    then show ?thesis using that old [of w] srv_park by auto
  qed (use that old [of w] in \<open>auto dest: set_remove1_subset [THEN subsetD]\<close>)
  with le show ?thesis by (simp add: waiting_ok_def)
qed

lemma waiting_ok_run:
  "steps (server_step D) sv hs sv' \<Longrightarrow> waiting_ok D sv \<Longrightarrow> waiting_ok D sv'"
  by (induction rule: steps.induct) (auto dest: waiting_ok_step)

text \<open>The worker answers what it finds in its queue.\<close>

lemma worker_run_queue:
  assumes "r < length (mg_slots m)" and "sl_worker (mg_slots m ! r)" and "sl_queue (mg_slots m ! r) = map Job js"
  shows "map fst (mg_done (worker_run E r (length js) m)) = map fst (mg_done m) @ map jb_id js"
  using assms
proof (induction js arbitrary: m)
  case (Cons j js)
  then have q: "sl_queue (mg_slots m ! r) = Job j # map Job js" by simp
  note st = worker_step_job [OF Cons.prems(1,2) q, of E]
  have "r < length (mg_slots (worker_step E r m))" using Cons.prems(1) by simp
  from Cons.IH [OF this st(2,1)] show ?case by (simp add: st(3))
qed simp

lemma accounted_resolved:
  assumes "slots_ok m" and "accounted m fut"
  obtains n r where "n = 0 \<or> r < length (mg_slots m) \<and> n = length (sl_queue (mg_slots m ! r))"
    and "fut \<in> set (map fst (mg_done (worker_run E r n m)))"
proof (cases "fut \<in> set (map fst (mg_done m))")
  case True
  then show thesis by (intro that [of 0 0]) auto
next
  case False
  with assms(2) have "\<exists>s \<in> set (mg_slots m). queued fut (slot_jobs s)" by (auto simp: accounted_def)
  then obtain r where r: "r < length (mg_slots m)" "queued fut (slot_jobs (mg_slots m ! r))" by (auto simp: in_set_conv_nth)
  then have live: "\<not> sl_unloading (mg_slots m ! r)"
    using slots_okD [OF assms(1) r(1)] by (auto simp: queued_def slot_jobs_def)
  obtain js where q: "sl_queue (mg_slots m ! r) = map Job js" and w: "sl_worker (mg_slots m ! r)"
    by (rule slot_queue [OF assms(1) r(1) live])
  have "fut \<in> set (map jb_id js)" using r(2) by (auto simp: queued_def slot_jobs_def q)
  with worker_run_queue [OF r(1) w q, of E] show thesis by (intro that [of "length js" r]) (use r q in simp_all)
qed

lemma server_workers:
  assumes "n = 0 \<or> r < length (mg_slots (models_of sv))"
  shows "steps (server_step D) sv (replicate n Background)
    (sv\<lparr>srv_app := (srv_app sv)\<lparr>ap_models := worker_run (sv_env (dp_services D)) r n (models_of sv)\<rparr>\<rparr>)"
  using assms
proof (induction n arbitrary: sv)
  case (Suc n)
  let ?sv = "sv\<lparr>srv_app := (srv_app sv)\<lparr>ap_models := worker_step (sv_env (dp_services D)) r (models_of sv)\<rparr>\<rparr>"
  have "server_step D sv Background ?sv" using Suc.prems by (intro srv_worker) (simp_all add: config_of_def)
  moreover have "steps (server_step D) ?sv (replicate n Background)
    (sv\<lparr>srv_app := (srv_app sv)\<lparr>ap_models := worker_run (sv_env (dp_services D)) r (Suc n) (models_of sv)\<rparr>\<rparr>)"
    using Suc.IH [of ?sv] Suc.prems by simp
  ultimately show ?case by (simp add: steps_more)
qed (simp add: steps_none)

text \<open>What answers a handler that waits.\<close>

fun answers :: "waiting \<Rightarrow> happening \<Rightarrow> bool" where
  "answers w (Resumed w' rep) = (w' = w)"
| "answers w (Streaming os out) = (os_request os = waiting_request w \<and> os_ref os = waiting_ref w)"
| "answers w x = False"

lemma resolved_answered:
  assumes "w \<in> set (srv_waiting sv)" and "waiting_future w \<in> set (map fst (mg_done (models_of sv)))"
  shows "\<exists>x sv'. server_step D sv x sv' \<and> answers w x \<and> srv_waiting sv' = remove1 w (srv_waiting sv)"
proof -
  obtain f where f: "(waiting_future w, f) \<in> set (mg_done (models_of sv))" using assms(2) by auto
  let ?S = "services_at D (sv_env (dp_services D))"
  obtain T :: moment where True by simp
  show ?thesis
  proof (cases "opens_stream T w f")
    case None
    obtain rep st' where "resume ?S T w f (srv_app sv) = (rep, st')" by (metis prod.exhaust)
    from srv_resume [OF refl _ assms(1) f None this] show ?thesis by (fastforce simp: config_of_def)
  next
    case (Some os)
    then have "answers w (Streaming os [])" by (cases w) (auto split: if_splits)
    with srv_stream [OF assms(1) f Some] show ?thesis by fastforce
  qed
qed

end
