(* ===== verification/Guarantees.thy ===== *)
theory Guarantees
  imports Loading Delivery
begin

text \<open>
  What holds of every run of the server of theory \<open>Server\<close>, whatever requests, handshakes, terminations, worker turns
  and timers come in whatever order; and a run of a small server.
\<close>

section \<open>A run of a small server\<close>

definition demo_machine :: machine where
  "demo_machine = \<lparr>ma_python = [], ma_which = (\<lambda>p. True), ma_shm = True, ma_dir_mode = (\<lambda>p. None),
     ma_str_path = (\<lambda>p. []), ma_str_exn = (\<lambda>e. [])\<rparr>"

definition demo_deployment :: deployment where
  "demo_deployment = \<lparr>dp_services = demo_services,
     dp_schemas = admin_schemas.extend demo_schemas (schemas.fields (\<lambda>b. Inr demo_chat) (\<lambda>b. Inl []) (\<lambda>b. Inl []) (\<lambda>b. Inl [])
       (\<lambda>b. Inl []) (\<lambda>b. Inl [])),
     dp_machine = demo_machine, dp_dirs = ([''k''], [''s'']), dp_identity = demo_server, dp_attestation = None,
     dp_skew_seconds = 30, dp_ttl_seconds = 3600, dp_max_lifetime = 3600\<rparr>"

text \<open>One model of the tenant \<open>acme\<close>, in its file.\<close>

definition demo_models :: "json manager" where
  "demo_models = manager_new
     \<lparr>mt_base = [''models''], mt_cache = [(''acme'', \<lparr>rg_dir = [''models''], rg_by_id = [(''m'', demo_model)]\<rparr>)]\<rparr>
     \<lparr>mt_base = [''loras''], mt_cache = [(''acme'', \<lparr>rg_dir = [''loras''], rg_by_id = []\<rparr>)]\<rparr>
     [([''t''], Dir), ([''models''], Dir), ([''models'', ''ab.gguf.age''], File 420 [7, 1])]"

definition demo_booted :: "json booted" where
  "demo_booted = \<lparr>bt_settings = demo_settings, bt_logging = \<lparr>lg_min = 20, lg_root = 20, lg_levels = [], lg_ring = ring_new 10, lg_out = []\<rparr>,
     bt_readiness = readiness_new, bt_keystore = \<lparr>ks_server = demo_server, ks_allowlist = [(replicate 32 1, demo_entry)],
     ks_allowlist_path = None\<rparr>, bt_attestation = NoneBackend, bt_config = demo_config,
     bt_models = demo_models,
     bt_store = MemoryStore, bt_errors = tracker_new 10\<rparr>"

lemma demo_in_memory: "in_memory demo_deployment"
  by (simp add: in_memory_def demo_deployment_def demo_services_def)

definition demo_greeting :: handshake_request where
  "demo_greeting = build_handshake_request demo_nacl demo_client ''h'' (x25519_base demo_nacl (replicate 32 9)) (Some 90) 0"

lemma check_request_host:
  "opt_str_or (hr_server_host req) (opt_str_or a []) = opt_str_or (hr_server_host req) (opt_str_or b []) \<Longrightarrow>
    check_request N req al skew a now = check_request N req al skew b now"
  unfolding check_request_def by (simp only:)

lemma demo_greeted:
  obtains resp mat where "create_session demo_nacl unary_json in_memory_store demo_server [replicate 32 1 \<mapsto> demo_entry] 30 3600
      3600 None 100 (replicate 32 6) (replicate 16 5) 100 demo_greeting ([], []) =
      (HttpHandshake resp, [\<lparr>ae_event = ''handshake.ok'', ae_fields = [(''client_fp'', sm_client_fingerprint mat),
         (''tenant'', sm_tenant mat)]\<rparr>], ([session_new 100 3600 3600 mat], [(replicate 16 5, 0)]))"
    and "sm_session_id mat = replicate 16 5" and "dk_ok (sm_c2s mat)" and "dk_ok (sm_s2c mat)" and "sm_ttl_seconds mat = 3600"
    and "sm_tenant mat = ''acme''" and "sm_scopes mat = [''chat'']"
proof -
  obtain resp mat where run: "perform_handshake demo_nacl unary_json demo_greeting demo_server demo_allowlist 30 3600 None
      (Some 100) None 0 (replicate 32 6) (replicate 16 5) = Inr (resp, mat)"
    and m: "sm_session_id mat = replicate 16 5" "sm_scopes mat = ac_scopes demo_entry" "sm_tenant mat = ac_tenant demo_entry"
    using demo_handshake unfolding demo_greeting_def by blast
  have host: "check_request demo_nacl demo_greeting al 30 (hr_server_host demo_greeting) 100
      = check_request demo_nacl demo_greeting al 30 None 100" for al
    by (rule check_request_host) (simp add: demo_greeting_def build_handshake_request_def opt_str_or_def)
  have run': "perform_handshake demo_nacl unary_json demo_greeting demo_server [replicate 32 1 \<mapsto> demo_entry] 30 3600
      (hr_server_host demo_greeting) None None 100 (replicate 32 6) (replicate 16 5) = Inr (resp, mat)"
    using run unfolding demo_allowlist_def by (simp add: perform_handshake_def host)
  note keys = perform_handshake_keys [OF run]
  have ttl: "sm_ttl_seconds mat = 3600" using perform_handshake_Inr [OF run] by auto
  have who: "sm_tenant mat = ''acme''" "sm_scopes mat = [''chat'']" using m by (simp_all add: demo_entry_def)
  show thesis
    by (rule that [of resp mat])
      (use m(1) keys ttl who in \<open>simp_all add: create_session_def run' sm_create_def in_memory_store_def mem_put_def session_new_def Let_def\<close>)
qed

lemma upd_session_logins: "(\<And>s. login_of (f s) = login_of s) \<Longrightarrow> logins (upd_session r f w) = logins w"
  by (cases w) (simp add: upd_session_def logins_update)

text \<open>An authenticated request for the version is answered with the session's next counter.\<close>

lemma version_answered:
  assumes "aead_ok (sv_nacl S)" and "sv_ops S = in_memory_store" and "ap_world st = (h, d)" and "world_ok (h, d)"
    and "map_of d sid = Some r" and "\<not> is_expired (mo_lookup T) (h ! r)" and "\<not> is_expired (mo_now T) (h ! r)"
    and "client_seal (sv_nacl S) (se_c2s (h ! r)) c sid m path pt = Inr buf" and "\<not> rw_blocked (se_replay (h ! r)) c"
    and "V pt = Inr ()" and "length sid = 16" and "counter_ok (se_s2c_counter (h ! r) + 1)" and "method_ok m"
  shows "\<exists>body env st' s. debug_version S T V \<lparr>rq_method = m, rq_path = path, rq_body = buf\<rparr> st = (Sealed 200 body, st') \<and>
    caller S T \<lparr>rq_method = m, rq_path = path, rq_body = buf\<rparr> st = Some s \<and> se_session_id s = sid \<and>
    unpack_envelope body = Inr env \<and> stamp_of env = (sid, se_s2c_counter (h ! r) + 1) \<and>
    logins (ap_world st') = logins (h, d)"
proof -
  let ?rq = "\<lparr>rq_method = m, rq_path = path, rq_body = buf\<rparr>"
  note c = world_okD [OF assms(4)]
  have r: "r < length h" and id: "sid_at h r = sid" using cache_okD [OF c(1) assms(5)] by simp_all
  have dk: "dk_ok (se_c2s (h ! r))" "dk_ok (se_s2c (h ! r))" using c(3) [OF r] by (simp_all add: session_ok_def)
  obtain win where run: "decrypt_request (sv_nacl S) in_memory_store V (mo_started T) (mo_failed T) (mo_lookup T) (mo_now T) ?rq (h, d)
      = (Accepted r (), (h[r := touch (mo_now T) ((h ! r)\<lparr>se_replay := win\<rparr>)], AList.update sid r d))"
    using live_request_accepted [where validate = V, OF assms(1) c(1) assms(5) dk(1) assms(6-10)] by blast
  let ?s = "touch (mo_now T) ((h ! r)\<lparr>se_replay := win\<rparr>)"
  have who: "caller S T ?rq st = Some ?s"
    using decrypt_any_body [OF run] assms(2,3) r by (simp add: caller_def)
  let ?v = "JObj [(''server_version'', JStr (sv_version S)), (''protocol_version'', JStr ''1.0'')]"
  obtain body where body: "seal (sv_nacl S) (se_s2c (h ! r)) (se_s2c_counter (h ! r) + 1) sid m path
      (json_dumps (sv_json S) ?v) = Inr body"
    using seal_total [OF dk(2) assms(12,11,13)] by blast
  from open_seal [OF assms(1) dk(2) body] obtain env where
    "open_envelope (sv_nacl S) (se_s2c (h ! r)) sid m path body = Inr (env, json_dumps (sv_json S) ?v)" by blast
  then have un: "unpack_envelope body = Inr env" by (rule open_counter)
  have "debug_version S T V ?rq st = (Sealed 200 body, st\<lparr>ap_world :=
      upd_session r (\<lambda>s. s\<lparr>se_s2c_counter := se_s2c_counter s + 1\<rparr>) (h[r := ?s], AList.update sid r d)\<rparr>)"
    using run body r id assms(2,3)
    by (simp add: debug_version_def with_request_def answer_dict_def answer_def encrypt_response_def upd_session_def touch_def Let_def)
  moreover have "logins (upd_session r (\<lambda>s. s\<lparr>se_s2c_counter := se_s2c_counter s + 1\<rparr>) (h[r := ?s], AList.update sid r d)) = logins (h, d)"
    using accepted_logins [OF run c(1)] by (simp add: upd_session_logins login_of_def)
  moreover have "se_session_id ?s = sid" using id by simp
  ultimately show ?thesis using who un sealed_stamp [OF dk(2) body un] by fastforce
qed

text \<open>A handshake opens a session.\<close>

lemma demo_session:
  obtains resp sv1 s0 where
    "server_step demo_deployment (server_start demo_booted)
      (Greeted [replicate 32 1 \<mapsto> demo_entry] 100 demo_greeting (replicate 16 5) (HttpHandshake resp)) sv1"
    and "sessions_of sv1 = ([s0], [(replicate 16 5, 0)])" and "models_of sv1 = demo_models" and "srv_waiting sv1 = []"
    and "world_ok ([s0], [(replicate 16 5, 0)])" and "\<not> is_expired 150 s0" and "se_tenant s0 = ''acme''"
    and "dk_ok (se_c2s s0)" and "se_s2c_counter s0 = 0" and "se_replay s0 = replay_window_new"
    and "logins (sessions_of sv1) (replicate 16 5) \<noteq> None"
proof -
  obtain resp mat where create: "create_session demo_nacl unary_json in_memory_store demo_server [replicate 32 1 \<mapsto> demo_entry] 30 3600
      3600 None 100 (replicate 32 6) (replicate 16 5) 100 demo_greeting ([], []) =
      (HttpHandshake resp, [\<lparr>ae_event = ''handshake.ok'', ae_fields = [(''client_fp'', sm_client_fingerprint mat),
         (''tenant'', sm_tenant mat)]\<rparr>], ([session_new 100 3600 3600 mat], [(replicate 16 5, 0)]))"
    and mat: "sm_session_id mat = replicate 16 5" "dk_ok (sm_c2s mat)" "dk_ok (sm_s2c mat)" "sm_ttl_seconds mat = 3600"
      "sm_tenant mat = ''acme''"
    by (rule demo_greeted)
  let ?s0 = "session_new 100 3600 3600 mat" and ?d = "[(replicate 16 5 :: bytes, 0 :: nat)]"
  have start: "sessions_of (server_start demo_booted) = ([], [])" by (simp add: server_start_def first_state_def)
  define aud where "aud = [\<lparr>ae_event = ''handshake.ok'', ae_fields = [(''client_fp'', sm_client_fingerprint mat),
         (''tenant'', sm_tenant mat)]\<rparr>]"
  let ?sv1 = "(server_start demo_booted)\<lparr>srv_app := after_session_call aud ([?s0], ?d) (srv_app (server_start demo_booted))\<rparr>"
  have al: "map_of (ks_allowlist (ap_keystore (srv_app (server_start demo_booted)))) = [replicate 32 1 \<mapsto> demo_entry]"
    by (simp add: server_start_def first_state_def demo_booted_def)
  have step: "server_step demo_deployment (server_start demo_booted)
      (Greeted [replicate 32 1 \<mapsto> demo_entry] 100 demo_greeting (replicate 16 5) (HttpHandshake resp)) ?sv1"
    by (rule srv_greet [OF _ _ al [symmetric], where esk = "replicate 32 6" and now = 100])
      (use create in \<open>simp_all add: start aud_def demo_deployment_def demo_services_def\<close>)
  have w: "sessions_of ?sv1 = ([?s0], ?d)" by (simp add: after_session_call_def)
  have "server_good demo_deployment ?sv1" by (rule server_good_step [OF step server_good_start [OF demo_in_memory]])
  then have ok: "world_ok ([?s0], ?d)" by (simp add: server_good_def sessions_ok_def w)
  show thesis
    by (rule that [OF step w _ _ ok])
      (use mat w in \<open>simp_all add: server_start_def first_state_def demo_booted_def is_expired_def session_new_def int_or_def logins_def\<close>)
qed

lemma demo_step_services:
  "services_at demo_deployment demo_json_env = demo_services" "en_config demo_json_env = config_of demo_deployment"
  by (simp_all add: services_at_def config_of_def demo_deployment_def demo_services_def)

text \<open>The session's first request, on any path.\<close>

lemma demo_first_seal:
  assumes "dk_ok (se_c2s s0)"
  obtains buf where "client_seal demo_nacl (se_c2s s0) 1 (replicate 16 5) ''POST'' path [] = Inr buf"
proof -
  have post: "method_ok ''POST''" by code_simp
  show thesis unfolding client_seal_eq
    using seal_total [of "se_c2s s0" 1 "replicate 16 5" "''POST''" demo_nacl path "[]"] assms post that
    by (auto simp: counter_ok_def client_seal_eq)
qed

text \<open>A handshake, then a request for the version, answered under counter 1.\<close>

lemma demo_run:
  obtains al clock req resp T rq s rep sv' env where
    "steps (server_step demo_deployment) (server_start demo_booted)
      [Greeted al clock req (replicate 16 5) (HttpHandshake resp), Asked T rq (Some s) (Some rep)] sv'"
    and "al (replicate 32 1) = Some demo_entry" and "se_session_id s = replicate 16 5"
    and "emitted rep = [env]" and "stamp_of env = (replicate 16 5, 1)"
    and "logins (sessions_of sv') (replicate 16 5) \<noteq> None"
proof -
  obtain resp sv1 s0 where step1: "server_step demo_deployment (server_start demo_booted)
      (Greeted [replicate 32 1 \<mapsto> demo_entry] 100 demo_greeting (replicate 16 5) (HttpHandshake resp)) sv1"
    and s0: "sessions_of sv1 = ([s0], [(replicate 16 5, 0)])" "world_ok ([s0], [(replicate 16 5, 0)])" "\<not> is_expired 150 s0"
      "dk_ok (se_c2s s0)" "se_s2c_counter s0 = 0" "se_replay s0 = replay_window_new"
    and lg1: "logins (sessions_of sv1) (replicate 16 5) \<noteq> None"
    by (rule demo_session)
  obtain buf where buf: "client_seal demo_nacl (se_c2s s0) 1 (replicate 16 5) ''POST'' ''/v1/debug/version'' [] = Inr buf"
    by (rule demo_first_seal [OF s0(4)])
  have post: "method_ok ''POST''" by code_simp
  let ?rq = "\<lparr>rq_method = ''POST'', rq_path = ''/v1/debug/version'', rq_body = buf\<rparr>"
  obtain body env st' s where v: "debug_version demo_services demo_moment (\<lambda>b. Inr ()) ?rq (srv_app sv1) = (Sealed 200 body, st')"
      "caller demo_services demo_moment ?rq (srv_app sv1) = Some s" "se_session_id s = replicate 16 5"
    and env: "unpack_envelope body = Inr env" "stamp_of env = (replicate 16 5, se_s2c_counter ([s0] ! 0) + 1)"
    and lg: "logins (ap_world st') = logins ([s0], [(replicate 16 5, 0)])"
    using version_answered [of demo_services "srv_app sv1" "[s0]" "[(replicate 16 5, 0)]" "replicate 16 5" 0 demo_moment 1 "''POST''"
        "''/v1/debug/version''" "[]" buf "\<lambda>b. Inr ()"] s0 buf post
    by (auto simp: demo_services_def demo_moment_def demo_nacl_laws counter_ok_def rw_blocked_def rw_seen_def
        replay_window_new_def WINDOW_BITS_def)
  have route: "route_of ?rq = Some DebugVersion" by (simp add: route_of_def ROUTES_def)
  let ?sv2 = "sv1\<lparr>srv_app := st'\<rparr>"
  have "as_empty (dp_schemas demo_deployment) = (\<lambda>b. Inr ())"
    by (simp add: demo_deployment_def demo_schemas_def admin_schemas.defs schemas.defs)
  with v(1) have "dispatch demo_deployment demo_services demo_moment DebugVersion ?rq (srv_app sv1) = (Replied (Sealed 200 body), st')"
    by (simp only: dispatch.simps apfst_conv)
  from srv_ask [OF demo_step_services(1) [symmetric] demo_step_services(2) route this]
  have step2: "server_step demo_deployment sv1 (Asked demo_moment ?rq (Some s) (Some (Sealed 200 body))) ?sv2" by (simp only: v(2))
  show thesis
  proof (rule that)
    show "steps (server_step demo_deployment) (server_start demo_booted)
      [Greeted [replicate 32 1 \<mapsto> demo_entry] 100 demo_greeting (replicate 16 5) (HttpHandshake resp),
       Asked demo_moment ?rq (Some s) (Some (Sealed 200 body))] ?sv2"
      using step1 step2 by (auto intro!: steps.intros)
    show "logins (sessions_of ?sv2) (replicate 16 5) \<noteq> None" using lg lg1 s0(1) by simp
  qed (use v env s0 in simp_all)
qed

text \<open>A handshake, then a chat request, for which the model is loaded; it waits for the worker.\<close>

lemma demo_booted_models: "bt_models demo_booted = manager_new
     \<lparr>mt_base = [''models''], mt_cache = [(''acme'', \<lparr>rg_dir = [''models''], rg_by_id = [(''m'', demo_model)]\<rparr>)]\<rparr>
     \<lparr>mt_base = [''loras''], mt_cache = [(''acme'', \<lparr>rg_dir = [''loras''], rg_by_id = []\<rparr>)]\<rparr>
     [([''t''], Dir), ([''models''], Dir), ([''models'', ''ab.gguf.age''], File 420 [7, 1])]"
  by (simp add: demo_booted_def demo_models_def)

lemma demo_loaded:
  obtains M where "ensure_loaded demo_json_env ''m'' None ''chat'' [] ''acme'' demo_models = (Inr 0, M)"
    and "mg_loaded M = [(''acme:m:chat:'', 0)]" and "length (mg_slots M) = 1" and "sl_queue (mg_slots M ! 0) = []"
proof -
  let ?R = "\<lparr>rg_dir = [''models''], rg_by_id = [(''m'', demo_model)]\<rparr>" and ?L = "\<lparr>rg_dir = [''loras''], rg_by_id = []\<rparr>"
  have key: "cache_key ''acme'' ''m'' ''chat'' (lora_fingerprint []) = ''acme:m:chat:''"
    by (simp add: cache_key_def lora_fingerprint_def)
  have ft: "for_tenant model_kind J n ''acme'' (mg_models demo_models, mg_fs demo_models) =
      Inr (?R, mg_models demo_models, mg_fs demo_models)"
    "for_tenant lora_kind J n ''acme'' (mg_loras demo_models, mg_fs demo_models) =
      Inr (?L, mg_loras demo_models, mg_fs demo_models)" for J n
    by (simp_all add: for_tenant_def demo_models_def manager_new_def)
  have same: "demo_models\<lparr>mg_models := mg_models demo_models, mg_fs := mg_fs demo_models\<rparr> = demo_models"
    "demo_models\<lparr>mg_loras := mg_loras demo_models, mg_fs := mg_fs demo_models\<rparr> = demo_models" by simp_all
  have tab: "mg_loaded demo_models = []" by (simp add: demo_models_def manager_new_def)
  have lf: "loaded_fitting k n demo_models = None" for k n by (simp add: loaded_fitting_def tab)
  have ev: "evict demo_json_env demo_models = (Inr (), demo_models)"
    by (subst evict.simps) (simp add: tab demo_json_env_def demo_config_def)
  have wr: "write_all (\<lambda>k. 100) [7] = ([7], Inr ())" by (simp add: write_all_def write_all_from_total)
  have "\<exists>M. load demo_json_env ?R ?L demo_model 4096 ''acme:m:chat:'' ''chat'' [] demo_models = (Inr 0, M) \<and>
      mg_loaded M = [] \<and> length (mg_slots M) = 1 \<and> sl_queue (mg_slots M ! 0) = []"
    by (simp add: load_def demo_json_env_def demo_config_def demo_models_def manager_new_def decrypt_enter_def
        mkdir_p_def prefixes_of_def is_dir_def exists_path_def read_bytes_def ciphertext_path_def model_kind_def
        path_join_def path_parts_def demo_model_def demo_age_def wr make_backend_def decrypt_exit_def unlink_path_def
        reset_idle_def upd_slot_def Let_def)
  then obtain M where ld: "load demo_json_env ?R ?L demo_model 4096 ''acme:m:chat:'' ''chat'' [] demo_models = (Inr 0, M)"
    and M: "mg_loaded M = []" "length (mg_slots M) = 1" "sl_queue (mg_slots M ! 0) = []" by blast
  have n: "opt_int_or None (mc_n_ctx_default (en_config demo_json_env)) = 4096"
    by (simp add: opt_int_or_def demo_json_env_def demo_config_def)
  have "ensure_loaded demo_json_env ''m'' None ''chat'' [] ''acme'' demo_models = (Inr 0, M\<lparr>mg_loaded := [(''acme:m:chat:'', 0)]\<rparr>)"
    unfolding ensure_loaded_def ft sum.case prod.case Let_def same key lf option.case registry_get_def
    by (simp add: ensure_locked_def lf ev n ld M(1))
  then show thesis by (rule that) (simp_all add: M)
qed

lemma demo_waiting:
  obtains hs sv' w where "steps (server_step demo_deployment) (server_start demo_booted) hs sv'"
    and "srv_waiting sv' = [w]" and "length (mg_loaded (models_of sv')) = 1"
proof -
  obtain resp sv1 s0 where step1: "server_step demo_deployment (server_start demo_booted)
      (Greeted [replicate 32 1 \<mapsto> demo_entry] 100 demo_greeting (replicate 16 5) (HttpHandshake resp)) sv1"
    and s0: "sessions_of sv1 = ([s0], [(replicate 16 5, 0)])" "models_of sv1 = demo_models" "srv_waiting sv1 = []"
      "world_ok ([s0], [(replicate 16 5, 0)])" "\<not> is_expired 150 s0" "se_tenant s0 = ''acme''"
      "dk_ok (se_c2s s0)" "se_replay s0 = replay_window_new"
    by (rule demo_session)
  obtain buf where buf: "client_seal demo_nacl (se_c2s s0) 1 (replicate 16 5) ''POST'' ''/v1/chat/completions'' [] = Inr buf"
    by (rule demo_first_seal [OF s0(7)])
  let ?rq = "\<lparr>rq_method = ''POST'', rq_path = ''/v1/chat/completions'', rq_body = buf\<rparr>"
  obtain win where run: "decrypt_request demo_nacl in_memory_store (\<lambda>b. Inr demo_chat) 0 0 150 150 ?rq ([s0], [(replicate 16 5, 0)])
      = (Accepted 0 demo_chat, ([touch 150 (s0\<lparr>se_replay := win\<rparr>)], AList.update (replicate 16 5) 0 [(replicate 16 5, 0)]))"
    using live_request_accepted [where validate = "\<lambda>b. Inr demo_chat" and h = "[s0]" and d = "[(replicate 16 5, 0)]" and r = 0
        and sid = "replicate 16 5" and N = demo_nacl and t = 150 and t' = 150 and c = 1 and m = "''POST''"
        and path = "''/v1/chat/completions''" and pt = "[]" and buf = buf and x = demo_chat and st = 0 and f = 0, OF _ world_okD(1) [OF s0(4)]] s0 buf
    by (auto simp: demo_nacl_laws rw_blocked_def rw_seen_def replay_window_new_def WINDOW_BITS_def)
  obtain M where M: "ensure_loaded demo_json_env ''m'' None ''chat'' [] ''acme'' demo_models = (Inr 0, M)"
    "mg_loaded M = [(''acme:m:chat:'', 0)]" "length (mg_slots M) = 1" "sl_queue (mg_slots M ! 0) = []" by (rule demo_loaded)
  have room: "\<not> queue_full (en_config demo_json_env) (mg_slots M ! 0)"
    by (simp add: queue_full_def M(4) demo_json_env_def demo_config_def)
  have q: "gp_model demo_chat = ''m''" "gp_n_ctx demo_chat = None" "\<not> gp_stream demo_chat" "lora_spec_of demo_chat = []"
    by (simp_all add: demo_chat_def generation_params.defs generation_defaults_def lora_spec_of_def)
  have sv: "sv_nacl demo_services = demo_nacl" "sv_ops demo_services = in_memory_store" "sv_env demo_services = demo_json_env"
    by (simp_all add: demo_services_def)
  have mo: "mo_started demo_moment = 0" "mo_failed demo_moment = 0" "mo_lookup demo_moment = 150" "mo_now demo_moment = 150"
    "mo_future demo_moment = 0" by (simp_all add: demo_moment_def)
  define m' where "m' = upd_slot 0 (\<lambda>s. s\<lparr>sl_queue := sl_queue s @ [Job \<lparr>jb_id = 0, jb_kind = ''chat'', jb_payload =
    JObj ((''messages'', JList (map message_json (cq_messages demo_chat))) # chat_sampling demo_chat), jb_stream = False\<rparr>]\<rparr>) M"
  let ?st1 = "(srv_app sv1)\<lparr>ap_world := ([touch 150 (s0\<lparr>se_replay := win\<rparr>)], AList.update (replicate 16 5) 0 [(replicate 16 5, 0)])\<rparr>"
  define st' where "st' = ?st1\<lparr>ap_models := m'\<rparr>"
  have "chat demo_json_env 0 ''m'' None (JList (map message_json (cq_messages demo_chat))) False [] ''acme'' (chat_sampling demo_chat)
      demo_models = (Inr 0, m')"
    using room by (simp add: chat_def ensure_and_submit_def M(1) submit_def m'_def)
  then have "on_models (chat demo_json_env 0 ''m'' None (JList (map message_json (cq_messages demo_chat))) False [] ''acme''
      (chat_sampling demo_chat)) ?st1 = (Inr 0, st')"
    by (simp add: on_models_def s0(2) st'_def)
  then have chat: "chat_completions demo_services demo_moment (\<lambda>b. Inr demo_chat) ?rq (srv_app sv1) = (Waiting 0 demo_chat 0, st')"
    by (simp add: chat_completions_def with_request_def sv mo q run s0(1,6) session_of_def touch_def)
  have st': "mg_loaded (ap_models st') = mg_loaded M" by (simp add: st'_def m'_def)
  have route: "route_of ?rq = Some ChatCompletions" by (simp add: route_of_def ROUTES_def)
  have "sc_chat (dp_schemas demo_deployment) = (\<lambda>b. Inr demo_chat)"
    by (simp add: demo_deployment_def demo_schemas_def admin_schemas.defs schemas.defs)
  with chat have "dispatch demo_deployment demo_services demo_moment ChatCompletions ?rq (srv_app sv1) = (Parked (ChatWait ?rq 0 demo_chat 0), st')"
    by (simp only: dispatch.simps park.simps)
  from srv_park [OF demo_step_services(1) [symmetric] demo_step_services(2) route this]
  have "steps (server_step demo_deployment) (server_start demo_booted)
    [Greeted [replicate 32 1 \<mapsto> demo_entry] 100 demo_greeting (replicate 16 5) (HttpHandshake resp),
     Asked demo_moment ?rq (caller demo_services demo_moment ?rq (srv_app sv1)) None]
    (sv1\<lparr>srv_app := st', srv_waiting := srv_waiting sv1 @ [ChatWait ?rq 0 demo_chat 0]\<rparr>)"
    using step1 by (auto intro!: steps.intros)
  then show thesis by (rule that) (simp_all add: s0(3) st' M(2))
qed

section \<open>Counters\<close>

lemma server_run:
  assumes "steps (server_step D) (server_start b) hs sv'" and "in_memory D"
  obtains ds where "steps world_step ([], []) ds (sessions_of sv')"
    and "subseq (List.map_filter taken hs) (List.map_filter took_stamp ds)"
    and "subseq (map stamp_of (concat (map emits hs))) (List.map_filter sent_stamp ds)"
  using server_run_traffic [OF assms(1) server_good_start [OF assms(2)]]
  by (auto simp: traffic_def server_start_def first_state_def)

lemma empty_world_ok: "world_ok ([], [])"
  by (simp add: world_ok_def cache_ok_def windows_ok_def)

text \<open>C1. No nonce is used twice by a server: over any run since its start, with requests to every endpoint, several
  handlers of a session waiting for models, streams whose chunks interleave with other answers, sessions opened,
  ended and reaped in between, no two envelopes the server sends carry the same session id and counter.\<close>

theorem server_nonces_unique:
  assumes "steps (server_step D) (server_start b) hs sv'" and "in_memory D"
  shows "distinct (map stamp_of (concat (map emits hs)))"
proof -
  obtain ds where "steps world_step ([], []) ds (sessions_of sv')"
    and sub: "subseq (map stamp_of (concat (map emits hs))) (List.map_filter sent_stamp ds)"
    by (rule server_run [OF assms])
  with sends.run_stamps empty_world_ok have "distinct (List.map_filter sent_stamp ds)" by blast
  then show ?thesis by (rule subseq_distinct [OF sub])
qed

theorem server_nonces_unique_witness:
  "\<exists>hs sv' env. steps (server_step demo_deployment) (server_start demo_booted) hs sv' \<and>
     concat (map emits hs) = [env] \<and> stamp_of env = (replicate 16 5, 1) \<and> distinct (map stamp_of (concat (map emits hs)))"
proof -
  obtain al clock req resp T rq s rep sv' env where run: "steps (server_step demo_deployment) (server_start demo_booted)
      [Greeted al clock req (replicate 16 5) (HttpHandshake resp), Asked T rq (Some s) (Some rep)] sv'"
    and "emitted rep = [env]" "stamp_of env = (replicate 16 5, 1)" by (rule demo_run)
  with server_nonces_unique [OF run demo_in_memory] show ?thesis by (intro exI conjI) (rule run, simp_all)
qed

text \<open>C2. A request is served once, whatever endpoints it is sent to: over any run since the server's start, every
  request that authenticates takes a counter of its session that no other request of the run has taken.\<close>

theorem requests_served_once:
  assumes "steps (server_step D) (server_start b) hs sv'" and "in_memory D"
  shows "distinct (List.map_filter taken hs)"
proof -
  obtain ds where "steps world_step ([], []) ds (sessions_of sv')"
    and sub: "subseq (List.map_filter taken hs) (List.map_filter took_stamp ds)"
    by (rule server_run [OF assms])
  with takes.run_stamps empty_world_ok have "distinct (List.map_filter took_stamp ds)" by blast
  then show ?thesis by (rule subseq_distinct [OF sub])
qed

theorem requests_served_once_witness:
  "\<exists>hs sv' c. steps (server_step demo_deployment) (server_start demo_booted) hs sv' \<and>
     List.map_filter taken hs = [(replicate 16 5, c)] \<and> distinct (List.map_filter taken hs)"
proof -
  obtain al clock req resp T rq s rep sv' where run: "steps (server_step demo_deployment) (server_start demo_booted)
      [Greeted al clock req (replicate 16 5) (HttpHandshake resp), Asked T rq (Some s) (Some rep)] sv'"
    and "se_session_id s = replicate 16 5" by (rule demo_run)
  with requests_served_once [OF run demo_in_memory] show ?thesis by (intro exI conjI) (rule run, simp_all add: map_filter_simps)
qed

section \<open>Answers\<close>

text \<open>The session a step may answer.\<close>

fun addressed :: "happening \<Rightarrow> bytes \<Rightarrow> bool" where
  "addressed (Asked T rq who rep) sid = (case who of None \<Rightarrow> False | Some s \<Rightarrow> sid = se_session_id s)"
| "addressed (Resumed w rep) sid = names_session (waiting_request w) sid"
| "addressed (Streaming os out) sid = names_session (os_request os) sid"
| "addressed _ sid = False"

lemma step_addressed:
  assumes step: "server_step D sv x sv'" and good: "server_good D sv"
  shows "list_all (\<lambda>env. addressed x (env_session_id env)) (emits x)"
proof -
  have g: "in_memory D" "sessions_ok sv" using good by (simp_all add: server_good_def)
  obtain ds where A: "list_all (step_deed D (sessions_of sv) x) ds"
    and sub: "subseq (map stamp_of (emits x)) (List.map_filter sent_stamp ds)"
    using server_step_traffic [OF step g] by (auto simp: traffic_def)
  have "addressed x (env_session_id env)" if env: "env \<in> set (emits x)" for env
  proof -
    have "stamp_of env \<in> set (List.map_filter sent_stamp ds)" using env sub by (force dest: list_emb_set)
    then obtain sid c where "Sent sid c \<in> set ds" "stamp_of env = (sid, c)"
      by (auto simp: List.map_filter_def sent_stamp_def split: deed.splits)
    then have d: "step_deed D (sessions_of sv) x (Sent (env_session_id env) c)"
      using A by (auto simp: list_all_iff stamp_of_def)
    show ?thesis
    proof (cases x)
      case (Asked T rq who rep)
      show ?thesis
      proof (cases who)
        case None
        with d show ?thesis by (simp add: Asked asked_deed_def)
      next
        case (Some s)
        with d have "names_session rq (env_session_id env)" by (simp add: Asked asked_deed_def)
        moreover have "names_session rq (se_session_id s)"
          using asked_names [OF _ g] step unfolding Asked Some by blast
        ultimately show ?thesis using names_session_unique by (simp add: Asked Some)
      qed
    qed (use d env in \<open>auto elim: opening_deed.elims goodbye_deed.elims\<close>)
  qed
  then show ?thesis by (simp add: list_all_iff)
qed



section \<open>Logins\<close>

lemma auth_of_start: "auth_of (server_start b) = (Map.empty, \<lambda>now sid. False)"
  by (simp add: auth_of_def server_start_def first_state_def logins_def lapsed_def fun_eq_iff)



definition earned_in :: "deployment \<Rightarrow> happening list \<Rightarrow> bytes \<Rightarrow> login \<Rightarrow> bool" where
  "earned_in D hs sid l \<longleftrightarrow> (\<exists>allowlist clock req resp. Greeted allowlist clock req sid (HttpHandshake resp) \<in> set hs \<and>
     earns (sv_nacl (dp_services D)) allowlist (dp_skew_seconds D) clock req l)"

lemma earned_in_mono: "earned_in D hs sid l \<Longrightarrow> set hs \<subseteq> set hs' \<Longrightarrow> earned_in D hs' sid l"
  unfolding earned_in_def by blast

lemma auth_step_earned:
  assumes "auth_step D a x a'" and "fst a' sid = Some l"
  shows "fst a sid = Some l \<or> earned_in D [x] sid l"
  using assms by cases (auto simp: restrict_map_def earned_in_def split: if_splits)

lemma auth_run_earned:
  "steps (auth_step D) a hs a' \<Longrightarrow> fst a' sid = Some l \<Longrightarrow> fst a sid = Some l \<or> earned_in D hs sid l"
proof (induction rule: steps.induct)
  case (steps_more a x a1 hs a')
  then have "fst a1 sid = Some l \<or> earned_in D hs sid l" by simp
  then show ?case
  proof
    assume "fst a1 sid = Some l"
    from auth_step_earned [OF steps_more.hyps(1) this] show ?thesis using earned_in_mono [of D "[x]" sid l "x # hs"] by auto
  next
    assume "earned_in D hs sid l"
    then show ?thesis using earned_in_mono [of D hs sid l "x # hs"] by auto
  qed
qed simp

text \<open>C3. Behind every session there is an authorized key: whoever is logged in at the end of a run has, in this run, done
  a handshake for this session id that was signed with the key of an entry of the allowlist of that moment, which was
  neither revoked nor out of date; the session has that entry's tenant, scopes and fingerprint, and never any others.\<close>

theorem sessions_are_earned:
  assumes "steps (server_step D) (server_start b) hs sv'" and "in_memory D" and "logins (sessions_of sv') sid = Some l"
  shows "\<exists>allowlist clock req resp pk eph entry sig. Greeted allowlist clock req sid (HttpHandshake resp) \<in> set hs \<and>
    b64d (hr_client_static_pk req) = Inr pk \<and> allowlist pk = Some entry \<and> entry_valid clock entry \<and>
    b64d (hr_client_ephemeral_pk req) = Inr eph \<and> b64d (hr_transcript_sig req) = Inr sig \<and>
    ed25519_verify (sv_nacl (dp_services D)) (ac_ed25519_pk entry) (transcript (raw_bytes PROTOCOL_LABEL) pk eph
      (utf8_encode (request_host req (hr_server_host req))) (hr_timestamp req)) sig \<and>
    l = \<lparr>lo_tenant = ac_tenant entry, lo_scopes = fset_of_list (ac_scopes entry),
         lo_fingerprint = fingerprint (ac_x25519_pk entry)\<rparr>"
proof -
  have "steps (auth_step D) (auth_of (server_start b)) hs (auth_of sv')"
    using auth.run_simulates [OF assms(1) server_good_start [OF assms(2)]] by blast
  from auth_run_earned [OF this, of sid l] assms(3) obtain allowlist clock req resp where
    hs: "Greeted allowlist clock req sid (HttpHandshake resp) \<in> set hs"
    and e: "earns (sv_nacl (dp_services D)) allowlist (dp_skew_seconds D) clock req l"
    by (auto simp: auth_of_start earned_in_def) (auto simp: auth_of_def)
  from e show ?thesis unfolding earns_def check_request_Inr_iff using hs by blast
qed

theorem sessions_are_earned_witness:
  "\<exists>hs sv' allowlist clock req resp pk entry. steps (server_step demo_deployment) (server_start demo_booted) hs sv' \<and>
     Greeted allowlist clock req (replicate 16 5) (HttpHandshake resp) \<in> set hs \<and> allowlist pk = Some entry \<and>
     entry_valid clock entry"
proof -
  obtain al clock req resp T rq s rep sv' where run: "steps (server_step demo_deployment) (server_start demo_booted)
      [Greeted al clock req (replicate 16 5) (HttpHandshake resp), Asked T rq (Some s) (Some rep)] sv'"
    and l: "logins (sessions_of sv') (replicate 16 5) \<noteq> None" by (rule demo_run)
  from l obtain l where "logins (sessions_of sv') (replicate 16 5) = Some l" by blast
  from sessions_are_earned [OF run demo_in_memory this] run show ?thesis by blast
qed

section \<open>Models\<close>





section \<open>An answer that comes too late\<close>

lemma zeroed_keys:
  "se_s2c (zero_session s) = \<lparr>dk_key = replicate 32 0, dk_nonce_prefix = dk_nonce_prefix (se_s2c s)\<rparr>"
  "se_session_id (zero_session s) = se_session_id s" "se_s2c_counter (zero_session s) = se_s2c_counter s"
  by (simp_all add: zero_session_def Let_def)

lemma open_envelope_key: "dk_key k = dk_key k' \<Longrightarrow> open_envelope N k sid m p buf = open_envelope N k' sid m p buf"
  unfolding open_envelope_def by (simp split: sum.split)

text \<open>C35. An answer that comes after its session was ended is not protected: when a client ends its session while a chat
  request still waits for the model, the handler then seals the model's answer with the session's overwritten key, so
  that anyone who sees the response reads it with the key of 32 zero bytes.\<close>

theorem late_answer_unprotected:
  assumes "aead_ok (sv_nacl S)" and "ap_world st = (h, d)" and "world_ok (h, d)"
    and "path_session_id sid_b64 = Inr sid" and "map_of d sid = Some r" and "\<not> is_expired now (h ! r)"
    and "terminate_session in_memory_store now sid_b64 (h, d) = (res, aud, w)"
    and "chat_finish S T rq r q (FutResult result) evs (st\<lparr>ap_world := w\<rparr>) = (Sealed status body, st')"
  shows "\<exists>ans env. chat_response_of T q result = Inr ans \<and>
    client_open_envelope (sv_nacl S) \<lparr>dk_key = replicate 32 0, dk_nonce_prefix = replicate 4 0\<rparr> sid (rq_method rq) (rq_path rq)
      body = Inr (env, sv_dump S (chat_response_json ans))"
proof -
  have r: "r < length h" "se_session_id (h ! r) = sid" using cache_okD [OF world_okD(1) [OF assms(3)] assms(5)] by simp_all
  have dk: "dk_ok (se_s2c (h ! r))" using world_okD(3) [OF assms(3) r(1)] by (simp add: session_ok_def)
  have w: "w = (h[r := zero_session (h ! r)], AList.delete sid d)"
    using assms(4-7) by (auto simp: terminate_session_def sm_terminate_def sm_find_def in_memory_store_def mem_lookup_def
      mem_delete_def sm_zeroize_def)
  let ?k = "\<lparr>dk_key = replicate 32 0, dk_nonce_prefix = dk_nonce_prefix (se_s2c (h ! r))\<rparr>"
  obtain ans where ans: "chat_response_of T q result = Inr ans"
    and a: "answer_model S rq r (chat_response_json ans) (st\<lparr>ap_world := w\<rparr>) = (Sealed status body, st')"
    using assms(8) by (auto simp: chat_finish_def split: if_splits sum.splits)
  have seal: "seal (sv_nacl S) ?k (se_s2c_counter (h ! r) + 1) sid (rq_method rq) (rq_path rq) (sv_dump S (chat_response_json ans))
      = Inr body"
    using a r w by (auto simp: answer_model_def answer_def encrypt_response_def upd_session_def zeroed_keys Let_def split: sum.splits)
  from open_seal [OF assms(1) _ seal] dk obtain env where
    "open_envelope (sv_nacl S) ?k sid (rq_method rq) (rq_path rq) body = Inr (env, sv_dump S (chat_response_json ans))"
    by (auto simp: dk_ok_def)
  then have "open_envelope (sv_nacl S) \<lparr>dk_key = replicate 32 0, dk_nonce_prefix = replicate 4 0\<rparr> sid (rq_method rq) (rq_path rq) body
      = Inr (env, sv_dump S (chat_response_json ans))"
    using open_envelope_key [of ?k "\<lparr>dk_key = replicate 32 0, dk_nonce_prefix = replicate 4 0\<rparr>"] by simp
  with ans show ?thesis by (auto simp: client_open_eq)
qed

theorem late_answer_unprotected_witness:
  "\<exists>res aud w body st' env. terminate_session in_memory_store 150 (urlsafe_b64encode (replicate 16 5))
      ([demo_caller []], [(replicate 16 5, 0)]) = (res, aud, w) \<and>
    chat_finish demo_services demo_moment (served_request ''GET'' ''/'' []) 0 demo_chat (FutResult demo_result) []
      ((demo_app [demo_caller []] [(replicate 16 5, 0)])\<lparr>ap_world := w\<rparr>) = (Sealed 200 body, st') \<and>
    (\<exists>plaintext. client_open_envelope demo_nacl \<lparr>dk_key = replicate 32 0, dk_nonce_prefix = replicate 4 0\<rparr> (replicate 16 5) ''GET''
       ''/'' body = Inr (env, plaintext))"
proof -
  let ?st = "demo_app [demo_caller []] [(replicate 16 5, 0)]" and ?rq = "served_request ''GET'' ''/'' []"
  let ?sid = "replicate 16 5 :: bytes"
  let ?w = "([zero_session (demo_caller [])], [] :: cache)"
  have world: "ap_world ?st = ([demo_caller []], [(?sid, 0)])" by (simp add: demo_app_def)
  have ok: "world_ok ([demo_caller []], [(?sid, 0)])"
    using demo_caller_cache [of "[]"]
    by (simp add: world_ok_def windows_ok_def session_ok_def demo_caller_simps demo_keys_ok rw_ok_new) (simp add: dk_ok_def)
  have path: "path_session_id (urlsafe_b64encode ?sid) = Inr ?sid" by (simp add: path_session_id_def b64_url.dec_enc)
  obtain res aud where gone: "terminate_session in_memory_store 150 (urlsafe_b64encode ?sid) ([demo_caller []], [(?sid, 0)]) = (res, aud, ?w)"
    using path demo_caller_simps(8) by (simp add: terminate_session_def sm_terminate_def sm_find_def in_memory_store_def
      mem_lookup_def mem_delete_def sm_zeroize_def)
  obtain ans where ans: "chat_response_of demo_moment demo_chat demo_result = Inr ans" by (rule demo_answer)
  have ok_get: "method_ok ''GET''" by code_simp
  have up: "str_upper ''GET'' = ''GET''" by code_simp
  let ?k = "\<lparr>dk_key = replicate 32 0, dk_nonce_prefix = [4, 3, 2, 1]\<rparr> :: direction_keys"
  obtain body where "seal demo_nacl ?k 1 ?sid ''GET'' ''/'' (sv_dump demo_services (chat_response_json ans)) = Inr body"
    using seal_total [of ?k 1 ?sid "''GET''" demo_nacl "''/''" "sv_dump demo_services (chat_response_json ans)"] ok_get
    by (auto simp: dk_ok_def counter_ok_def)
  then have "\<exists>st'. chat_finish demo_services demo_moment ?rq 0 demo_chat (FutResult demo_result) [] (?st\<lparr>ap_world := ?w\<rparr>)
      = (Sealed 200 body, st')"
    using ans by (simp add: up chat_finish_def answer_model_def answer_def encrypt_response_def upd_session_def zeroed_keys
      demo_caller_simps served_request_def demo_services_def demo_chat_def generation_params.defs generation_defaults_def Let_def)
  then obtain st' where fin: "chat_finish demo_services demo_moment ?rq 0 demo_chat (FutResult demo_result) [] (?st\<lparr>ap_world := ?w\<rparr>)
      = (Sealed 200 body, st')" by blast
  have nacl: "sv_nacl demo_services = demo_nacl" by (simp add: demo_services_def)
  have "\<exists>ans env. chat_response_of demo_moment demo_chat demo_result = Inr ans \<and>
    client_open_envelope (sv_nacl demo_services) \<lparr>dk_key = replicate 32 0, dk_nonce_prefix = replicate 4 0\<rparr> ?sid (rq_method ?rq)
      (rq_path ?rq) body = Inr (env, sv_dump demo_services (chat_response_json ans))"
    by (rule late_answer_unprotected [OF _ world ok path _ _ gone fin])
      (simp_all add: nacl demo_nacl_laws demo_caller_simps)
  then show ?thesis using gone fin nacl by (auto simp: served_request_def up)
qed

end
