(* ===== verification/Interleaving.thy ===== *)
theory Interleaving
  imports Manager Runs
begin

text \<open>
  The manager's coroutines as they interleave. Between two suspensions a coroutine runs alone; it is suspended on the
  lock of its cache key (\<open>async with lock\<close>), on a full queue (\<open>await loaded.queue.put(...)\<close>) and on the worker of a slot
  it unloads (\<open>asyncio.wait_for(loaded.worker_task, timeout=30)\<close>). The locks are one per cache key, so that loads for
  different keys, unloads by an administrator, idle timers and the shutdown may all be in the middle of \<open>_unload\<close> at
  once. Nothing suspends inside \<open>_load\<close>, nor between the fast path of \<open>ensure_loaded\<close> and the \<open>put\<close> of \<open>_submit\<close>.
  Others may run at each of these points, also where the event loop would go on at once because a lock is free, a
  queue has room or a worker has ended. A turn of a worker is one step.
\<close>

section \<open>Suspended coroutines\<close>

text \<open>A call of \<open>ensure_loaded\<close>; \<open>lc_job\<close> is what the caller submits to the slot it gets, if anything.\<close>

record load_call =
  lc_model :: string
  lc_n_ctx :: "int option"
  lc_mode :: string
  lc_loras :: lora_spec
  lc_tenant :: string
  lc_job :: "(nat \<times> string \<times> json \<times> bool) option"

definition call_key :: "load_call \<Rightarrow> string" where
  "call_key c = cache_key (lc_tenant c) (lc_model c) (lc_mode c) (lora_fingerprint (lc_loras c))"

text \<open>Who called \<open>_unload\<close>: the eviction loop, or a loop over what is left of a list of slots.\<close>

datatype work = Evicting load_call model_entry | Unloading "(string \<times> nat) list"

datatype task =
    Locking load_call model_entry \<comment> \<open>waits for the lock of its key\<close>
  | Putting work string nat \<comment> \<open>waits until the queue has room for the sentinel\<close>
  | Draining work string nat \<comment> \<open>waits for the worker\<close>
  | TimedOut work string nat \<comment> \<open>has waited 30 seconds and cancelled the worker\<close>
  | Cancelled nat \<comment> \<open>the worker of a slot, after that\<close>

fun work_of :: "task \<Rightarrow> work option" where
  "work_of (Locking c entry) = None"
| "work_of (Putting w key r) = Some w"
| "work_of (Draining w key r) = Some w"
| "work_of (TimedOut w key r) = Some w"
| "work_of (Cancelled r) = None"

definition holds_lock :: "string \<Rightarrow> task \<Rightarrow> bool" where
  "holds_lock key t = (case work_of t of Some (Evicting c entry) \<Rightarrow> call_key c = key | _ \<Rightarrow> False)"

text \<open>
  How a stretch ends: the call has a result, the coroutine is over without one (its loop has ended, or a
  \<open>CancelledError\<close> went through it), or there is a suspension.
\<close>

datatype ending = CallDone load_call "manager_error + nat" | Over | Suspended task

section \<open>The stretches between suspensions\<close>

text \<open>\<open>_unload\<close> up to the \<open>put\<close>, the \<open>put\<close> itself.\<close>

definition unload_mark :: "nat \<Rightarrow> 'c manager \<Rightarrow> 'c manager" where
  "unload_mark r = upd_slot r (\<lambda>s. s\<lparr>sl_unloading := True, sl_idle_timer := None\<rparr>)"

definition put_stop :: "nat \<Rightarrow> 'c manager \<Rightarrow> 'c manager" where
  "put_stop r = upd_slot r (\<lambda>s. s\<lparr>sl_queue := sl_queue s @ [StopSentinel]\<rparr>)"

text \<open>\<open>ensure_loaded\<close> up to the lock: an answer, or the registry's entry, with which it goes for the lock.\<close>

definition ensure_enter ::
  "'c env \<Rightarrow> load_call \<Rightarrow> 'c manager \<Rightarrow> ((manager_error + nat) + model_entry) \<times> 'c manager" where
  "ensure_enter E c m =
     (case for_tenant model_kind (en_json E) (en_now E) (lc_tenant c) (mg_models m, mg_fs m) of
        Inl e \<Rightarrow> (Inl (Inl (ManagerOther e)), m)
      | Inr (registry, models, fs) \<Rightarrow>
          let m = m\<lparr>mg_models := models, mg_fs := fs\<rparr> in
          (case registry_get registry (lc_model c) of
             None \<Rightarrow> (Inl (Inl (manager_error MODEL_NOT_FOUND (lc_model c))), m)
           | Some entry \<Rightarrow>
               (case loaded_fitting (call_key c) (lc_n_ctx c) m of
                  Some r \<Rightarrow> (Inl (Inr r), reset_idle E r (m\<lparr>mg_loaded := move_to_end (call_key c) r (mg_loaded m)\<rparr>))
                | None \<Rightarrow>
                    (case for_tenant lora_kind (en_json E) (en_now E) (lc_tenant c) (mg_loras m, mg_fs m) of
                       Inl e \<Rightarrow> (Inl (Inl (ManagerOther e)), m)
                     | Inr (lora_reg, loras, fs) \<Rightarrow>
                         let m = m\<lparr>mg_loras := loras, mg_fs := fs\<rparr> in
                         (case find (\<lambda>(lid, scale). registry_get lora_reg lid = None) (lc_loras c) of
                            Some (lid, scale) \<Rightarrow> (Inl (Inl (manager_error MODEL_NOT_FOUND (''lora:'' @ lid))), m)
                          | None \<Rightarrow> (Inr entry, m))))))"

text \<open>\<open>_load\<close> and the entry in the table. The registries are looked up again; the model's entry is the one from before.\<close>

definition load_now :: "'c env \<Rightarrow> load_call \<Rightarrow> model_entry \<Rightarrow> 'c manager \<Rightarrow> (manager_error + nat) \<times> 'c manager" where
  "load_now E c entry m =
     (case for_tenant model_kind (en_json E) (en_now E) (lc_tenant c) (mg_models m, mg_fs m) of
        Inl e \<Rightarrow> (Inl (ManagerOther e), m)
      | Inr (registry, models, fs) \<Rightarrow>
          let m = m\<lparr>mg_models := models, mg_fs := fs\<rparr> in
          (case for_tenant lora_kind (en_json E) (en_now E) (lc_tenant c) (mg_loras m, mg_fs m) of
             Inl e \<Rightarrow> (Inl (ManagerOther e), m)
           | Inr (lora_reg, loras, fs) \<Rightarrow>
               let m = m\<lparr>mg_loras := loras, mg_fs := fs\<rparr> in
               (case load E registry lora_reg entry (opt_int_or (lc_n_ctx c) (mc_n_ctx_default (en_config E))) (call_key c)
                       (lc_mode c) (lc_loras c) m of
                  (Inl e, m) \<Rightarrow> (Inl (ManagerOther e), m)
                | (Inr r, m) \<Rightarrow> (Inr r, m\<lparr>mg_loaded := AList.update (call_key c) r (mg_loaded m)\<rparr>))))"

text \<open>The head of the eviction loop: there is room and the model is loaded, or the first slot has to go.\<close>

definition evict_next :: "'c env \<Rightarrow> load_call \<Rightarrow> model_entry \<Rightarrow> 'c manager \<Rightarrow> ending \<times> 'c manager" where
  "evict_next E c entry m =
     (if int (length (mg_loaded m)) < mc_max_loaded (en_config E) then apfst (CallDone c) (load_now E c entry m)
      else case mg_loaded m of
        [] \<Rightarrow> (CallDone c (Inl (ManagerOther (RuntimeError ''coroutine raised StopIteration''))), m)
      | (key, r) # rest \<Rightarrow> (Suspended (Putting (Evicting c entry) key r), unload_mark r m))"

definition under_lock :: "'c env \<Rightarrow> load_call \<Rightarrow> model_entry \<Rightarrow> 'c manager \<Rightarrow> ending \<times> 'c manager" where
  "under_lock E c entry m =
     (case loaded_fitting (call_key c) (lc_n_ctx c) m of
        Some r \<Rightarrow> (CallDone c (Inr r), reset_idle E r m)
      | None \<Rightarrow> evict_next E c entry m)"

text \<open>The head of the loops of \<open>force_unload\<close> and \<open>shutdown\<close>, whose lists were made before.\<close>

fun unload_next :: "(string \<times> nat) list \<Rightarrow> 'c manager \<Rightarrow> ending \<times> 'c manager" where
  "unload_next [] m = (Over, m)"
| "unload_next ((key, r) # rest) m = (Suspended (Putting (Unloading rest) key r), unload_mark r m)"

fun after_unload :: "'c env \<Rightarrow> work \<Rightarrow> 'c manager \<Rightarrow> ending \<times> 'c manager" where
  "after_unload E (Evicting c entry) m = evict_next E c entry m"
| "after_unload E (Unloading rest) m = unload_next rest m"

text \<open>
  What a suspended coroutine does when it runs; \<open>None\<close> while it has to wait. \<open>_unload\<close> catches the \<open>TimeoutError\<close> of its
  own waiting; when another one has cancelled the worker it waits for, the \<open>CancelledError\<close> is not caught.
\<close>

fun task_runs :: "'c env \<Rightarrow> task list \<Rightarrow> task \<Rightarrow> 'c manager \<Rightarrow> (ending \<times> 'c manager) option" where
  "task_runs E ts (Locking c entry) m =
     (if list_ex (holds_lock (call_key c)) ts then None else Some (under_lock E c entry m))"
| "task_runs E ts (Putting w key r) m =
     (if queue_full (en_config E) (mg_slots m ! r) then None else Some (Suspended (Draining w key r), put_stop r m))"
| "task_runs E ts (Draining w key r) m =
     (if sl_worker (mg_slots m ! r) then None
      else if Cancelled r \<in> set ts then Some (Over, m)
      else Some (after_unload E w (unload_end key r m)))"
| "task_runs E ts (TimedOut w key r) m = Some (after_unload E w (unload_end key r m))"
| "task_runs E ts (Cancelled r) m = None"

text \<open>The caller's own stretch after \<open>ensure_loaded\<close>: it submits its job.\<close>

definition call_ends :: "'c env \<Rightarrow> load_call \<Rightarrow> manager_error + nat \<Rightarrow> 'c manager \<Rightarrow> (manager_error + nat) \<times> 'c manager" where
  "call_ends E c res m =
     (case res of
        Inl e \<Rightarrow> (Inl e, m)
      | Inr r \<Rightarrow> (case lc_job c of None \<Rightarrow> (Inr r, m) | Some (fut, kind, payload, stream) \<Rightarrow> submit E fut r kind payload stream m))"

section \<open>Steps\<close>

type_synonym 'c machine = "'c manager \<times> task list"

datatype event = Answered load_call "manager_error + nat" | Going

definition drop_nth :: "nat \<Rightarrow> 'a list \<Rightarrow> 'a list" where
  "drop_nth i xs = take i xs @ drop (Suc i) xs"

text \<open>The \<open>i\<close>-th task has run to its next suspension or to its end.\<close>

fun settle :: "'c env \<Rightarrow> nat \<Rightarrow> ending \<times> 'c manager \<Rightarrow> task list \<Rightarrow> event \<times> 'c machine" where
  "settle E i (Suspended t, m) ts = (Going, (m, ts[i := t]))"
| "settle E i (Over, m) ts = (Going, (m, drop_nth i ts))"
| "settle E i (CallDone c res, m) ts =
     (case call_ends E c res m of (res, m) \<Rightarrow> (Answered c res, (m, drop_nth i ts)))"

definition begin_loop :: "(string \<times> nat) list \<Rightarrow> 'c machine \<Rightarrow> 'c machine" where
  "begin_loop targets = (\<lambda>(m, ts).
     case unload_next targets m of (Suspended t, m) \<Rightarrow> (m, ts @ [t]) | (out, m) \<Rightarrow> (m, ts))"

text \<open>
  A call comes, a task runs, the 30 seconds of an unload are over and the worker is cancelled, a worker takes a turn, an
  idle timer fires, an administrator unloads a model, the server shuts down, the registries and files change.
\<close>

inductive machine_step :: "manager_config \<Rightarrow> 'c machine \<Rightarrow> event \<Rightarrow> 'c machine \<Rightarrow> bool" for C where
  ms_answer: "en_config E = C \<Longrightarrow> ensure_enter E c m = (Inl res, m1) \<Longrightarrow> call_ends E c res m1 = (res', m') \<Longrightarrow>
    machine_step C (m, ts) (Answered c res') (m', ts)"
| ms_call: "en_config E = C \<Longrightarrow> ensure_enter E c m = (Inr entry, m') \<Longrightarrow>
    machine_step C (m, ts) Going (m', ts @ [Locking c entry])"
| ms_task: "en_config E = C \<Longrightarrow> i < length ts \<Longrightarrow> task_runs E ts (ts ! i) m = Some out \<Longrightarrow> settle E i out ts = (ev, x') \<Longrightarrow>
    machine_step C (m, ts) ev x'"
| ms_timeout: "i < length ts \<Longrightarrow> ts ! i = Draining w key r \<Longrightarrow> sl_worker (mg_slots m ! r) \<Longrightarrow>
    machine_step C (m, ts) Going
      (upd_slot r (\<lambda>s. s\<lparr>sl_worker := False\<rparr>) m, ts[i := TimedOut w key r] @ [Cancelled r])"
| ms_worker: "en_config E = C \<Longrightarrow> r < length (mg_slots m) \<Longrightarrow> machine_step C (m, ts) Going (worker_step E r m, ts)"
| ms_idle: "r < length (mg_slots m) \<Longrightarrow> sl_idle_timer (mg_slots m ! r) \<noteq> None \<Longrightarrow>
    x' = (if mg_closing m \<or> sl_unloading (mg_slots m ! r) then (m, ts)
      else begin_loop [(sl_cache_key (mg_slots m ! r), r)] (m, ts)) \<Longrightarrow>
    machine_step C (m, ts) Going x'"
| ms_force: "machine_step C (m, ts) Going
    (begin_loop (filter (\<lambda>(k, v). has_prefix (tenant @ '':'' @ model_id @ '':'') k) (mg_loaded m)) (m, ts))"
| ms_shutdown: "machine_step C (m, ts) Going (begin_loop (mg_loaded m) (m\<lparr>mg_closing := True\<rparr>, ts))"
| ms_files: "machine_step C (m, ts) Going (m\<lparr>mg_models := x, mg_loras := y, mg_fs := fs\<rparr>, ts)"

section \<open>What every stretch keeps\<close>

fun work_targets :: "work \<Rightarrow> (string \<times> nat) list" where
  "work_targets (Evicting c entry) = []"
| "work_targets (Unloading rest) = rest"

fun targets :: "task \<Rightarrow> (string \<times> nat) list" where
  "targets (Locking c entry) = []"
| "targets (Putting w key r) = (key, r) # work_targets w"
| "targets (Draining w key r) = (key, r) # work_targets w"
| "targets (TimedOut w key r) = (key, r) # work_targets w"
| "targets (Cancelled r) = []"

definition slot_id :: "slot \<Rightarrow> string \<times> bool" where
  "slot_id s = (sl_cache_key s, sl_closed s)"

text \<open>The table: within its bound, every entry a slot that was made for its key and is not closed.\<close>

definition filed :: "manager_config \<Rightarrow> 'c manager \<Rightarrow> bool" where
  "filed C m \<longleftrightarrow> dict_ok (mg_loaded m) \<and> int (length (mg_loaded m)) \<le> max 0 (mc_max_loaded C) \<and>
     (\<forall>key r. map_of (mg_loaded m) key = Some r \<longrightarrow> r < length (mg_slots m) \<and> slot_id (mg_slots m ! r) = (key, False))"

text \<open>
  Slots are only added, keep their key and their model, no slot that is not in the table comes into it later, and what is put into a
  queue without a worker stays there.
\<close>

definition slot_le :: "slot \<Rightarrow> slot \<Rightarrow> bool" where
  "slot_le s s' \<longleftrightarrow> sl_cache_key s' = sl_cache_key s \<and> sl_entry s' = sl_entry s \<and>
     (\<not> sl_worker s \<longrightarrow> \<not> sl_worker s' \<and> length (sl_queue s) \<le> length (sl_queue s'))"

definition slots_le :: "'c manager \<Rightarrow> 'c manager \<Rightarrow> bool" where
  "slots_le m m' \<longleftrightarrow> length (mg_slots m) \<le> length (mg_slots m') \<and>
     (\<forall>q < length (mg_slots m). slot_le (mg_slots m ! q) (mg_slots m' ! q)) \<and>
     snd ` set (mg_loaded m') \<subseteq> snd ` set (mg_loaded m) \<union> {length (mg_slots m)..}"

definition stretch_ok :: "manager_config \<Rightarrow> 'c manager \<Rightarrow> 'c manager \<Rightarrow> bool" where
  "stretch_ok C m m' \<longleftrightarrow> slots_le m m' \<and> (filed C m \<longrightarrow> filed C m')"

lemma set_delete_subset: "set (AList.delete k d) \<subseteq> set d"
  by (auto simp: AList.delete_eq)

lemma snd_update_subset: "snd ` set (AList.update k v d) \<subseteq> insert v (snd ` set d)"
  by (induction d) auto

lemma filedD: "filed C m \<Longrightarrow> map_of (mg_loaded m) key = Some r \<Longrightarrow> r < length (mg_slots m) \<and> slot_id (mg_slots m ! r) = (key, False)"
  by (simp add: filed_def)

lemma slot_le_refl [simp, intro]: "slot_le s s"
  by (simp add: slot_le_def)

lemma slot_le_trans: "slot_le s s1 \<Longrightarrow> slot_le s1 s2 \<Longrightarrow> slot_le s s2"
  by (auto simp: slot_le_def)

lemma stretch_refl [simp, intro]: "stretch_ok C m m"
  by (simp add: stretch_ok_def slots_le_def)

lemma slots_leD:
  assumes "slots_le m m'"
  shows "length (mg_slots m) \<le> length (mg_slots m')"
    and "q < length (mg_slots m) \<Longrightarrow> slot_le (mg_slots m ! q) (mg_slots m' ! q)"
    and "snd ` set (mg_loaded m') \<subseteq> snd ` set (mg_loaded m) \<union> {length (mg_slots m)..}"
  using assms unfolding slots_le_def by blast+

lemma slots_le_key: "slots_le m m' \<Longrightarrow> q < length (mg_slots m) \<Longrightarrow> sl_cache_key (mg_slots m' ! q) = sl_cache_key (mg_slots m ! q)"
  using slots_leD(2) [of m m' q] by (simp add: slot_le_def)

lemma within_trans: "X \<subseteq> A \<union> B \<Longrightarrow> Y \<subseteq> X \<union> D \<Longrightarrow> D \<subseteq> B \<Longrightarrow> Y \<subseteq> A \<union> B"
  by blast

lemma slots_le_trans: "slots_le m m1 \<Longrightarrow> slots_le m1 m2 \<Longrightarrow> slots_le m m2"
proof -
  assume le: "slots_le m m1" "slots_le m1 m2"
  note a = slots_leD [OF le(1)] and b = slots_leD [OF le(2)]
  have len: "length (mg_slots m) \<le> length (mg_slots m2)" by (rule le_trans [OF a(1) b(1)])
  have slot: "slot_le (mg_slots m ! q) (mg_slots m2 ! q)" if "q < length (mg_slots m)" for q
    by (rule slot_le_trans [OF a(2) [OF that] b(2) [OF less_le_trans [OF that a(1)]]])
  have "{length (mg_slots m1)..} \<subseteq> {length (mg_slots m)..}" using a(1) by (rule atLeast_subset_iff [THEN iffD2])
  then have "snd ` set (mg_loaded m2) \<subseteq> snd ` set (mg_loaded m) \<union> {length (mg_slots m)..}" by (rule within_trans [OF a(3) b(3)])
  with len slot show "slots_le m m2" unfolding slots_le_def by blast
qed

lemma stretch_le: "stretch_ok C m m' \<Longrightarrow> slots_le m m'"
  by (simp add: stretch_ok_def)

lemma stretch_trans [trans]: "stretch_ok C m m1 \<Longrightarrow> stretch_ok C m1 m2 \<Longrightarrow> stretch_ok C m m2"
  by (auto simp: stretch_ok_def intro: slots_le_trans)

lemma names_slots_le: "slots_le m m' \<Longrightarrow> names_slots m kvs \<Longrightarrow> names_slots m' kvs"
proof -
  assume le: "slots_le m m'" and ok: "names_slots m kvs"
  have "r < length (mg_slots m') \<and> sl_cache_key (mg_slots m' ! r) = key" if "(key, r) \<in> set kvs" for key r
  proof -
    have r: "r < length (mg_slots m)" "sl_cache_key (mg_slots m ! r) = key" using ok that by (auto simp: names_slots_def)
    then show ?thesis using slots_leD(1) [OF le] slots_le_key [OF le r(1)] by simp
  qed
  then show "names_slots m' kvs" by (auto simp: names_slots_def)
qed

text \<open>Stretches that touch neither the table nor what a slot is.\<close>

lemma stretch_frame:
  assumes "mg_loaded m' = mg_loaded m" and "length (mg_slots m') = length (mg_slots m)"
    and "\<And>q. q < length (mg_slots m) \<Longrightarrow> slot_le (mg_slots m ! q) (mg_slots m' ! q) \<and>
      sl_closed (mg_slots m' ! q) = sl_closed (mg_slots m ! q)"
  shows "stretch_ok C m m'"
  using assms by (auto simp: stretch_ok_def slots_le_def filed_def slot_id_def slot_le_def)

lemma stretch_slot:
  assumes "\<And>s. slot_le s (f s) \<and> sl_closed (f s) = sl_closed s"
  shows "stretch_ok C m (upd_slot r f m)"
proof (rule stretch_frame)
  fix q assume "q < length (mg_slots m)"
  then show "slot_le (mg_slots m ! q) (mg_slots (upd_slot r f m) ! q) \<and>
      sl_closed (mg_slots (upd_slot r f m) ! q) = sl_closed (mg_slots m ! q)"
    using assms by (cases "q = r") (simp_all add: upd_slot_def)
qed simp_all

lemma stretch_simple:
  "stretch_ok C m (unload_mark r m)" "stretch_ok C m (put_stop r m)" "stretch_ok C m (reset_idle E r m)"
  "stretch_ok C m (upd_slot r (\<lambda>s. s\<lparr>sl_worker := False\<rparr>) m)" "stretch_ok C m (m\<lparr>mg_closing := True\<rparr>)"
  "stretch_ok C m (m\<lparr>mg_models := x, mg_loras := y, mg_fs := fs\<rparr>)" "stretch_ok C m (m\<lparr>mg_models := x, mg_fs := fs\<rparr>)"
  "stretch_ok C m (m\<lparr>mg_loras := y, mg_fs := fs\<rparr>)"
  unfolding unload_mark_def put_stop_def reset_idle_def
  by (auto intro!: stretch_slot stretch_frame simp: slot_le_def)

lemma stretch_worker: "stretch_ok C m (worker_step E r m)"
proof (rule stretch_frame)
  fix q assume q: "q < length (mg_slots m)"
  have "mg_slots (worker_step E r m) ! q = mg_slots m ! q" if "\<not> sl_worker (mg_slots m ! q)"
    using that q by (cases "q = r") (simp add: worker_step_def Let_def, simp)
  then show "slot_le (mg_slots m ! q) (mg_slots (worker_step E r m) ! q) \<and>
      sl_closed (mg_slots (worker_step E r m) ! q) = sl_closed (mg_slots m ! q)"
    using worker_step_core [OF q, of E r] by (auto simp: slot_core_def slot_le_def)
qed simp_all

lemma stretch_submit: "submit E fut r kind payload stream m = (res, m') \<Longrightarrow> stretch_ok C m m'"
  by (auto simp: submit_def slot_le_def intro!: stretch_slot split: if_splits)

lemma stretch_call_ends: "call_ends E c res m = (res', m') \<Longrightarrow> stretch_ok C m m'"
  by (auto simp: call_ends_def intro: stretch_submit split: sum.splits option.splits)

text \<open>A fitting slot moves to the end of the table.\<close>

lemma stretch_move:
  assumes "map_of (mg_loaded m) key = Some r"
  shows "stretch_ok C m (m\<lparr>mg_loaded := move_to_end key r (mg_loaded m)\<rparr>)"
proof -
  have "dict_ok (mg_loaded m) \<Longrightarrow> length (move_to_end key r (mg_loaded m)) = length (mg_loaded m)"
    by (rule length_move_to_end [OF _ assms])
  moreover have "r \<in> snd ` set (mg_loaded m)" using map_of_SomeD [OF assms] by force
  then have "snd ` set (move_to_end key r (mg_loaded m)) \<subseteq> snd ` set (mg_loaded m)"
    using set_delete_subset [of key "mg_loaded m"] by (auto simp: move_to_end_def)
  ultimately show ?thesis
    by (auto simp: stretch_ok_def slots_le_def filed_def dict_ok_move_to_end map_of_move_to_end [OF assms])
qed

lemma stretch_enter:
  assumes "ensure_enter E c m = (res, m')"
  shows "stretch_ok C m m'"
proof -
  have hit: "stretch_ok C m (reset_idle E r (m1\<lparr>mg_loaded := move_to_end k r (mg_loaded m1)\<rparr>))"
    if "stretch_ok C m m1" "loaded_fitting k n m1 = Some r" for m1 k n r
    using that stretch_trans [OF stretch_trans [OF that(1) stretch_move] stretch_simple(3)]
    by (auto simp: loaded_fitting_def split: option.splits if_splits)
  have two: "stretch_ok C m (m\<lparr>mg_models := x, mg_fs := fs, mg_loras := y, mg_fs := fs'\<rparr>)" for x fs y fs'
    by (rule stretch_frame) simp_all
  show ?thesis using assms hit [OF stretch_simple(7)] two stretch_simple(7)
    by (auto simp: ensure_enter_def Let_def split: sum.splits prod.splits option.splits)
qed

text \<open>Loading: the check on the table's length comes right before, in the same stretch.\<close>

lemma stretch_load:
  assumes "load E R LR entry n key mode loras m = (res, m')"
    and "int (length (mg_loaded m)) < mc_max_loaded C"
  shows "stretch_ok C m (case res of Inl e \<Rightarrow> m' | Inr r \<Rightarrow> m'\<lparr>mg_loaded := AList.update key r (mg_loaded m')\<rparr>)"
proof (cases res)
  case (Inl e)
  with load_Inl [OF assms(1) [unfolded Inl]] show ?thesis by (simp add: stretch_frame)
next
  case (Inr r)
  note l = load_Inr [OF assms(1) [unfolded Inr]]
  have key: "sl_cache_key (mg_slots m' ! r) = key" "\<not> sl_closed (mg_slots m' ! r)" using l by (auto simp: slot_core_def)
  have len: "int (length (AList.update key r (mg_loaded m))) \<le> max 0 (mc_max_loaded C)"
    using assms(2) length_update_le [of key r "mg_loaded m"] by simp
  have "filed C (m'\<lparr>mg_loaded := AList.update key r (mg_loaded m)\<rparr>)" if ok: "filed C m"
    using ok len l key filedD [OF ok]
    by (auto simp: filed_def map_of_update slot_id_def less_Suc_eq intro!: dict_ok_update split: if_splits)
  moreover have "snd ` set (AList.update key r (mg_loaded m)) \<subseteq> insert r (snd ` set (mg_loaded m))"
    by (rule snd_update_subset)
  ultimately show ?thesis using l by (auto simp: Inr stretch_ok_def slots_le_def)
qed

lemma stretch_load_now:
  assumes "load_now E c entry m = (res, m')" and "en_config E = C" and "int (length (mg_loaded m)) < mc_max_loaded C"
  shows "stretch_ok C m m'"
proof -
  have two: "stretch_ok C m (m\<lparr>mg_models := x, mg_fs := fs, mg_loras := y, mg_fs := fs'\<rparr>)" for x fs y fs'
    by (rule stretch_frame) simp_all
  have ld: "stretch_ok C m (case res1 of Inl e \<Rightarrow> m2 | Inr r \<Rightarrow> m2\<lparr>mg_loaded := AList.update key r (mg_loaded m2)\<rparr>)"
    if "load E R LR entry n key mode loras (m\<lparr>mg_models := x, mg_fs := fs, mg_loras := y, mg_fs := fs'\<rparr>) = (res1, m2)"
    for R LR n key mode loras x fs y fs' res1 m2
    by (rule stretch_trans [OF two stretch_load [OF that]]) (use assms(3) in simp)
  show ?thesis using assms(1,2) stretch_simple(7) [of C m]
    by (auto simp: load_now_def Let_def dest!: ld [simplified] split: sum.splits prod.splits)
qed

fun ending_ok :: "'c manager \<Rightarrow> ending \<Rightarrow> bool" where
  "ending_ok m (Suspended t) = names_slots m (targets t)"
| "ending_ok m out = True"

lemma evict_next_ok:
  assumes "evict_next E c entry m = (out, m')" and "en_config E = C" and "filed C m"
  shows "stretch_ok C m m' \<and> ending_ok m' out"
proof (cases "int (length (mg_loaded m)) < mc_max_loaded C")
  case True
  then obtain res where "load_now E c entry m = (res, m')" "out = CallDone c res"
    using assms(1,2) by (cases "load_now E c entry m") (auto simp: evict_next_def)
  with stretch_load_now [OF this(1) assms(2) True] show ?thesis by simp
next
  case False
  show ?thesis
  proof (cases "mg_loaded m")
    case Nil
    then show ?thesis using assms(1,2) False by (auto simp: evict_next_def)
  next
    case (Cons kr rest)
    obtain key r where kr: "kr = (key, r)" by (cases kr)
    have "r < length (mg_slots m)" "sl_cache_key (mg_slots m ! r) = key"
      using filedD [OF assms(3), of key r] by (simp_all add: Cons kr slot_id_def)
    then have "names_slots (unload_mark r m) [(key, r)]" by (simp add: names_slots_def unload_mark_def)
    then show ?thesis using assms(1,2) False by (auto simp: evict_next_def Cons kr stretch_simple)
  qed
qed

lemma unload_next_ok:
  assumes "unload_next kvs m = (out, m')" and "names_slots m kvs"
  shows "stretch_ok C m m' \<and> ending_ok m' out"
proof (cases kvs)
  case (Cons kr rest)
  obtain key r where kr: "kr = (key, r)" by (cases kr)
  have "slots_le m (unload_mark r m)" by (rule stretch_le [OF stretch_simple(1)])
  then have "names_slots (unload_mark r m) kvs" by (rule names_slots_le [OF _ assms(2)])
  then show ?thesis using assms(1) by (auto simp: Cons kr stretch_simple)
qed (use assms in simp)

text \<open>The end of an unload: whatever the table has for the key goes; the slot is no longer in it.\<close>

lemma stretch_unload_end:
  assumes "names_slots m [(key, r)]"
  shows "stretch_ok C m (unload_end key r m)"
proof -
  have r: "r < length (mg_slots m)" "sl_cache_key (mg_slots m ! r) = key" using assms by (simp_all add: names_slots_def)
  have le: "slots_le m (unload_end key r m)"
    using set_delete_subset [of key "mg_loaded m"] r by (auto simp: slots_le_def slot_le_def unload_end_def Let_def nth_list_update upd_slot_def)
  have "filed C (unload_end key r m)" if ok: "filed C m"
  proof -
    have "slot_id (mg_slots (unload_end key r m) ! q) = (k, False) \<and> q < length (mg_slots m)"
      if "map_of (mg_loaded m) k = Some q" "k \<noteq> key" for k q
      using filedD [OF ok that(1)] that(2) r by (auto simp: slot_id_def unload_end_def Let_def)
    moreover have "int (length (AList.delete key (mg_loaded m))) \<le> max 0 (mc_max_loaded C)"
      using ok length_delete_le [of key "mg_loaded m"] by (simp add: filed_def)
    moreover have "mg_loaded (unload_end key r m) = AList.delete key (mg_loaded m)"
      "length (mg_slots (unload_end key r m)) = length (mg_slots m)" by (simp_all add: unload_end_def Let_def)
    ultimately show ?thesis using ok dict_ok_delete [of "mg_loaded m" key]
      by (auto simp: filed_def map_of_delete split: if_splits)
  qed
  with le show ?thesis by (simp add: stretch_ok_def)
qed

lemma names_slots_Nil: "names_slots m []"
  by (simp add: names_slots_def)

section \<open>Every state of the interleaved manager\<close>

fun machine_ok :: "manager_config \<Rightarrow> 'c machine \<Rightarrow> bool" where
  "machine_ok C (m, ts) \<longleftrightarrow> filed C m \<and> (\<forall>t \<in> set ts. names_slots m (targets t))"

lemma machine_ok_stretch:
  assumes "machine_ok C (m, ts)" and "stretch_ok C m m'" and "set ts' \<subseteq> set ts \<union> {t. names_slots m' (targets t)}"
  shows "machine_ok C (m', ts') \<and> slots_le m m'"
proof -
  have "names_slots m' (targets t)" if "t \<in> set ts'" for t
    using that assms(1,3) names_slots_le [of m m'] assms(2) by (auto simp: stretch_ok_def)
  then show ?thesis using assms(1,2) by (simp add: stretch_ok_def)
qed

lemma after_end_ok:
  assumes "after_unload E w (unload_end key r m) = (out, m')" and "en_config E = C" and "filed C m"
    and "names_slots m ((key, r) # work_targets w)"
  shows "stretch_ok C (unload_end key r m) m' \<and> ending_ok m' out"
proof -
  have nm: "names_slots m [(key, r)]" "names_slots m (work_targets w)" using assms(4) by (auto simp: names_slots_def)
  have st: "stretch_ok C m (unload_end key r m)" by (rule stretch_unload_end [OF nm(1)])
  show ?thesis
  proof (cases w)
    case (Evicting c entry)
    have "filed C (unload_end key r m)" using st assms(3) by (simp add: stretch_ok_def)
    from evict_next_ok [OF _ assms(2) this] assms(1) Evicting show ?thesis by simp
  next
    case (Unloading rest)
    have "names_slots (unload_end key r m) rest"
      using names_slots_le [OF stretch_le [OF st] nm(2)] by (simp add: Unloading)
    from unload_next_ok [OF _ this] assms(1) Unloading show ?thesis by simp
  qed
qed

lemma after_unload_ok:
  assumes "after_unload E w (unload_end key r m) = (out, m')" and "en_config E = C" and "filed C m"
    and "names_slots m ((key, r) # work_targets w)"
  shows "stretch_ok C m m' \<and> ending_ok m' out"
proof -
  have "names_slots m [(key, r)]" using assms(4) by (auto simp: names_slots_def)
  from stretch_trans [OF stretch_unload_end [OF this]] after_end_ok [OF assms] show ?thesis by blast
qed

lemma task_runs_ok:
  assumes "task_runs E ts t m = Some (out, m')" and "en_config E = C" and "filed C m" and "names_slots m (targets t)"
  shows "stretch_ok C m m' \<and> ending_ok m' out"
proof (cases t)
  case (Locking c entry)
  then have run: "under_lock E c entry m = (out, m')" using assms(1) by (simp split: if_splits)
  show ?thesis
  proof (cases "loaded_fitting (call_key c) (lc_n_ctx c) m")
    case None
    then show ?thesis using run evict_next_ok [OF _ assms(2,3)] by (simp add: under_lock_def)
  next
    case (Some r)
    then show ?thesis using run by (auto simp: under_lock_def stretch_simple)
  qed
next
  case (Putting w key r)
  then have "out = Suspended (Draining w key r)" "m' = put_stop r m" using assms(1) by (auto split: if_splits)
  moreover have "slots_le m (put_stop r m)" by (rule stretch_le [OF stretch_simple(2)])
  ultimately show ?thesis using assms(4) names_slots_le [of m "put_stop r m"] by (simp add: Putting stretch_simple)
next
  case (Draining w key r)
  show ?thesis
  proof (cases "Cancelled r \<in> set ts")
    case True
    then show ?thesis using assms(1) by (auto simp: Draining split: if_splits)
  next
    case False
    then show ?thesis using assms(1) after_unload_ok [OF _ assms(2-3)] assms(4) by (simp add: Draining split: if_splits)
  qed
next
  case (TimedOut w key r)
  then show ?thesis using assms(1) after_unload_ok [OF _ assms(2-3)] assms(4) by simp
next
  case (Cancelled r)
  then show ?thesis using assms(1) by simp
qed

lemma begin_loop_ok:
  assumes "machine_ok C (m, ts)" and "names_slots m kvs"
  shows "machine_ok C (begin_loop kvs (m, ts)) \<and> slots_le m (fst (begin_loop kvs (m, ts)))"
proof -
  obtain out m' where u: "unload_next kvs m = (out, m')" by (cases "unload_next kvs m")
  note ok = unload_next_ok [OF u assms(2), of C]
  show ?thesis using machine_ok_stretch [OF assms(1) conjunct1 [OF ok]] ok
    by (cases out) (auto simp: begin_loop_def u)
qed

lemma set_drop_nth: "set (drop_nth i xs) \<subseteq> set xs"
  by (auto simp: drop_nth_def dest: in_set_takeD in_set_dropD)

lemma machine_ok_table: "machine_ok C (m, ts) \<Longrightarrow> set kvs \<subseteq> set (mg_loaded m) \<Longrightarrow> names_slots m kvs"
proof -
  assume ok: "machine_ok C (m, ts)" and sub: "set kvs \<subseteq> set (mg_loaded m)"
  have d: "distinct (map fst (mg_loaded m))" using ok by (simp add: filed_def dict_ok_def)
  have "r < length (mg_slots m) \<and> sl_cache_key (mg_slots m ! r) = k" if "(k, r) \<in> set kvs" for k r
    using filedD [of C m k r] map_of_is_SomeI [OF d] that sub ok by (auto simp: slot_id_def)
  then show "names_slots m kvs" by (auto simp: names_slots_def)
qed

lemma machine_goes:
  assumes "machine_ok C (m, ts)" and "stretch_ok C m m'" and "set ts' \<subseteq> set ts \<union> {t. names_slots m' (targets t)}"
  shows "machine_ok C (m', ts') \<and> slots_le (fst (m, ts)) (fst (m', ts'))"
  using machine_ok_stretch [OF assms] by simp

lemma slots_le_refl [simp, intro]: "slots_le m m"
  by (simp add: slots_le_def)

lemma machine_step_ok: "machine_step C x ev x' \<Longrightarrow> machine_ok C x \<Longrightarrow> machine_ok C x' \<and> slots_le (fst x) (fst x')"
proof (induction rule: machine_step.induct)
  case (ms_answer E c m res m1 res' m' ts)
  have "stretch_ok C m m'" by (rule stretch_trans [OF stretch_enter [OF ms_answer(2)] stretch_call_ends [OF ms_answer(3)]])
  from machine_goes [OF ms_answer(4) this Un_upper1] show ?case .
next
  case (ms_call E c m entry m' ts)
  have "names_slots m' (targets (Locking c entry))" by (simp add: names_slots_def)
  then have "set (ts @ [Locking c entry]) \<subseteq> set ts \<union> {t. names_slots m' (targets t)}" by auto
  from machine_goes [OF ms_call(3) stretch_enter [OF ms_call(2)] this] show ?case .
next
  case (ms_task E i ts m out ev x')
  obtain out1 m1 where out: "out = (out1, m1)" by (cases out)
  have "filed C m" "names_slots m (targets (ts ! i))" using ms_task(2,5) by auto
  from task_runs_ok [OF _ ms_task(1) this] ms_task(3) out have ok: "stretch_ok C m m1" "ending_ok m1 out1" by auto
  show ?case
  proof (cases out1)
    case (CallDone c res)
    then obtain res' m2 where e: "call_ends E c res m1 = (res', m2)" by (metis prod.exhaust)
    have "stretch_ok C m m2" by (rule stretch_trans [OF ok(1) stretch_call_ends [OF e]])
    from machine_ok_stretch [OF ms_task(5) this le_supI1 [OF set_drop_nth]] show ?thesis
      using ms_task(4) e by (auto simp: out CallDone)
  next
    case Over
    with machine_ok_stretch [OF ms_task(5) ok(1) le_supI1 [OF set_drop_nth]] ms_task(4) show ?thesis
      by (auto simp: out)
  next
    case (Suspended t)
    then have "set (ts[i := t]) \<subseteq> set ts \<union> {t. names_slots m1 (targets t)}"
      using set_update_subset_insert [of ts i t] ok(2) by auto
    from machine_ok_stretch [OF ms_task(5) ok(1) this] ms_task(4) show ?thesis by (auto simp: out Suspended)
  qed
next
  case (ms_timeout i ts w key r m)
  let ?t = "TimedOut w key r" and ?m = "upd_slot r (\<lambda>s. s\<lparr>sl_worker := False\<rparr>) m"
  have "names_slots m (targets (ts ! i))" using ms_timeout(1,4) by simp
  then have "names_slots m (targets ?t)" by (simp add: ms_timeout(2))
  then have ok: "?t \<in> {t. names_slots ?m (targets t)}" "Cancelled r \<in> {t. names_slots ?m (targets t)}"
    using names_slots_le [OF stretch_le [OF stretch_simple(4)]] by (simp_all only: mem_Collect_eq targets.simps names_slots_Nil)
  have "set (ts[i := ?t] @ [Cancelled r]) \<subseteq> insert ?t (insert (Cancelled r) (set ts))"
    using set_update_subset_insert [of ts i ?t] unfolding set_append by auto
  with ok have "set (ts[i := ?t] @ [Cancelled r]) \<subseteq> set ts \<union>
      {t. names_slots ?m (targets t)}" by blast
  from machine_goes [OF ms_timeout(4) stretch_simple(4) this] show ?case .
next
  case (ms_worker E r m ts)
  show ?case by (rule machine_goes [OF ms_worker(3) stretch_worker Un_upper1])
next
  case (ms_idle r m x' ts)
  then show ?case using begin_loop_ok [OF ms_idle(4), of "[(sl_cache_key (mg_slots m ! r), r)]"] by (simp add: names_slots_def)
next
  case (ms_force m ts tenant model_id)
  show ?case unfolding fst_conv by (rule begin_loop_ok [OF ms_force machine_ok_table [OF ms_force]]) auto
next
  case (ms_shutdown m ts)
  note closing = machine_ok_stretch [OF ms_shutdown stretch_simple(5) Un_upper1]
  from begin_loop_ok [OF conjunct1 [OF closing] machine_ok_table [OF conjunct1 [OF closing]], of "mg_loaded m"]
  show ?case using slots_le_trans [OF conjunct2 [OF closing]] by simp
next
  case (ms_files m ts x y fs)
  show ?case by (rule machine_goes [OF ms_files stretch_simple(6) Un_upper1])
qed

lemma machine_run_ok:
  "steps (machine_step C) x evs x' \<Longrightarrow> machine_ok C x \<Longrightarrow> machine_ok C x' \<and> slots_le (fst x) (fst x')"
proof (induction rule: steps.induct)
  case (steps_more x ev x1 evs x')
  from machine_step_ok [OF steps_more(1,4)] steps_more(3) show ?case by (blast intro: slots_le_trans)
qed simp

lemma machine_start_ok: "machine_ok C (manager_new models loras fs, [])"
  by (simp add: manager_new_def filed_def)

section \<open>A queue nobody reads\<close>

definition stuck :: "manager_config \<Rightarrow> nat \<Rightarrow> 'c manager \<Rightarrow> bool" where
  "stuck C r m \<longleftrightarrow> r < length (mg_slots m) \<and> \<not> sl_worker (mg_slots m ! r) \<and> queue_full C (mg_slots m ! r)"

lemma stuck_le: "slots_le m m' \<Longrightarrow> stuck C r m \<Longrightarrow> stuck C r m'"
  using slots_leD(1) [of m m'] slots_leD(2) [of m m' r] by (auto simp: stuck_def slot_le_def queue_full_def)

text \<open>A task that cannot run is still there after every step; only who waits for a worker can be woken otherwise.\<close>

lemma stays_update: "t \<in> set ts \<Longrightarrow> i < length ts \<Longrightarrow> ts ! i \<noteq> t \<Longrightarrow> t \<in> set (ts[i := u])"
  by (metis in_set_conv_nth length_list_update nth_list_update_neq)

lemma stays_drop: "t \<in> set ts \<Longrightarrow> i < length ts \<Longrightarrow> ts ! i \<noteq> t \<Longrightarrow> t \<in> set (drop_nth i ts)"
  using id_take_nth_drop [of i ts] by (metis Un_iff drop_nth_def set_ConsD set_append)

lemma stays_settle:
  assumes "t \<in> set ts" and "i < length ts" and "ts ! i \<noteq> t" and "settle E i out ts = (ev, (m', ts'))"
  shows "t \<in> set ts'"
proof (cases out)
  case (Pair out1 m1)
  then show ?thesis using assms stays_update [OF assms(1-3)] stays_drop [OF assms(1-3)]
    by (cases out1) (auto split: prod.splits)
qed

lemma stays_begin: "begin_loop kvs (m, ts) = (m', ts') \<Longrightarrow> set ts \<subseteq> set ts'"
  by (auto simp: begin_loop_def split: prod.splits ending.splits)

fun is_draining :: "task \<Rightarrow> bool" where
  "is_draining (Draining w key r) = True"
| "is_draining t = False"

lemma step_keeps_blocked:
  assumes "machine_step C x ev x'" and "t \<in> set (snd x)" and "\<not> is_draining t"
    and "\<And>E. en_config E = C \<Longrightarrow> task_runs E (snd x) t (fst x) = None"
  shows "t \<in> set (snd x')"
  using assms
proof (induction rule: machine_step.induct)
  case (ms_task E i ts m out ev x')
  then have "ts ! i \<noteq> t" by auto
  with stays_settle [of t ts i E out ev "fst x'" "snd x'"] ms_task show ?case by simp
next
  case (ms_timeout i ts w key r m)
  then have "ts ! i \<noteq> t" by auto
  with stays_update [of t ts i] ms_timeout show ?case by simp
next
  case (ms_idle r m x' ts)
  then show ?case using stays_begin [of "[(sl_cache_key (mg_slots m ! r), r)]" m ts "fst x'" "snd x'"]
    by (auto split: if_splits)
next
  case (ms_force m ts tenant model_id)
  then show ?case using stays_begin [OF prod.collapse [symmetric]] by (metis snd_conv subsetD)
next
  case (ms_shutdown m ts)
  then show ?case using stays_begin [OF prod.collapse [symmetric]] by (metis snd_conv subsetD)
qed auto

definition behind :: "load_call \<Rightarrow> task \<Rightarrow> bool" where
  "behind c t \<longleftrightarrow> (case t of Locking c' entry \<Rightarrow> call_key c' = call_key c | _ \<Rightarrow> False)"

lemma stuck_step:
  assumes "machine_step C x ev x'" and "machine_ok C x" and "stuck C r (fst x)"
    and "Putting (Evicting c entry) key r \<in> set (snd x)"
  shows "stuck C r (fst x') \<and> {Putting (Evicting c entry) key r} \<union> {t \<in> set (snd x). behind c t} \<subseteq> set (snd x')"
proof -
  have "Putting (Evicting c entry) key r \<in> set (snd x')"
    by (rule step_keeps_blocked [OF assms(1,4)]) (use assms(3) in \<open>auto simp: stuck_def\<close>)
  moreover have "t \<in> set (snd x')" if t: "t \<in> set (snd x)" "behind c t" for t
  proof -
    obtain c' e where l: "t = Locking c' e" "call_key c' = call_key c"
      using t(2) by (auto simp: behind_def split: task.splits)
    have "list_ex (holds_lock (call_key c)) (snd x)"
      using assms(4) unfolding list_ex_iff by (rule bexI [rotated]) (simp add: holds_lock_def)
    then show ?thesis by (intro step_keeps_blocked [OF assms(1) t(1)]) (simp_all add: l)
  qed
  ultimately show ?thesis using stuck_le machine_step_ok [OF assms(1,2)] assms(3) by blast
qed

lemma stuck_run:
  "steps (machine_step C) x evs x' \<Longrightarrow> machine_ok C x \<Longrightarrow> stuck C r (fst x) \<Longrightarrow>
    Putting (Evicting c entry) key r \<in> set (snd x) \<Longrightarrow>
    stuck C r (fst x') \<and> {Putting (Evicting c entry) key r} \<union> {t \<in> set (snd x). behind c t} \<subseteq> set (snd x')"
proof (induction rule: steps.induct)
  case (steps_more x ev x1 evs x')
  note now = stuck_step [OF steps_more(1,4,5,6)]
  from steps_more(3) [of] machine_step_ok [OF steps_more(1,4)] now show ?case by blast
qed simp

section \<open>A slot that drops out of the table\<close>

lemma unload_end_drops:
  assumes "filed C m" and "map_of (mg_loaded m) key = Some r'"
  shows "r' \<notin> snd ` set (mg_loaded (unload_end key r m))"
proof
  assume "r' \<in> snd ` set (mg_loaded (unload_end key r m))"
  then obtain k where k: "(k, r') \<in> set (mg_loaded m)" "k \<noteq> key" by (auto simp: unload_end_def Let_def AList.delete_eq)
  then have "map_of (mg_loaded m) k = Some r'" using assms(1) by (simp add: filed_def dict_ok_def)
  from filedD [OF assms(1) this] filedD [OF assms] k(2) show False by (simp add: slot_id_def)
qed

lemma settle_le:
  assumes "en_config E = C" and "filed C m" and "names_slots m ((key, r) # work_targets w)"
    and "settle E i (after_unload E w (unload_end key r m)) ts = (ev, x1)"
  shows "slots_le (unload_end key r m) (fst x1)"
proof -
  let ?u = "unload_end key r m"
  obtain out m1 where run: "after_unload E w ?u = (out, m1)" by (cases "after_unload E w ?u")
  have "stretch_ok C ?u m1" by (rule conjunct1 [OF after_end_ok [OF run assms(1-3)]])
  moreover have "stretch_ok C m1 (fst x1)"
    using assms(4) stretch_call_ends [of E _ _ m1] by (cases out) (auto simp: run split: prod.splits)
  ultimately show ?thesis by (blast intro: stretch_le stretch_trans)
qed

section \<open>One load per key\<close>

definition holders :: "string \<Rightarrow> task list \<Rightarrow> nat" where
  "holders key ts = length (filter (holds_lock key) ts)"

lemma holders_split: "i < length ts \<Longrightarrow>
  holders key ts = holders key (take i ts) + (if holds_lock key (ts ! i) then 1 else 0) + holders key (drop (Suc i) ts)"
  using arg_cong [OF id_take_nth_drop [of i ts], of "\<lambda>xs. length (filter (holds_lock key) xs)"] by (simp add: holders_def)

lemma holders_none: "\<not> list_ex (holds_lock key) ts \<Longrightarrow> holders key ts = 0"
  by (simp add: holders_def list_ex_iff)

lemma holders_update:
  assumes "i < length ts" and "holders key ts \<le> 1"
    and "holds_lock key t \<Longrightarrow> holds_lock key (ts ! i) \<or> \<not> list_ex (holds_lock key) ts"
  shows "holders key (ts[i := t]) \<le> 1"
  using assms holders_none [of key ts] holders_split [OF assms(1), of key] holders_split [of i "ts[i := t]" key]
  by (auto split: if_splits)

lemma holders_drop: "i < length ts \<Longrightarrow> holders key (drop_nth i ts) \<le> holders key ts"
  by (simp add: holders_split) (simp add: holders_def drop_nth_def)

lemma task_runs_holds:
  assumes "task_runs E ts t m = Some (Suspended t', m')" and "holds_lock key t'"
  shows "holds_lock key t \<or> \<not> list_ex (holds_lock key) ts"
proof -
  have ev: "holds_lock key t' \<Longrightarrow> call_key c = key" if "evict_next E c entry m1 = (Suspended t', m')" for c entry m1
    using that by (auto simp: evict_next_def holds_lock_def apfst_def map_prod_def split: if_splits list.splits prod.splits)
  have un: "\<not> holds_lock key t'" if "unload_next kvs m1 = (Suspended t', m')" for kvs m1
    using that by (cases kvs) (auto simp: holds_lock_def)
  have af: "holds_lock key t' \<Longrightarrow> holds_lock key (Draining w k r)" if "after_unload E w m1 = (Suspended t', m')" for w k r m1
    using that ev un by (cases w) (auto simp: holds_lock_def)
  show ?thesis using assms
  proof (cases t)
    case (Locking c entry)
    then show ?thesis using assms ev by (auto simp: under_lock_def split: if_splits option.splits)
  next
    case (Draining w k r)
    then show ?thesis using assms af by (auto split: if_splits)
  next
    case (TimedOut w k r)
    then show ?thesis using assms af by (auto simp: holds_lock_def)
  qed (auto simp: holds_lock_def split: if_splits)
qed

lemma holders_begin [simp]: "holders key (snd (begin_loop kvs (m, ts))) = holders key ts"
  by (cases kvs) (auto simp: begin_loop_def holders_def holds_lock_def)

lemma machine_step_holders: "machine_step C x ev x' \<Longrightarrow> holders key (snd x) \<le> 1 \<Longrightarrow> holders key (snd x') \<le> 1"
proof (induction rule: machine_step.induct)
  case (ms_call E c m entry m' ts)
  then show ?case by (simp add: holders_def holds_lock_def)
next
  case (ms_task E i ts m out ev x')
  obtain out1 m1 where out: "out = (out1, m1)" by (cases out)
  note drop = le_trans [OF holders_drop [OF ms_task(2)] ms_task(5) [unfolded snd_conv]]
  show ?case
  proof (cases out1)
    case (Suspended t)
    have run: "task_runs E ts (ts ! i) m = Some (Suspended t, m1)" using ms_task(3) by (simp add: out Suspended)
    have "holders key (ts[i := t]) \<le> 1"
      by (rule holders_update [OF ms_task(2) _ task_runs_holds [OF run]]) (use ms_task(5) in simp_all)
    then show ?thesis using ms_task(4) by (auto simp: out Suspended)
  qed (use ms_task(4) drop in \<open>auto simp: out split: prod.splits\<close>)
next
  case (ms_timeout i ts w k r m)
  have "holders key (ts[i := TimedOut w k r]) \<le> 1"
    by (rule holders_update [OF ms_timeout(1)]) (use ms_timeout(2,4) in \<open>auto simp: holds_lock_def\<close>)
  then show ?case by (simp add: holders_def holds_lock_def)
qed auto

end
