(* ===== verification/Schedules.thy ===== *)
theory Schedules
  imports Interleaving Jobs
begin

text \<open>
  What every interleaving of the manager's coroutines guarantees and what it cannot, and that the undivided
  operations of theory \<open>Manager\<close>, on which the server's model rests, are the schedules in which nothing comes in between.
\<close>

lemma steps_trans: "steps step w ds w1 \<Longrightarrow> steps step w1 ds' w' \<Longrightarrow> steps step w (ds @ ds') w'"
  by (auto simp: steps_append)

section \<open>Operations that nothing interrupts\<close>

lemma upd_slot_compose: "upd_slot r f (upd_slot r g m) = upd_slot r (\<lambda>s. f (g s)) m"
  by (cases "r < length (mg_slots m)") (simp_all add: upd_slot_def list_update_beyond)

lemma unload_begin_stretches: "unload_begin r m = put_stop r (unload_mark r m)"
  by (simp add: unload_begin_def put_stop_def unload_mark_def upd_slot_compose)

text \<open>A turn of the worker on a job does not care whether the sentinel is already behind it.\<close>

lemma worker_step_put_stop:
  assumes "r < length (mg_slots m)" and "sl_queue (mg_slots m ! r) = Job j # q"
  shows "worker_step E r (put_stop r m) = put_stop r (worker_step E r m)"
  using assms
  by (cases "mg_slots m ! r", cases m)
    (simp add: worker_step_def put_stop_def Let_def reset_idle_def upd_slot_def split: response.splits option.splits)

lemma worker_run_put_stop:
  assumes "r < length (mg_slots m)" and "sl_worker (mg_slots m ! r)" and "sl_queue (mg_slots m ! r) = map Job js"
  shows "worker_run E r (length js) (put_stop r m) = put_stop r (worker_run E r (length js) m) \<and>
    sl_queue (mg_slots (worker_run E r (length js) m) ! r) = [] \<and> sl_worker (mg_slots (worker_run E r (length js) m) ! r)"
  using assms
proof (induction js arbitrary: m)
  case (Cons j js)
  note turn = worker_step_job [OF Cons.prems(1,2), of j "map Job js" E]
  have "sl_queue (mg_slots m ! r) = Job j # map Job js" using Cons.prems(3) by simp
  from worker_step_put_stop [OF Cons.prems(1) this] Cons.IH [of "worker_step E r m"] turn Cons.prems show ?case by simp
qed simp

lemma worker_turns:
  "en_config E = C \<Longrightarrow> r < length (mg_slots m) \<Longrightarrow> steps (machine_step C) (m, ts) (replicate n Going) (worker_run E r n m, ts)"
proof (induction n arbitrary: m)
  case (Suc n)
  then show ?case using ms_worker [OF Suc.prems, of ts] Suc.IH [of "worker_step E r m"] by (auto intro: steps_more)
qed (simp add: steps_none)

lemma worker_run_Suc: "worker_run E r (Suc n) m = worker_step E r (worker_run E r n m)"
  by (induction n arbitrary: m) simp_all

text \<open>One unload: the worker answers what is queued, then the sentinel is put and taken.\<close>

lemma unload_run:
  assumes "en_config E = C" and "r < length (mg_slots m)" and "sl_worker (mg_slots m ! r)"
    and "sl_queue (mg_slots m ! r) = map Job js"
  obtains evs m2 where "set evs \<subseteq> {Going}"
    and "steps (machine_step C) (unload_mark r m, ts @ [Putting w key r]) evs (m2, ts @ [Draining w key r])" and "\<not> sl_worker (mg_slots m2 ! r)" and "unload_end key r m2 = unload E key r m"
proof -
  let ?m0 = "unload_mark r m" and ?ts = "ts @ [Draining w key r]"
  let ?m1 = "worker_run E r (length js) ?m0"
  let ?m2 = "worker_step E r (put_stop r ?m1)"
  have m0: "r < length (mg_slots ?m0)" "sl_worker (mg_slots ?m0 ! r)" "sl_queue (mg_slots ?m0 ! r) = map Job js"
    using assms(2-4) by (simp_all add: unload_mark_def)
  note run = worker_run_put_stop [OF m0, of E]
  have len: "r < length (mg_slots ?m1)" using m0(1) by simp
  have p: "r < length (mg_slots (put_stop r ?m1))" "sl_worker (mg_slots (put_stop r ?m1) ! r)"
      "sl_queue (mg_slots (put_stop r ?m1) ! r) = [StopSentinel]"
    using len run by (simp_all add: put_stop_def)
  have "machine_step C (?m1, ts @ [Putting w key r]) Going (put_stop r ?m1, ?ts)"
    by (rule ms_task [OF assms(1), of "length ts"]) (use run in \<open>(simp add: queue_full_def)+\<close>)
  moreover have "machine_step C (put_stop r ?m1, ?ts) Going (?m2, ?ts)" by (rule ms_worker [OF assms(1) p(1)])
  ultimately have "steps (machine_step C) (?m1, ts @ [Putting w key r]) [Going, Going] (?m2, ?ts)" by (blast intro: steps.intros)
  note steps_trans [OF worker_turns [OF assms(1) m0(1)] this]
  moreover have "set (replicate (length js) Going @ [Going, Going]) \<subseteq> {Going}" by (simp add: set_replicate_conv_if)
  moreover have "\<not> sl_worker (mg_slots ?m2 ! r)" by (rule worker_step_stop(2) [OF p])
  moreover have "length (sl_queue (mg_slots (put_stop r ?m0) ! r)) = Suc (length js)" using m0 by (simp add: put_stop_def)
  then have "unload_end key r ?m2 = unload E key r m"
    using run by (simp add: unload_def Let_def unload_begin_stretches worker_run_Suc del: worker_run.simps)
  ultimately show thesis using that by blast
qed

text \<open>What the registries answered once they answer again.\<close>

definition registered :: "'c env \<Rightarrow> load_call \<Rightarrow> model_entry registry \<Rightarrow> lora_entry registry \<Rightarrow> 'c manager \<Rightarrow> bool" where
  "registered E c R LR m \<longleftrightarrow>
     for_tenant model_kind (en_json E) (en_now E) (lc_tenant c) (mg_models m, mg_fs m) = Inr (R, mg_models m, mg_fs m) \<and>
     for_tenant lora_kind (en_json E) (en_now E) (lc_tenant c) (mg_loras m, mg_fs m) = Inr (LR, mg_loras m, mg_fs m)"

lemma for_tenant_again: "for_tenant K J now t (mt, fs) = Inr (reg, mt', fs') \<Longrightarrow> for_tenant K J now t (mt', fs1) = Inr (reg, mt', fs1)"
  by (auto simp: for_tenant_def and_then_Inr_iff map_of_update split: option.splits)

lemma enter_answers:
  "ensure_enter E c m = (Inl res, m1) \<Longrightarrow>
    ensure_loaded E (lc_model c) (lc_n_ctx c) (lc_mode c) (lc_loras c) (lc_tenant c) m = (res, m1)"
  by (auto simp: ensure_enter_def ensure_loaded_def Let_def call_key_def split: sum.splits prod.splits option.splits)

lemma enter_registered:
  assumes "ensure_enter E c m = (Inr entry, m1)"
  obtains R LR where "registered E c R LR m1" and "loaded_fitting (call_key c) (lc_n_ctx c) m1 = None"
    and "ensure_loaded E (lc_model c) (lc_n_ctx c) (lc_mode c) (lc_loras c) (lc_tenant c) m =
      ensure_locked E R LR entry (lc_n_ctx c) (call_key c) (lc_mode c) (lc_loras c) m1"
    and "mg_loaded m1 = mg_loaded m" and "mg_slots m1 = mg_slots m"
proof -
  from assms obtain R models fs LR loras fs' where
    ft: "for_tenant model_kind (en_json E) (en_now E) (lc_tenant c) (mg_models m, mg_fs m) = Inr (R, models, fs)"
      "for_tenant lora_kind (en_json E) (en_now E) (lc_tenant c) (mg_loras m, fs) = Inr (LR, loras, fs')"
    and e: "registry_get R (lc_model c) = Some entry" "find (\<lambda>(lid, scale). registry_get LR lid = None) (lc_loras c) = None"
    and n: "loaded_fitting (call_key c) (lc_n_ctx c) (m\<lparr>mg_models := models, mg_fs := fs\<rparr>) = None"
    and m1: "m1 = m\<lparr>mg_models := models, mg_fs := fs, mg_loras := loras, mg_fs := fs'\<rparr>"
    by (auto simp: ensure_enter_def Let_def split: sum.splits prod.splits option.splits)
  have "registered E c R LR m1" using for_tenant_again [OF ft(1)] for_tenant_again [OF ft(2)] by (simp add: registered_def m1)
  moreover have "loaded_fitting (call_key c) (lc_n_ctx c) m1 = None" using n by (auto simp: loaded_fitting_def m1 split: option.splits)
  moreover have "ensure_loaded E (lc_model c) (lc_n_ctx c) (lc_mode c) (lc_loras c) (lc_tenant c) m =
      ensure_locked E R LR entry (lc_n_ctx c) (call_key c) (lc_mode c) (lc_loras c) m1"
    using ft e n by (simp add: ensure_loaded_def call_key_def [symmetric] m1)
  ultimately show thesis by (rule that) (simp_all add: m1)
qed

text \<open>The eviction loop and the load behind it.\<close>

definition make_room :: "'c env \<Rightarrow> load_call \<Rightarrow> model_entry \<Rightarrow> 'c manager \<Rightarrow> (manager_error + nat) \<times> 'c manager" where
  "make_room E c entry m =
     (case evict E m of (Inl e, m) \<Rightarrow> (Inl (ManagerOther e), m) | (Inr u, m) \<Rightarrow> load_now E c entry m)"

lemma evict_files: "evict E m = (res, m') \<Longrightarrow> mg_models m' = mg_models m \<and> mg_loras m' = mg_loras m \<and> mg_fs m' = mg_fs m"
proof (induction E m rule: evict.induct)
  case (1 E m)
  show ?case
  proof (cases "mg_loaded m")
    case Nil
    then show ?thesis using 1(2) by (auto simp: evict.simps [of E m] split: if_splits)
  next
    case (Cons kr rest)
    obtain key r where kr: "kr = (key, r)" by (cases kr)
    show ?thesis using 1(1) [OF _ Cons kr [symmetric]] 1(2) by (auto simp: evict.simps [of E m] Cons kr split: if_splits)
  qed
qed

lemma load_now_registered:
  assumes "registered E c R LR m"
  shows "load_now E c entry m =
    (case load E R LR entry (opt_int_or (lc_n_ctx c) (mc_n_ctx_default (en_config E))) (call_key c) (lc_mode c) (lc_loras c) m of
       (Inl e, m) \<Rightarrow> (Inl (ManagerOther e), m)
     | (Inr r, m) \<Rightarrow> (Inr r, m\<lparr>mg_loaded := AList.update (call_key c) r (mg_loaded m)\<rparr>))"
proof -
  have "m\<lparr>mg_models := mg_models m, mg_fs := mg_fs m\<rparr> = m" "m\<lparr>mg_loras := mg_loras m, mg_fs := mg_fs m\<rparr> = m" by simp_all
  then show ?thesis using assms by (simp add: load_now_def registered_def)
qed

lemma locked_make_room:
  assumes "registered E c R LR m" and "loaded_fitting (call_key c) (lc_n_ctx c) m = None"
  shows "ensure_locked E R LR entry (lc_n_ctx c) (call_key c) (lc_mode c) (lc_loras c) m = make_room E c entry m"
proof -
  obtain ev m1 where ev: "evict E m = (ev, m1)" by (cases "evict E m")
  have "registered E c R LR m1" using assms(1) evict_files [OF ev] by (simp add: registered_def)
  then show ?thesis using assms(2) by (cases ev) (simp_all add: ensure_locked_def make_room_def ev load_now_registered)
qed

lemma evict_run:
  assumes "en_config E = C" and "lc_job c = None" and "\<And>r. Cancelled r \<notin> set ts" and "table_ok C m" and "slots_ok m"
    and "settle E (length ts) (evict_next E c entry m) (ts @ [t]) = (ev, x1)" and "make_room E c entry m = (res, m')"
  shows "\<exists>evs evs'. set evs' \<subseteq> {Going} \<and> ev # evs = evs' @ [Answered c res] \<and> steps (machine_step C) x1 evs (m', ts)"
  using assms
proof (induction E m arbitrary: t ev x1 rule: evict.induct)
  case (1 E m)
  have drop: "drop_nth (length ts) (ts @ [t]) = ts" by (simp add: drop_nth_def)
  consider "int (length (mg_loaded m)) < mc_max_loaded C" | "\<not> int (length (mg_loaded m)) < mc_max_loaded C" "mg_loaded m = []"
    | key r rest where "\<not> int (length (mg_loaded m)) < mc_max_loaded C" "mg_loaded m = (key, r) # rest"
    by (metis neq_Nil_conv surj_pair)
  then show ?case
  proof cases
    case 1
    then have "load_now E c entry m = (res, m')" using "1.prems"(1,7) by (simp add: make_room_def evict.simps [of E m])
    then have "ev = Answered c res \<and> x1 = (m', ts)"
      using 1 "1.prems"(1,2,6) by (cases res) (auto simp: evict_next_def call_ends_def drop)
    then show ?thesis by (intro exI [of _ "[]"]) (simp add: steps_none)
  next
    case 2
    then have "ev = Answered c res \<and> x1 = (m', ts)"
      using "1.prems"(1,6,7) by (auto simp: evict_next_def make_room_def evict.simps [of E m] call_ends_def drop)
    then show ?thesis by (intro exI [of _ "[]"]) (simp add: steps_none)
  next
    case 3
    let ?w = "Evicting c entry"
    have x1: "ev = Going" "x1 = (unload_mark r m, ts @ [Putting ?w key r])"
      using 3 "1.prems"(1,6) by (simp_all add: evict_next_def)
    have r: "r < length (mg_slots m)" "sl_cache_key (mg_slots m ! r) = key" "\<not> sl_unloading (mg_slots m ! r)"
      using table_okD [OF "1.prems"(4), of key r] by (simp_all add: 3)
    obtain js where q: "sl_queue (mg_slots m ! r) = map Job js" "sl_worker (mg_slots m ! r)"
      by (rule slot_queue [OF "1.prems"(5) r(1,3)])
    obtain evs m2 where un: "set evs \<subseteq> {Going}" "steps (machine_step C) x1 evs (m2, ts @ [Draining ?w key r])"
      "\<not> sl_worker (mg_slots m2 ! r)" "unload_end key r m2 = unload E key r m"
      unfolding x1(2) by (rule unload_run [OF "1.prems"(1) r(1) q(2,1)])
    obtain ev1 x2 where run: "settle E (length ts) (evict_next E c entry (unload E key r m)) (ts @ [Draining ?w key r]) = (ev1, x2)"
      by (metis prod.exhaust)
    have step: "machine_step C (m2, ts @ [Draining ?w key r]) ev1 x2"
      by (rule ms_task [OF "1.prems"(1), of "length ts"]) (use un(3) "1.prems"(3) run in \<open>(simp add: un(4))+\<close>)
    have "slots_ok (unload E key r m)" using jobs_le_unload [OF r(1,3), of E key] "1.prems"(5) by (simp add: jobs_le_def)
    moreover have "make_room E c entry (unload E key r m) = (res, m')"
      using "1.prems"(1,7) 3 by (simp add: make_room_def evict.simps [of E m])
    ultimately obtain evs1 evs' where IH: "set evs' \<subseteq> {Going}" "ev1 # evs1 = evs' @ [Answered c res]"
        "steps (machine_step C) x2 evs1 (m', ts)"
      using "1.IH" [OF _ 3(2) refl _ "1.prems"(2,3) table_ok_unload [OF "1.prems"(4) r(1,2)] _ run] "1.prems"(1) 3(1) by blast
    have "steps (machine_step C) x1 (evs @ ev1 # evs1) (m', ts)"
      by (rule steps_trans [OF un(2) steps_more [OF step IH(3)]])
    moreover have "ev # evs @ ev1 # evs1 = (Going # evs @ evs') @ [Answered c res]" using IH(2) by (simp add: x1)
    moreover have "set (Going # evs @ evs') \<subseteq> {Going}" using un(1) IH(1) by simp
    ultimately show ?thesis by blast
  qed
qed

text \<open>The loops over a list of slots.\<close>

lemma unload_next_run:
  assumes "en_config E = C" and "\<And>r. Cancelled r \<notin> set ts" and "names_slots m kvs" and "distinct (map snd kvs)"
    and "\<And>r. r \<in> snd ` set kvs \<Longrightarrow> \<not> sl_unloading (mg_slots m ! r)" and "slots_ok m"
    and "settle E (length ts) (unload_next kvs m) (ts @ [t]) = (ev, x1)"
  shows "ev = Going \<and> (\<exists>evs. set evs \<subseteq> {Going} \<and> steps (machine_step C) x1 evs (unload_all E kvs m, ts))"
  using assms
proof (induction kvs arbitrary: m t ev x1)
  case Nil
  then show ?case by (auto simp: drop_nth_def intro!: exI [of _ "[]"])
next
  case (Cons kv kvs)
  obtain key r where kv: "kv = (key, r)" by (cases kv)
  let ?w = "Unloading kvs" and ?u = "unload E key r m"
  have x1: "ev = Going" "x1 = (unload_mark r m, ts @ [Putting ?w key r])" using Cons.prems(7) by (simp_all add: kv)
  have r: "r < length (mg_slots m)" "names_slots m kvs" using Cons.prems(3) by (auto simp: names_slots_def kv)
  have live: "\<not> sl_unloading (mg_slots m ! r)" by (rule Cons.prems(5)) (simp add: kv)
  obtain js where q: "sl_queue (mg_slots m ! r) = map Job js" "sl_worker (mg_slots m ! r)"
    by (rule slot_queue [OF Cons.prems(6) r(1) live])
  obtain evs m2 where un: "set evs \<subseteq> {Going}" "steps (machine_step C) x1 evs (m2, ts @ [Draining ?w key r])"
    "\<not> sl_worker (mg_slots m2 ! r)" "unload_end key r m2 = ?u"
    unfolding x1(2) by (rule unload_run [OF Cons.prems(1) r(1) q(2,1)])
  obtain ev1 x2 where run: "settle E (length ts) (unload_next kvs ?u) (ts @ [Draining ?w key r]) = (ev1, x2)"
    by (metis prod.exhaust)
  have step: "machine_step C (m2, ts @ [Draining ?w key r]) ev1 x2"
    by (rule ms_task [OF Cons.prems(1), of "length ts"]) (use un(3) Cons.prems(2) run in \<open>(simp add: un(4))+\<close>)
  have "slots_ok ?u" using jobs_le_unload [OF r(1) live, of E key] Cons.prems(6) by (simp add: jobs_le_def)
  moreover have "\<not> sl_unloading (mg_slots ?u ! p)" if p: "p \<in> snd ` set kvs" for p
  proof -
    have "p \<noteq> r" using p Cons.prems(4) by (auto simp: kv)
    moreover have "p < length (mg_slots m)" using p r(2) by (auto simp: names_slots_def)
    moreover have "\<not> sl_unloading (mg_slots m ! p)" by (rule Cons.prems(5)) (use p in \<open>simp add: kv\<close>)
    ultimately show ?thesis by simp
  qed
  moreover have "distinct (map snd kvs)" using Cons.prems(4) by simp
  ultimately obtain evs1 where IH: "ev1 = Going" "set evs1 \<subseteq> {Going}" "steps (machine_step C) x2 evs1 (unload_all E kvs ?u, ts)"
    using Cons.IH [OF Cons.prems(1,2) names_slots_unload [OF r(2,1)] _ _ _ run] by blast
  have "steps (machine_step C) x1 (evs @ ev1 # evs1) (unload_all E (kv # kvs) m, ts)"
    using steps_trans [OF un(2) steps_more [OF step IH(3)]] by (simp add: kv)
  moreover have "set (evs @ ev1 # evs1) \<subseteq> {Going}" using un(1) IH(1,2) by simp
  ultimately show ?case using x1(1) by blast
qed

lemma begin_loop_run:
  assumes "en_config E = C" and "\<And>r. Cancelled r \<notin> set ts" and "table_ok C m" and "slots_ok m" and "m' = m\<lparr>mg_closing := b\<rparr>"
  shows "\<exists>evs. set evs \<subseteq> {Going} \<and>
    steps (machine_step C) (begin_loop (filter P (mg_loaded m)) (m', ts)) evs (unload_all E (filter P (mg_loaded m)) m', ts)"
proof -
  let ?kvs = "filter P (mg_loaded m)"
  have ok: "table_ok C m'" "slots_ok m'" using assms(3-5) by (simp_all add: table_ok_def slots_ok_def)
  have nm: "names_slots m' ?kvs" by (rule names_table [OF ok(1)]) (use assms(5) in auto)
  have d: "distinct (map snd ?kvs)" by (rule distinct_map_filter [OF table_slots_distinct [OF assms(3)]])
  have "distinct (map fst (mg_loaded m))" using assms(3) by (simp add: table_ok_def dict_ok_def)
  then have live: "\<not> sl_unloading (mg_slots m' ! r)" if "r \<in> snd ` set ?kvs" for r
    using table_okD [OF assms(3) map_of_is_SomeI] that assms(5) by auto
  let ?t = "Cancelled 0"
  obtain ev x1 where out: "settle E (length ts) (unload_next ?kvs m') (ts @ [?t]) = (ev, x1)" by (metis prod.exhaust)
  from unload_next_run [OF assms(1,2) nm d live ok(2) out]
  obtain evs where evs: "set evs \<subseteq> {Going}" "steps (machine_step C) x1 evs (unload_all E ?kvs m', ts)" by blast
  have "begin_loop ?kvs (m', ts) = x1" using out by (cases ?kvs) (auto simp: begin_loop_def drop_nth_def)
  with evs show ?thesis by blast
qed

section \<open>Two runs\<close>

definition demo_scale :: "int \<Rightarrow> nat env" where
  "demo_scale k = demo_env\<lparr>en_config := demo_config\<lparr>mc_max_loaded := k\<rparr>\<rparr>"

definition demo_call :: "int option \<Rightarrow> nat option \<Rightarrow> load_call" where
  "demo_call n j = \<lparr>lc_model = ''m'', lc_n_ctx = n, lc_mode = ''chat'', lc_loras = [], lc_tenant = DEFAULT_TENANT,
     lc_job = map_option (\<lambda>fut. (fut, ''chat'', JNull, False)) j\<rparr>"

definition demo_key :: string where "demo_key = ''default:m:chat:''"

definition demo_job :: "nat \<Rightarrow> queue_item" where
  "demo_job fut = Job \<lparr>jb_id = fut, jb_kind = ''chat'', jb_payload = JNull, jb_stream = False\<rparr>"

definition demo_held :: "slot list \<Rightarrow> (string, nat) dict \<Rightarrow> nat manager" where
  "demo_held ss d = demo_manager\<lparr>mg_slots := ss, mg_loaded := d\<rparr>"

definition demo_at :: "int \<Rightarrow> bool \<Rightarrow> float_py option \<Rightarrow> queue_item list \<Rightarrow> bool \<Rightarrow> bool \<Rightarrow> slot" where
  "demo_at n unloading timer q worker shut = \<lparr>sl_entry = demo_model,
     sl_backend = \<lparr>be_model = [7], be_lora = None, be_n_ctx = n, be_embedding = False\<rparr>, sl_n_ctx = n, sl_last_used = 0,
     sl_cache_key = demo_key, sl_unloading = unloading, sl_queue = q, sl_worker = worker, sl_idle_timer = timer,
     sl_last_error = None, sl_closed = shut\<rparr>"

lemma demo_call_key [simp]: "call_key (demo_call n j) = demo_key"
  by (simp add: call_key_def demo_call_def cache_key_def lora_fingerprint_def DEFAULT_TENANT_def demo_key_def)

lemma demo_tenants:
  "for_tenant model_kind J n DEFAULT_TENANT (mg_models (demo_held ss d), mg_fs (demo_held ss d)) =
     Inr (\<lparr>rg_dir = [''models''], rg_by_id = [(''m'', demo_model)]\<rparr>, mg_models (demo_held ss d), mg_fs (demo_held ss d))"
  "for_tenant lora_kind J n DEFAULT_TENANT (mg_loras (demo_held ss d), mg_fs (demo_held ss d)) =
     Inr (\<lparr>rg_dir = [''loras''], rg_by_id = []\<rparr>, mg_loras (demo_held ss d), mg_fs (demo_held ss d))"
  by (simp_all add: for_tenant_def demo_held_def demo_manager_def manager_new_def)

lemma demo_held_simps [simp]:
  "mg_slots (demo_held ss d) = ss" "mg_loaded (demo_held ss d) = d" "mg_closing (demo_held ss d) = False"
  "(demo_held ss d)\<lparr>mg_slots := ss'\<rparr> = demo_held ss' d" "(demo_held ss d)\<lparr>mg_loaded := d'\<rparr> = demo_held ss d'"
  "(demo_held ss d)\<lparr>mg_models := mg_models (demo_held ss d), mg_fs := mg_fs (demo_held ss d)\<rparr> = demo_held ss d"
  "(demo_held ss d)\<lparr>mg_loras := mg_loras (demo_held ss d), mg_fs := mg_fs (demo_held ss d)\<rparr> = demo_held ss d"
  by (simp_all add: demo_held_def demo_manager_def manager_new_def)

lemma demo_call_simps [simp]:
  "lc_model (demo_call n j) = ''m''" "lc_n_ctx (demo_call n j) = n" "lc_mode (demo_call n j) = ''chat''"
  "lc_loras (demo_call n j) = []" "lc_tenant (demo_call n j) = DEFAULT_TENANT"
  "lc_job (demo_call n j) = map_option (\<lambda>fut. (fut, ''chat'', JNull, False)) j"
  by (simp_all add: demo_call_def)

lemma demo_at_simps [simp]:
  "sl_n_ctx (demo_at n u t q w c) = n" "sl_cache_key (demo_at n u t q w c) = demo_key"
  "sl_unloading (demo_at n u t q w c) = u" "sl_queue (demo_at n u t q w c) = q" "sl_worker (demo_at n u t q w c) = w"
  "sl_closed (demo_at n u t q w c) = c" "(demo_at n u t q w c)\<lparr>sl_idle_timer := t'\<rparr> = demo_at n u t' q w c"
  "(demo_at n u t q w c)\<lparr>sl_queue := q'\<rparr> = demo_at n u t q' w c" "(demo_at n u t q w c)\<lparr>sl_worker := w'\<rparr> = demo_at n u t q w' c"
  "(demo_at n u t q w c)\<lparr>sl_unloading := u'\<rparr> = demo_at n u' t q w c" "(demo_at n u t q w c)\<lparr>sl_closed := c'\<rparr> = demo_at n u t q w c'"
  by (simp_all add: demo_at_def)

lemma demo_scale_simps [simp]:
  "mc_max_loaded (en_config (demo_scale k)) = k" "mc_queue_depth (en_config (demo_scale k)) = 2"
  "mc_n_ctx_default (en_config (demo_scale k)) = 4096"
  "reset_idle (demo_scale k) r m = upd_slot r (\<lambda>s. s\<lparr>sl_idle_timer := Some 60\<rparr>) m"
  by (simp_all add: demo_scale_def demo_env_def demo_config_def reset_idle_def)

lemma demo_upd [simp]: "upd_slot r f (demo_held ss d) = demo_held (ss[r := f (ss ! r)]) d"
  by (simp add: upd_slot_def)

lemma demo_hit:
  assumes "ctx_fits n (ss ! r)"
  shows "ensure_enter (demo_scale k) (demo_call n j) (demo_held ss [(demo_key, r)]) =
    (Inl (Inr r), demo_held (ss[r := (ss ! r)\<lparr>sl_idle_timer := Some 60\<rparr>]) [(demo_key, r)])"
  using assms by (simp add: ensure_enter_def demo_tenants registry_get_def loaded_fitting_def move_to_end_def)

lemma demo_miss:
  assumes "loaded_fitting demo_key n (demo_held ss d) = None"
  shows "ensure_enter (demo_scale k) (demo_call n j) (demo_held ss d) = (Inr demo_model, demo_held ss d)"
  using assms by (simp add: ensure_enter_def demo_tenants registry_get_def)

lemma demo_loads:
  "load_now (demo_scale k) (demo_call n None) demo_model (demo_held ss d) =
    (Inr (length ss), demo_held (ss @ [demo_at (opt_int_or n 4096) False (Some 60) [] True False])
      (AList.update demo_key (length ss) d))"
proof -
  have wr: "write_all (\<lambda>k. 100) [7] = ([7], Inr ())" by (simp add: write_all_def write_all_from_total)
  have "load (demo_scale k) \<lparr>rg_dir = [''models''], rg_by_id = [(''m'', demo_model)]\<rparr> LR demo_model n' demo_key ''chat'' []
      (demo_held ss d) = (Inr (length ss), demo_held (ss @ [demo_at n' False (Some 60) [] True False]) d)" for LR n'
    by (simp add: load_def demo_scale_def demo_env_def demo_config_def demo_manager_def manager_new_def decrypt_enter_def
        mkdir_p_def prefixes_of_def is_dir_def exists_path_def read_bytes_def ciphertext_path_def model_kind_def
        path_join_def path_parts_def demo_model_def demo_age_def wr make_backend_def decrypt_exit_def unlink_path_def
        reset_idle_def upd_slot_def demo_at_def demo_held_def Let_def)
  then show ?thesis by (simp add: load_now_def demo_tenants)
qed

text \<open>A slot for the chat mode is loaded, unloaded by an administrator, and used until the sentinel is in its queue.\<close>

definition demo_start :: "int \<Rightarrow> nat manager \<times> task list" where
  "demo_start k = (demo_held [demo_at 4096 True None [StopSentinel] True False] [(demo_key, 0)],
     [Draining (Unloading []) demo_key 0])"

lemma demo_open:
  assumes "0 < k"
  shows "steps (machine_step (en_config (demo_scale k))) (demo_manager, [])
    [Going, Answered (demo_call None None) (Inr 0), Going, Going] (demo_start k)"
proof -
  let ?C = "en_config (demo_scale k)" and ?c = "demo_call None None" and ?p = "Putting (Unloading []) demo_key 0"
  have m0: "demo_manager = demo_held [] []" by (simp add: demo_held_def demo_manager_def manager_new_def)
  have lf: "loaded_fitting demo_key None (demo_held [] []) = None" by (simp add: loaded_fitting_def)
  let ?s1 = "demo_at 4096 False (Some 60) [] True False" and ?s2 = "demo_at 4096 True None [] True False"
  have "machine_step ?C (demo_held [] [], []) Going (demo_held [] [], [] @ [Locking ?c demo_model])"
    by (rule ms_call [OF refl demo_miss [OF lf]])
  moreover have "machine_step ?C (demo_held [] [], [] @ [Locking ?c demo_model]) (Answered ?c (Inr 0)) (demo_held [?s1] [(demo_key, 0)], [])"
    by (rule ms_task [of "demo_scale k" _ 0])
      (use assms in \<open>(simp add: under_lock_def lf evict_next_def demo_loads opt_int_or_def holds_lock_def call_ends_def drop_nth_def)+\<close>)
  moreover have "machine_step ?C (demo_held [?s1] [(demo_key, 0)], []) Going (demo_held [?s2] [(demo_key, 0)], [?p])"
    using ms_force [of ?C "demo_held [?s1] [(demo_key, 0)]" "[]" DEFAULT_TENANT "''m''"]
    by (simp add: begin_loop_def unload_mark_def demo_key_def DEFAULT_TENANT_def has_prefix_def)
  moreover have "machine_step ?C (demo_held [?s2] [(demo_key, 0)], [?p]) Going (demo_start k)"
    by (rule ms_task [of "demo_scale k" _ 0]) (simp add: queue_full_def put_stop_def demo_start_def)+
  ultimately show ?thesis unfolding m0 by (blast intro: steps.intros)
qed

lemma demo_submit:
  assumes "length (sl_queue (ss ! 0)) < 2"
  shows "machine_step (en_config (demo_scale k)) (demo_held ss [(demo_key, 0)], ts) (Answered (demo_call None (Some fut)) (Inr fut))
    (demo_held (ss[0 := (ss ! 0)\<lparr>sl_idle_timer := Some 60, sl_queue := sl_queue (ss ! 0) @ [demo_job fut]\<rparr>]) [(demo_key, 0)], ts)"
  by (rule ms_answer [OF refl demo_hit])
    (use assms in \<open>cases ss; auto simp: ctx_fits_def call_ends_def submit_def queue_full_def demo_job_def\<close>)+

lemma demo_hang:
  shows "steps (machine_step (en_config (demo_scale 1))) (demo_start 1)
      [Answered (demo_call None (Some 1)) (Inr 1), Going, Going, Going, Answered (demo_call None (Some 2)) (Inr 2), Going]
      (demo_held [demo_at 4096 True (Some 60) [demo_job 1, demo_job 2] False False] [(demo_key, 0)],
       [Draining (Unloading []) demo_key 0, Putting (Evicting (demo_call (Some 8192) None) demo_model) demo_key 0,
        Locking (demo_call (Some 8192) None) demo_model])"
    and "steps (machine_step (en_config (demo_scale 1)))
      (demo_held [demo_at 4096 True (Some 60) [demo_job 1, demo_job 2] False False] [(demo_key, 0)],
       [Draining (Unloading []) demo_key 0, Putting (Evicting (demo_call (Some 8192) None) demo_model) demo_key 0,
        Locking (demo_call (Some 8192) None) demo_model]) [Going]
      (demo_held [demo_at 4096 True (Some 60) [demo_job 1, demo_job 2] False True] [],
       [Putting (Evicting (demo_call (Some 8192) None) demo_model) demo_key 0, Locking (demo_call (Some 8192) None) demo_model])"
proof -
  let ?C = "en_config (demo_scale 1)" and ?D = "[(demo_key, 0 :: nat)]" and ?d = "Draining (Unloading []) demo_key 0"
    and ?c = "demo_call (Some 8192) None"
  let ?l = "Locking ?c demo_model" and ?p = "Putting (Evicting ?c demo_model) demo_key 0"
  let ?s1 = "demo_at 4096 True (Some 60) [StopSentinel, demo_job 1] True False"
    and ?s2 = "demo_at 4096 True None [StopSentinel, demo_job 1] True False"
    and ?s3 = "demo_at 4096 True None [demo_job 1] False False"
    and ?s4 = "demo_at 4096 True (Some 60) [demo_job 1, demo_job 2] False False"
  have miss: "loaded_fitting demo_key (Some 8192) (demo_held [demo_at 4096 u t q w c] ?D) = None" for u t q w c
    by (simp add: loaded_fitting_def ctx_fits_def)
  have "machine_step ?C (demo_start 1) (Answered (demo_call None (Some 1)) (Inr 1)) (demo_held [?s1] ?D, [?d])"
    using demo_submit [of "[demo_at 4096 True None [StopSentinel] True False]"] by (simp add: demo_start_def)
  moreover have "machine_step ?C (demo_held [?s1] ?D, [?d]) Going (demo_held [?s1] ?D, [?d] @ [?l])"
    by (rule ms_call [OF refl demo_miss [OF miss]])
  moreover have "machine_step ?C (demo_held [?s1] ?D, [?d] @ [?l]) Going (demo_held [?s2] ?D, [?d, ?p])"
    by (rule ms_task [of "demo_scale 1" _ 1])
      (simp add: under_lock_def miss evict_next_def unload_mark_def holds_lock_def)+
  moreover have "machine_step ?C (demo_held [?s2] ?D, [?d, ?p]) Going (demo_held [?s3] ?D, [?d, ?p])"
    using ms_worker [of "demo_scale 1" ?C 0 "demo_held [?s2] ?D" "[?d, ?p]"] by (simp add: worker_step_def)
  moreover have "machine_step ?C (demo_held [?s3] ?D, [?d, ?p]) (Answered (demo_call None (Some 2)) (Inr 2)) (demo_held [?s4] ?D, [?d, ?p])"
    using demo_submit [of "[?s3]"] by simp
  moreover have "machine_step ?C (demo_held [?s4] ?D, [?d, ?p]) Going (demo_held [?s4] ?D, [?d, ?p] @ [?l])"
    by (rule ms_call [OF refl demo_miss [OF miss]])
  moreover have "machine_step ?C (demo_held [?s4] ?D, [?d, ?p, ?l]) Going
      (demo_held [demo_at 4096 True (Some 60) [demo_job 1, demo_job 2] False True] [], [?p, ?l])"
    by (rule ms_task [of "demo_scale 1" _ 0]) (simp add: unload_end_def drop_nth_def)+
  ultimately show
    "steps (machine_step ?C) (demo_start 1)
      [Answered (demo_call None (Some 1)) (Inr 1), Going, Going, Going, Answered (demo_call None (Some 2)) (Inr 2), Going]
      (demo_held [?s4] ?D, [?d, ?p, ?l])"
    "steps (machine_step ?C) (demo_held [?s4] ?D, [?d, ?p, ?l]) [Going]
      (demo_held [demo_at 4096 True (Some 60) [demo_job 1, demo_job 2] False True] [], [?p, ?l])"
    by (simp_all add: steps_Cons) blast
qed

lemma demo_replaced:
  "steps (machine_step (en_config (demo_scale 2))) (demo_start 2) [Going, Answered (demo_call (Some 8192) None) (Inr 1), Going]
    (demo_held [demo_at 4096 True None [] False False, demo_at 8192 False (Some 60) [] True False] [(demo_key, 1)],
     [Draining (Unloading []) demo_key 0])"
proof -
  let ?C = "en_config (demo_scale 2)" and ?d = "Draining (Unloading []) demo_key 0" and ?c = "demo_call (Some 8192) None"
  let ?l = "Locking ?c demo_model"
  let ?s0 = "demo_at 4096 True None [StopSentinel] True False" and ?s1 = "demo_at 8192 False (Some 60) [] True False"
  have miss: "loaded_fitting demo_key (Some 8192) (demo_held [?s0] [(demo_key, 0)]) = None"
    by (simp add: loaded_fitting_def ctx_fits_def)
  have "machine_step ?C (demo_start 2) Going (demo_held [?s0] [(demo_key, 0)], [?d] @ [?l])"
    unfolding demo_start_def by (rule ms_call [OF refl demo_miss [OF miss]])
  moreover have "machine_step ?C (demo_held [?s0] [(demo_key, 0)], [?d] @ [?l]) (Answered ?c (Inr 1)) (demo_held [?s0, ?s1] [(demo_key, 1)], [?d])"
    by (rule ms_task [of "demo_scale 2" _ 1])
      (simp add: under_lock_def miss evict_next_def demo_loads opt_int_or_def int_or_def holds_lock_def call_ends_def drop_nth_def)+
  moreover have "machine_step ?C (demo_held [?s0, ?s1] [(demo_key, 1)], [?d]) Going
      (demo_held [demo_at 4096 True None [] False False, ?s1] [(demo_key, 1)], [?d])"
    using ms_worker [of "demo_scale 2" ?C 0 "demo_held [?s0, ?s1] [(demo_key, 1)]" "[?d]"] by (simp add: worker_step_def)
  ultimately show ?thesis by (blast intro: steps.intros)
qed

lemmas demo_run = steps_trans [OF demo_open [OF zero_less_numeral] demo_replaced]
  and demo_hang_run = steps_trans [OF demo_open [OF zero_less_one] demo_hang(1)]

lemma demo_busy:
  "table_ok (en_config (demo_scale 1)) (demo_held [demo_at 4096 False (Some 60) [demo_job 1] True False] [(demo_key, 0)])"
  "slots_ok (demo_held [demo_at 4096 False (Some 60) [demo_job 1] True False] [(demo_key, 0)])"
  by (auto simp: table_ok_def dict_ok_def slots_ok_def slot_jobs_def demo_job_def split: if_splits intro: exI [of _ "[_]"])

section \<open>Guarantees of every interleaving\<close>

text \<open>C8. However the coroutines interleave, the table never has more slots than configured, no key twice, and every
  slot in it was made for its key and is not closed.\<close>

theorem interleaved_table_bounded:
  assumes "steps (machine_step C) (manager_new models loras fs, []) evs (m, ts)"
  shows "int (length (mg_loaded m)) \<le> max 0 (mc_max_loaded C) \<and> dict_ok (mg_loaded m) \<and>
    (\<forall>key r. map_of (mg_loaded m) key = Some r \<longrightarrow>
       r < length (mg_slots m) \<and> sl_cache_key (mg_slots m ! r) = key \<and> \<not> sl_closed (mg_slots m ! r))"
  using machine_run_ok [OF assms machine_start_ok] by (simp add: filed_def slot_id_def)

theorem interleaved_table_bounded_witness:
  "int (length (mg_loaded (demo_held [demo_at 4096 True None [] False False, demo_at 8192 False (Some 60) [] True False]
     [(demo_key, 1)]))) \<le> max 0 2"
  using interleaved_table_bounded [OF demo_run [unfolded demo_manager_def]] by simp


text \<open>C37. At most one coroutine at a time is in the middle of loading for a cache key.\<close>

theorem one_load_per_key:
  assumes "steps (machine_step C) (manager_new models loras fs, []) evs (m, ts)"
  shows "length (filter (holds_lock key) ts) \<le> 1"
proof -
  have "holders key (snd (m, ts)) \<le> 1" using assms
    by (rule steps_invariant) (simp add: holders_def, rule machine_step_holders)
  then show ?thesis by (simp add: holders_def)
qed

theorem one_load_per_key_witness: "length (filter (holds_lock demo_key) [Draining (Unloading []) demo_key 0]) \<le> 1"
  by (rule one_load_per_key [OF demo_run [unfolded demo_manager_def]])


text \<open>C39. An eviction may wait for ever: once it wants to put the sentinel into the full queue of a slot whose worker
  has stopped, or was cancelled after 30 seconds, nothing makes room any more. It keeps the lock of its key, and every
  call that waits for that lock waits for ever too.\<close>

theorem eviction_hangs:
  assumes "steps (machine_step C) (manager_new models loras fs, []) evs (m, ts)"
    and "Putting (Evicting c entry) key r \<in> set ts" and "stuck C r m"
    and "steps (machine_step C) (m, ts) evs' (m', ts')"
  shows "stuck C r m' \<and> {Putting (Evicting c entry) key r} \<union> {t \<in> set ts. behind c t} \<subseteq> set ts'"
  using stuck_run [OF assms(4) conjunct1 [OF machine_run_ok [OF assms(1) machine_start_ok]]] assms(2,3) by simp

theorem eviction_hangs_witness:
  "\<exists>evs m ts m' ts'. steps (machine_step (en_config (demo_scale 1))) (demo_manager, []) evs (m, ts) \<and>
     steps (machine_step (en_config (demo_scale 1))) (m, ts) [Going] (m', ts') \<and> mg_loaded m' = [] \<and> stuck (en_config (demo_scale 1)) 0 m' \<and>
     {Putting (Evicting (demo_call (Some 8192) None) demo_model) demo_key 0, Locking (demo_call (Some 8192) None) demo_model} \<subseteq> set ts'"
proof -
  let ?c = "demo_call (Some 8192) None" and ?C = "en_config (demo_scale 1)"
  have stuck: "stuck ?C 0 (demo_held [demo_at 4096 True (Some 60) [demo_job 1, demo_job 2] False False] [(demo_key, 0)])"
    by (simp add: stuck_def queue_full_def)
  have "behind ?c (Locking ?c demo_model)" by (simp add: behind_def)
  then have hangs: "stuck ?C 0 (demo_held [demo_at 4096 True (Some 60) [demo_job 1, demo_job 2] False True] []) \<and>
      {Putting (Evicting ?c demo_model) demo_key 0, Locking ?c demo_model} \<subseteq>
      set [Putting (Evicting ?c demo_model) demo_key 0, Locking ?c demo_model]"
    using eviction_hangs [OF demo_hang_run [unfolded demo_manager_def] _ stuck demo_hang(2), of ?c demo_model demo_key] by auto
  show ?thesis
    by (intro exI conjI, rule demo_hang_run, rule demo_hang(2), simp, rule conjunct1 [OF hangs], rule conjunct2 [OF hangs])
qed

text \<open>C38. \<open>_unload\<close> pops its key from the table whatever is filed there by then: when a load for a larger context has
  replaced the slot meanwhile, the new slot, open and with a worker of its own, drops out of the table for good.\<close>

theorem unload_forgets_replacement:
  assumes "steps (machine_step C) (manager_new models loras fs, []) evs (m, ts)"
    and "en_config E = C" and "i < length ts" and "ts ! i \<in> {Draining w key r, TimedOut w key r}"
    and "task_runs E ts (ts ! i) m = Some (after_unload E w (unload_end key r m))"
    and "settle E i (after_unload E w (unload_end key r m)) ts = (ev, x1)"
    and "map_of (mg_loaded m) key = Some r'" and "r' \<noteq> r"
    and "steps (machine_step C) x1 evs' (m', ts')"
  shows "\<not> sl_closed (mg_slots (unload_end key r m) ! r') \<and> r' \<notin> snd ` set (mg_loaded m')"
proof -
  have ok: "machine_ok C (m, ts)" using machine_run_ok [OF assms(1) machine_start_ok] by blast
  then have f: "filed C m" by simp
  let ?u = "unload_end key r m"
  have "ts ! i \<in> set ts" using assms(3) by simp
  then have "names_slots m (targets (ts ! i))" using ok by simp
  then have nm: "names_slots m ((key, r) # work_targets w)" using assms(4) by auto
  have gone: "r' \<notin> snd ` set (mg_loaded ?u)" by (rule unload_end_drops [OF f assms(7)])
  have le1: "slots_le ?u (fst x1)" by (rule settle_le [OF assms(2) f nm assms(6)])
  have "machine_step C (m, ts) ev x1" by (rule ms_task [OF assms(2,3,5,6)])
  then have "machine_ok C x1" using machine_step_ok ok by blast
  then have "slots_le (fst x1) m'" using machine_run_ok [OF assms(9)] by simp
  then have "slots_le ?u m'" by (rule slots_le_trans [OF le1])
  moreover have r': "r' < length (mg_slots m)" "\<not> sl_closed (mg_slots m ! r')" using filedD [OF f assms(7)] by (simp_all add: slot_id_def)
  ultimately show ?thesis using slots_leD(3) [of ?u m'] gone assms(8) by (auto simp: unload_end_def Let_def)
qed

theorem unload_forgets_replacement_witness:
  "\<exists>evs m. steps (machine_step (en_config (demo_scale 2))) (demo_manager, []) evs (m, []) \<and> length (mg_slots m) = 2 \<and>
     sl_worker (mg_slots m ! 1) \<and> \<not> sl_closed (mg_slots m ! 1) \<and> 1 \<notin> snd ` set (mg_loaded m)"
proof -
  let ?m = "demo_held [demo_at 4096 True None [] False False, demo_at 8192 False (Some 60) [] True False] [(demo_key, 1)]"
    and ?m' = "demo_held [demo_at 4096 True None [] False True, demo_at 8192 False (Some 60) [] True False] []"
    and ?ts = "[Draining (Unloading []) demo_key 0]"
  have u: "unload_end demo_key 0 ?m = ?m'" by (simp add: unload_end_def)
  have run: "task_runs (demo_scale 2) ?ts (?ts ! 0) ?m = Some (after_unload (demo_scale 2) (Unloading []) (unload_end demo_key 0 ?m))"
    by simp
  have out: "settle (demo_scale 2) 0 (after_unload (demo_scale 2) (Unloading []) (unload_end demo_key 0 ?m)) ?ts = (Going, (?m', []))"
    unfolding u by (simp add: drop_nth_def)
  have "machine_step (en_config (demo_scale 2)) (?m, ?ts) Going (?m', [])" by (rule ms_task [OF refl _ run out]) simp
  then have step: "steps (machine_step (en_config (demo_scale 2))) (?m, ?ts) [Going] (?m', [])" by (blast intro: steps.intros)
  have "1 \<notin> snd ` set (mg_loaded ?m')"
    by (rule conjunct2 [OF unload_forgets_replacement
          [OF demo_run [unfolded demo_manager_def] refl _ _ run out _ _ steps_none]]) simp_all
  moreover have "length (mg_slots ?m') = 2" "sl_worker (mg_slots ?m' ! 1)" "\<not> sl_closed (mg_slots ?m' ! 1)" by simp_all
  ultimately show ?thesis using steps_trans [OF demo_run step] by blast
qed

text \<open>C9. The detailed steps implement the operation as a whole: where no coroutine comes in between, holds the lock of
  the key or has timed out, \<open>ensure_loaded\<close> runs through its stretches, with the workers' turns, to the result
  and to the state that the undivided definition gives.\<close>

theorem uninterrupted_ensure:
  assumes "en_config E = C" and "table_ok C m" and "slots_ok m" and "lc_job c = None"
    and "\<not> list_ex (holds_lock (call_key c)) ts" and "\<And>r. Cancelled r \<notin> set ts"
    and "ensure_loaded E (lc_model c) (lc_n_ctx c) (lc_mode c) (lc_loras c) (lc_tenant c) m = (res, m')"
  shows "\<exists>evs. set evs \<subseteq> {Going} \<and> steps (machine_step C) (m, ts) (evs @ [Answered c res]) (m', ts)"
proof (cases "ensure_enter E c m")
  case (Pair out m1)
  show ?thesis
  proof (cases out)
    case (Inl res1)
    then have "res1 = res" "m1 = m'" using enter_answers [of E c m res1 m1] Pair assms(7) by simp_all
    then have "machine_step C (m, ts) (Answered c res) (m', ts)"
      using Pair Inl assms(1,4) by (intro ms_answer [of E]) (auto simp: call_ends_def split: sum.split)
    then show ?thesis by (intro exI [of _ "[]"]) (simp add: steps_Cons)
  next
    case (Inr entry)
    from enter_registered [OF Pair [unfolded Inr]] obtain R LR where reg: "registered E c R LR m1"
      and n: "loaded_fitting (call_key c) (lc_n_ctx c) m1 = None"
      and e: "ensure_loaded E (lc_model c) (lc_n_ctx c) (lc_mode c) (lc_loras c) (lc_tenant c) m =
        ensure_locked E R LR entry (lc_n_ctx c) (call_key c) (lc_mode c) (lc_loras c) m1"
      and same: "mg_loaded m1 = mg_loaded m" "mg_slots m1 = mg_slots m" by blast
    have room: "make_room E c entry m1 = (res, m')" using e assms(7) locked_make_room [OF reg n] by simp
    have ok: "table_ok C m1" "slots_ok m1" using assms(2,3) same by (simp_all add: table_ok_def slots_ok_def)
    let ?ts = "ts @ [Locking c entry]"
    obtain ev x1 where out: "settle E (length ts) (evict_next E c entry m1) ?ts = (ev, x1)" by (metis prod.exhaust)
    from evict_run [OF assms(1,4,6) ok out room] obtain evs evs' where
      run: "set evs' \<subseteq> {Going}" "ev # evs = evs' @ [Answered c res]" "steps (machine_step C) x1 evs (m', ts)" by blast
    have call: "machine_step C (m, ts) Going (m1, ?ts)" by (rule ms_call [OF assms(1) Pair [unfolded Inr]])
    have free: "\<not> list_ex (holds_lock (call_key c)) ?ts" using assms(5) by (simp add: holds_lock_def)
    have "machine_step C (m1, ?ts) ev x1"
      by (rule ms_task [OF assms(1), of "length ts"]) (use free out in \<open>(simp add: under_lock_def n)+\<close>)
    then have "steps (machine_step C) (m, ts) (Going # ev # evs) (m', ts)" using call run(3) by (blast intro: steps_more)
    then show ?thesis using run(1,2) by (intro exI [of _ "Going # evs'"]) simp
  qed
qed

theorem uninterrupted_ensure_witness:
  "\<exists>res m' evs. ensure_loaded (demo_scale 1) ''m'' (Some 8192) ''chat'' [] DEFAULT_TENANT
        (demo_held [demo_at 4096 False (Some 60) [demo_job 1] True False] [(demo_key, 0)]) = (res, m') \<and>
     set evs \<subseteq> {Going} \<and> steps (machine_step (en_config (demo_scale 1)))
        (demo_held [demo_at 4096 False (Some 60) [demo_job 1] True False] [(demo_key, 0)], [])
        (evs @ [Answered (demo_call (Some 8192) None) res]) (m', [])"
proof -
  let ?m = "demo_held [demo_at 4096 False (Some 60) [demo_job 1] True False] [(demo_key, 0)]" and ?c = "demo_call (Some 8192) None"
  obtain res m' where e: "ensure_loaded (demo_scale 1) (lc_model ?c) (lc_n_ctx ?c) (lc_mode ?c) (lc_loras ?c) (lc_tenant ?c) ?m = (res, m')"
    by (metis prod.exhaust)
  from uninterrupted_ensure [OF refl demo_busy _ _ _ e, of "[]"] e show ?thesis by auto
qed

text \<open>The same holds of the loops: where nothing comes in between, an administrator's unload and the shutdown run through
  their stretches to the states that the undivided definitions give.\<close>

theorem uninterrupted_unloads:
  assumes "en_config E = C" and "table_ok C m" and "slots_ok m" and "\<And>r. Cancelled r \<notin> set ts"
  shows "(\<exists>evs. set evs \<subseteq> {Going} \<and> steps (machine_step C) (m, ts) evs (snd (force_unload E model_id tenant m), ts)) \<and>
    (\<exists>evs. set evs \<subseteq> {Going} \<and> steps (machine_step C) (m, ts) evs (shutdown E m, ts))"
proof
  let ?P = "\<lambda>(k, v :: nat). has_prefix (tenant @ '':'' @ model_id @ '':'') k"
  have "m = m\<lparr>mg_closing := mg_closing m\<rparr>" by simp
  from begin_loop_run [OF assms(1,4,2,3) this, of ?P]
  obtain evs where evs: "set evs \<subseteq> {Going}"
    "steps (machine_step C) (begin_loop (filter ?P (mg_loaded m)) (m, ts)) evs (unload_all E (filter ?P (mg_loaded m)) m, ts)" by blast
  have "snd (force_unload E model_id tenant m) = unload_all E (filter ?P (mg_loaded m)) m" by (simp add: force_unload_def Let_def)
  with steps_more [OF ms_force evs(2)] evs(1)
  show "\<exists>evs. set evs \<subseteq> {Going} \<and> steps (machine_step C) (m, ts) evs (snd (force_unload E model_id tenant m), ts)"
    by (intro exI [of _ "Going # evs"]) simp
next
  from begin_loop_run [OF assms(1,4,2,3) refl, of "\<lambda>x. True" True]
  obtain evs where evs: "set evs \<subseteq> {Going}"
    "steps (machine_step C) (begin_loop (mg_loaded m) (m\<lparr>mg_closing := True\<rparr>, ts)) evs
      (unload_all E (mg_loaded m) (m\<lparr>mg_closing := True\<rparr>), ts)" by auto
  with steps_more [OF ms_shutdown evs(2)]
  show "\<exists>evs. set evs \<subseteq> {Going} \<and> steps (machine_step C) (m, ts) evs (shutdown E m, ts)"
    by (intro exI [of _ "Going # evs"]) (simp add: shutdown_def)
qed

theorem uninterrupted_unloads_witness:
  "\<exists>evs. set evs \<subseteq> {Going} \<and> steps (machine_step (en_config (demo_scale 1)))
     (demo_held [demo_at 4096 False (Some 60) [demo_job 1] True False] [(demo_key, 0)], []) evs
     (shutdown (demo_scale 1) (demo_held [demo_at 4096 False (Some 60) [demo_job 1] True False] [(demo_key, 0)]), [])"
  using uninterrupted_unloads [OF refl demo_busy, of "[]"] by auto

end
