(* ===== verification/Metrics.thy ===== *)
theory Metrics
  imports Schedules EnvelopeDep
begin

text \<open>
  \<open>server/metrics.py\<close> and the places that update what it declares. What \<open>prometheus_client\<close> does with an update is not
  modelled: an update is a call, with its metric, its label and its value, and a run leaves a log of calls.
\<close>

section \<open>Metrics and calls\<close>

datatype metric_kind = Counter | Gauge | Histogram

definition METRICS :: "(string \<times> metric_kind \<times> string list) list" where
  "METRICS = [(''requests_total'', Counter, [''endpoint'', ''status'']), (''request_latency'', Histogram, [''endpoint'']),
     (''inference_tokens_total'', Counter, [''model'', ''type'']), (''inference_queue_depth'', Gauge, [''model'']),
     (''model_loaded'', Gauge, [''model'']), (''model_load_seconds'', Histogram, [''model'']),
     (''handshake_total'', Counter, [''result'']), (''envelope_failures_total'', Counter, [''reason'']),
     (''gpu_memory_bytes'', Gauge, [''gpu'']), (''disk_free_bytes'', Gauge, [])]"

text \<open>\<open>labels(...).set\<close>, \<open>labels(...).inc\<close>, \<open>labels(...).observe\<close>; the value of the last, a duration, is left out.\<close>

datatype metric_call =
    SetGauge string "string list" int
  | IncCounter string "string list" int
  | Observe string "string list"

definition envelope_calls :: "'a outcome \<Rightarrow> metric_call list" where
  "envelope_calls out =
     (case out of Rejected rj \<Rightarrow> [IncCounter ''envelope_failures_total'' [rj_metric rj] 1] | _ \<Rightarrow> [])"

definition handshake_calls :: "handshake_error + 'a \<Rightarrow> metric_call list" where
  "handshake_calls res =
     (case res of
        Inl (HandshakeError code message) \<Rightarrow> [IncCounter ''handshake_total'' [code_value code] 1]
      | Inl (HandshakeOther e) \<Rightarrow> []
      | Inr done_ \<Rightarrow> [IncCounter ''handshake_total'' [''ok''] 1])"

text \<open>What an answer's usage adds; a request for embeddings adds its prompt only. The status reads the free disk space.\<close>

definition prompt_call :: "string \<Rightarrow> int \<Rightarrow> metric_call" where
  "prompt_call model tokens = IncCounter ''inference_tokens_total'' [model, ''prompt''] tokens"

definition completion_call :: "string \<Rightarrow> int \<Rightarrow> metric_call" where
  "completion_call model tokens = IncCounter ''inference_tokens_total'' [model, ''completion''] tokens"

definition disk_call :: "int \<Rightarrow> metric_call" where
  "disk_call free = SetGauge ''disk_free_bytes'' [] free"

text \<open>The manager: \<open>_load\<close>, \<open>_unload\<close>, \<open>_submit\<close> and the worker's turn.\<close>

definition load_calls :: "slot list \<Rightarrow> metric_call list" where
  "load_calls made = concat (map (\<lambda>s. let model = me_id (sl_entry s) in
     [Observe ''model_load_seconds'' [model], SetGauge ''model_loaded'' [model] 1]) made)"

definition unload_calls :: "string \<Rightarrow> metric_call list" where
  "unload_calls model_id = [SetGauge ''model_loaded'' [model_id] 0, SetGauge ''inference_queue_depth'' [model_id] 0]"

definition queue_call :: "slot \<Rightarrow> metric_call" where
  "queue_call s = SetGauge ''inference_queue_depth'' [me_id (sl_entry s)] (int (length (sl_queue s)))"

definition submit_calls :: "load_call \<Rightarrow> manager_error + nat \<Rightarrow> manager_error + nat \<Rightarrow> 'c manager \<Rightarrow> metric_call list" where
  "submit_calls c res res' m' =
     (case (res, lc_job c, res') of (Inr r, Some job, Inr fut) \<Rightarrow> [queue_call (mg_slots m' ! r)] | _ \<Rightarrow> [])"

definition worker_calls :: "nat \<Rightarrow> 'c manager \<Rightarrow> 'c manager \<Rightarrow> metric_call list" where
  "worker_calls r m m' =
     (if sl_worker (mg_slots m ! r) \<and> sl_queue (mg_slots m ! r) \<noteq> [] then [queue_call (mg_slots m' ! r)] else [])"

section \<open>Steps with their calls\<close>

text \<open>What a task has updated before it goes on, and what it updates by the slot it makes and the job it submits.\<close>

fun finish_calls :: "task list \<Rightarrow> task \<Rightarrow> metric_call list" where
  "finish_calls ts (Draining w key r) = (if Cancelled r \<in> set ts then [] else unload_calls key)"
| "finish_calls ts (TimedOut w key r) = unload_calls key"
| "finish_calls ts t = []"

fun out_calls :: "ending \<Rightarrow> event \<Rightarrow> 'c manager \<Rightarrow> metric_call list" where
  "out_calls (CallDone c res) (Answered c' res') m' = submit_calls c res res' m'"
| "out_calls out ev m' = []"

type_synonym 'c metered = "'c machine \<times> metric_call list"

inductive metered_step :: "manager_config \<Rightarrow> 'c metered \<Rightarrow> event \<Rightarrow> 'c metered \<Rightarrow> bool" for C where
  me_answer: "en_config E = C \<Longrightarrow> ensure_enter E c m = (Inl res, m1) \<Longrightarrow> call_ends E c res m1 = (res', m') \<Longrightarrow>
    metered_step C ((m, ts), ys) (Answered c res') ((m', ts), ys @ submit_calls c res res' m')"
| me_task: "en_config E = C \<Longrightarrow> i < length ts \<Longrightarrow> task_runs E ts (ts ! i) m = Some (out, m1) \<Longrightarrow>
    settle E i (out, m1) ts = (ev, (m', ts')) \<Longrightarrow>
    metered_step C ((m, ts), ys) ev ((m', ts'),
      ys @ finish_calls ts (ts ! i) @ load_calls (drop (length (mg_slots m)) (mg_slots m')) @ out_calls out ev m')"
| me_worker: "en_config E = C \<Longrightarrow> r < length (mg_slots m) \<Longrightarrow>
    metered_step C ((m, ts), ys) Going ((worker_step E r m, ts), ys @ worker_calls r m (worker_step E r m))"
| me_call: "en_config E = C \<Longrightarrow> ensure_enter E c m = (Inr entry, m') \<Longrightarrow>
    metered_step C ((m, ts), ys) Going ((m', ts @ [Locking c entry]), ys)"
| me_timeout: "i < length ts \<Longrightarrow> ts ! i = Draining w key r \<Longrightarrow> sl_worker (mg_slots m ! r) \<Longrightarrow>
    metered_step C ((m, ts), ys) Going
      ((upd_slot r (\<lambda>s. s\<lparr>sl_worker := False\<rparr>) m, ts[i := TimedOut w key r] @ [Cancelled r]), ys)"
| me_idle: "r < length (mg_slots m) \<Longrightarrow> sl_idle_timer (mg_slots m ! r) \<noteq> None \<Longrightarrow>
    x' = (if mg_closing m \<or> sl_unloading (mg_slots m ! r) then (m, ts)
      else begin_loop [(sl_cache_key (mg_slots m ! r), r)] (m, ts)) \<Longrightarrow>
    metered_step C ((m, ts), ys) Going (x', ys)"
| me_force: "metered_step C ((m, ts), ys) Going
    (begin_loop (filter (\<lambda>(k, v). has_prefix (tenant @ '':'' @ model_id @ '':'') k) (mg_loaded m)) (m, ts), ys)"
| me_shutdown: "metered_step C ((m, ts), ys) Going (begin_loop (mg_loaded m) (m\<lparr>mg_closing := True\<rparr>, ts), ys)"
| me_files: "metered_step C ((m, ts), ys) Going ((m\<lparr>mg_models := x, mg_loras := y, mg_fs := fs\<rparr>, ts), ys)"

text \<open>The calls only accompany the steps.\<close>

lemma metered_machine: "metered_step C y ev y' \<Longrightarrow> machine_step C (fst y) ev (fst y')"
  by (induction rule: metered_step.induct; unfold fst_conv; blast intro: machine_step.intros)

lemma machine_metered: "machine_step C x ev x' \<Longrightarrow> \<exists>ys'. metered_step C (x, ys) ev (x', ys')"
proof (induction rule: machine_step.induct)
  case (ms_task E i ts m out ev x')
  obtain out1 m1 where out: "out = (out1, m1)" by (cases out)
  obtain m' ts' where x': "x' = (m', ts')" by (cases x')
  show ?case using me_task [OF ms_task(1,2) ms_task(3) [unfolded out] ms_task(4) [unfolded out x']] unfolding x' by blast
qed (blast intro: metered_step.intros)+

lemma machine_metered_run: "steps (machine_step C) x evs x' \<Longrightarrow> \<exists>ys'. steps (metered_step C) (x, ys) evs (x', ys')"
proof (induction arbitrary: ys rule: steps.induct)
  case (steps_more x ev x1 evs x')
  obtain ys1 where "metered_step C (x, ys) ev (x1, ys1)" using machine_metered [OF steps_more(1)] by blast
  with steps_more(3) [of ys1] show ?case by (blast intro: steps.steps_more)
qed (blast intro: steps_none)

section \<open>What the gauges show\<close>

fun set_to :: "string \<Rightarrow> string list \<Rightarrow> metric_call \<Rightarrow> int option" where
  "set_to g l (SetGauge g' l' v) = (if g' = g \<and> l' = l then Some v else None)"
| "set_to g l (IncCounter g' l' v) = None"
| "set_to g l (Observe g' l') = None"

text \<open>What the gauge \<open>g\<close> was last set to under the labels \<open>l\<close>.\<close>

definition last_set :: "string \<Rightarrow> string list \<Rightarrow> metric_call list \<Rightarrow> int option" where
  "last_set g l calls = (let vs = List.map_filter (set_to g l) calls in if vs = [] then None else Some (last vs))"

lemma last_set_append: "last_set g l (xs @ ys) = (case last_set g l ys of None \<Rightarrow> last_set g l xs | Some v \<Rightarrow> Some v)"
  by (simp add: last_set_def map_filter_append Let_def)

lemma last_set_Cons: "last_set g l (x # ys) = (case last_set g l ys of None \<Rightarrow> set_to g l x | Some v \<Rightarrow> Some v)"
  by (simp add: last_set_def map_filter_simps Let_def split: option.split)

lemma last_set_Nil [simp]: "last_set g l [] = None"
  by (simp add: last_set_def map_filter_simps)

definition slot_model :: "slot \<Rightarrow> string" where
  "slot_model s = me_id (sl_entry s)"

lemma last_set_load: "last_set ''model_loaded'' [i] (load_calls made) = (if i \<in> slot_model ` set made then Some 1 else None)"
  by (induction made) (auto simp: load_calls_def last_set_append last_set_Cons Let_def slot_model_def split: option.split)

lemma last_set_queue:
  "last_set ''model_loaded'' l (submit_calls c res res' m) = None" "last_set ''model_loaded'' l (worker_calls r m m') = None"
  "last_set ''model_loaded'' l (out_calls out ev m) = None"
proof -
  show sub: "last_set ''model_loaded'' l (submit_calls c res res' m) = None" for c res res'
    by (auto simp: submit_calls_def queue_call_def last_set_Cons split: sum.split option.split)
  show "last_set ''model_loaded'' l (worker_calls r m m') = None" by (simp add: worker_calls_def queue_call_def last_set_Cons)
  show "last_set ''model_loaded'' l (out_calls out ev m) = None" by (cases "(out, ev, m)" rule: out_calls.cases) (simp_all add: sub)
qed

text \<open>A cache key has at least three colons; \<open>_unload\<close> is called with cache keys.\<close>

definition colons :: "string \<Rightarrow> nat" where
  "colons s = count_list s (CHR '':'')"

lemma colons_key: "3 \<le> colons (call_key c)"
  by (simp add: colons_def call_key_def cache_key_def)

lemma last_set_finish:
  assumes "names_slots m (targets t)" and "\<And>s. s \<in> set (mg_slots m) \<Longrightarrow> 3 \<le> colons (sl_cache_key s)" and "colons i < 3"
  shows "last_set g [i] (finish_calls ts t) = None"
proof -
  have "last_set g [i] (unload_calls key) = None" if "names_slots m ((key, r) # kvs)" for key r kvs
  proof -
    have "r < length (mg_slots m)" "sl_cache_key (mg_slots m ! r) = key" using that by (simp_all add: names_slots_def)
    then have "3 \<le> colons key" using assms(2) [OF nth_mem, of r] by simp
    then have "key \<noteq> i" using assms(3) by auto
    then show ?thesis by (simp add: unload_calls_def last_set_Cons)
  qed
  then show ?thesis using assms(1) by (cases t) auto
qed

text \<open>Only a stretch that loads makes a slot, under the key of its call.\<close>

definition makes_keyed :: "'c manager \<Rightarrow> 'c manager \<Rightarrow> bool" where
  "makes_keyed m m' \<longleftrightarrow> (\<forall>s \<in> set (drop (length (mg_slots m)) (mg_slots m')). 3 \<le> colons (sl_cache_key s))"

lemma makes_none: "length (mg_slots m') = length (mg_slots m) \<Longrightarrow> makes_keyed m m'"
  by (simp add: makes_keyed_def)

lemma enter_length: "ensure_enter E c m = (res, m') \<Longrightarrow> length (mg_slots m') = length (mg_slots m)"
  by (auto simp: ensure_enter_def Let_def reset_idle_def split: sum.splits prod.splits option.splits)

lemma submit_length: "submit E fut r kind payload stream m = (res, m') \<Longrightarrow> length (mg_slots m') = length (mg_slots m)"
  by (auto simp: submit_def split: if_splits)

lemma call_ends_length: "call_ends E c res m = (res', m') \<Longrightarrow> length (mg_slots m') = length (mg_slots m)"
  by (auto simp: call_ends_def split: sum.splits option.splits dest: submit_length)

lemma unload_next_length: "unload_next kvs m = (out, m') \<Longrightarrow> length (mg_slots m') = length (mg_slots m)"
  by (cases kvs) (auto simp: unload_mark_def)

lemma begin_loop_length: "length (mg_slots (fst (begin_loop kvs (m, ts)))) = length (mg_slots m)"
  by (auto simp: begin_loop_def split: prod.split ending.split dest: unload_next_length)

lemma load_now_makes:
  assumes "load_now E c entry m = (res, m')"
  shows "makes_keyed m m'"
proof -
  have ld: "makes_keyed m1 (case res1 of Inl e \<Rightarrow> m2 | Inr r \<Rightarrow> m2\<lparr>mg_loaded := d r\<rparr>)"
    if l: "load E R LR entry n (call_key c) mode loras m1 = (res1, m2)" for R LR n mode loras m1 res1 m2 d
  proof (cases res1)
    case (Inl e)
    show ?thesis using load_Inl [OF l [unfolded Inl]] by (simp add: Inl makes_none)
  next
    case (Inr r)
    from load_Inr [OF l [unfolded Inr]] have "length (mg_slots m2) = Suc (length (mg_slots m1))"
      "sl_cache_key (mg_slots m2 ! length (mg_slots m1)) = call_key c" by (auto simp: slot_core_def)
    then have "drop (length (mg_slots m1)) (mg_slots m2) = [mg_slots m2 ! length (mg_slots m1)]"
      "sl_cache_key (mg_slots m2 ! length (mg_slots m1)) = call_key c" by (simp_all add: Cons_nth_drop_Suc [symmetric])
    then show ?thesis using colons_key by (simp add: Inr makes_keyed_def)
  qed
  show ?thesis
  proof (cases "for_tenant model_kind (en_json E) (en_now E) (lc_tenant c) (mg_models m, mg_fs m)")
    case (Inl e)
    then show ?thesis using assms by (auto simp: load_now_def intro: makes_none)
  next
    case (Inr a)
    obtain R x fs where a: "a = (R, x, fs)" by (cases a)
    let ?m1 = "m\<lparr>mg_models := x, mg_fs := fs\<rparr>"
    show ?thesis
    proof (cases "for_tenant lora_kind (en_json E) (en_now E) (lc_tenant c) (mg_loras m, fs)")
      case (Inl e)
      then show ?thesis using assms Inr by (auto simp: load_now_def a intro: makes_none)
    next
      case (Inr b)
      obtain LR y fs' where b: "b = (LR, y, fs')" by (cases b)
      let ?m2 = "?m1\<lparr>mg_loras := y, mg_fs := fs'\<rparr>"
      obtain res1 m3 where l: "load E R LR entry (opt_int_or (lc_n_ctx c) (mc_n_ctx_default (en_config E))) (call_key c)
          (lc_mode c) (lc_loras c) ?m2 = (res1, m3)" by (metis prod.exhaust)
      have "m' = (case res1 of Inl e \<Rightarrow> m3 | Inr r \<Rightarrow> m3\<lparr>mg_loaded := AList.update (call_key c) r (mg_loaded m3)\<rparr>)"
        using assms l Inr \<open>for_tenant model_kind _ _ _ _ = Inr a\<close> by (cases res1) (simp_all add: load_now_def a b)
      moreover have "makes_keyed m m' = makes_keyed ?m2 m'" by (simp add: makes_keyed_def)
      moreover have "makes_keyed ?m2 (case res1 of Inl e \<Rightarrow> m3 | Inr r \<Rightarrow> m3\<lparr>mg_loaded := AList.update (call_key c) r (mg_loaded m3)\<rparr>)"
        by (rule ld [OF l, where d = "\<lambda>r. AList.update (call_key c) r (mg_loaded m3)"])
      ultimately show ?thesis by simp
    qed
  qed
qed

lemma evict_next_makes: "evict_next E c entry m = (out, m') \<Longrightarrow> makes_keyed m m'"
  by (cases "load_now E c entry m") (auto simp: evict_next_def unload_mark_def intro: load_now_makes makes_none split: if_splits list.splits)

lemma makes_keyed_length: "length (mg_slots m1) = length (mg_slots m) \<Longrightarrow> makes_keyed m1 m' \<Longrightarrow> makes_keyed m m'"
  by (simp add: makes_keyed_def)

lemma task_runs_makes:
  assumes "task_runs E ts t m = Some (out, m')"
  shows "makes_keyed m m'"
proof -
  have end_length: "length (mg_slots (unload_end key r m)) = length (mg_slots m)" for key r by (simp add: unload_end_def Let_def)
  have af: "makes_keyed m m'" if "after_unload E w (unload_end key r m) = (out, m')" for w key r
    using that makes_keyed_length [OF end_length evict_next_makes]
    by (cases w) (auto intro: makes_none simp: end_length dest!: unload_next_length)
  show ?thesis
  proof (cases t)
    case (Locking c entry)
    then show ?thesis using assms
      by (auto simp: under_lock_def reset_idle_def intro: makes_none evict_next_makes split: if_splits option.splits)
  next
    case (Putting w key r)
    then show ?thesis using assms by (auto simp: put_stop_def intro: makes_none split: if_splits)
  next
    case (Draining w key r)
    then show ?thesis using assms af by (auto intro: makes_none split: if_splits)
  next
    case (TimedOut w key r)
    then show ?thesis using assms af by simp
  next
    case (Cancelled r)
    then show ?thesis using assms by simp
  qed
qed

section \<open>What the gauge of a model tells\<close>

definition gauge_ok :: "manager_config \<Rightarrow> string \<Rightarrow> 'c metered \<Rightarrow> bool" where
  "gauge_ok C i = (\<lambda>((m, ts), ys). machine_ok C (m, ts) \<and> (\<forall>s \<in> set (mg_slots m). 3 \<le> colons (sl_cache_key s)) \<and>
     last_set ''model_loaded'' [i] ys = (if i \<in> slot_model ` set (mg_slots m) then Some 1 else None))"

lemma slots_le_split:
  assumes "slots_le m m'"
  shows "map slot_model (mg_slots m') = map slot_model (mg_slots m) @ map slot_model (drop (length (mg_slots m)) (mg_slots m'))"
    and "map sl_cache_key (mg_slots m') = map sl_cache_key (mg_slots m) @ map sl_cache_key (drop (length (mg_slots m)) (mg_slots m'))"
proof -
  let ?n = "length (mg_slots m)"
  have split: "map f (mg_slots m') = map f (mg_slots m) @ map f (drop ?n (mg_slots m'))"
    if "\<And>q. q < ?n \<Longrightarrow> f (mg_slots m' ! q) = f (mg_slots m ! q)" for f :: "slot \<Rightarrow> string"
  proof -
    have "map f (take ?n (mg_slots m')) = map f (mg_slots m)"
      by (rule nth_equalityI) (use that slots_leD(1) [OF assms] in auto)
    then show ?thesis by (metis append_take_drop_id map_append)
  qed
  show "map slot_model (mg_slots m') = map slot_model (mg_slots m) @ map slot_model (drop ?n (mg_slots m'))"
    by (rule split) (use slots_leD(2) [OF assms] in \<open>simp add: slot_le_def slot_model_def\<close>)
  show "map sl_cache_key (mg_slots m') = map sl_cache_key (mg_slots m) @ map sl_cache_key (drop ?n (mg_slots m'))"
    by (rule split) (rule slots_le_key [OF assms])
qed

lemma gauge_ok_step:
  assumes "gauge_ok C i ((m, ts), ys)" and "machine_step C (m, ts) ev (m', ts')" and "makes_keyed m m'"
    and "last_set ''model_loaded'' [i] calls = last_set ''model_loaded'' [i] (load_calls (drop (length (mg_slots m)) (mg_slots m')))"
  shows "gauge_ok C i ((m', ts'), ys @ calls)"
proof -
  let ?new = "drop (length (mg_slots m)) (mg_slots m')"
  have ok: "machine_ok C (m', ts')" and le: "slots_le m m'" using machine_step_ok [OF assms(2)] assms(1) by (auto simp: gauge_ok_def)
  note split = slots_le_split [OF le, THEN arg_cong [of _ _ set], unfolded set_append set_map]
  have "3 \<le> colons (sl_cache_key s)" if "s \<in> set (mg_slots m')" for s
    using that split(2) assms(1,3) by (auto simp: gauge_ok_def makes_keyed_def dest!: equalityD1 [THEN subsetD])
  moreover have "last_set ''model_loaded'' [i] (ys @ calls) = (if i \<in> slot_model ` set (mg_slots m') then Some 1 else None)"
    using assms(1) unfolding last_set_append assms(4) last_set_load split(1) by (auto simp: gauge_ok_def)
  ultimately show ?thesis using ok by (simp add: gauge_ok_def)
qed

lemma gauge_ok_quiet:
  assumes "gauge_ok C i ((m, ts), ys)" and "machine_step C (m, ts) ev (m', ts')" and "length (mg_slots m') = length (mg_slots m)"
    and "last_set ''model_loaded'' [i] calls = None"
  shows "gauge_ok C i ((m', ts'), ys @ calls)"
  by (rule gauge_ok_step [OF assms(1,2) makes_none [OF assms(3)]]) (simp add: assms(3,4) last_set_load)

lemma settle_length: "settle E i (out, m1) ts = (ev, (m', ts')) \<Longrightarrow> length (mg_slots m') = length (mg_slots m1)"
  by (cases out) (auto split: prod.splits dest: call_ends_length)

lemma settle_keys: "settle E i (out, m1) ts = (ev, (m', ts')) \<Longrightarrow> makes_keyed m m1 \<Longrightarrow> makes_keyed m m'"
proof -
  assume set: "settle E i (out, m1) ts = (ev, (m', ts'))" and ok: "makes_keyed m m1"
  have le: "stretch_ok undefined m1 m'" using set by (cases out) (auto split: prod.splits dest: stretch_call_ends)
  have len: "length (mg_slots m') = length (mg_slots m1)" by (rule settle_length [OF set])
  have "map sl_cache_key (mg_slots m') = map sl_cache_key (mg_slots m1)"
    using slots_le_split(2) [OF stretch_le [OF le]] len by simp
  then have "map sl_cache_key (drop (length (mg_slots m)) (mg_slots m')) = map sl_cache_key (drop (length (mg_slots m)) (mg_slots m1))"
    by (simp only: drop_map [symmetric])
  then show "makes_keyed m m'" using ok unfolding makes_keyed_def by (metis (mono_tags) image_eqI imageE list.set_map)
qed

lemma metered_step_gauge:
  assumes "metered_step C y ev y'" and "colons i < 3" and "gauge_ok C i y"
  shows "gauge_ok C i y'"
  using assms(1,3) metered_machine [OF assms(1)]
proof (induction rule: metered_step.induct)
  case (me_answer E c m res m1 res' m' ts ys)
  show ?case
    by (rule gauge_ok_quiet [OF me_answer(4,5) [unfolded fst_conv] _ last_set_queue(1)])
      (use enter_length [OF me_answer(2)] call_ends_length [OF me_answer(3)] in simp)
next
  case (me_task E i' ts m out m1 ev m' ts' ys)
  have ok: "machine_ok C (m, ts)" "\<And>s. s \<in> set (mg_slots m) \<Longrightarrow> 3 \<le> colons (sl_cache_key s)"
    using me_task(5) by (auto simp: gauge_ok_def)
  have "names_slots m (targets (ts ! i'))" using ok(1) me_task(2) by simp
  then have "last_set ''model_loaded'' [i] (finish_calls ts (ts ! i')) = None" by (rule last_set_finish [OF _ ok(2) assms(2)])
  moreover have "makes_keyed m m'" by (rule settle_keys [OF me_task(4) task_runs_makes [OF me_task(3)]])
  ultimately show ?case
    by (intro gauge_ok_step [OF me_task(5,6) [unfolded fst_conv]]) (simp_all add: last_set_append last_set_queue split: option.split)
next
  case (me_worker E r m ts ys)
  show ?case by (rule gauge_ok_quiet [OF me_worker(3,4) [unfolded fst_conv] _ last_set_queue(2)]) simp
next
  case (me_call E c m entry m' ts ys)
  from gauge_ok_quiet [OF me_call(3,4) [unfolded fst_conv] enter_length [OF me_call(2)], of "[]"] show ?case by simp
next
  case (me_timeout i' ts w key r m ys)
  from gauge_ok_quiet [OF me_timeout(4,5) [unfolded fst_conv], of "[]"] show ?case by simp
next
  case (me_idle r m x' ts ys)
  obtain m' ts' where x': "x' = (m', ts')" by (cases x')
  have "length (mg_slots (fst x')) = length (mg_slots m)" using me_idle(3) by (simp add: begin_loop_length)
  then have "length (mg_slots m') = length (mg_slots m)" by (simp add: x')
  from gauge_ok_quiet [OF me_idle(4,5) [unfolded fst_conv x'] this, of "[]"] show ?case by (simp add: x')
next
  case (me_force m ts ys tenant model_id)
  let ?x = "begin_loop (filter (\<lambda>(k, v). has_prefix (tenant @ '':'' @ model_id @ '':'') k) (mg_loaded m)) (m, ts)"
  obtain m' ts' where x: "?x = (m', ts')" by (metis prod.exhaust)
  have "length (mg_slots m') = length (mg_slots m)" using begin_loop_length [of "filter (\<lambda>(k, v). has_prefix (tenant @ '':'' @ model_id @ '':'') k) (mg_loaded m)" m ts]
    unfolding x by simp
  from gauge_ok_quiet [OF me_force(1) me_force(2) [unfolded fst_conv x] this, of "[]"] show ?case unfolding x by simp
next
  case (me_shutdown m ts ys)
  let ?x = "begin_loop (mg_loaded m) (m\<lparr>mg_closing := True\<rparr>, ts)"
  obtain m' ts' where x: "?x = (m', ts')" by (metis prod.exhaust)
  have "length (mg_slots m') = length (mg_slots m)" using begin_loop_length [of "mg_loaded m" "m\<lparr>mg_closing := True\<rparr>" ts] by (simp add: x)
  from gauge_ok_quiet [OF me_shutdown(1) me_shutdown(2) [unfolded fst_conv x] this, of "[]"] show ?case unfolding x by simp
next
  case (me_files m ts ys x y fs)
  from gauge_ok_quiet [OF me_files(1,2) [unfolded fst_conv], of "[]"] show ?case by simp
qed



end
